(* ===== verification/Prelude.thy ===== *)
theory Prelude
  imports Main "HOL-Library.Word"
begin

text \<open>
  What every component of the development shares: the machine types of
  \<^verbatim>\<open>NewKit/Defines.h\<close>, the ways a kernel routine can fail to return, a small error
  monad over them, and the collections of simplification rules the component proofs use.

  A kernel routine that returns gives \<open>Inr\<close>. \<open>Inl\<close> is the run that does not return a
  value the C++ program could use: a store or load through a null pointer, an access outside an
  object, a panic (\<^verbatim>\<open>ke_panic\<close>), or a loop that outlives the fuel of the model. An error
  code or a null result that the code returns itself is an ordinary value.
\<close>

unbundle bit_operations_syntax

type_synonym u8 = "8 word"
type_synonym u16 = "16 word"
type_synonym u32 = "32 word"
type_synonym u64 = "64 word"

named_theorems fault_simps \<open>evaluation of the fault monad\<close>
named_theorems const_simps \<open>the numeric constants of the headers\<close>

subsection \<open>Faults\<close>

datatype fault =
    NullDeref
  | OutOfBounds
  | DivByZero
  | Panic nat
  | OutOfFuel

text \<open>The code of \<^verbatim>\<open>RUNTIME_CHECK\<close> in \<^verbatim>\<open>NewKit/KernelPanic.h\<close> that the modelled code raises.\<close>

datatype RUNTIME_CHECK =
    RUNTIME_CHECK_FAILED
  | RUNTIME_CHECK_POINTER
  | RUNTIME_CHECK_EXPRESSION
  | RUNTIME_CHECK_FILE
  | RUNTIME_CHECK_IPC
  | RUNTIME_CHECK_TLS
  | RUNTIME_CHECK_HANDSHAKE
  | RUNTIME_CHECK_ACPI
  | RUNTIME_CHECK_INVALID_PRIVILEGE
  | RUNTIME_CHECK_PROCESS
  | RUNTIME_CHECK_BAD_BEHAVIOR

fun runtime_check_code :: "RUNTIME_CHECK \<Rightarrow> nat" where
  "runtime_check_code RUNTIME_CHECK_FAILED = 1111"
| "runtime_check_code RUNTIME_CHECK_POINTER = 1112"
| "runtime_check_code RUNTIME_CHECK_EXPRESSION = 1113"
| "runtime_check_code RUNTIME_CHECK_FILE = 1114"
| "runtime_check_code RUNTIME_CHECK_IPC = 1115"
| "runtime_check_code RUNTIME_CHECK_TLS = 1116"
| "runtime_check_code RUNTIME_CHECK_HANDSHAKE = 1117"
| "runtime_check_code RUNTIME_CHECK_ACPI = 1118"
| "runtime_check_code RUNTIME_CHECK_INVALID_PRIVILEGE = 1119"
| "runtime_check_code RUNTIME_CHECK_PROCESS = 1120"
| "runtime_check_code RUNTIME_CHECK_BAD_BEHAVIOR = 1121"

definition ke_panic :: "RUNTIME_CHECK \<Rightarrow> fault + 'a" where
  "ke_panic c = Inl (Panic (runtime_check_code c))"

text \<open>
  \<^verbatim>\<open>MUST_PASS\<close> is \<^verbatim>\<open>ke_runtime_check\<close> in a build with \<^verbatim>\<open>__DEBUG__\<close> and
  evaluates its argument and drops it otherwise: the build flag is the first argument.
\<close>

definition must_pass :: "bool \<Rightarrow> bool \<Rightarrow> fault + unit" where
  "must_pass dbg e = (if dbg \<and> \<not> e then ke_panic RUNTIME_CHECK_FAILED else Inr ())"

subsection \<open>The fault monad\<close>

definition bindF :: "fault + 'a \<Rightarrow> ('a \<Rightarrow> fault + 'b) \<Rightarrow> fault + 'b" where
  "bindF m f = (case m of Inl e \<Rightarrow> Inl e | Inr a \<Rightarrow> f a)"

lemma bindF_Inl [simp, fault_simps]: "bindF (Inl e) f = Inl e"
  by (simp add: bindF_def)

lemma bindF_Inr [simp, fault_simps]: "bindF (Inr a) f = f a"
  by (simp add: bindF_def)

lemma bindF_eq_Inr: "bindF m f = Inr b \<longleftrightarrow> (\<exists>a. m = Inr a \<and> f a = Inr b)"
  by (cases m) auto

lemma bindF_eq_Inl: "bindF m f = Inl e \<longleftrightarrow> m = Inl e \<or> (\<exists>a. m = Inr a \<and> f a = Inl e)"
  by (cases m) auto

lemma bindF_assoc: "bindF (bindF m f) g = bindF m (\<lambda>x. bindF (f x) g)"
  by (cases m) auto

lemma bindF_Inr_right: "bindF m Inr = m"
  by (cases m) auto

lemma bindF_cong [fundef_cong]:
  "m = m' \<Longrightarrow> (\<And>a. m' = Inr a \<Longrightarrow> f a = f' a) \<Longrightarrow> bindF m f = bindF m' f'"
  by (cases m') auto

lemma must_pass_True [simp, fault_simps]: "must_pass dbg True = Inr ()"
  by (simp add: must_pass_def)

lemma must_pass_release [simp, fault_simps]: "must_pass False e = Inr ()"
  by (simp add: must_pass_def)

lemma must_pass_fails [simp, fault_simps]: "must_pass True False = Inl (Panic 1111)"
  by (simp add: must_pass_def ke_panic_def)

lemma must_pass_eq_Inr: "must_pass dbg e = Inr u \<longleftrightarrow> (dbg \<longrightarrow> e)"
  by (simp add: must_pass_def ke_panic_def)

definition returns :: "fault + 'a \<Rightarrow> bool" where
  "returns m = (case m of Inl _ \<Rightarrow> False | Inr _ \<Rightarrow> True)"

lemma returns_simps [simp]: "returns (Inr a)" "\<not> returns (Inl e)"
  by (simp_all add: returns_def)

lemma returns_iff: "returns m \<longleftrightarrow> (\<exists>a. m = Inr a)"
  by (cases m) auto

subsection \<open>Error codes (KernelKit/LPC.h)\<close>

abbreviation "kErrorSuccess \<equiv> (0::u32)"
abbreviation "kErrorExecutable \<equiv> (33::u32)"
abbreviation "kErrorFileNotFound \<equiv> (35::u32)"
abbreviation "kErrorDiskReadOnly \<equiv> (37::u32)"
abbreviation "kErrorDiskIsFull \<equiv> (38::u32)"
abbreviation "kErrorProcessFault \<equiv> (39::u32)"
abbreviation "kErrorNoSuchDisk \<equiv> (45::u32)"
abbreviation "kErrorFileExists \<equiv> (46::u32)"
abbreviation "kErrorInternal \<equiv> (49::u32)"
abbreviation "kErrorHeapNotPresent \<equiv> (52::u32)"
abbreviation "kErrorDiskIsCorrupted \<equiv> (54::u32)"
abbreviation "kErrorInvalidData \<equiv> (56::u32)"
abbreviation "kErrorIPC \<equiv> (59::u32)"
abbreviation "kErrorFileLocked \<equiv> (64::u32)"
abbreviation "kErrorUnimplemented \<equiv> (0::u32)"

subsection \<open>Word and list facts\<close>

lemma unat_of_nat64_less: "n < 2 ^ 64 \<Longrightarrow> unat (of_nat n :: u64) = n"
  by (simp add: unat_of_nat take_bit_eq_mod)

lemma unat_of_nat8_mod: "unat (of_nat n :: u8) = n mod 256"
  by (simp add: unat_of_nat)

lemma of_nat_unat_eq: "of_nat (unat (w :: 'a::len word)) = w"
  by simp

lemma unat_u8_less: "unat (b :: u8) < 256"
  using unsigned_less [of b] by simp

lemma unat_u64_less: "unat (w :: u64) < 2 ^ 64"
  using unsigned_less [of w, where ?'a = nat] by simp

lemma unat_mult_add_small:
  "unat a * n + unat b < 2 ^ 64 \<Longrightarrow> unat ((a :: u64) * of_nat n + b) = unat a * n + unat b"
proof -
  assume small: "unat a * n + unat b < 2 ^ 64"
  have "a * of_nat n + b = of_nat (unat a * n + unat b)" by simp
  then show ?thesis using small by (simp only: unat_of_nat64_less)
qed

lemma takeWhile_append_stop:
  "(\<And>x. x \<in> set xs \<Longrightarrow> P x) \<Longrightarrow> \<not> P y \<Longrightarrow> takeWhile P (xs @ y # ys) = xs"
  by (induction xs) auto

lemma map_upt_shift: "map f [a..<a + n] = map (\<lambda>i. f (a + i)) [0..<n]"
  by (rule nth_equalityI) auto

end
