(* ===== verification/Bytes.thy ===== *)
theory Bytes
  imports Prelude
begin

text \<open>
  Byte-addressed stores. The kernel's memory and a drive are both read and written as runs of
  bytes, and the structs the kernel overlays on them (heap headers, file system records) are
  little-endian encodings. The locale \<open>byte_store\<close> is the contract of such a store; the
  locale \<open>typed_store\<close> adds one fixed-length encoding and derives what a typed read returns
  after a typed write. Both are interpreted on the flat memory of the kernel.

  Addresses are natural numbers: the model's memory is flat and unbounded, so pointer arithmetic
  in it does not wrap.
\<close>

named_theorems store_simps \<open>reads after writes\<close>

subsection \<open>Little-endian encodings\<close>

fun le_bytes :: "nat \<Rightarrow> nat \<Rightarrow> u8 list" where
  "le_bytes 0 x = []"
| "le_bytes (Suc n) x = of_nat (x mod 256) # le_bytes n (x div 256)"

fun le_nat :: "u8 list \<Rightarrow> nat" where
  "le_nat [] = 0"
| "le_nat (b # bs) = unat b + 256 * le_nat bs"

lemma length_le_bytes [simp]: "length (le_bytes n x) = n"
  by (induction n arbitrary: x) auto

lemma le_nat_le_bytes: "le_nat (le_bytes n x) = x mod 256 ^ n"
proof (induction n arbitrary: x)
  case 0
  then show ?case by simp
next
  case (Suc n)
  have "x mod 256 + 256 * (x div 256 mod 256 ^ n) = x mod (256 * 256 ^ n)"
    by (simp add: mod_mult2_eq)
  with Suc show ?case by (simp add: unat_of_nat)
qed

lemma le_nat_less: "le_nat bs < 256 ^ length bs"
proof (induction bs)
  case Nil
  then show ?case by simp
next
  case (Cons b bs)
  have "unat b < 256" by (rule unat_u8_less)
  with Cons show ?case by simp
qed

lemma le_bytes_le_nat: "le_bytes (length bs) (le_nat bs) = bs"
proof (induction bs)
  case Nil
  then show ?case by simp
next
  case (Cons b bs)
  have b: "unat b < 256" by (rule unat_u8_less)
  then have "(unat b + 256 * le_nat bs) div 256 = le_nat bs"
    and "(unat b + 256 * le_nat bs) mod 256 = unat b" by simp_all
  with Cons show ?case by simp
qed

definition enc64 :: "u64 \<Rightarrow> u8 list" where
  "enc64 w = le_bytes 8 (unat w)"

definition dec64 :: "u8 list \<Rightarrow> u64" where
  "dec64 bs = of_nat (le_nat bs)"

definition enc32 :: "u32 \<Rightarrow> u8 list" where
  "enc32 w = le_bytes 4 (unat w)"

definition dec32 :: "u8 list \<Rightarrow> u32" where
  "dec32 bs = of_nat (le_nat bs)"

definition enc16 :: "u16 \<Rightarrow> u8 list" where
  "enc16 w = le_bytes 2 (unat w)"

definition dec16 :: "u8 list \<Rightarrow> u16" where
  "dec16 bs = of_nat (le_nat bs)"

lemma length_enc [simp]: "length (enc64 w) = 8" "length (enc32 v) = 4" "length (enc16 u) = 2"
  by (simp_all add: enc64_def enc32_def enc16_def)

lemma dec64_enc64 [simp]: "dec64 (enc64 w) = w"
proof -
  have "unat w < 256 ^ 8" using unsigned_less [of w, where ?'a = nat] by simp
  then show ?thesis by (simp add: dec64_def enc64_def le_nat_le_bytes)
qed

lemma dec32_enc32 [simp]: "dec32 (enc32 w) = w"
proof -
  have "unat w < 256 ^ 4" using unsigned_less [of w, where ?'a = nat] by simp
  then show ?thesis by (simp add: dec32_def enc32_def le_nat_le_bytes)
qed

lemma dec16_enc16 [simp]: "dec16 (enc16 w) = w"
proof -
  have "unat w < 256 ^ 2" using unsigned_less [of w, where ?'a = nat] by simp
  then show ?thesis by (simp add: dec16_def enc16_def le_nat_le_bytes)
qed

lemma enc64_dec64: "length bs = 8 \<Longrightarrow> enc64 (dec64 bs) = bs"
  using le_nat_less [of bs] le_bytes_le_nat [of bs]
  by (simp add: enc64_def dec64_def unat_of_nat64_less)

subsection \<open>The contract of a byte store\<close>

definition disjoint_ext :: "nat \<Rightarrow> nat \<Rightarrow> nat \<Rightarrow> nat \<Rightarrow> bool" where
  "disjoint_ext a n b k \<longleftrightarrow> a + n \<le> b \<or> b + k \<le> a"

lemma disjoint_ext_sym: "disjoint_ext a n b k \<longleftrightarrow> disjoint_ext b k a n"
  by (auto simp: disjoint_ext_def)

locale byte_store =
  fixes rd :: "nat \<Rightarrow> nat \<Rightarrow> 's \<Rightarrow> u8 list"
    and wr :: "nat \<Rightarrow> u8 list \<Rightarrow> 's \<Rightarrow> 's"
  assumes rd_length: "length (rd a n s) = n"
    and rd_wr_same: "rd a (length bs) (wr a bs s) = bs"
    and rd_wr_disjoint:
      "disjoint_ext a n b (length bs) \<Longrightarrow> rd a n (wr b bs s) = rd a n s"
begin

lemma rd_wr_frame2:
  "disjoint_ext a n b (length bs) \<Longrightarrow> disjoint_ext a n c (length cs) \<Longrightarrow>
   rd a n (wr b bs (wr c cs s)) = rd a n s"
  by (simp add: rd_wr_disjoint)

lemma rd_wr_under:
  "disjoint_ext a (length as) b (length bs) \<Longrightarrow> rd a (length as) (wr b bs (wr a as s)) = as"
  by (simp add: rd_wr_disjoint rd_wr_same)

end

locale typed_store = byte_store rd wr
  for rd :: "nat \<Rightarrow> nat \<Rightarrow> 's \<Rightarrow> u8 list" and wr :: "nat \<Rightarrow> u8 list \<Rightarrow> 's \<Rightarrow> 's" +
  fixes enc :: "'v \<Rightarrow> u8 list"
    and dec :: "u8 list \<Rightarrow> 'v"
    and len :: nat
    and ok :: "'v \<Rightarrow> bool"
  assumes enc_length: "ok v \<Longrightarrow> length (enc v) = len"
    and dec_enc: "ok v \<Longrightarrow> dec (enc v) = v"
    and ok_dec: "length bs = len \<Longrightarrow> ok (dec bs)"
begin

lemma read_write_same: "ok v \<Longrightarrow> dec (rd a len (wr a (enc v) s)) = v"
  using rd_wr_same [of a "enc v" s] by (simp add: enc_length dec_enc)

lemma read_write_other:
  "ok v \<Longrightarrow> disjoint_ext a n b len \<Longrightarrow> rd a n (wr b (enc v) s) = rd a n s"
  by (simp add: rd_wr_disjoint enc_length)

lemma read_ok: "ok (dec (rd a len s))"
  by (simp add: ok_dec rd_length)

lemma overwrite: "ok v \<Longrightarrow> ok w \<Longrightarrow> dec (rd a len (wr a (enc v) (wr a (enc w) s))) = v"
  by (rule read_write_same)

end

subsection \<open>The kernel's flat memory\<close>

type_synonym mem = "nat \<Rightarrow> u8"

definition read_bytes :: "nat \<Rightarrow> nat \<Rightarrow> mem \<Rightarrow> u8 list" where
  "read_bytes a n m = map m [a..<a + n]"

definition write_bytes :: "nat \<Rightarrow> u8 list \<Rightarrow> mem \<Rightarrow> mem" where
  "write_bytes a bs m = (\<lambda>i. if a \<le> i \<and> i < a + length bs then bs ! (i - a) else m i)"

lemma length_read_bytes [simp]: "length (read_bytes a n m) = n"
  by (simp add: read_bytes_def)

lemma read_bytes_nth: "i < n \<Longrightarrow> read_bytes a n m ! i = m (a + i)"
  by (simp add: read_bytes_def)

lemma read_bytes_eq_iff:
  "read_bytes a n m = read_bytes b n m' \<longleftrightarrow> (\<forall>i < n. m (a + i) = m' (b + i))"
  by (auto simp: read_bytes_def map_upt_shift)

lemma write_bytes_Nil: "write_bytes a [] m = m"
  by (rule ext) (auto simp: write_bytes_def)

lemma read_write_bytes_same: "read_bytes a (length bs) (write_bytes a bs m) = bs"
  by (rule nth_equalityI) (simp_all add: read_bytes_def write_bytes_def)

lemma write_bytes_outside: "i < a \<or> a + length bs \<le> i \<Longrightarrow> write_bytes a bs m i = m i"
  by (auto simp: write_bytes_def)

lemma read_write_bytes_disjoint:
  "disjoint_ext a n b (length bs) \<Longrightarrow> read_bytes a n (write_bytes b bs m) = read_bytes a n m"
  by (auto simp: read_bytes_def write_bytes_def disjoint_ext_def)

interpretation kernel_mem: byte_store read_bytes write_bytes
  by unfold_locales (simp_all add: read_write_bytes_same read_write_bytes_disjoint)

interpretation mem64: typed_store read_bytes write_bytes enc64 dec64 8 "\<lambda>_. True"
  by unfold_locales simp_all

interpretation mem32: typed_store read_bytes write_bytes enc32 dec32 4 "\<lambda>_. True"
  by unfold_locales simp_all

interpretation mem16: typed_store read_bytes write_bytes enc16 dec16 2 "\<lambda>_. True"
  by unfold_locales simp_all

definition load64 :: "nat \<Rightarrow> mem \<Rightarrow> u64" where
  "load64 a m = dec64 (read_bytes a 8 m)"

definition store64 :: "nat \<Rightarrow> u64 \<Rightarrow> mem \<Rightarrow> mem" where
  "store64 a v m = write_bytes a (enc64 v) m"

definition load32 :: "nat \<Rightarrow> mem \<Rightarrow> u32" where
  "load32 a m = dec32 (read_bytes a 4 m)"

definition store32 :: "nat \<Rightarrow> u32 \<Rightarrow> mem \<Rightarrow> mem" where
  "store32 a v m = write_bytes a (enc32 v) m"

definition load16 :: "nat \<Rightarrow> mem \<Rightarrow> u16" where
  "load16 a m = dec16 (read_bytes a 2 m)"

definition store16 :: "nat \<Rightarrow> u16 \<Rightarrow> mem \<Rightarrow> mem" where
  "store16 a v m = write_bytes a (enc16 v) m"

definition store8 :: "nat \<Rightarrow> u8 \<Rightarrow> mem \<Rightarrow> mem" where
  "store8 a v m = m(a := v)"

lemma load_store64_same [simp, store_simps]: "load64 a (store64 a v m) = v"
  by (simp add: load64_def store64_def mem64.read_write_same)

lemma load_store64_other [store_simps]:
  "disjoint_ext a 8 b 8 \<Longrightarrow> load64 a (store64 b v m) = load64 a m"
  by (simp add: load64_def store64_def mem64.read_write_other)

lemma load_store32_same [simp, store_simps]: "load32 a (store32 a v m) = v"
  by (simp add: load32_def store32_def mem32.read_write_same)

lemma load64_store32_other [store_simps]:
  "disjoint_ext a 8 b 4 \<Longrightarrow> load64 a (store32 b v m) = load64 a m"
  by (simp add: load64_def store32_def mem32.read_write_other)

lemma load32_store64_other [store_simps]:
  "disjoint_ext a 4 b 8 \<Longrightarrow> load32 a (store64 b v m) = load32 a m"
  by (simp add: load32_def store64_def mem64.read_write_other)

lemma load32_store32_other [store_simps]:
  "disjoint_ext a 4 b 4 \<Longrightarrow> load32 a (store32 b v m) = load32 a m"
  by (simp add: load32_def store32_def mem32.read_write_other)

lemma load_store16_same [simp, store_simps]: "load16 a (store16 a v m) = v"
  by (simp add: load16_def store16_def mem16.read_write_same)

lemma load_store16_other [store_simps]:
  "disjoint_ext a 2 b 2 \<Longrightarrow> load16 a (store16 b v m) = load16 a m"
  "disjoint_ext a 2 b 4 \<Longrightarrow> load16 a (store32 b w m) = load16 a m"
  "disjoint_ext a 4 b 2 \<Longrightarrow> load32 a (store16 b v m) = load32 a m"
  "disjoint_ext a 8 b 2 \<Longrightarrow> load64 a (store16 b v m) = load64 a m"
  by (simp_all add: load16_def store16_def load32_def store32_def load64_def
      mem16.read_write_other mem32.read_write_other)

lemma load16_store8_other [store_simps]:
  "b < a \<or> a + 2 \<le> b \<Longrightarrow> load16 a (store8 b v m) = load16 a m"
  by (auto simp: load16_def store8_def read_bytes_def intro!: arg_cong [of _ _ dec16])

lemma load64_store8_other [store_simps]:
  "b < a \<or> a + 8 \<le> b \<Longrightarrow> load64 a (store8 b v m) = load64 a m"
  by (auto simp: load64_def store8_def read_bytes_def intro!: arg_cong [of _ _ dec64])

lemma load32_store8_other [store_simps]:
  "b < a \<or> a + 4 \<le> b \<Longrightarrow> load32 a (store8 b v m) = load32 a m"
  by (auto simp: load32_def store8_def read_bytes_def intro!: arg_cong [of _ _ dec32])

lemma store8_same [simp, store_simps]: "store8 a v m a = v"
  by (simp add: store8_def)

lemma store8_other [store_simps]: "i \<noteq> a \<Longrightarrow> store8 a v m i = m i"
  by (simp add: store8_def)

lemma store64_outside [store_simps]: "i < a \<or> a + 8 \<le> i \<Longrightarrow> store64 a v m i = m i"
  by (simp add: store64_def write_bytes_outside)

lemma store32_outside [store_simps]: "i < a \<or> a + 4 \<le> i \<Longrightarrow> store32 a v m i = m i"
  by (simp add: store32_def write_bytes_outside)

lemma store16_outside [store_simps]: "i < a \<or> a + 2 \<le> i \<Longrightarrow> store16 a v m i = m i"
  by (simp add: store16_def write_bytes_outside)

lemma load64_cong: "(\<And>i. a \<le> i \<Longrightarrow> i < a + 8 \<Longrightarrow> m i = m' i) \<Longrightarrow> load64 a m = load64 a m'"
  by (auto simp: load64_def read_bytes_def intro!: arg_cong [of _ _ dec64])

end
