(* ===== verification/RtUtils.thy ===== *)
theory RtUtils
  imports Bytes
begin

text \<open>
  The C-level memory and string routines of \<^verbatim>\<open>dev/Kernel/src/Utils.cc\<close>, over the flat
  memory of \<open>Bytes\<close>. Sizes and indices are natural numbers (a loop never counts past the
  size it was given); \<^verbatim>\<open>Int32\<close> counters keep their width. The two scans that stop only
  at a byte of memory (\<open>rt_string_len\<close>, \<open>rt_string_has_char\<close>) are partial: \<open>None\<close> is a
  scan that never meets it.
\<close>

subsection \<open>Comparing, measuring and searching strings\<close>

fun string_cmp_loop :: "mem \<Rightarrow> nat \<Rightarrow> nat \<Rightarrow> nat \<Rightarrow> nat \<Rightarrow> u32 \<Rightarrow> u32" where
  "string_cmp_loop m src cmp index 0 counter = counter"
| "string_cmp_loop m src cmp index (Suc left) counter =
     string_cmp_loop m src cmp (Suc index) left
       (if m (src + index) \<noteq> m (cmp + index) then counter + 1 else counter)"

definition rt_string_cmp :: "mem \<Rightarrow> nat \<Rightarrow> nat \<Rightarrow> nat \<Rightarrow> u32" where
  "rt_string_cmp m src cmp sz = string_cmp_loop m src cmp 0 sz 0"

text \<open>The two-argument overload: the terminator is looked for after the first step only.\<close>

function string_len_bounded_loop :: "mem \<Rightarrow> nat \<Rightarrow> nat \<Rightarrow> nat \<Rightarrow> nat" where
  "string_len_bounded_loop m str bound len =
     (if bound < len then bound
      else if m (str + Suc len) \<noteq> 0 then string_len_bounded_loop m str bound (Suc len)
      else Suc len)"
  by pat_completeness auto
termination
  by (relation "measure (\<lambda>(m, str, bound, len). Suc bound - len)") auto

declare string_len_bounded_loop.simps [simp del]

definition rt_string_len_bounded :: "mem \<Rightarrow> nat \<Rightarrow> nat \<Rightarrow> nat" where
  "rt_string_len_bounded m str bound = string_len_bounded_loop m str bound 0"

partial_function (option) string_len_loop :: "mem \<Rightarrow> nat \<Rightarrow> nat \<Rightarrow> nat option" where
  "string_len_loop m ptr cnt =
     (if m (ptr + cnt) \<noteq> 0 then string_len_loop m ptr (Suc cnt) else Some cnt)"

declare string_len_loop.simps [simp del]

definition rt_string_len :: "mem \<Rightarrow> nat \<Rightarrow> nat option" where
  "rt_string_len m ptr = string_len_loop m ptr 0"

fun string_in_string_loop :: "mem \<Rightarrow> nat \<Rightarrow> nat \<Rightarrow> nat \<Rightarrow> nat \<Rightarrow> nat \<Rightarrow> nat option" where
  "string_in_string_loop m inp needle nlen i 0 = None"
| "string_in_string_loop m inp needle nlen i (Suc left) =
     (if rt_string_cmp m (inp + i) needle nlen = 0 then Some (inp + i)
      else string_in_string_loop m inp needle nlen (Suc i) left)"

text \<open>The outer option is termination of the length scans, the inner one the null result.\<close>

definition rt_string_in_string :: "mem \<Rightarrow> nat \<Rightarrow> nat \<Rightarrow> nat option option" where
  "rt_string_in_string m inp needle =
     (case (rt_string_len m inp, rt_string_len m needle) of
        (Some n, Some k) \<Rightarrow> Some (string_in_string_loop m inp needle k 0 n)
      | (Some 0, None) \<Rightarrow> Some None
      | _ \<Rightarrow> None)"

partial_function (option) rt_string_has_char :: "mem \<Rightarrow> nat \<Rightarrow> u8 \<Rightarrow> nat option option" where
  "rt_string_has_char m str chr =
     (if m str = chr then Some (Some str)
      else if m (Suc str) = 0 then Some None
      else rt_string_has_char m (Suc str) chr)"

declare rt_string_has_char.simps [simp del]

subsection \<open>Filling and copying memory\<close>

text \<open>\<^verbatim>\<open>rt_set_memory\<close> stores \<open>len\<close> 32-bit values, not bytes.\<close>

fun set_memory_loop :: "nat \<Rightarrow> u32 \<Rightarrow> nat \<Rightarrow> mem \<Rightarrow> mem" where
  "set_memory_loop start value 0 m = m"
| "set_memory_loop start value (Suc len) m =
     set_memory_loop (start + 4) value len (store32 start value m)"

definition rt_set_memory :: "nat \<Rightarrow> u32 \<Rightarrow> nat \<Rightarrow> mem \<Rightarrow> nat \<times> mem" where
  "rt_set_memory src value len m = (src + 4 * len, set_memory_loop src value len m)"

definition rt_zero_memory :: "nat \<Rightarrow> nat \<Rightarrow> mem \<Rightarrow> mem" where
  "rt_zero_memory pointer len m = snd (rt_set_memory pointer 0 len m)"

fun move_memory_loop :: "nat \<Rightarrow> nat \<Rightarrow> nat \<Rightarrow> nat \<Rightarrow> mem \<Rightarrow> mem" where
  "move_memory_loop src dst index 0 m = m"
| "move_memory_loop src dst index (Suc left) m =
     (let m1 = m(dst + index := m (src + index));
          m2 = m1(src + index := 0)
      in move_memory_loop src dst (Suc index) left m2)"

definition rt_move_memory :: "nat \<Rightarrow> nat \<Rightarrow> nat \<Rightarrow> mem \<Rightarrow> u32 \<times> mem" where
  "rt_move_memory src dst len m = (0, move_memory_loop src dst 0 len m)"

fun copy_memory_loop :: "nat \<Rightarrow> nat \<Rightarrow> nat \<Rightarrow> nat \<Rightarrow> mem \<Rightarrow> mem" where
  "copy_memory_loop src dst index 0 m = m"
| "copy_memory_loop src dst index (Suc left) m =
     copy_memory_loop src dst (Suc index) left (m(dst + index := m (src + index)))"

text \<open>After the loop the routine stores a terminator one past the bytes it was asked to copy.\<close>

definition rt_copy_memory :: "nat \<Rightarrow> nat \<Rightarrow> nat \<Rightarrow> mem \<Rightarrow> u32 \<times> mem" where
  "rt_copy_memory src dst len m =
     (of_nat len, (copy_memory_loop src dst 0 len m)(dst + len := 0))"

definition memset :: "nat \<Rightarrow> u32 \<Rightarrow> nat \<Rightarrow> mem \<Rightarrow> nat \<times> mem" where
  "memset dst c len m = rt_set_memory dst c len m"

definition memcpy :: "nat \<Rightarrow> nat \<Rightarrow> nat \<Rightarrow> mem \<Rightarrow> nat \<times> mem" where
  "memcpy dst src len m = (dst, snd (rt_copy_memory src dst len m))"

subsection \<open>Characters and numbers\<close>

definition rt_to_uppercase :: "int \<Rightarrow> int" where
  "rt_to_uppercase character = (if 97 \<le> character \<and> character \<le> 122 then character - 32 else character)"

definition rt_to_lower :: "int \<Rightarrow> int" where
  "rt_to_lower character = (if 65 \<le> character \<and> character \<le> 90 then character + 32 else character)"

definition is_space :: "u8 \<Rightarrow> bool" where
  "is_space chr \<longleftrightarrow> chr = 32"

definition is_newln :: "u8 \<Rightarrow> bool" where
  "is_newln chr \<longleftrightarrow> chr = 10"

definition kNumbers :: "u8 list" where
  "kNumbers = [48, 49, 50, 51, 52, 53, 54, 55, 56, 57, 65, 66, 67, 68, 69, 70, 0]"

text \<open>
  \<^verbatim>\<open>base % limit\<close> converts the \<^verbatim>\<open>Int32\<close> limit to 64 bits, sign included; a zero limit
  traps and an index past the 17 characters is outside the table.
\<close>

definition rt_to_char :: "u64 \<Rightarrow> u32 \<Rightarrow> fault + u8" where
  "rt_to_char base limit =
     (let l = (scast limit :: u64); i = unat (base mod l)
      in if l = 0 then Inl DivByZero
         else if i < length kNumbers then Inr (kNumbers ! i) else Inl OutOfBounds)"

function count_digits :: "u64 \<Rightarrow> nat \<Rightarrow> u32 \<Rightarrow> nat \<times> u32" where
  "count_digits base elems mult =
     (if 0 < base then count_digits (base div 10) (Suc elems) (mult * 10) else (elems, mult))"
  by pat_completeness auto
termination
  by (relation "measure (\<lambda>(base, elems, mult). unat base)")
    (auto simp: unat_div word_less_nat_alt)

declare count_digits.simps [simp del]

fun to_string_loop :: "nat \<Rightarrow> nat \<Rightarrow> nat \<Rightarrow> u64 \<Rightarrow> u64 \<Rightarrow> u32 \<Rightarrow> mem \<Rightarrow> fault + mem" where
  "to_string_loop str i 0 final_number mult limit m = Inr m"
| "to_string_loop str i (Suc left) final_number mult limit m =
     (let fin = (final_number mod mult) * 10 + final_number div mult
      in bindF (rt_to_char fin limit)
           (\<lambda>c. to_string_loop str (Suc i) left fin mult limit (m(str + i := c))))"

definition rt_to_string :: "nat \<Rightarrow> u64 \<Rightarrow> u32 \<Rightarrow> mem \<Rightarrow> fault + (bool \<times> mem)" where
  "rt_to_string str base limit m =
     (let (elems, mult) = count_digits (base div 10) 0 1
      in bindF (to_string_loop str 0 (Suc elems) base (scast mult) limit m)
           (\<lambda>m'. Inr (True, m')))"


subsection \<open>Copies, fills and their frames\<close>

lemma copy_memory_loop_frame:
  "j < dst + index \<or> dst + index + left \<le> j \<Longrightarrow> copy_memory_loop src dst index left m j = m j"
  by (induction src dst index left m rule: copy_memory_loop.induct) auto

lemma copy_memory_loop_copies:
  assumes "disjoint_ext (src + index) left (dst + index) left" and "j < left"
  shows "copy_memory_loop src dst index left m (dst + index + j) = m (src + index + j)"
  using assms
proof (induction src dst index left m arbitrary: j rule: copy_memory_loop.induct)
  case (1 src dst index m)
  then show ?case by simp
next
  case (2 src dst index left m)
  show ?case
  proof (cases j)
    case 0
    then show ?thesis by (simp add: copy_memory_loop_frame)
  next
    case (Suc k)
    have "disjoint_ext (src + Suc index) left (dst + Suc index) left" and "k < left"
      using 2 Suc by (auto simp: disjoint_ext_def)
    with "2.IH" [of k] "2.prems" Suc show ?thesis by (auto simp: disjoint_ext_def fun_upd_def)
  qed
qed

lemma rt_copy_memory_bytes:
  "disjoint_ext src len dst (Suc len) \<Longrightarrow>
   read_bytes dst len (snd (rt_copy_memory src dst len m)) = read_bytes src len m"
  by (rule nth_equalityI)
    (use copy_memory_loop_copies [of src 0 len dst] in
      \<open>auto simp: rt_copy_memory_def read_bytes_def disjoint_ext_def\<close>)

lemma rt_copy_memory_frame:
  "i < dst \<or> dst + len < i \<Longrightarrow> snd (rt_copy_memory src dst len m) i = m i"
  by (auto simp: rt_copy_memory_def copy_memory_loop_frame)

lemma rt_copy_memory_terminates_with_nul: "snd (rt_copy_memory src dst len m) (dst + len) = 0"
  by (simp add: rt_copy_memory_def)

lemma set_memory_loop_at:
  "set_memory_loop start value len m i =
     (if start \<le> i \<and> i < start + 4 * len then enc32 value ! ((i - start) mod 4) else m i)"
proof (induction start "value" len m rule: set_memory_loop.induct)
  case (1 start "value" m)
  then show ?case by auto
next
  case (2 start "value" len m)
  have "(i - start) mod 4 = (i - (start + 4)) mod 4" if "start + 4 \<le> i"
    using that by (metis add.commute diff_diff_left le_add_diff_inverse2 le_diff_conv2
        add_leD1 mod_add_self2)
  moreover have "store32 start value m i = (if start \<le> i \<and> i < start + 4
      then enc32 value ! ((i - start) mod 4) else m i)"
    by (auto simp: store32_def write_bytes_def)
  ultimately show ?case using 2 by auto
qed

lemma move_memory_loop_frame:
  "(j < dst + index \<or> dst + index + left \<le> j) \<Longrightarrow> (j < src + index \<or> src + index + left \<le> j) \<Longrightarrow>
   move_memory_loop src dst index left m j = m j"
  by (induction src dst index left m rule: move_memory_loop.induct) (auto simp: Let_def)

lemma move_memory_loop_moves:
  assumes "disjoint_ext (src + index) left (dst + index) left" and "j < left"
  shows "move_memory_loop src dst index left m (dst + index + j) = m (src + index + j) \<and>
         move_memory_loop src dst index left m (src + index + j) = 0"
  using assms
proof (induction src dst index left m arbitrary: j rule: move_memory_loop.induct)
  case (1 src dst index m)
  then show ?case by simp
next
  case (2 src dst index left m)
  show ?case
  proof (cases j)
    case 0
    then show ?thesis using 2 by (auto simp: Let_def move_memory_loop_frame disjoint_ext_def)
  next
    case (Suc k)
    have "disjoint_ext (src + Suc index) left (dst + Suc index) left" and "k < left"
      using 2 Suc by (auto simp: disjoint_ext_def)
    with "2.IH" [OF refl refl, of k] "2.prems" Suc show ?thesis
      by (auto simp: Let_def disjoint_ext_def fun_upd_def)
  qed
qed

subsection \<open>Lengths and comparisons\<close>

lemma string_len_loop_sound:
  "string_len_loop m ptr cnt = Some n \<Longrightarrow>
   cnt \<le> n \<and> m (ptr + n) = 0 \<and> (\<forall>i. cnt \<le> i \<and> i < n \<longrightarrow> m (ptr + i) \<noteq> 0)"
proof (rule string_len_loop.raw_induct
    [where P = "\<lambda>m ptr cnt n. cnt \<le> n \<and> m (ptr + n) = 0 \<and>
       (\<forall>i. cnt \<le> i \<and> i < n \<longrightarrow> m (ptr + i) \<noteq> 0)"])
  fix f m ptr cnt n
  assume IH: "\<And>m ptr cnt n. f m ptr cnt = Some n \<Longrightarrow> cnt \<le> n \<and> m (ptr + n) = 0 \<and>
       (\<forall>i. cnt \<le> i \<and> i < n \<longrightarrow> m (ptr + i) \<noteq> 0)"
    and eq: "(if m (ptr + cnt) \<noteq> 0 then f m ptr (Suc cnt) else Some cnt) = Some n"
  show "cnt \<le> n \<and> m (ptr + n) = 0 \<and> (\<forall>i. cnt \<le> i \<and> i < n \<longrightarrow> m (ptr + i) \<noteq> 0)"
  proof (cases "m (ptr + cnt) = 0")
    case True
    with eq show ?thesis by auto
  next
    case False
    with eq have "f m ptr (Suc cnt) = Some n" by simp
    from IH [OF this] False show ?thesis by (metis Suc_leD Suc_leI le_neq_implies_less)
  qed
qed

lemma string_len_loop_complete:
  "m (ptr + n) = 0 \<Longrightarrow> \<forall>i. cnt \<le> i \<and> i < n \<longrightarrow> m (ptr + i) \<noteq> 0 \<Longrightarrow> cnt \<le> n \<Longrightarrow>
   string_len_loop m ptr cnt = Some n"
proof (induction "n - cnt" arbitrary: cnt)
  case 0
  have "cnt = n" using 0(1,4) by linarith
  with 0(2) show ?case using string_len_loop.simps [of m ptr n] by simp
next
  case (Suc k)
  have "cnt < n" using Suc.hyps(2) by linarith
  then have "m (ptr + cnt) \<noteq> 0" using Suc.prems(2) by blast
  moreover have "string_len_loop m ptr (Suc cnt) = Some n"
  proof (rule Suc.hyps(1))
    show "k = n - Suc cnt" using Suc.hyps(2) by linarith
    show "m (ptr + n) = 0" by (rule Suc.prems(1))
    show "\<forall>i. Suc cnt \<le> i \<and> i < n \<longrightarrow> m (ptr + i) \<noteq> 0" using Suc.prems(2) Suc_leD by blast
    show "Suc cnt \<le> n" using \<open>cnt < n\<close> by simp
  qed
  ultimately show ?case using string_len_loop.simps [of m ptr cnt] by simp
qed

lemma rt_string_len_iff:
  "rt_string_len m ptr = Some n \<longleftrightarrow> m (ptr + n) = 0 \<and> (\<forall>i < n. m (ptr + i) \<noteq> 0)"
proof
  assume "rt_string_len m ptr = Some n"
  from string_len_loop_sound [OF this [unfolded rt_string_len_def]]
  show "m (ptr + n) = 0 \<and> (\<forall>i < n. m (ptr + i) \<noteq> 0)" by blast
next
  assume "m (ptr + n) = 0 \<and> (\<forall>i < n. m (ptr + i) \<noteq> 0)"
  then show "rt_string_len m ptr = Some n"
    unfolding rt_string_len_def by (intro string_len_loop_complete) auto
qed

lemma unat_of_nat_eq_len: "n < 2 ^ LENGTH(32) \<Longrightarrow> unat (of_nat n :: u32) = n"
  by (simp add: unat_of_nat take_bit_eq_mod)

lemma string_cmp_loop_count:
  "string_cmp_loop m src cmp index left counter =
     counter + of_nat (length (filter (\<lambda>i. m (src + i) \<noteq> m (cmp + i)) [index..<index + left]))"
proof (induction m src cmp index left counter rule: string_cmp_loop.induct)
  case (2 m src cmp index left counter)
  have "[index..<index + Suc left] = index # [Suc index..<Suc index + left]"
    by (simp add: upt_conv_Cons)
  with 2 show ?case by (simp del: upt_Suc)
qed simp

lemma rt_string_cmp_zero_iff:
  assumes "n < 2 ^ 32"
  shows "rt_string_cmp m a b n = 0 \<longleftrightarrow> read_bytes a n m = read_bytes b n m"
proof -
  let ?d = "filter (\<lambda>i. m (a + i) \<noteq> m (b + i)) [0..<n]"
  have "length ?d \<le> n" using length_filter_le [of "\<lambda>i. m (a + i) \<noteq> m (b + i)" "[0..<n]"] by simp
  then have len: "unat (of_nat (length ?d) :: u32) = length ?d"
    using assms by (intro unat_of_nat_eq_len) simp
  have "(of_nat (length ?d) :: u32) = 0 \<longleftrightarrow> length ?d = 0"
    using unat_eq_0 [of "of_nat (length ?d) :: u32"] by (simp only: len)
  then have "(of_nat (length ?d) :: u32) = 0 \<longleftrightarrow> ?d = []"
    by (simp only: length_0_conv)
  moreover have "?d = [] \<longleftrightarrow> read_bytes a n m = read_bytes b n m"
    unfolding read_bytes_eq_iff filter_empty_conv by auto
  ultimately show ?thesis
    unfolding rt_string_cmp_def string_cmp_loop_count by (simp only: add_0_left)
qed

lemma string_len_bounded_loop_min:
  "len \<le> bound \<Longrightarrow> min (Suc len) bound \<le> string_len_bounded_loop m str bound len"
proof (induction m str bound len rule: string_len_bounded_loop.induct)
  case (1 m str bound len)
  show ?case
  proof (cases "m (str + Suc len) \<noteq> 0")
    case True
    have eq: "string_len_bounded_loop m str bound len = string_len_bounded_loop m str bound (Suc len)"
      using True 1(2) by (subst string_len_bounded_loop.simps) simp
    show ?thesis
    proof (cases "Suc len \<le> bound")
      case True
      with 1 \<open>m (str + Suc len) \<noteq> 0\<close> show ?thesis unfolding eq by fastforce
    next
      case False
      with 1(2) show ?thesis unfolding eq by (subst string_len_bounded_loop.simps) simp
    qed
  next
    case False
    with 1(2) show ?thesis by (subst string_len_bounded_loop.simps) simp
  qed
qed

subsection \<open>Decimal printing\<close>

text \<open>The specification of printing: the decimal digits, most significant first.\<close>

fun decimal :: "nat \<Rightarrow> nat list" where
  "decimal n = (if n < 10 then [n] else decimal (n div 10) @ [n mod 10])"

declare decimal.simps [simp del]

lemma decimal_less_10: "n < 10 \<Longrightarrow> decimal n = [n]"
  by (subst decimal.simps) simp

lemma decimal_step: "10 \<le> n \<Longrightarrow> decimal n = decimal (n div 10) @ [n mod 10]"
  by (subst decimal.simps) simp

lemma decimal_not_Nil: "decimal n \<noteq> []"
  by (subst decimal.simps) simp

lemma decimal_bounds: "n < 10 ^ length (decimal n)"
proof (induction n rule: decimal.induct)
  case (1 n)
  show ?case
  proof (cases "n < 10")
    case True
    then show ?thesis by (simp add: decimal_less_10)
  next
    case False
    with 1 have "n div 10 < 10 ^ length (decimal (n div 10))" by simp
    with False show ?thesis by (simp add: decimal_step)
  qed
qed

lemma decimal_length_le: "0 < k \<Longrightarrow> n < 10 ^ k \<Longrightarrow> length (decimal n) \<le> k"
proof (induction k arbitrary: n)
  case 0
  then show ?case by simp
next
  case (Suc k)
  show ?case
  proof (cases "n < 10")
    case True
    then show ?thesis by (simp add: decimal_less_10)
  next
    case False
    then have "k \<noteq> 0" using Suc.prems by (intro notI) simp
    moreover have "n div 10 < 10 ^ k" using Suc.prems by (simp add: less_mult_imp_div_less mult.commute)
    ultimately have "length (decimal (n div 10)) \<le> k" using Suc.IH by simp
    with False show ?thesis by (simp add: decimal_step)
  qed
qed

lemma decimal_nth:
  "i < length (decimal n) \<Longrightarrow> decimal n ! i = n div 10 ^ (length (decimal n) - Suc i) mod 10"
proof (induction n arbitrary: i rule: decimal.induct)
  case (1 n)
  show ?case
  proof (cases "n < 10")
    case True
    with 1(2) show ?thesis by (simp add: decimal_less_10)
  next
    case False
    let ?d = "decimal (n div 10)"
    have d: "decimal n = ?d @ [n mod 10]" using False by (simp add: decimal_step)
    show ?thesis
    proof (cases "i < length ?d")
      case True
      then have "?d ! i = n div 10 div 10 ^ (length ?d - Suc i) mod 10" using 1(1) False by simp
      moreover have "n div 10 div 10 ^ (length ?d - Suc i) = n div 10 ^ (Suc (length ?d) - Suc i)"
        unfolding div_mult2_eq [symmetric] power_Suc [symmetric] using True by (simp add: Suc_diff_Suc)
      ultimately show ?thesis using True by (simp add: d nth_append)
    next
      case False
      with 1(2) show ?thesis by (simp add: d nth_append)
    qed
  qed
qed

lemma count_digits_decimal:
  "unat base < 10 ^ 10 \<Longrightarrow>
   count_digits base elems mult =
     (if base = 0 then (elems, mult)
      else (elems + length (decimal (unat base)), mult * 10 ^ length (decimal (unat base))))"
proof (induction base elems mult rule: count_digits.induct)
  case (1 base elems mult)
  show ?case
  proof (cases "base = 0")
    case True
    then show ?thesis by (subst count_digits.simps) simp
  next
    case False
    then have pos: "0 < base" by (simp add: word_neq_0_conv)
    have div: "unat (base div 10) = unat base div 10" by (simp add: unat_div)
    have zero: "base div 10 = 0 \<longleftrightarrow> unat base < 10"
      unfolding unat_eq_0 [symmetric] div by auto
    have step: "count_digits base elems mult = count_digits (base div 10) (Suc elems) (mult * 10)"
      using pos by (subst count_digits.simps) simp
    have IH: "count_digits (base div 10) (Suc elems) (mult * 10) =
        (if base div 10 = 0 then (Suc elems, mult * 10)
         else (Suc elems + length (decimal (unat base div 10)),
               mult * 10 * 10 ^ length (decimal (unat base div 10))))"
      using 1 pos div by simp
    show ?thesis
    proof (cases "unat base < 10")
      case True
      with False step IH zero show ?thesis by (simp add: decimal_less_10)
    next
      case F: False
      with False step IH zero show ?thesis by (simp add: decimal_step [of "unat base"])
    qed
  qed
qed

lemma rotate_digit:
  fixes base d i :: nat
  assumes "i < d" and "base < 10 ^ d"
  defines "fin \<equiv> (base mod 10 ^ (d - i)) * 10 ^ i + base div 10 ^ (d - i)"
  shows "(fin mod 10 ^ (d - 1)) * 10 + fin div 10 ^ (d - 1) =
         (base mod 10 ^ (d - Suc i)) * 10 ^ Suc i + base div 10 ^ (d - Suc i)"
    and "fin < 10 ^ d"
proof -
  define P :: nat where "P = 10 ^ (d - Suc i)"
  define Q :: nat where "Q = 10 ^ i"
  define hi where "hi = base div (10 * P)"
  define lo where "lo = base mod P"
  define dig where "dig = base div P mod 10"
  have P: "0 < P" and Q: "0 < Q" by (simp_all add: P_def Q_def)
  have dP: "10 ^ (d - i) = 10 * P"
    using assms(1) unfolding P_def by (metis Suc_diff_Suc power_Suc)
  have PQ: "10 ^ (d - 1) = P * Q"
    using assms(1) unfolding P_def Q_def by (simp flip: power_add)
  have d10: "10 ^ d = 10 * (P * Q)"
    using assms(1) PQ by (metis Suc_diff_1 gr_implies_not0 not_gr_zero power_Suc)
  have m: "base mod (10 * P) = dig * P + lo"
    unfolding dig_def lo_def by (metis mod_mult2_eq mult.commute)
  have h: "base div P = 10 * hi + dig"
    unfolding hi_def dig_def by (metis div_mult2_eq mult.commute mult_div_mod_eq)
  have lo: "lo < P" using P by (simp add: lo_def)
  have dig: "dig < 10" by (simp add: dig_def)
  have hi: "hi < Q"
    unfolding hi_def using assms(2) d10 P by (simp add: less_mult_imp_div_less ac_simps)
  have fin: "fin = dig * (P * Q) + (lo * Q + hi)"
    unfolding fin_def dP m by (simp add: hi_def Q_def algebra_simps)
  have rest: "lo * Q + hi < P * Q"
  proof -
    have "lo * Q + hi < Suc lo * Q" using hi by simp
    also have "\<dots> \<le> P * Q" using lo by (intro mult_le_mono1) simp
    finally show ?thesis .
  qed
  have "fin mod (P * Q) = lo * Q + hi" and "fin div (P * Q) = dig"
    unfolding fin using rest P Q by simp_all
  then show "(fin mod 10 ^ (d - 1)) * 10 + fin div 10 ^ (d - 1) =
      (base mod 10 ^ (d - Suc i)) * 10 ^ Suc i + base div 10 ^ (d - Suc i)"
    unfolding PQ using h by (simp add: P_def [symmetric] Q_def [symmetric] lo_def [symmetric] algebra_simps)
  have "dig * (P * Q) + (lo * Q + hi) < Suc dig * (P * Q)" using rest by simp
  also have "\<dots> \<le> 10 * (P * Q)" using dig by (intro mult_le_mono1) simp
  finally show "fin < 10 ^ d" unfolding fin d10 .
qed


definition ascii_digit :: "nat \<Rightarrow> u8" where
  "ascii_digit k = of_nat (48 + k)"

lemma kNumbers_digit: "k < 10 \<Longrightarrow> kNumbers ! k = ascii_digit k"
  by (auto simp: kNumbers_def ascii_digit_def less_Suc_eq numeral_eq_Suc)

lemma rt_to_char_decimal: "rt_to_char base 10 = Inr (ascii_digit (unat base mod 10))"
proof -
  have "unat (base mod 10) = unat base mod 10" by (simp add: unat_mod)
  then show ?thesis
    by (simp add: rt_to_char_def Let_def kNumbers_digit) (simp add: kNumbers_def)
qed

lemma to_string_loop_digits:
  assumes d: "base < 10 ^ d" "d \<le> 10" "0 < d"
    and mult: "unat mult = 10 ^ (d - 1)"
  shows "i + left = d \<Longrightarrow>
    unat fin = (base mod 10 ^ (d - i)) * 10 ^ i + base div 10 ^ (d - i) \<Longrightarrow>
    \<exists>m'. to_string_loop str i left fin mult 10 m = Inr m' \<and>
      (\<forall>j. m' j = (if str + i \<le> j \<and> j < str + d
                   then ascii_digit (base div 10 ^ (d - Suc (j - str)) mod 10) else m j))"
proof (induction left arbitrary: i fin m)
  case 0
  then show ?case by auto
next
  case (Suc left)
  let ?f = "(fin mod mult) * 10 + fin div mult"
  let ?c = "ascii_digit (base div 10 ^ (d - Suc i) mod 10)"
  have i: "i < d" using Suc.prems(1) by simp
  note rot = rotate_digit [OF i d(1), folded Suc.prems(2)]
  have "(10::nat) ^ d \<le> 10 ^ 10" using d(2) by (rule power_increasing) simp
  then have small: "unat fin < 10 ^ 10" using rot(2) by simp
  have "unat (fin mod mult) = unat fin mod 10 ^ (d - 1)"
    and dv: "unat (fin div mult) = unat fin div 10 ^ (d - 1)"
    by (simp_all add: unat_mod unat_div mult)
  moreover have "unat fin mod 10 ^ (d - 1) * 10 + unat fin div 10 ^ (d - 1) < 2 ^ 64"
  proof -
    have "unat fin mod 10 ^ (d - 1) \<le> unat fin" "unat fin div 10 ^ (d - 1) \<le> unat fin" by simp_all
    then have "unat fin mod 10 ^ (d - 1) * 10 + unat fin div 10 ^ (d - 1) \<le> 11 * unat fin" by linarith
    also have "\<dots> < 2 ^ 64" using small by simp
    finally show ?thesis .
  qed
  ultimately have "unat ?f = (unat fin mod 10 ^ (d - 1)) * 10 + unat fin div 10 ^ (d - 1)"
    using small unat_mult_add_small [of "fin mod mult" 10 "fin div mult"] by simp
  then have f: "unat ?f = (base mod 10 ^ (d - Suc i)) * 10 ^ Suc i + base div 10 ^ (d - Suc i)"
    using rot(1) by simp
  then have "unat ?f mod 10 = base div 10 ^ (d - Suc i) mod 10" by (simp add: mod_add_left_eq [symmetric])
  then have c: "rt_to_char ?f 10 = Inr ?c" by (simp only: rt_to_char_decimal)
  have "Suc i + left = d" using Suc.prems(1) by simp
  from Suc.IH [OF this f, of "m(str + i := ?c)"]
  obtain m' where m': "to_string_loop str (Suc i) left ?f mult 10 (m(str + i := ?c)) = Inr m'"
    and at: "\<And>j. m' j = (if str + Suc i \<le> j \<and> j < str + d
        then ascii_digit (base div 10 ^ (d - Suc (j - str)) mod 10) else (m(str + i := ?c)) j)"
    by blast
  have "to_string_loop str i (Suc left) fin mult 10 m = Inr m'"
    using m' c by (simp add: Let_def)
  moreover have "m' j = (if str + i \<le> j \<and> j < str + d
        then ascii_digit (base div 10 ^ (d - Suc (j - str)) mod 10) else m j)" for j
    using i by (cases "j = str + i") (auto simp: at)
  ultimately show ?case by blast
qed

lemma count_digits_mult:
  assumes "unat base < 10 ^ 10"
  shows "count_digits (base div 10) 0 1 =
    (length (decimal (unat base)) - 1, 10 ^ (length (decimal (unat base)) - 1))"
proof (cases "unat base < 10")
  case True
  then have "base div 10 = 0" unfolding unat_eq_0 [symmetric] by (simp add: unat_div)
  with True show ?thesis by (subst count_digits.simps) (simp add: decimal_less_10)
next
  case False
  have div: "unat (base div 10) = unat base div 10" by (simp add: unat_div)
  then have "base div 10 \<noteq> 0" using False unfolding unat_eq_0 [symmetric] by auto
  with False div assms show ?thesis
    by (simp add: count_digits_decimal decimal_step [of "unat base"])
qed

lemma power10_u32: "k \<le> 9 \<Longrightarrow> unat (scast ((10::u32) ^ k) :: u64) = 10 ^ k"
proof -
  assume "k \<le> 9"
  then have "k \<in> {0, 1, 2, 3, 4, 5, 6, 7, 8, 9}" by auto
  then show ?thesis by auto
qed

lemma to_string_decimal:
  assumes "unat base < 10 ^ 10"
  shows "\<exists>m'. rt_to_string str base 10 m = Inr (True, m') \<and>
    read_bytes str (length (decimal (unat base))) m' = map ascii_digit (decimal (unat base)) \<and>
    (\<forall>j. j < str \<or> str + length (decimal (unat base)) \<le> j \<longrightarrow> m' j = m j)"
proof -
  let ?d = "length (decimal (unat base))"
  have d: "0 < ?d" "?d \<le> 10" using decimal_not_Nil decimal_length_le [of 10] assms by auto
  have mult: "unat (scast ((10::u32) ^ (?d - 1)) :: u64) = 10 ^ (?d - 1)"
    using d by (intro power10_u32) simp
  have fin: "unat base = (unat base mod 10 ^ (?d - 0)) * 10 ^ 0 + unat base div 10 ^ (?d - 0)"
    using decimal_bounds [of "unat base"] by simp
  from to_string_loop_digits [OF decimal_bounds d(2,1) mult _ fin, where str = str and left = ?d and m = m]
  obtain m' where m': "to_string_loop str 0 ?d base (scast ((10::u32) ^ (?d - 1))) 10 m = Inr m'"
    and at: "\<And>j. m' j = (if str \<le> j \<and> j < str + ?d
        then ascii_digit (unat base div 10 ^ (?d - Suc (j - str)) mod 10) else m j)" by auto
  have "rt_to_string str base 10 m = Inr (True, m')"
    using m' d by (simp add: rt_to_string_def count_digits_mult [OF assms] del: to_string_loop.simps)
  moreover have "read_bytes str ?d m' = map ascii_digit (decimal (unat base))"
    by (rule nth_equalityI) (simp_all add: read_bytes_nth at decimal_nth)
  ultimately show ?thesis using at by auto
qed

subsection \<open>Properties\<close>

text \<open>
  \<^verbatim>\<open>rt_copy_memory\<close>: on ranges that do not overlap, the destination receives exactly the
  source's bytes, no byte outside the destination range changes except the one right after it,
  and that byte is set to zero: a copy of \<open>len\<close> bytes writes \<open>len + 1\<close> of them.
\<close>

theorem rt_copy_memory_spec:
  assumes "disjoint_ext src len dst (Suc len)"
  shows "read_bytes dst len (snd (rt_copy_memory src dst len m)) = read_bytes src len m \<and>
    snd (rt_copy_memory src dst len m) (dst + len) = 0 \<and>
    (\<forall>i. i < dst \<or> dst + len < i \<longrightarrow> snd (rt_copy_memory src dst len m) i = m i) \<and>
    fst (rt_copy_memory src dst len m) = of_nat len"
  using rt_copy_memory_bytes [OF assms] rt_copy_memory_terminates_with_nul rt_copy_memory_frame
  by (auto simp: rt_copy_memory_def)

theorem rt_copy_memory_spec_witness:
  "disjoint_ext 0 2 8 (Suc 2) \<and>
   read_bytes 8 2 (snd (rt_copy_memory 0 8 2 (\<lambda>i. of_nat (Suc i)))) = [1, 2] \<and>
   snd (rt_copy_memory 0 8 2 (\<lambda>i. of_nat (Suc i))) 10 = 0"
proof -
  have d: "disjoint_ext 0 2 8 (Suc 2)" by (simp add: disjoint_ext_def)
  have "read_bytes 0 2 (\<lambda>i. of_nat (Suc i)) = ([1, 2] :: u8 list)"
    by (simp add: read_bytes_def upt_rec)
  with d rt_copy_memory_spec [OF d, of "\<lambda>i. of_nat (Suc i)"] show ?thesis by simp
qed

text \<open>
  \<^verbatim>\<open>rt_set_memory\<close> (and with it \<^verbatim>\<open>memset\<close>, \<^verbatim>\<open>rt_zero_memory\<close>) fills 32-bit
  cells: a call for \<open>len\<close> writes the four bytes of \<open>value\<close> over and over through all
  \<open>4 * len\<close> bytes from \<open>src\<close>, leaves the rest of memory alone and returns the end of that run.
\<close>

theorem rt_set_memory_spec:
  "rt_set_memory src value len m =
     (src + 4 * len,
      \<lambda>i. if src \<le> i \<and> i < src + 4 * len then enc32 value ! ((i - src) mod 4) else m i)"
  by (auto simp: rt_set_memory_def set_memory_loop_at)

text \<open>
  \<^verbatim>\<open>rt_string_len\<close> returns exactly when memory holds a zero byte at or after the
  pointer, and then its result is the distance to the first one.
\<close>

theorem rt_string_len_spec:
  "rt_string_len m ptr =
     (if \<exists>n. m (ptr + n) = 0 then Some (LEAST n. m (ptr + n) = 0) else None)"
proof (cases "\<exists>n. m (ptr + n) = 0")
  case True
  then have "m (ptr + (LEAST n. m (ptr + n) = 0)) = 0" by (rule LeastI_ex)
  moreover have "\<forall>i < (LEAST n. m (ptr + n) = 0). m (ptr + i) \<noteq> 0" using not_less_Least by blast
  ultimately have "rt_string_len m ptr = Some (LEAST n. m (ptr + n) = 0)"
    unfolding rt_string_len_iff by blast
  with True show ?thesis by simp
next
  case False
  then have "rt_string_len m ptr \<noteq> Some n" for n unfolding rt_string_len_iff by blast
  with False show ?thesis by (metis not_None_eq)
qed

text \<open>
  C15. \<^verbatim>\<open>rt_to_string\<close> prints numbers of up to ten decimal digits: for a base below
  \<open>10 ^ 10\<close> and the limit 10 it succeeds, writes the decimal digits most significant first from
  the start of the buffer, and touches nothing else (it writes no terminator).
\<close>

theorem rt_to_string_decimal:
  assumes "unat base < 10 ^ 10"
  shows "\<exists>m'. rt_to_string str base 10 m = Inr (True, m') \<and>
    read_bytes str (length (decimal (unat base))) m' = map ascii_digit (decimal (unat base)) \<and>
    (\<forall>j. j < str \<or> str + length (decimal (unat base)) \<le> j \<longrightarrow> m' j = m j)"
  using assms by (rule to_string_decimal)

theorem rt_to_string_decimal_witness:
  "unat (2048 :: u64) < 10 ^ 10 \<and>
   (\<exists>m'. rt_to_string 100 2048 10 (\<lambda>_. 0) = Inr (True, m') \<and>
      read_bytes 100 4 m' = map ascii_digit [2, 0, 4, 8])"
proof -
  have h: "unat (2048 :: u64) < 10 ^ 10" by simp
  have d: "decimal (unat (2048 :: u64)) = [2, 0, 4, 8]" by (simp add: decimal.simps)
  have l: "length [2, 0, 4, 8 :: nat] = 4" by simp
  from rt_to_string_decimal [OF h, of 100 "\<lambda>_. 0"] h show ?thesis unfolding d l by blast
qed

end
