(* ===== verification/KStr.thy ===== *)
theory KStr
  imports RtUtils
begin

text \<open>
  \<^verbatim>\<open>KString\<close> and \<^verbatim>\<open>StringBuilder\<close> (\<^verbatim>\<open>dev/Kernel/src/KString.cc\<close>,
  \<^verbatim>\<open>NewKit/KString.h\<close>). A \<^verbatim>\<open>KString\<close> owns a buffer of the flat memory: the record
  holds its address, its capacity and the append cursor. \<^verbatim>\<open>new\<close> and
  \<^verbatim>\<open>__builtin_alloca\<close> give an address, which the operations that allocate take as their first
  argument. \<open>None\<close> is a length scan that never ends.
\<close>

record KString =
  fData :: nat
  fDataSz :: nat
  fCur :: nat

definition KString_Data :: "KString \<Rightarrow> nat" where
  "KString_Data s = fData s"

definition KString_CData :: "KString \<Rightarrow> nat" where
  "KString_CData s = fData s"

definition KString_Length :: "KString \<Rightarrow> nat" where
  "KString_Length s = fDataSz s"

definition cMinimumStringSize :: nat where
  "cMinimumStringSize = 8196"

definition KString_new_sz :: "bool \<Rightarrow> nat \<Rightarrow> nat \<Rightarrow> mem \<Rightarrow> fault + (KString \<times> mem)" where
  "KString_new_sz dbg buf sz m =
     bindF (must_pass dbg (1 < sz)) (\<lambda>_.
     bindF (must_pass dbg (buf \<noteq> 0)) (\<lambda>_.
       Inr (\<lparr>fData = buf, fDataSz = sz, fCur = 0\<rparr>, snd (rt_set_memory buf 0 sz m))))"

definition KString_new :: "bool \<Rightarrow> nat \<Rightarrow> mem \<Rightarrow> fault + (KString \<times> mem)" where
  "KString_new dbg buf m =
     bindF (must_pass dbg (buf \<noteq> 0)) (\<lambda>_.
       Inr (\<lparr>fData = buf, fDataSz = cMinimumStringSize, fCur = 0\<rparr>,
            snd (rt_set_memory buf 0 cMinimumStringSize m)))"

subsection \<open>Comparisons\<close>

fun all_eq_loop :: "mem \<Rightarrow> nat \<Rightarrow> nat \<Rightarrow> nat \<Rightarrow> nat \<Rightarrow> bool" where
  "all_eq_loop m a b index 0 = True"
| "all_eq_loop m a b index (Suc left) =
     (if m (a + index) \<noteq> m (b + index) then False else all_eq_loop m a b (Suc index) left)"

fun all_ne_loop :: "mem \<Rightarrow> nat \<Rightarrow> nat \<Rightarrow> nat \<Rightarrow> nat \<Rightarrow> bool" where
  "all_ne_loop m a b index 0 = True"
| "all_ne_loop m a b index (Suc left) =
     (if m (a + index) = m (b + index) then False else all_ne_loop m a b (Suc index) left)"

definition KString_eq :: "mem \<Rightarrow> KString \<Rightarrow> KString \<Rightarrow> bool" where
  "KString_eq m this rhs =
     (if fDataSz rhs \<noteq> fDataSz this then False
      else all_eq_loop m (fData rhs) (fData this) 0 (fDataSz this))"

definition KString_eq_cstr :: "mem \<Rightarrow> KString \<Rightarrow> nat \<Rightarrow> bool option" where
  "KString_eq_cstr m this rhs =
     (case rt_string_len m rhs of
        None \<Rightarrow> None
      | Some n \<Rightarrow> Some (if n \<noteq> fDataSz this then False else all_eq_loop m rhs (fData this) 0 n))"

definition KString_ne :: "mem \<Rightarrow> KString \<Rightarrow> KString \<Rightarrow> bool" where
  "KString_ne m this rhs =
     (if fDataSz rhs \<noteq> fDataSz this then False
      else all_ne_loop m (fData rhs) (fData this) 0 (fDataSz rhs))"

definition KString_ne_cstr :: "mem \<Rightarrow> KString \<Rightarrow> nat \<Rightarrow> bool option" where
  "KString_ne_cstr m this rhs =
     (case rt_string_len m rhs of
        None \<Rightarrow> None
      | Some n \<Rightarrow> Some (if n \<noteq> fDataSz this then False else all_ne_loop m rhs (fData this) 0 n))"

definition StringBuilder_Equals :: "mem \<Rightarrow> nat \<Rightarrow> nat \<Rightarrow> bool option" where
  "StringBuilder_Equals m lhs rhs =
     (case (rt_string_len m rhs, rt_string_len m lhs) of
        (Some k, Some n) \<Rightarrow> Some (if k \<noteq> n then False else all_eq_loop m rhs lhs 0 k)
      | _ \<Rightarrow> None)"

text \<open>The wide overload reads 16-bit characters and stops at the end of its second argument.\<close>

partial_function (option) wide_equals_loop ::
  "(nat \<Rightarrow> u16) \<Rightarrow> (nat \<Rightarrow> u16) \<Rightarrow> nat \<Rightarrow> bool option" where
  "wide_equals_loop lhs rhs index =
     (if rhs index = 0 then Some True
      else if rhs index \<noteq> lhs index then Some False
      else wide_equals_loop lhs rhs (Suc index))"

declare wide_equals_loop.simps [simp del]

definition StringBuilder_Equals_wide :: "(nat \<Rightarrow> u16) \<Rightarrow> (nat \<Rightarrow> u16) \<Rightarrow> bool option" where
  "StringBuilder_Equals_wide lhs rhs = wide_equals_loop lhs rhs 0"

subsection \<open>Appending\<close>

fun append_loop :: "nat \<Rightarrow> nat \<Rightarrow> nat \<Rightarrow> nat \<Rightarrow> nat \<Rightarrow> mem \<Rightarrow> mem" where
  "append_loop lhs rhs cur i 0 m = m"
| "append_loop lhs rhs cur i (Suc left) m =
     append_loop lhs rhs cur (Suc i) left (m(lhs + (i + cur) := m (rhs + i)))"

definition rt_string_append :: "nat \<Rightarrow> nat \<Rightarrow> nat \<Rightarrow> mem \<Rightarrow> mem option" where
  "rt_string_append lhs rhs cur m =
     (case rt_string_len m rhs of
        None \<Rightarrow> None
      | Some n \<Rightarrow> Some (append_loop lhs rhs cur 0 n m))"

definition KString_append_cstr :: "KString \<Rightarrow> nat \<Rightarrow> mem \<Rightarrow> (KString \<times> mem) option" where
  "KString_append_cstr this rhs m =
     (case rt_string_append (fData this) rhs (fCur this) m of
        None \<Rightarrow> None
      | Some m' \<Rightarrow> (case rt_string_len m' rhs of
          None \<Rightarrow> None
        | Some n \<Rightarrow> Some (this\<lparr>fCur := fCur this + n\<rparr>, m')))"

definition KString_append :: "KString \<Rightarrow> KString \<Rightarrow> mem \<Rightarrow> (KString \<times> mem) option" where
  "KString_append this rhs m =
     (case rt_string_len m (fData rhs) of
        None \<Rightarrow> None
      | Some n \<Rightarrow>
         (if fDataSz this < n then Some (this, m)
          else (case rt_string_append (fData this) (fData rhs) (fCur this) m of
                  None \<Rightarrow> None
                | Some m' \<Rightarrow> (case rt_string_len m' (fData rhs) of
                    None \<Rightarrow> None
                  | Some k \<Rightarrow> Some (this\<lparr>fCur := fCur this + k\<rparr>, m')))))"

subsection \<open>StringBuilder\<close>

text \<open>
  \<^verbatim>\<open>Construct\<close>: a null or empty string gives the empty \<^verbatim>\<open>ErrorOr\<close>. The outer
  option is termination, the inner one the \<^verbatim>\<open>ErrorOr\<close>'s reference.
\<close>

definition StringBuilder_Construct ::
  "bool \<Rightarrow> nat \<Rightarrow> nat \<Rightarrow> mem \<Rightarrow> (fault + (KString option \<times> mem)) option" where
  "StringBuilder_Construct dbg buf data m =
     (if data = 0 \<or> m data = 0 then Some (Inr (None, m))
      else (case rt_string_len m data of
              None \<Rightarrow> None
            | Some n \<Rightarrow>
               (case KString_new_sz dbg buf n m of
                  Inl e \<Rightarrow> Some (Inl e)
                | Inr (view, m1) \<Rightarrow>
                   (case KString_append_cstr view data m1 of
                      None \<Rightarrow> None
                    | Some (view', m2) \<Rightarrow> Some (Inr (Some view', m2))))))"

text \<open>
  \<^verbatim>\<open>FromBool\<close> and \<^verbatim>\<open>Format\<close> copy \<open>fmt\<close> up to the first percent sign (37) and put
  the argument there. The argument's bytes are a list for the literals YES and NO.
\<close>

fun write_list :: "nat \<Rightarrow> u8 list \<Rightarrow> mem \<Rightarrow> mem" where
  "write_list p [] m = m"
| "write_list p (b # bs) m = write_list (Suc p) bs (m(p := b))"

fun from_bool_loop :: "nat \<Rightarrow> nat \<Rightarrow> u8 list \<Rightarrow> nat \<Rightarrow> nat \<Rightarrow> mem \<Rightarrow> mem" where
  "from_bool_loop ret fmt expr idx 0 m = m"
| "from_bool_loop ret fmt expr idx (Suc left) m =
     (if m (fmt + idx) = 37 then write_list (ret + idx) (drop idx expr) m
      else from_bool_loop ret fmt expr (Suc idx) left (m(ret + idx := m (fmt + idx))))"

definition boolean_expr :: "bool \<Rightarrow> u8 list" where
  "boolean_expr i = (if i then [89, 69, 83] else [78, 79])"

text \<open>The size handed to \<^verbatim>\<open>alloca\<close>: the conditional binds weaker than the sum.\<close>

definition FromBool_size :: "nat \<Rightarrow> bool \<Rightarrow> nat" where
  "FromBool_size fmt_len i = (if i then 4 else 5 + fmt_len)"

text \<open>\<open>None\<close> for the pointer result is the literal question mark that a null argument gives.\<close>

definition StringBuilder_FromBool ::
  "nat \<Rightarrow> nat \<Rightarrow> bool \<Rightarrow> mem \<Rightarrow> (nat option \<times> mem) option" where
  "StringBuilder_FromBool ret fmt i m =
     (if fmt = 0 then Some (None, m)
      else (case rt_string_len m fmt of
              None \<Rightarrow> None
            | Some fmt_len \<Rightarrow>
               (if ret = 0 then Some (None, m)
                else Some (Some ret, from_bool_loop ret fmt (boolean_expr i) 0 fmt_len m))))"

fun format_put :: "nat \<Rightarrow> nat \<Rightarrow> nat \<Rightarrow> nat \<Rightarrow> mem \<Rightarrow> mem" where
  "format_put dst src y 0 m = m"
| "format_put dst src y (Suc left) m = format_put (Suc dst) src (Suc y) left (m(dst := m (src + y)))"

fun format_loop :: "nat \<Rightarrow> nat \<Rightarrow> nat \<Rightarrow> nat \<Rightarrow> nat \<Rightarrow> nat \<Rightarrow> mem \<Rightarrow> mem" where
  "format_loop ret fmt fmt2 len2 idx 0 m = m"
| "format_loop ret fmt fmt2 len2 idx (Suc left) m =
     (if m (fmt + idx) = 37 then format_put (ret + idx) fmt2 0 len2 m
      else format_loop ret fmt fmt2 len2 (Suc idx) left (m(ret + idx := m (fmt + idx))))"

definition StringBuilder_Format :: "nat \<Rightarrow> nat \<Rightarrow> nat \<Rightarrow> mem \<Rightarrow> (nat option \<times> mem) option" where
  "StringBuilder_Format ret fmt fmt2 m =
     (if fmt = 0 \<or> fmt2 = 0 then Some (None, m)
      else (case (rt_string_len m fmt2, rt_string_len m fmt) of
              (Some n2, Some n) \<Rightarrow>
                (if ret = 0 then Some (None, m)
                 else Some (Some ret, format_loop ret fmt fmt2 n2 0 n m))
            | _ \<Rightarrow> None))"

subsection \<open>What the comparisons decide\<close>

lemma all_eq_loop_iff:
  "all_eq_loop m a b index left \<longleftrightarrow> (\<forall>i. index \<le> i \<and> i < index + left \<longrightarrow> m (a + i) = m (b + i))"
proof (induction m a b index left rule: all_eq_loop.induct)
  case (2 m a b index left)
  have "(\<forall>i. index \<le> i \<and> i < index + Suc left \<longrightarrow> m (a + i) = m (b + i)) \<longleftrightarrow>
        m (a + index) = m (b + index) \<and>
        (\<forall>i. Suc index \<le> i \<and> i < Suc index + left \<longrightarrow> m (a + i) = m (b + i))"
    by (metis Suc_leD add_Suc add_Suc_right le_eq_less_or_eq less_add_Suc1 less_eq_Suc_le)
  with 2 show ?case by simp
qed auto

lemma all_ne_loop_iff:
  "all_ne_loop m a b index left \<longleftrightarrow> (\<forall>i. index \<le> i \<and> i < index + left \<longrightarrow> m (a + i) \<noteq> m (b + i))"
proof (induction m a b index left rule: all_ne_loop.induct)
  case (2 m a b index left)
  have "(\<forall>i. index \<le> i \<and> i < index + Suc left \<longrightarrow> m (a + i) \<noteq> m (b + i)) \<longleftrightarrow>
        m (a + index) \<noteq> m (b + index) \<and>
        (\<forall>i. Suc index \<le> i \<and> i < Suc index + left \<longrightarrow> m (a + i) \<noteq> m (b + i))"
    by (metis Suc_leD add_Suc add_Suc_right le_eq_less_or_eq less_add_Suc1 less_eq_Suc_le)
  with 2 show ?case by simp
qed auto

lemma all_eq_loop_read_bytes: "all_eq_loop m a b 0 n \<longleftrightarrow> read_bytes a n m = read_bytes b n m"
  by (simp add: all_eq_loop_iff read_bytes_eq_iff)

text \<open>The bytes of the C string at a pointer, when there is one.\<close>

definition c_string :: "mem \<Rightarrow> nat \<Rightarrow> u8 list option" where
  "c_string m p = map_option (\<lambda>n. read_bytes p n m) (rt_string_len m p)"

lemma StringBuilder_Equals_strings:
  "c_string m lhs = Some s \<Longrightarrow> c_string m rhs = Some t \<Longrightarrow>
   StringBuilder_Equals m lhs rhs = Some (s = t)"
  by (auto simp: c_string_def StringBuilder_Equals_def all_eq_loop_read_bytes)
    (metis length_read_bytes)

lemma append_loop_at:
  assumes "disjoint_ext (lhs + cur + i) left (rhs + i) left"
  shows "append_loop lhs rhs cur i left m j =
     (if lhs + cur + i \<le> j \<and> j < lhs + cur + i + left then m (rhs + (j - (lhs + cur))) else m j)"
  using assms
proof (induction lhs rhs cur i left m rule: append_loop.induct)
  case (2 lhs rhs cur i left m)
  have d: "disjoint_ext (lhs + cur + Suc i) left (rhs + Suc i) left"
    using 2(2) by (auto simp: disjoint_ext_def)
  have off: "rhs + (j - (lhs + cur)) \<noteq> lhs + (i + cur)"
    if "lhs + cur + Suc i \<le> j" "j < lhs + cur + Suc i + left"
    using 2(2) that by (auto simp: disjoint_ext_def)
  show ?case
    using 2(1) [OF d] off by (auto simp: fun_upd_def add.assoc add.commute [of cur i])
qed auto

lemma rt_string_len_cong:
  "(\<And>i. p \<le> i \<Longrightarrow> i \<le> p + n \<Longrightarrow> m' i = m i) \<Longrightarrow>
   rt_string_len m p = Some n \<Longrightarrow> rt_string_len m' p = Some n"
  by (simp add: rt_string_len_iff)

lemma KString_new_sz_memory:
  "snd (rt_set_memory buf 0 n m) i = (if buf \<le> i \<and> i < buf + 4 * n then enc32 0 ! ((i - buf) mod 4) else m i)"
  by (simp add: rt_set_memory_def set_memory_loop_at)

subsection \<open>Properties\<close>

text \<open>
  C17. \<^verbatim>\<open>StringBuilder::Equals\<close> decides equality of C strings: whenever both arguments are
  terminated it returns, and returns true exactly when their bytes up to the terminator agree.
\<close>

theorem Equals_decides_string_equality:
  assumes "c_string m lhs = Some s" and "c_string m rhs = Some t"
  shows "StringBuilder_Equals m lhs rhs = Some (s = t)"
  using assms by (rule StringBuilder_Equals_strings)

theorem Equals_decides_string_equality_witness:
  "StringBuilder_Equals (\<lambda>i. if i = 2 \<or> i = 6 then 0 else 65) 0 4 = Some ([65, 65] = ([65, 65] :: u8 list))"
proof -
  let ?m = "(\<lambda>i. if i = 2 \<or> i = 6 then 0 else 65) :: mem"
  have "rt_string_len ?m 0 = Some 2" "rt_string_len ?m 4 = Some 2"
    by (simp_all add: rt_string_len_iff)
  then have "c_string ?m 0 = Some [65, 65]" "c_string ?m 4 = Some [65, 65]"
    by (simp_all add: c_string_def read_bytes_def upt_rec)
  then show ?thesis by (rule Equals_decides_string_equality)
qed

text \<open>
  \<^verbatim>\<open>operator!=\<close> on \<^verbatim>\<open>KString\<close> is not the negation of \<^verbatim>\<open>operator==\<close>:
  strings of different capacities are neither equal nor unequal, and strings of the same capacity
  are unequal only when they differ at every single position.
\<close>

theorem KString_ne_is_everywhere_different:
  "(KString_eq m this rhs \<longleftrightarrow> fDataSz rhs = fDataSz this \<and>
     read_bytes (fData rhs) (fDataSz this) m = read_bytes (fData this) (fDataSz this) m) \<and>
   (KString_ne m this rhs \<longleftrightarrow> fDataSz rhs = fDataSz this \<and>
     \<not> (\<exists>i < fDataSz this. m (fData rhs + i) = m (fData this + i)))"
  by (auto simp: KString_eq_def KString_ne_def all_eq_loop_read_bytes all_ne_loop_iff)

text \<open>
  \<^verbatim>\<open>StringBuilder::Construct\<close> builds the string it was given: from a terminated
  string of at least two bytes, with a buffer whose cleared area (four bytes per character) stays
  clear of it, the result's capacity and cursor are the string's length, its bytes are the
  string's, and comparing it with the source gives true.
\<close>

theorem Construct_round_trip:
  assumes len: "rt_string_len m data = Some n" and n: "2 \<le> n"
    and buf: "buf \<noteq> 0" and data: "data \<noteq> 0"
    and apart: "disjoint_ext buf (4 * n) data (Suc n)"
  shows "\<exists>m'. StringBuilder_Construct dbg buf data m =
      Some (Inr (Some \<lparr>fData = buf, fDataSz = n, fCur = n\<rparr>, m')) \<and>
    read_bytes buf n m' = read_bytes data n m \<and>
    KString_eq_cstr m' \<lparr>fData = buf, fDataSz = n, fCur = n\<rparr> data = Some True"
proof -
  define m1 where "m1 = snd (rt_set_memory buf 0 n m)"
  define m2 where "m2 = append_loop buf data 0 0 n m1"
  have m1: "m1 i = m i" if "data \<le> i" "i \<le> data + n" for i
    using that apart unfolding m1_def KString_new_sz_memory by (auto simp: disjoint_ext_def)
  have at: "m2 j = (if buf \<le> j \<and> j < buf + n then m1 (data + (j - buf)) else m1 j)" for j
    unfolding m2_def using apart by (subst append_loop_at) (auto simp: disjoint_ext_def)
  have m2: "m2 i = m i" if "data \<le> i" "i \<le> data + n" for i
    using that apart at [of i] m1 [of i] by (auto simp: disjoint_ext_def)
  have len1: "rt_string_len m1 data = Some n" and len2: "rt_string_len m2 data = Some n"
    by (rule rt_string_len_cong [OF _ len], simp add: m1 m2)+
  have "m data \<noteq> 0" using len n unfolding rt_string_len_iff by (auto dest: spec [of _ 0])
  then have "StringBuilder_Construct dbg buf data m =
      Some (Inr (Some \<lparr>fData = buf, fDataSz = n, fCur = n\<rparr>, m2))"
    using data buf n len len1 len2
    by (simp add: StringBuilder_Construct_def KString_new_sz_def m1_def [symmetric]
        KString_append_cstr_def rt_string_append_def m2_def [symmetric])
  moreover have bytes: "read_bytes buf n m2 = read_bytes data n m2"
    unfolding read_bytes_eq_iff using m1 m2 by (auto simp: at)
  moreover have "read_bytes data n m2 = read_bytes data n m"
    unfolding read_bytes_eq_iff using m2 by auto
  moreover have "KString_eq_cstr m2 \<lparr>fData = buf, fDataSz = n, fCur = n\<rparr> data = Some True"
    using len2 bytes by (simp add: KString_eq_cstr_def all_eq_loop_read_bytes)
  ultimately show ?thesis by auto
qed

theorem Construct_round_trip_witness:
  "\<exists>m'. StringBuilder_Construct True 100 8 (\<lambda>i. if i < 10 then 65 else 0) =
      Some (Inr (Some \<lparr>fData = 100, fDataSz = 2, fCur = 2\<rparr>, m')) \<and>
    read_bytes 100 2 m' = read_bytes 8 2 (\<lambda>i. if i < 10 then 65 else 0)"
proof -
  let ?m = "(\<lambda>i. if i < 10 then 65 else 0) :: mem"
  have "rt_string_len ?m 8 = Some 2" by (simp add: rt_string_len_iff)
  moreover have "disjoint_ext 100 (4 * 2) 8 (Suc 2)" by (simp add: disjoint_ext_def)
  ultimately show ?thesis
    using Construct_round_trip [of ?m 8 2 100 True] by auto
qed

end
