(* ===== verification/Crc32.thy ===== *)
theory Crc32
  imports RtUtils
begin

text \<open>
  The checksum of \<^verbatim>\<open>dev/Kernel/src/Crc32.cc\<close>: a table of 256 words and the byte loop
  over it. \<^verbatim>\<open>Char\<close> is signed on the AMD64 target, and the loop indexes the table with the
  exclusive or of the checksum's low byte and the sign-extended character: a byte of 128 or more
  gives a negative index, which is a read outside the table. The main theorem is that the table is
  the one of the reflected Castagnoli polynomial, so that on 7-bit data the loop computes CRC-32C.
\<close>

definition kCrcTbl :: "u32 list" where
  "kCrcTbl =
    [0x00000000, 0xF26B8303, 0xE13B70F7, 0x1350F3F4, 0xC79A971F, 0x35F1141C,
     0x26A1E7E8, 0xD4CA64EB, 0x8AD958CF, 0x78B2DBCC, 0x6BE22838, 0x9989AB3B,
     0x4D43CFD0, 0xBF284CD3, 0xAC78BF27, 0x5E133C24, 0x105EC76F, 0xE235446C,
     0xF165B798, 0x030E349B, 0xD7C45070, 0x25AFD373, 0x36FF2087, 0xC494A384,
     0x9A879FA0, 0x68EC1CA3, 0x7BBCEF57, 0x89D76C54, 0x5D1D08BF, 0xAF768BBC,
     0xBC267848, 0x4E4DFB4B, 0x20BD8EDE, 0xD2D60DDD, 0xC186FE29, 0x33ED7D2A,
     0xE72719C1, 0x154C9AC2, 0x061C6936, 0xF477EA35, 0xAA64D611, 0x580F5512,
     0x4B5FA6E6, 0xB93425E5, 0x6DFE410E, 0x9F95C20D, 0x8CC531F9, 0x7EAEB2FA,
     0x30E349B1, 0xC288CAB2, 0xD1D83946, 0x23B3BA45, 0xF779DEAE, 0x05125DAD,
     0x1642AE59, 0xE4292D5A, 0xBA3A117E, 0x4851927D, 0x5B016189, 0xA96AE28A,
     0x7DA08661, 0x8FCB0562, 0x9C9BF696, 0x6EF07595, 0x417B1DBC, 0xB3109EBF,
     0xA0406D4B, 0x522BEE48, 0x86E18AA3, 0x748A09A0, 0x67DAFA54, 0x95B17957,
     0xCBA24573, 0x39C9C670, 0x2A993584, 0xD8F2B687, 0x0C38D26C, 0xFE53516F,
     0xED03A29B, 0x1F682198, 0x5125DAD3, 0xA34E59D0, 0xB01EAA24, 0x42752927,
     0x96BF4DCC, 0x64D4CECF, 0x77843D3B, 0x85EFBE38, 0xDBFC821C, 0x2997011F,
     0x3AC7F2EB, 0xC8AC71E8, 0x1C661503, 0xEE0D9600, 0xFD5D65F4, 0x0F36E6F7,
     0x61C69362, 0x93AD1061, 0x80FDE395, 0x72966096, 0xA65C047D, 0x5437877E,
     0x4767748A, 0xB50CF789, 0xEB1FCBAD, 0x197448AE, 0x0A24BB5A, 0xF84F3859,
     0x2C855CB2, 0xDEEEDFB1, 0xCDBE2C45, 0x3FD5AF46, 0x7198540D, 0x83F3D70E,
     0x90A324FA, 0x62C8A7F9, 0xB602C312, 0x44694011, 0x5739B3E5, 0xA55230E6,
     0xFB410CC2, 0x092A8FC1, 0x1A7A7C35, 0xE811FF36, 0x3CDB9BDD, 0xCEB018DE,
     0xDDE0EB2A, 0x2F8B6829, 0x82F63B78, 0x709DB87B, 0x63CD4B8F, 0x91A6C88C,
     0x456CAC67, 0xB7072F64, 0xA457DC90, 0x563C5F93, 0x082F63B7, 0xFA44E0B4,
     0xE9141340, 0x1B7F9043, 0xCFB5F4A8, 0x3DDE77AB, 0x2E8E845F, 0xDCE5075C,
     0x92A8FC17, 0x60C37F14, 0x73938CE0, 0x81F80FE3, 0x55326B08, 0xA759E80B,
     0xB4091BFF, 0x466298FC, 0x1871A4D8, 0xEA1A27DB, 0xF94AD42F, 0x0B21572C,
     0xDFEB33C7, 0x2D80B0C4, 0x3ED04330, 0xCCBBC033, 0xA24BB5A6, 0x502036A5,
     0x4370C551, 0xB11B4652, 0x65D122B9, 0x97BAA1BA, 0x84EA524E, 0x7681D14D,
     0x2892ED69, 0xDAF96E6A, 0xC9A99D9E, 0x3BC21E9D, 0xEF087A76, 0x1D63F975,
     0x0E330A81, 0xFC588982, 0xB21572C9, 0x407EF1CA, 0x532E023E, 0xA145813D,
     0x758FE5D6, 0x87E466D5, 0x94B49521, 0x66DF1622, 0x38CC2A06, 0xCAA7A905,
     0xD9F75AF1, 0x2B9CD9F2, 0xFF56BD19, 0x0D3D3E1A, 0x1E6DCDEE, 0xEC064EED,
     0xC38D26C4, 0x31E6A5C7, 0x22B65633, 0xD0DDD530, 0x0417B1DB, 0xF67C32D8,
     0xE52CC12C, 0x1747422F, 0x49547E0B, 0xBB3FFD08, 0xA86F0EFC, 0x5A048DFF,
     0x8ECEE914, 0x7CA56A17, 0x6FF599E3, 0x9D9E1AE0, 0xD3D3E1AB, 0x21B862A8,
     0x32E8915C, 0xC083125F, 0x144976B4, 0xE622F5B7, 0xF5720643, 0x07198540,
     0x590AB964, 0xAB613A67, 0xB831C993, 0x4A5A4A90, 0x9E902E7B, 0x6CFBAD78,
     0x7FAB5E8C, 0x8DC0DD8F, 0xE330A81A, 0x115B2B19, 0x020BD8ED, 0xF0605BEE,
     0x24AA3F05, 0xD6C1BC06, 0xC5914FF2, 0x37FACCF1, 0x69E9F0D5, 0x9B8273D6,
     0x88D28022, 0x7AB90321, 0xAE7367CA, 0x5C18E4C9, 0x4F48173D, 0xBD23943E,
     0xF36E6F75, 0x0105EC76, 0x12551F82, 0xE03E9C81, 0x34F4F86A, 0xC69F7B69,
     0xD5CF889D, 0x27A40B9E, 0x79B737BA, 0x8BDCB4B9, 0x988C474D, 0x6AE7C44E,
     0xBE2DA0A5, 0x4C4623A6, 0x5F16D052, 0xAD7D5351]"

text \<open>The index expression: \<^verbatim>\<open>(UInt8)crc ^ *p\<close> is an \<^verbatim>\<open>int\<close>.\<close>

definition crc_index :: "u32 \<Rightarrow> u8 \<Rightarrow> int" where
  "crc_index crc c = uint (ucast crc :: u8) XOR sint c"

definition crc_lookup :: "int \<Rightarrow> fault + u32" where
  "crc_lookup i = (if 0 \<le> i \<and> i < 256 then Inr (kCrcTbl ! nat i) else Inl OutOfBounds)"

fun crc_loop :: "u32 \<Rightarrow> u8 list \<Rightarrow> fault + u32" where
  "crc_loop crc [] = Inr crc"
| "crc_loop crc (c # cs) =
     bindF (crc_lookup (crc_index crc c)) (\<lambda>t. crc_loop (t XOR drop_bit 8 crc) cs)"

definition crc32_bytes :: "u8 list \<Rightarrow> fault + u32" where
  "crc32_bytes bs = bindF (crc_loop 0xffffffff bs) (\<lambda>crc. Inr (crc XOR 0xffffffff))"

definition ke_calculate_crc32 :: "mem \<Rightarrow> nat \<Rightarrow> u32 \<Rightarrow> fault + u32" where
  "ke_calculate_crc32 m p len = crc32_bytes (read_bytes p (unat len) m)"

subsection \<open>The polynomial specification\<close>

definition crc32c_poly :: u32 where
  "crc32c_poly = 0x82F63B78"

definition crc_bit_step :: "u32 \<Rightarrow> u32" where
  "crc_bit_step c = (if c AND 1 = 1 then drop_bit 1 c XOR crc32c_poly else drop_bit 1 c)"

definition crc_byte_step :: "u32 \<Rightarrow> u32" where
  "crc_byte_step c = (crc_bit_step ^^ 8) c"

text \<open>CRC-32C bit by bit: add the byte to the low end, then eight shifts.\<close>

definition crc32c_update :: "u32 \<Rightarrow> u8 \<Rightarrow> u32" where
  "crc32c_update crc c = crc_byte_step (crc XOR ucast c)"

definition crc32c :: "u8 list \<Rightarrow> u32" where
  "crc32c bs = foldl crc32c_update 0xffffffff bs XOR 0xffffffff"

lemma length_kCrcTbl: "length kCrcTbl = 256"
  by (simp add: kCrcTbl_def)

text \<open>
  The step is linear over exclusive or, so the table of size \<open>2 ^ (k + 1)\<close> is the one of size
  \<open>2 ^ k\<close> followed by its sums with entry \<open>2 ^ k\<close>. Eight doublings give the whole table.
\<close>

lemma and_1_eq_1_iff: "c AND 1 = 1 \<longleftrightarrow> bit c 0" for c :: u32
  by (simp add: bit_0 and_one_eq odd_iff_mod_2_eq_one)

lemma crc_bit_step_xor: "crc_bit_step (a XOR b) = crc_bit_step a XOR crc_bit_step b"
  by (rule bit_eqI) (auto simp: crc_bit_step_def and_1_eq_1_iff bit_xor_iff bit_drop_bit_eq)

lemma crc_byte_step_xor: "crc_byte_step (a XOR b) = crc_byte_step a XOR crc_byte_step b"
proof -
  have "(crc_bit_step ^^ n) (a XOR b) = (crc_bit_step ^^ n) a XOR (crc_bit_step ^^ n) b" for n
    by (induction n) (simp_all add: crc_bit_step_xor)
  then show ?thesis by (simp add: crc_byte_step_def)
qed

lemma of_nat_top_bit: "j < 2 ^ k \<Longrightarrow> of_nat (2 ^ k + j) = (2 ^ k XOR of_nat j :: u32)"
proof -
  assume "j < 2 ^ k"
  then have "\<not> bit j k" by (simp add: bit_iff_odd)
  moreover have "bit (of_nat j :: u32) k \<Longrightarrow> bit (unat (of_nat j :: u32)) k"
    by (simp add: bit_unsigned_iff)
  ultimately have "\<not> bit (of_nat j :: u32) k" by (auto simp: unsigned_of_nat bit_take_bit_iff)
  then have "2 ^ k AND (of_nat j :: u32) = 0" by (simp add: and.commute and_exp_eq_0_iff_not_bit)
  then show ?thesis by (simp add: disjunctive_add_eq_xor)
qed

definition crc_table :: "nat \<Rightarrow> u32 list" where
  "crc_table n = map (\<lambda>i. crc_byte_step (of_nat i)) [0..<n]"

definition crc_grow :: "u32 \<Rightarrow> u32 list \<Rightarrow> u32 list" where
  "crc_grow c t = t @ map (\<lambda>x. c XOR x) t"

lemma crc_table_append: "crc_table (n + l) = crc_table n @ map (\<lambda>j. crc_byte_step (of_nat (n + j))) [0..<l]"
  by (rule nth_equalityI) (auto simp: crc_table_def nth_append)

lemma crc_table_double: "crc_table (2 * 2 ^ k) = crc_grow (crc_byte_step (2 ^ k)) (crc_table (2 ^ k))"
proof -
  have "map (\<lambda>j. crc_byte_step (of_nat (2 ^ k + j))) [0..<2 ^ k] =
        map (\<lambda>x. crc_byte_step (2 ^ k) XOR x) (crc_table (2 ^ k))"
    unfolding crc_table_def map_map
    by (rule map_cong [OF refl]) (simp only: of_nat_top_bit crc_byte_step_xor atLeastLessThan_upt [symmetric] atLeastLessThan_iff o_def)
  then show ?thesis unfolding mult_2 crc_table_append crc_grow_def by simp
qed

lemma crc_bit_steps:
  "(crc_bit_step ^^ 8) c = crc_bit_step (crc_bit_step (crc_bit_step (crc_bit_step
     (crc_bit_step (crc_bit_step (crc_bit_step (crc_bit_step c)))))))"
  by (simp add: numeral_eq_Suc)

lemma crc_powers:
  "crc_byte_step 1 = 0xF26B8303"
  "crc_byte_step 2 = 0xE13B70F7"
  "crc_byte_step 4 = 0xC79A971F"
  "crc_byte_step 8 = 0x8AD958CF"
  "crc_byte_step 16 = 0x105EC76F"
  "crc_byte_step 32 = 0x20BD8EDE"
  "crc_byte_step 64 = 0x417B1DBC"
  "crc_byte_step 128 = 0x82F63B78"
  unfolding crc_byte_step_def crc_bit_steps by (simp_all add: crc_bit_step_def crc32c_poly_def)

lemma crc_table_1: "crc_table 1 = [0]"
  by (simp add: crc_table_def crc_byte_step_def crc_bit_steps crc_bit_step_def)

lemma crc_table_256:
  "crc_table 256 = crc_grow 0x82F63B78 (crc_grow 0x417B1DBC (crc_grow 0x20BD8EDE (crc_grow 0x105EC76F
     (crc_grow 0x8AD958CF (crc_grow 0xC79A971F (crc_grow 0xE13B70F7 (crc_grow 0xF26B8303 [0])))))))"
  using crc_table_double [of 0] crc_table_double [of 1] crc_table_double [of 2]
    crc_table_double [of 3] crc_table_double [of 4] crc_table_double [of 5]
    crc_table_double [of 6] crc_table_double [of 7]
  by (simp add: crc_powers crc_table_1 [simplified])

lemma kCrcTbl_eq_crc_table: "kCrcTbl = crc_table 256"
  unfolding crc_table_256 by (simp add: crc_grow_def kCrcTbl_def)

lemma kCrcTbl_nth: "i < 256 \<Longrightarrow> kCrcTbl ! i = crc_byte_step (of_nat i)"
  by (simp add: kCrcTbl_eq_crc_table crc_table_def)

subsection \<open>The loop computes CRC-32C on 7-bit data\<close>

lemma crc_steps_low_zero: "(\<forall>i < k. \<not> bit y i) \<Longrightarrow> (crc_bit_step ^^ k) y = drop_bit k y"
proof (induction k)
  case 0
  then show ?case by simp
next
  case (Suc k)
  then have "(crc_bit_step ^^ k) y = drop_bit k y" by simp
  moreover have "\<not> bit (drop_bit k y) 0" using Suc.prems by (simp add: bit_drop_bit_eq)
  ultimately show ?case
    by (simp only: funpow.simps o_apply) (simp add: crc_bit_step_def and_1_eq_1_iff drop_bit_drop_bit)
qed

lemma bit_u32_length: "bit c n \<Longrightarrow> n < 32" for c :: u32
  using bit_imp_le_length [of c n] by simp

lemma bit_u8_length: "bit c n \<Longrightarrow> n < 8" for c :: u8
  using bit_imp_le_length [of c n] by simp

lemma odd_div_128: "0 \<le> x \<Longrightarrow> x < 256 \<Longrightarrow> odd (x div 128) \<longleftrightarrow> 128 \<le> x" for x :: int
proof -
  assume x: "0 \<le> x" "x < 256"
  show ?thesis
  proof (cases "x < 128")
    case True
    with x have "x div 128 = 0" by simp
    with True show ?thesis by simp
  next
    case False
    with x have "x div 128 = 1" by (simp add: int_div_pos_eq [of x 128 1 "x - 128"])
    with False show ?thesis by simp
  qed
qed

lemma crc_shift: "crc_byte_step (ucast (ucast c :: u8)) XOR drop_bit 8 c = crc_byte_step c" for c :: u32
proof -
  let ?hi = "push_bit 8 (drop_bit 8 c)"
  have "(ucast (ucast c :: u8) :: u32) XOR ?hi = c"
    by (rule bit_word_eqI)
      (auto simp: bit_xor_iff bit_push_bit_iff bit_drop_bit_eq bit_ucast_iff dest: bit_u32_length)
  then have "crc_byte_step c = crc_byte_step (ucast (ucast c :: u8)) XOR crc_byte_step ?hi"
    by (metis crc_byte_step_xor)
  moreover have "crc_byte_step ?hi = drop_bit 8 c"
    unfolding crc_byte_step_def
    by (subst crc_steps_low_zero)
      (auto simp: bit_push_bit_iff intro!: bit_word_eqI simp: bit_drop_bit_eq, drule bit_u32_length, simp)
  ultimately show ?thesis by simp
qed

lemma sint_u8: "sint (c :: u8) = (if c < 128 then uint c else uint c - 256)"
proof -
  have c: "0 \<le> uint c" "uint c < 256" using unsigned_less [of c, where ?'a = int] by simp_all
  then have "bit (uint c) 7 \<longleftrightarrow> 128 \<le> uint c"
    using odd_div_128 unfolding bit_iff_odd by simp
  moreover have "take_bit 8 (uint c) = uint c" using c by (simp add: take_bit_eq_mod)
  moreover have "sint c = take_bit (Suc 7) (uint c) - 2 ^ Suc 7 * of_bool (bit (uint c) 7)"
    unfolding signed_take_bit_eq_take_bit_minus [symmetric] by (simp add: sint_uint)
  ultimately show ?thesis by (simp add: word_less_def)
qed

lemma crc_lookup_ascii:
  assumes "c < 128"
  shows "crc_lookup (crc_index crc c) = Inr (crc_byte_step (ucast (ucast (crc XOR ucast c) :: u8)))"
proof -
  let ?x = "(ucast crc :: u8) XOR c"
  have x: "ucast (crc XOR ucast c) = ?x"
    by (rule bit_word_eqI) (auto simp: bit_xor_iff bit_ucast_iff)
  have idx: "crc_index crc c = uint ?x"
    using assms by (simp add: crc_index_def sint_u8 uint_xor)
  have "0 \<le> uint ?x" "uint ?x < 256" using unsigned_less [of ?x, where ?'a = int] by simp_all
  moreover have "kCrcTbl ! nat (uint ?x) = crc_byte_step (ucast ?x)"
    using kCrcTbl_nth [of "unat ?x"] unat_u8_less [of ?x] by (simp add: unat_eq_nat_uint [symmetric] del: unat_eq_nat_uint)
  ultimately show ?thesis unfolding x crc_lookup_def idx by simp
qed

lemma crc_lookup_high: "\<not> c < 128 \<Longrightarrow> crc_lookup (crc_index crc c) = Inl OutOfBounds"
proof -
  assume "\<not> c < 128"
  moreover have "uint c < 256" using unsigned_less [of c, where ?'a = int] by simp
  ultimately have "sint c < 0" by (simp add: sint_u8)
  then have "crc_index crc c < 0" by (simp add: crc_index_def)
  then show ?thesis by (simp add: crc_lookup_def)
qed

lemma crc_loop_update:
  "c < 128 \<Longrightarrow> crc_loop crc (c # cs) = crc_loop (crc32c_update crc c) cs"
proof -
  assume c: "c < 128"
  have "drop_bit 8 (crc XOR ucast c) = drop_bit 8 crc"
    by (rule bit_word_eqI) (auto simp: bit_xor_iff bit_ucast_iff bit_drop_bit_eq dest: bit_u8_length)
  with crc_shift [of "crc XOR ucast c"] have
    "crc_byte_step (ucast (ucast (crc XOR ucast c) :: u8)) XOR drop_bit 8 crc = crc32c_update crc c"
    by (simp add: crc32c_update_def)
  then show ?thesis by (simp add: crc_lookup_ascii [OF c])
qed

lemma crc_loop_eq:
  "crc_loop crc bs = (if list_all (\<lambda>c. c < 128) bs then Inr (foldl crc32c_update crc bs) else Inl OutOfBounds)"
proof (induction bs arbitrary: crc)
  case (Cons c cs)
  then show ?case
    by (cases "c < 128") (simp_all only: crc_loop_update, simp_all add: crc_lookup_high)
qed simp

text \<open>
  C12. \<^verbatim>\<open>ke_calculate_crc32\<close> is CRC-32C on 7-bit data and leaves its table on any other:
  when every byte of the region is below 128 the result is the bitwise Castagnoli checksum of the
  region, and a single byte of 128 or more makes the signed index negative, an access out of bounds.
\<close>

theorem ke_calculate_crc32_spec:
  "ke_calculate_crc32 m p len =
     (if list_all (\<lambda>c. c < 128) (read_bytes p (unat len) m)
      then Inr (crc32c (read_bytes p (unat len) m)) else Inl OutOfBounds)"
  by (simp add: ke_calculate_crc32_def crc32_bytes_def crc_loop_eq crc32c_def)

end
