(* ===== verification/BitMapMgr.thy ===== *)
theory BitMapMgr
  imports Bytes
begin

text \<open>
  The physical allocator of \<^verbatim>\<open>dev/Kernel/src/BitMapMgr.cc\<close>. A bitmap is a region of
  memory that starts with three 64-bit words: a magic number, the region's size in bytes and a used
  flag. The allocator walks from header to header and either claims a free region or, at the first
  address without the magic number, lays a new one.

  The kernel state \<open>kmem\<close> is the memory together with what the modelled code hands to the
  hardware layer: the pages it maps (\<^verbatim>\<open>mm_map_page\<close>, in order) and the page directory
  register. The walk has no bound in the code, so the model gives it fuel; \<open>find_bitmap_total\<close>
  below says how much is enough.
\<close>

record kmem =
  kbytes :: mem
  map_log :: "(nat \<times> u32) list"
  cr3 :: nat

abbreviation kmem_upd :: "(mem \<Rightarrow> mem) \<Rightarrow> kmem \<Rightarrow> kmem" where
  "kmem_upd f k \<equiv> k\<lparr>kbytes := f (kbytes k)\<rparr>"

definition kPageSize :: nat where
  "kPageSize = 0x1000"

definition kBitMapMagic :: u64 where
  "kBitMapMagic = 0x10210"

abbreviation kMMFlagsPresent :: u32 where
  "kMMFlagsPresent \<equiv> 1"

abbreviation kMMFlagsWr :: u32 where
  "kMMFlagsWr \<equiv> 2"

abbreviation kMMFlagsUser :: u32 where
  "kMMFlagsUser \<equiv> 4"

abbreviation bm_magic :: "nat \<Rightarrow> mem \<Rightarrow> u64" where
  "bm_magic p m \<equiv> load64 p m"

abbreviation bm_size :: "nat \<Rightarrow> mem \<Rightarrow> u64" where
  "bm_size p m \<equiv> load64 (p + 8) m"

abbreviation bm_used :: "nat \<Rightarrow> mem \<Rightarrow> u64" where
  "bm_used p m \<equiv> load64 (p + 16) m"

subsection \<open>IBitMapProxy\<close>

definition mm_map_page :: "nat \<Rightarrow> u32 \<Rightarrow> kmem \<Rightarrow> kmem" where
  "mm_map_page p flags k = k\<lparr>map_log := map_log k @ [(p, flags)]\<rparr>"

definition IsBitMap :: "nat \<Rightarrow> mem \<Rightarrow> bool" where
  "IsBitMap page_ptr m =
     (if page_ptr = 0 then False
      else if bm_magic page_ptr m = 0 \<or> bm_magic page_ptr m \<noteq> kBitMapMagic then False
      else True)"

definition FreeBitMap :: "nat \<Rightarrow> kmem \<Rightarrow> bool \<times> kmem" where
  "FreeBitMap page_ptr k =
     (if \<not> IsBitMap page_ptr (kbytes k) then (False, k)
      else (True, kmem_upd (store64 (page_ptr + 16) 0 \<circ> store64 page_ptr kBitMapMagic) k))"

definition MakeMMFlags :: "bool \<Rightarrow> bool \<Rightarrow> u32" where
  "MakeMMFlags w user =
     (let flags = kMMFlagsPresent;
          flags = (if w then flags OR kMMFlagsWr else flags)
      in if user then flags OR kMMFlagsUser else flags)"

fun find_bitmap_loop :: "nat \<Rightarrow> nat \<Rightarrow> u64 \<Rightarrow> bool \<Rightarrow> bool \<Rightarrow> kmem \<Rightarrow> fault + (nat \<times> kmem)" where
  "find_bitmap_loop 0 base sz w user k = Inl OutOfFuel"
| "find_bitmap_loop (Suc fuel) base sz w user k =
     (let m = kbytes k;
          next_base = base + unat (if bm_magic base m \<noteq> kBitMapMagic then sz else bm_size base m)
      in if bm_magic base m = kBitMapMagic \<and> bm_size base m \<le> sz then
           (if bm_used base m = 0 then
              Inr (base, mm_map_page base (MakeMMFlags w user)
                (kmem_upd (store64 (base + 16) 1 \<circ> store64 (base + 8) sz) k))
            else find_bitmap_loop fuel next_base sz w user k)
         else if bm_magic base m \<noteq> kBitMapMagic then
           Inr (base, mm_map_page base (MakeMMFlags w user)
             (kmem_upd (store64 (base + 16) 1 \<circ> store64 (base + 8) sz \<circ> store64 base kBitMapMagic) k))
         else find_bitmap_loop fuel next_base sz w user k)"

text \<open>A null result is the address 0.\<close>

definition FindBitMap :: "nat \<Rightarrow> nat \<Rightarrow> u64 \<Rightarrow> bool \<Rightarrow> bool \<Rightarrow> kmem \<Rightarrow> fault + (nat \<times> kmem)" where
  "FindBitMap fuel base_ptr sz w user k =
     (if sz = 0 then Inr (0, k)
      else find_bitmap_loop fuel (base_ptr + kPageSize) sz w user k)"

subsection \<open>The interface the page manager calls\<close>

definition mm_is_bitmap :: "nat \<Rightarrow> kmem \<Rightarrow> bool" where
  "mm_is_bitmap p k = IsBitMap p (kbytes k)"

definition mm_alloc_bitmap ::
  "bool \<Rightarrow> nat \<Rightarrow> nat \<Rightarrow> bool \<Rightarrow> bool \<Rightarrow> u64 \<Rightarrow> kmem \<Rightarrow> fault + (nat \<times> kmem)" where
  "mm_alloc_bitmap dbg fuel bitmp_start w user sz k =
     bindF (FindBitMap fuel bitmp_start sz w user k) (\<lambda>(p, k').
     bindF (must_pass dbg (p \<noteq> 0)) (\<lambda>_. Inr (p, k')))"

definition mm_free_bitmap :: "nat \<Rightarrow> kmem \<Rightarrow> bool \<times> kmem" where
  "mm_free_bitmap p k = (if p = 0 then (False, k) else FreeBitMap p k)"

subsection \<open>Chains of regions\<close>

text \<open>
  The regions the walk meets from \<open>base\<close>, each as its size and used flag, up to the first address
  without a magic number. A size of at least 24 keeps a header out of the next one.
\<close>

fun chain :: "mem \<Rightarrow> nat \<Rightarrow> (u64 \<times> bool) list \<Rightarrow> bool" where
  "chain m base [] \<longleftrightarrow> bm_magic base m \<noteq> kBitMapMagic"
| "chain m base ((sz, used) # bs) \<longleftrightarrow>
     bm_magic base m = kBitMapMagic \<and> bm_size base m = sz \<and> (bm_used base m \<noteq> 0) = used \<and>
     24 \<le> unat sz \<and> chain m (base + unat sz) bs"

fun chain_span :: "(u64 \<times> bool) list \<Rightarrow> nat" where
  "chain_span [] = 0"
| "chain_span ((sz, used) # bs) = unat sz + chain_span bs"

text \<open>The region the walk stops at: the first free one of size at most the request, or the end.\<close>

fun first_fit :: "u64 \<Rightarrow> (u64 \<times> bool) list \<Rightarrow> nat" where
  "first_fit sz [] = 0"
| "first_fit sz ((s, used) # bs) = (if s \<le> sz \<and> \<not> used then 0 else Suc (first_fit sz bs))"

definition fit_offset :: "u64 \<Rightarrow> (u64 \<times> bool) list \<Rightarrow> nat" where
  "fit_offset sz bs = chain_span (take (first_fit sz bs) bs)"

lemma first_fit_le: "first_fit sz bs \<le> length bs"
  by (induction sz bs rule: first_fit.induct) auto

lemma fit_offset_Cons:
  "fit_offset sz ((s, used) # bs) = (if s \<le> sz \<and> \<not> used then 0 else unat s + fit_offset sz bs)"
  by (simp add: fit_offset_def)

definition claim :: "nat \<Rightarrow> u64 \<Rightarrow> mem \<Rightarrow> mem" where
  "claim p sz m = store64 (p + 16) 1 (store64 (p + 8) sz (store64 p kBitMapMagic m))"

lemma store64_id: "store64 a (load64 a m) m = m"
proof
  fix i
  have "enc64 (dec64 (read_bytes a 8 m)) = read_bytes a 8 m" by (rule enc64_dec64) simp
  then show "store64 a (load64 a m) m i = m i"
    by (auto simp: store64_def load64_def write_bytes_def read_bytes_nth)
qed

lemma claim_frame: "i < p \<or> p + 24 \<le> i \<Longrightarrow> claim p sz m i = m i"
  by (auto simp: claim_def store64_outside)

lemma claim_load_other: "a + 8 \<le> p \<or> p + 24 \<le> a \<Longrightarrow> load64 a (claim p sz m) = load64 a m"
  by (rule load64_cong) (auto simp: claim_frame)

lemma claim_header:
  "load64 p (claim p sz m) = kBitMapMagic" "load64 (p + 8) (claim p sz m) = sz"
  "load64 (p + 16) (claim p sz m) = 1"
  by (simp_all add: claim_def load_store64_other disjoint_ext_def)

lemma find_bitmap_total:
  "chain (kbytes k) base bs \<Longrightarrow> length bs < fuel \<Longrightarrow>
   find_bitmap_loop fuel base sz w user k =
     Inr (base + fit_offset sz bs, mm_map_page (base + fit_offset sz bs) (MakeMMFlags w user)
       (kmem_upd (claim (base + fit_offset sz bs) sz) k))"
proof (induction bs arbitrary: base fuel)
  case Nil
  then obtain f where "fuel = Suc f" by (cases fuel) auto
  with Nil show ?case by (simp add: Let_def fit_offset_def claim_def)
next
  case (Cons b bs)
  obtain s used where b: "b = (s, used)" by (cases b)
  from Cons.prems obtain f where f: "fuel = Suc f" and "length bs < f" by (cases fuel) auto
  moreover from Cons.prems b have "chain (kbytes k) (base + unat s) bs" by simp
  ultimately have IH: "find_bitmap_loop f (base + unat s) sz w user k =
     Inr (base + unat s + fit_offset sz bs, mm_map_page (base + unat s + fit_offset sz bs) (MakeMMFlags w user)
       (kmem_upd (claim (base + unat s + fit_offset sz bs) sz) k))"
    by (intro Cons.IH)
  have h: "bm_magic base (kbytes k) = kBitMapMagic" "bm_size base (kbytes k) = s"
    "(bm_used base (kbytes k) \<noteq> 0) = used" using Cons.prems b by simp_all
  show ?case
  proof (cases "s \<le> sz \<and> \<not> used")
    case True
    have "claim base sz (kbytes k) = store64 (base + 16) 1 (store64 (base + 8) sz (kbytes k))"
      unfolding claim_def h(1) [symmetric] store64_id ..
    with True h show ?thesis unfolding f b by (simp add: Let_def fit_offset_Cons)
  next
    case False
    with h IH show ?thesis unfolding f b by (auto simp: Let_def fit_offset_Cons add.assoc)
  qed
qed

text \<open>The chain seen through a claimed region: its front part is untouched.\<close>

lemma chain_cong_before:
  "chain m base bs \<Longrightarrow> (\<And>i. base \<le> i \<Longrightarrow> i < base + chain_span bs + 8 \<Longrightarrow> m' i = m i) \<Longrightarrow> chain m' base bs"
proof (induction bs arbitrary: base)
  case Nil
  then have "load64 base m' = load64 base m" by (intro load64_cong) simp
  with Nil show ?case by simp
next
  case (Cons b bs)
  obtain s used where b: "b = (s, used)" by (cases b)
  have s: "24 \<le> unat s" using Cons.prems(1) b by simp
  have "load64 a m' = load64 a m" if "base \<le> a" "a + 8 \<le> base + 24" for a
    using that s b by (intro load64_cong Cons.prems(2)) auto
  moreover have "chain m' (base + unat s) bs"
    using Cons.prems b s by (intro Cons.IH) auto
  ultimately show ?case using Cons.prems(1) b by simp
qed

fun chain_to :: "mem \<Rightarrow> nat \<Rightarrow> (u64 \<times> bool) list \<Rightarrow> bool" where
  "chain_to m base [] \<longleftrightarrow> True"
| "chain_to m base ((sz, used) # bs) \<longleftrightarrow>
     bm_magic base m = kBitMapMagic \<and> bm_size base m = sz \<and> (bm_used base m \<noteq> 0) = used \<and>
     24 \<le> unat sz \<and> chain_to m (base + unat sz) bs"

lemma chain_append: "chain m base (as @ bs) \<longleftrightarrow> chain_to m base as \<and> chain m (base + chain_span as) bs"
  by (induction m base as rule: chain_to.induct) (auto simp: add.assoc)

lemma chain_append_to:
  "chain_to m base (as @ bs) \<longleftrightarrow> chain_to m base as \<and> chain_to m (base + chain_span as) bs"
  by (induction m base as rule: chain_to.induct) (auto simp: add.assoc)

lemma chain_to_frame:
  "chain_to m base as \<Longrightarrow> (\<And>i. base \<le> i \<Longrightarrow> i < base + chain_span as \<Longrightarrow> m' i = m i) \<Longrightarrow> chain_to m' base as"
proof (induction as arbitrary: base)
  case (Cons b bs)
  obtain s used where b: "b = (s, used)" by (cases b)
  have s: "24 \<le> unat s" using Cons.prems(1) b by simp
  have "load64 a m' = load64 a m" if "base \<le> a" "a + 8 \<le> base + 24" for a
    using that s b by (intro load64_cong Cons.prems(2)) auto
  moreover have "chain_to m' (base + unat s) bs"
    using Cons.prems b s by (intro Cons.IH) auto
  ultimately show ?case using Cons.prems(1) b by simp
qed simp

lemma chain_claim_end:
  assumes "chain m base bs" and "24 \<le> unat sz"
    and "bm_magic (base + chain_span bs + unat sz) m \<noteq> kBitMapMagic"
  shows "chain (claim (base + chain_span bs) sz m) base (bs @ [(sz, True)])"
proof -
  have "chain_to m base bs" using assms(1) chain_append [of m base bs "[]"] by simp
  then have "chain_to (claim (base + chain_span bs) sz m) base bs"
    by (rule chain_to_frame) (simp add: claim_frame)
  with assms show ?thesis
    by (simp add: chain_append claim_header claim_load_other)
qed

lemma chain_claim_reuse:
  assumes "chain m base (as @ (sz, False) # bs)"
  shows "chain (claim (base + chain_span as) sz m) base (as @ (sz, True) # bs)"
proof -
  let ?p = "base + chain_span as"
  have ch: "chain_to m base as" "24 \<le> unat sz" "chain m (?p + unat sz) bs"
    using assms by (simp_all add: chain_append)
  from ch(1) have "chain_to (claim ?p sz m) base as"
    by (rule chain_to_frame) (simp add: claim_frame)
  moreover have "chain (claim ?p sz m) (?p + unat sz) bs"
    using ch(3) by (rule chain_cong_before) (use ch(2) in \<open>simp add: claim_frame\<close>)
  ultimately show ?thesis using ch(2) by (simp add: chain_append claim_header)
qed

lemma load64_zero [simp]: "load64 a (\<lambda>_. 0) = 0"
proof -
  have "le_nat (replicate n 0) = 0" for n by (induction n) simp_all
  moreover have "read_bytes a 8 (\<lambda>_. 0) = replicate 8 0" by (simp add: read_bytes_def map_replicate_const)
  ultimately show ?thesis by (simp add: load64_def dec64_def)
qed

lemma FindBitMap_chain:
  assumes "sz \<noteq> 0" and "chain (kbytes k) (start + kPageSize) bs" and "length bs < fuel"
  shows "FindBitMap fuel start sz w user k =
     Inr (start + kPageSize + fit_offset sz bs,
       mm_map_page (start + kPageSize + fit_offset sz bs) (MakeMMFlags w user)
         (kmem_upd (claim (start + kPageSize + fit_offset sz bs) sz) k))"
  using assms by (simp add: FindBitMap_def find_bitmap_total)

lemma first_fit_end: "first_fit sz bs = length bs \<Longrightarrow> fit_offset sz bs = chain_span bs"
  by (simp add: fit_offset_def)

lemma first_fit_unused: "first_fit sz bs < length bs \<Longrightarrow> bs ! first_fit sz bs = (s, used) \<Longrightarrow> \<not> used \<and> s \<le> sz"
  by (induction sz bs rule: first_fit.induct) (auto split: if_splits)

lemma first_fit_skip: "\<forall>(s, used) \<in> set as. used \<or> sz < s \<Longrightarrow> first_fit sz (as @ bs) = length as + first_fit sz bs"
  by (induction as) auto

subsection \<open>Properties\<close>

text \<open>
  C6. The walk of \<^verbatim>\<open>FindBitMap\<close> ends and is a first fit: on a chain of regions, with more
  fuel than regions, it returns the first unused region whose recorded size is at most the request,
  or the address after the last region; it writes the three header words there, maps that one page
  with the requested rights and changes no other byte of memory.
\<close>

theorem FindBitMap_first_fit:
  assumes "sz \<noteq> 0" and "chain (kbytes k) (start + kPageSize) bs" and "length bs < fuel"
  shows "\<exists>k'. FindBitMap fuel start sz w user k = Inr (start + kPageSize + fit_offset sz bs, k') \<and>
    bm_magic (start + kPageSize + fit_offset sz bs) (kbytes k') = kBitMapMagic \<and>
    bm_size (start + kPageSize + fit_offset sz bs) (kbytes k') = sz \<and>
    bm_used (start + kPageSize + fit_offset sz bs) (kbytes k') = 1 \<and>
    map_log k' = map_log k @ [(start + kPageSize + fit_offset sz bs, MakeMMFlags w user)] \<and>
    (\<forall>i. i < start + kPageSize + fit_offset sz bs \<or> start + kPageSize + fit_offset sz bs + 24 \<le> i
        \<longrightarrow> kbytes k' i = kbytes k i)"
  unfolding FindBitMap_chain [OF assms]
  by (simp add: mm_map_page_def claim_header claim_frame)

theorem FindBitMap_first_fit_witness:
  "\<exists>k'. FindBitMap 1 0 64 True False \<lparr>kbytes = (\<lambda>_. 0), map_log = [], cr3 = 0\<rparr> = Inr (4096, k') \<and>
     bm_size 4096 (kbytes k') = 64"
proof -
  have "(64 :: u64) \<noteq> 0" by simp
  moreover have "chain (kbytes \<lparr>kbytes = (\<lambda>_. 0), map_log = [], cr3 = 0\<rparr>) (0 + kPageSize) []"
    by (simp add: kBitMapMagic_def)
  moreover have "length ([] :: (u64 \<times> bool) list) < 1" by simp
  ultimately show ?thesis
    using FindBitMap_first_fit [of 64 "\<lparr>kbytes = (\<lambda>_. 0), map_log = [], cr3 = 0\<rparr>" 0 "[]" 1 True False]
    by (auto simp: fit_offset_def kPageSize_def)
qed



text \<open>
  The size test is the wrong way round: when the first unused region that is not larger than
  the request is strictly smaller, and the region behind it is in use, the walk hands out an area
  that runs into that used region.
\<close>

theorem FindBitMap_reuse_overlaps:
  assumes ch: "chain (kbytes k) (start + kPageSize) (as @ (s, False) # (t, True) # cs)"
    and skip: "\<forall>(s', used) \<in> set as. used \<or> sz < s'"
    and small: "s < sz" and fuel: "length as + length cs + 2 < fuel"
  shows "\<exists>p k'. FindBitMap fuel start sz w user k = Inr (p, k') \<and>
    p = start + kPageSize + chain_span as \<and>
    bm_magic (p + unat s) (kbytes k) = kBitMapMagic \<and> bm_used (p + unat s) (kbytes k) \<noteq> 0 \<and>
    p + unat s < p + unat sz"
proof -
  let ?bs = "as @ (s, False) # (t, True) # cs"
  have "first_fit sz ?bs = length as" using first_fit_skip [OF skip] small by simp
  then have off: "fit_offset sz ?bs = chain_span as" by (simp add: fit_offset_def)
  have "sz \<noteq> 0" using small by auto
  moreover have "length ?bs < fuel" using fuel by simp
  ultimately have "FindBitMap fuel start sz w user k =
     Inr (start + kPageSize + chain_span as,
       mm_map_page (start + kPageSize + chain_span as) (MakeMMFlags w user)
         (kmem_upd (claim (start + kPageSize + chain_span as) sz) k))"
    using FindBitMap_chain [OF _ ch, of sz fuel w user] by (simp add: off)
  with ch small show ?thesis
    by (simp add: chain_append word_less_nat_alt)
qed

theorem FindBitMap_reuse_overlaps_witness:
  "\<exists>k p k'. FindBitMap 3 0 100 True False k = Inr (p, k') \<and> p = 4096 \<and>
     bm_magic 4160 (kbytes k) = kBitMapMagic \<and> bm_used 4160 (kbytes k) \<noteq> 0 \<and> 4160 < p + 100"
proof -
  let ?m = "store64 4112 0 (claim 4096 64 (claim 4160 64 (\<lambda>_. 0)))"
  let ?k = "\<lparr>kbytes = ?m, map_log = [], cr3 = 0\<rparr>"
  have "chain (kbytes ?k) (0 + kPageSize) ([] @ (64, False) # (64, True) # [])"
    by (simp add: kPageSize_def claim_def store_simps disjoint_ext_def kBitMapMagic_def)
  from FindBitMap_reuse_overlaps [OF this, of 100 3 True False]
  obtain p k' where "FindBitMap 3 0 100 True False ?k = Inr (p, k')" "p = 0 + kPageSize + chain_span []"
    "bm_magic (p + unat (64::u64)) (kbytes ?k) = kBitMapMagic" "bm_used (p + unat (64::u64)) (kbytes ?k) \<noteq> 0"
    by auto
  then show ?thesis
    by (intro exI [of _ ?k] exI [of _ p] exI [of _ k']) (simp add: kPageSize_def)
qed

end
