(* ===== verification/HeapMgr.thy ===== *)
theory HeapMgr
  imports BitMapMgr Crc32
begin

text \<open>
  The page manager and the kernel heap: \<^verbatim>\<open>PageMgr.cc\<close>, \<^verbatim>\<open>Pmm.cc\<close>,
  \<^verbatim>\<open>Heap.cc\<close> and \<^verbatim>\<open>New+Delete.cc\<close> of \<^verbatim>\<open>dev/Kernel/src\<close>, on top of the
  bitmap allocator. A heap block is a bitmap region in which a packed 53-byte header
  (\<^verbatim>\<open>HEAP_INFORMATION_BLOCK\<close>) stands 53 bytes after the region's start and the caller's bytes
  start right after the header. The header's fields are loads and stores at their packed offsets.

  \<open>kconf\<close> collects what the build and the boot loader fix: the debug switch of
  \<^verbatim>\<open>MUST_PASS\<close>, the address the bitmap walk starts from, and the fuel of that walk.
\<close>

record kconf =
  debug :: bool
  bitmp_start :: nat
  walk_fuel :: nat

subsection \<open>Page table entry wrappers (PageMgr.cc, Pmm.cc)\<close>

record PTEWrapper =
  fRw :: bool
  fUser :: bool
  fExecDisable :: bool
  fVirtAddr :: nat
  fCache :: bool
  fShareable :: bool
  fWt :: bool
  fPresent :: bool
  fAccessed :: bool

definition PTEWrapper_new :: "bool \<Rightarrow> bool \<Rightarrow> bool \<Rightarrow> nat \<Rightarrow> PTEWrapper" where
  "PTEWrapper_new Rw User ExecDisable VirtAddr =
     \<lparr>fRw = Rw, fUser = User, fExecDisable = ExecDisable, fVirtAddr = VirtAddr, fCache = False,
      fShareable = False, fWt = False, fPresent = True, fAccessed = False\<rparr>"

definition PTEWrapper_Reclaim :: "PTEWrapper \<Rightarrow> bool \<times> PTEWrapper" where
  "PTEWrapper_Reclaim p = (if \<not> fPresent p then (True, p\<lparr>fPresent := True\<rparr>) else (False, p))"

definition PTEWrapper_VirtualAddress :: "PTEWrapper \<Rightarrow> nat" where
  "PTEWrapper_VirtualAddress p = fVirtAddr p"

definition PTEWrapper_Shareable :: "PTEWrapper \<Rightarrow> bool" where
  "PTEWrapper_Shareable p = fShareable p"

definition PTEWrapper_Present :: "PTEWrapper \<Rightarrow> bool" where
  "PTEWrapper_Present p = fPresent p"

definition PTEWrapper_Access :: "PTEWrapper \<Rightarrow> bool" where
  "PTEWrapper_Access p = fAccessed p"

definition PTEWrapper_set_NoExecute :: "bool \<Rightarrow> PTEWrapper \<Rightarrow> PTEWrapper" where
  "PTEWrapper_set_NoExecute enable p = p\<lparr>fExecDisable := enable\<rparr>"

definition PTEWrapper_NoExecute :: "PTEWrapper \<Rightarrow> bool" where
  "PTEWrapper_NoExecute p = fExecDisable p"

definition PageMgr_Request ::
  "kconf \<Rightarrow> bool \<Rightarrow> bool \<Rightarrow> bool \<Rightarrow> u64 \<Rightarrow> kmem \<Rightarrow> fault + (PTEWrapper \<times> kmem)" where
  "PageMgr_Request c Rw User ExecDisable Sz k =
     bindF (mm_alloc_bitmap (debug c) (walk_fuel c) (bitmp_start c) Rw User Sz k) (\<lambda>(p, k').
       Inr (PTEWrapper_new Rw User ExecDisable p, k'))"

definition PageMgr_Free :: "PTEWrapper \<Rightarrow> kmem \<Rightarrow> bool \<times> kmem" where
  "PageMgr_Free wrapper k =
     (let (ok, k') = mm_free_bitmap (PTEWrapper_VirtualAddress wrapper) k
      in if \<not> ok then (False, k') else (True, k'))"

text \<open>
  A \<^verbatim>\<open>Ref\<close> to a wrapper is an optional wrapper; the toggles give the updated one back.
  \<^verbatim>\<open>Pmm\<close>'s own \<^verbatim>\<open>fPageMgr\<close> is a null \<^verbatim>\<open>Ref\<close>; \<^verbatim>\<open>PageMgr\<close> has no
  fields, so the call through it reads nothing.
\<close>

definition Pmm_RequestPage :: "kconf \<Rightarrow> bool \<Rightarrow> bool \<Rightarrow> kmem \<Rightarrow> fault + (PTEWrapper option \<times> kmem)" where
  "Pmm_RequestPage c user readWrite k =
     bindF (PageMgr_Request c user readWrite False (of_nat kPageSize) k) (\<lambda>(pt, k').
       if fPresent pt then Inr (None, k') else Inr (Some pt, k'))"

definition Pmm_FreePage :: "PTEWrapper option \<Rightarrow> bool \<times> PTEWrapper option" where
  "Pmm_FreePage r = (case r of None \<Rightarrow> (False, None) | Some p \<Rightarrow> (True, Some (p\<lparr>fPresent := False\<rparr>)))"

definition Pmm_TogglePresent :: "PTEWrapper option \<Rightarrow> bool \<Rightarrow> bool \<times> PTEWrapper option" where
  "Pmm_TogglePresent r enable =
     (case r of None \<Rightarrow> (False, None) | Some p \<Rightarrow> (True, Some (p\<lparr>fPresent := enable\<rparr>)))"

definition Pmm_ToggleUser :: "PTEWrapper option \<Rightarrow> bool \<Rightarrow> bool \<times> PTEWrapper option" where
  "Pmm_ToggleUser r enable =
     (case r of None \<Rightarrow> (False, None) | Some p \<Rightarrow> (True, Some (p\<lparr>fRw := enable\<rparr>)))"

definition Pmm_ToggleRw :: "PTEWrapper option \<Rightarrow> bool \<Rightarrow> bool \<times> PTEWrapper option" where
  "Pmm_ToggleRw r enable =
     (case r of None \<Rightarrow> (False, None) | Some p \<Rightarrow> (True, Some (p\<lparr>fRw := enable\<rparr>)))"

definition Pmm_ToggleShare :: "PTEWrapper option \<Rightarrow> bool \<Rightarrow> bool \<times> PTEWrapper option" where
  "Pmm_ToggleShare r enable =
     (case r of None \<Rightarrow> (False, None) | Some p \<Rightarrow> (True, Some (p\<lparr>fShareable := enable\<rparr>)))"

subsection \<open>The heap header\<close>

definition kKernelHeapMagic :: u64 where
  "kKernelHeapMagic = 0xD4D7D5"

definition kKernelHeapAlignSz :: nat where
  "kKernelHeapAlignSz = 16"

definition kKernelHeapMaxSize :: u64 where
  "kKernelHeapMaxSize = 2 * 1024 * 1024 * 1024"

text \<open>
  The packed layout: magic at 0, the four flag bits in the byte at 8, the checksum at 9, the
  allocation flags at 13, the size at 21, the target address at 29 and 16 bytes of padding at 37.
\<close>

definition sizeof_HIB :: nat where
  "sizeof_HIB = 8 + 1 + 4 + 8 + 8 + 8 + kKernelHeapAlignSz"

abbreviation hib_magic :: "nat \<Rightarrow> mem \<Rightarrow> u64" where "hib_magic h m \<equiv> load64 h m"
abbreviation hib_present :: "nat \<Rightarrow> mem \<Rightarrow> bool" where "hib_present h m \<equiv> bit (m (h + 8)) 0"
abbreviation hib_crc :: "nat \<Rightarrow> mem \<Rightarrow> u32" where "hib_crc h m \<equiv> load32 (h + 9) m"
abbreviation hib_flags :: "nat \<Rightarrow> mem \<Rightarrow> u64" where "hib_flags h m \<equiv> load64 (h + 13) m"
abbreviation hib_size :: "nat \<Rightarrow> mem \<Rightarrow> u64" where "hib_size h m \<equiv> load64 (h + 21) m"
abbreviation hib_ptr :: "nat \<Rightarrow> mem \<Rightarrow> u64" where "hib_ptr h m \<equiv> load64 (h + 29) m"

definition put_bit :: "nat \<Rightarrow> nat \<Rightarrow> bool \<Rightarrow> mem \<Rightarrow> mem" where
  "put_bit h n v m = store8 (h + 8) (if v then set_bit n (m (h + 8)) else unset_bit n (m (h + 8))) m"

abbreviation put_present :: "nat \<Rightarrow> bool \<Rightarrow> mem \<Rightarrow> mem" where "put_present h \<equiv> put_bit h 0"
abbreviation put_wr :: "nat \<Rightarrow> bool \<Rightarrow> mem \<Rightarrow> mem" where "put_wr h \<equiv> put_bit h 1"
abbreviation put_user :: "nat \<Rightarrow> bool \<Rightarrow> mem \<Rightarrow> mem" where "put_user h \<equiv> put_bit h 2"
abbreviation put_page :: "nat \<Rightarrow> bool \<Rightarrow> mem \<Rightarrow> mem" where "put_page h \<equiv> put_bit h 3"

text \<open>The header in front of a heap pointer: 64-bit subtraction.\<close>

definition hib_of :: "nat \<Rightarrow> nat" where
  "hib_of p = unat ((of_nat p :: u64) - of_nat sizeof_HIB)"

subsection \<open>Heap.cc\<close>

text \<open>
  The underflow test subtracts a \<^verbatim>\<open>sizeof\<close> (unsigned) and then asks whether the difference
  is below zero.
\<close>

definition mm_check_heap_address :: "nat \<Rightarrow> bool" where
  "mm_check_heap_address heap_ptr =
     (if heap_ptr = 0 then False
      else (let base_heap = (of_nat heap_ptr :: u64) - of_nat sizeof_HIB
            in if base_heap < 0 then False else True))"

definition mm_realloc_heap :: "nat \<Rightarrow> u64 \<Rightarrow> fault + nat" where
  "mm_realloc_heap ptr_heap new_sz =
     (if \<not> mm_check_heap_address ptr_heap then Inr 0
      else if ptr_heap = 0 \<or> new_sz < 1 then Inr 0
      else ke_panic RUNTIME_CHECK_PROCESS)"

definition init_HIB :: "nat \<Rightarrow> u64 \<Rightarrow> bool \<Rightarrow> bool \<Rightarrow> mem \<Rightarrow> mem" where
  "init_HIB h sz_fix w user =
     (\<lambda>m. snd (rt_set_memory (h + 37) 0 kKernelHeapAlignSz m)) \<circ>
     put_present h True \<circ> put_user h user \<circ> put_wr h w \<circ> put_page h False \<circ>
     store64 (h + 29) (of_nat (h + sizeof_HIB)) \<circ> store32 (h + 9) 0 \<circ>
     store64 h kKernelHeapMagic \<circ> store64 (h + 21) sz_fix"

definition mm_new_heap :: "kconf \<Rightarrow> u64 \<Rightarrow> bool \<Rightarrow> bool \<Rightarrow> kmem \<Rightarrow> fault + (nat \<times> kmem)" where
  "mm_new_heap c sz w user k =
     (if sz = 0 then Inr (0, k)
      else bindF (must_pass (debug c) (sz < kKernelHeapMaxSize)) (\<lambda>_.
        let sz_fix = sz + of_nat sizeof_HIB
        in bindF (PageMgr_Request c w user False sz_fix k) (\<lambda>(wrapper, k1).
             let h = PTEWrapper_VirtualAddress wrapper + sizeof_HIB;
                 k2 = kmem_upd (init_HIB h sz_fix w user) k1
             in Inr (unat (hib_ptr h (kbytes k2)), k2))))"

definition mm_make_page :: "nat \<Rightarrow> kmem \<Rightarrow> u32 \<times> kmem" where
  "mm_make_page heap_ptr k =
     (if \<not> mm_check_heap_address heap_ptr then (kErrorHeapNotPresent, k)
      else if hib_of heap_ptr = 0 then (kErrorHeapNotPresent, k)
      else (kErrorSuccess, kmem_upd (put_page (hib_of heap_ptr) True) k))"

definition mm_make_flags :: "nat \<Rightarrow> u64 \<Rightarrow> kmem \<Rightarrow> u32 \<times> kmem" where
  "mm_make_flags heap_ptr flags k =
     (if \<not> mm_check_heap_address heap_ptr then (kErrorHeapNotPresent, k)
      else if hib_of heap_ptr = 0 then (kErrorHeapNotPresent, k)
      else (kErrorSuccess, kmem_upd (store64 (hib_of heap_ptr + 13) flags) k))"

definition mm_get_flags :: "nat \<Rightarrow> kmem \<Rightarrow> u64" where
  "mm_get_flags heap_ptr k =
     (if hib_of heap_ptr = 0 then ucast kErrorHeapNotPresent
      else hib_flags (hib_of heap_ptr) (kbytes k))"

definition clear_HIB :: "nat \<Rightarrow> mem \<Rightarrow> mem" where
  "clear_HIB h =
     store64 h 0 \<circ> put_user h False \<circ> put_wr h False \<circ> store32 (h + 9) 0 \<circ>
     store64 (h + 29) 0 \<circ> put_present h False \<circ> store64 (h + 21) 0"

definition mm_delete_heap :: "nat \<Rightarrow> kmem \<Rightarrow> u32 \<times> kmem" where
  "mm_delete_heap heap_ptr k =
     (if \<not> mm_check_heap_address heap_ptr then (kErrorHeapNotPresent, k)
      else let h = hib_of heap_ptr in
        if h \<noteq> 0 \<and> hib_magic h (kbytes k) = kKernelHeapMagic then
          (if \<not> hib_present h (kbytes k) then (kErrorHeapNotPresent, k)
           else let k1 = kmem_upd (clear_HIB h) k;
                    (ok, k2) = PageMgr_Free (PTEWrapper_new False False False (hib_of h)) k1
                in (kErrorSuccess, k2))
        else (kErrorInternal, k))"

definition mm_is_valid_heap :: "nat \<Rightarrow> kmem \<Rightarrow> fault + bool" where
  "mm_is_valid_heap heap_ptr k =
     (let h = hib_of heap_ptr; m = kbytes k in
      if heap_ptr \<noteq> 0 \<and> mm_is_bitmap heap_ptr k then
        (if h \<noteq> 0 \<and> hib_present h m \<and> hib_magic h m = kKernelHeapMagic then
           bindF (ke_calculate_crc32 m (unat (hib_ptr h m)) (ucast (hib_size h m))) (\<lambda>crc.
             if hib_crc h m \<noteq> crc then Inr False else Inr True)
         else Inr False)
      else Inr False)"

definition mm_protect_heap :: "nat \<Rightarrow> kmem \<Rightarrow> fault + (bool \<times> kmem)" where
  "mm_protect_heap heap_ptr k =
     (let h = hib_of heap_ptr; m = kbytes k in
      if heap_ptr \<noteq> 0 \<and> h \<noteq> 0 \<and> hib_present h m \<and> kKernelHeapMagic = hib_magic h m then
        bindF (ke_calculate_crc32 m (unat (hib_ptr h m)) (ucast (hib_size h m))) (\<lambda>crc.
          Inr (True, kmem_upd (store32 (h + 9) crc) k))
      else Inr (False, k))"

subsection \<open>operator new and operator delete\<close>

definition operator_new :: "kconf \<Rightarrow> u64 \<Rightarrow> kmem \<Rightarrow> fault + (nat \<times> kmem)" where
  "operator_new c sz k = mm_new_heap c (if sz = 0 then sz + 1 else sz) True False k"

definition operator_delete :: "nat \<Rightarrow> kmem \<Rightarrow> kmem" where
  "operator_delete ptr k = (if ptr = 0 then k else snd (mm_delete_heap ptr k))"

text \<open>\<^verbatim>\<open>rt_alloc_string\<close> of \<^verbatim>\<open>Utils.cc\<close>; \<open>None\<close> is a scan that never ends.\<close>

definition rt_alloc_string :: "kconf \<Rightarrow> nat \<Rightarrow> kmem \<Rightarrow> (fault + (nat \<times> kmem)) option" where
  "rt_alloc_string c src k =
     (case rt_string_len (kbytes k) src of
        None \<Rightarrow> None
      | Some n \<Rightarrow>
         (case operator_new c (of_nat (n + 1)) k of
            Inl e \<Rightarrow> Some (Inl e)
          | Inr (string, k1) \<Rightarrow>
             (if string = 0 then Some (Inr (0, k1))
              else (case rt_string_len (kbytes k1) src of
                      None \<Rightarrow> None
                    | Some n1 \<Rightarrow>
                       Some (Inr (string, kmem_upd (\<lambda>m. snd (rt_copy_memory src string (n1 + 1) m)) k1))))))"

subsection \<open>The header after initialisation and after deletion\<close>

lemma sizeof_HIB_53 [simp]: "sizeof_HIB = 53"
  by (simp add: sizeof_HIB_def kKernelHeapAlignSz_def)

lemma hib_of_add: "53 \<le> p \<Longrightarrow> p < 2 ^ 64 \<Longrightarrow> hib_of p = p - 53"
proof -
  assume p: "53 \<le> p" "p < 2 ^ 64"
  then have "(of_nat p :: u64) - of_nat 53 = of_nat (p - 53)" by simp
  with p show ?thesis unfolding hib_of_def sizeof_HIB_53 by (simp only: unat_of_nat64_less)
qed

lemma put_bit_load64: "a + 8 \<le> h + 8 \<or> h + 9 \<le> a \<Longrightarrow> load64 a (put_bit h n v m) = load64 a m"
  unfolding put_bit_def by (rule load64_store8_other) auto

lemma put_bit_load32: "a + 4 \<le> h + 8 \<or> h + 9 \<le> a \<Longrightarrow> load32 a (put_bit h n v m) = load32 a m"
  unfolding put_bit_def by (rule load32_store8_other) auto

lemma put_bit_byte:
  "n < 8 \<Longrightarrow> bit (put_bit h n v m (h + 8)) j = (if j = n then v else bit (m (h + 8)) j)"
  by (auto simp: put_bit_def bit_set_bit_iff bit_unset_bit_iff)

lemma put_bit_other: "i \<noteq> h + 8 \<Longrightarrow> put_bit h n v m i = m i"
  by (simp add: put_bit_def store8_other)

lemma pad_load64:
  "a + 8 \<le> p \<or> p + 4 * n \<le> a \<Longrightarrow> load64 a (snd (rt_set_memory p v n m)) = load64 a m"
  by (rule load64_cong) (auto simp: rt_set_memory_def set_memory_loop_at)

lemma pad_byte:
  "i < p \<or> p + 4 * n \<le> i \<Longrightarrow> snd (rt_set_memory p v n m) i = m i"
  by (auto simp: rt_set_memory_def set_memory_loop_at)

lemma pad_load32:
  "a + 4 \<le> p \<or> p + 4 * n \<le> a \<Longrightarrow> load32 a (snd (rt_set_memory p v n m)) = load32 a m"
  unfolding load32_def
  by (rule arg_cong [of _ _ dec32]) (auto simp: read_bytes_def pad_byte)

lemmas heap_frames = put_bit_load64 put_bit_load32 pad_load64 pad_load32 pad_byte
  load_store64_other load64_store32_other load32_store64_other store64_outside store32_outside
  disjoint_ext_def

lemma init_HIB_fields:
  "hib_magic h (init_HIB h sz w user m) = kKernelHeapMagic"
  "hib_size h (init_HIB h sz w user m) = sz"
  "hib_ptr h (init_HIB h sz w user m) = of_nat (h + 53)"
  "hib_crc h (init_HIB h sz w user m) = 0"
  "hib_flags h (init_HIB h sz w user m) = hib_flags h m"
  by (simp_all add: init_HIB_def heap_frames)

lemma init_HIB_bits:
  "bit (init_HIB h sz w user m (h + 8)) 0"
  "bit (init_HIB h sz w user m (h + 8)) 1 = w"
  "bit (init_HIB h sz w user m (h + 8)) 2 = user"
  "\<not> bit (init_HIB h sz w user m (h + 8)) 3"
  by (simp_all add: init_HIB_def heap_frames put_bit_byte)

lemma init_HIB_frame:
  "i < h \<or> h + 101 \<le> i \<Longrightarrow> init_HIB h sz w user m i = m i"
  by (auto simp: init_HIB_def heap_frames put_bit_other kKernelHeapAlignSz_def)

lemma init_HIB_load64_below: "a + 8 \<le> h \<Longrightarrow> load64 a (init_HIB h sz w user m) = load64 a m"
  by (rule load64_cong) (simp add: init_HIB_frame)

lemma clear_HIB_fields: "hib_magic h (clear_HIB h m) = 0"
  by (simp add: clear_HIB_def)

lemma clear_HIB_load64_below: "a + 8 \<le> h \<Longrightarrow> load64 a (clear_HIB h m) = load64 a m"
  by (simp add: clear_HIB_def heap_frames)

text \<open>The region a heap request is served from.\<close>

definition heap_region :: "kconf \<Rightarrow> u64 \<Rightarrow> (u64 \<times> bool) list \<Rightarrow> nat" where
  "heap_region c sz bs = bitmp_start c + kPageSize + fit_offset (sz + 53) bs"

definition heap_ready :: "kconf \<Rightarrow> u64 \<Rightarrow> (u64 \<times> bool) list \<Rightarrow> kmem \<Rightarrow> bool" where
  "heap_ready c sz bs k \<longleftrightarrow>
     sz \<noteq> 0 \<and> sz < kKernelHeapMaxSize \<and> chain (kbytes k) (bitmp_start c + kPageSize) bs \<and>
     length bs < walk_fuel c \<and> heap_region c sz bs + 2 ^ 32 < 2 ^ 64"

lemma heap_size_fix: "sz < kKernelHeapMaxSize \<Longrightarrow> unat (sz + 53) = unat sz + 53"
  using unat_mult_add_small [of sz 1 53] by (simp add: kKernelHeapMaxSize_def word_less_nat_alt)

lemma mm_new_heap_eq:
  assumes "heap_ready c sz bs k"
  defines "p \<equiv> heap_region c sz bs"
  shows "mm_new_heap c sz w user k =
    Inr (p + 106, mm_map_page p (MakeMMFlags w user)
      (kmem_upd (init_HIB (p + 53) (sz + 53) w user \<circ> claim p (sz + 53)) k))"
proof -
  have sz: "sz \<noteq> 0" "sz < kKernelHeapMaxSize" and ch: "chain (kbytes k) (bitmp_start c + kPageSize) bs"
    and fuel: "length bs < walk_fuel c" and small: "p + 2 ^ 32 < 2 ^ 64"
    using assms by (auto simp: heap_ready_def p_def)
  have "unat (sz + 53) \<noteq> 0" by (simp add: heap_size_fix [OF sz(2)])
  then have "sz + 53 \<noteq> 0" by auto
  from FindBitMap_chain [OF this ch fuel, of w user]
  have "PageMgr_Request c w user False (sz + 53) k =
      Inr (PTEWrapper_new w user False p,
        mm_map_page p (MakeMMFlags w user) (kmem_upd (claim p (sz + 53)) k))"
    by (simp add: PageMgr_Request_def mm_alloc_bitmap_def p_def heap_region_def kPageSize_def)
  moreover have "unat (of_nat (p + 53 + 53) :: u64) = p + 106"
    using small by (subst unat_of_nat64_less) simp_all
  ultimately show ?thesis
    using sz by (simp add: mm_new_heap_def PTEWrapper_new_def PTEWrapper_VirtualAddress_def
        mm_map_page_def init_HIB_fields o_def add.assoc Let_def del: of_nat_add)
qed

subsection \<open>Fresh heaps\<close>

text \<open>
  A heap on which nothing has been freed and that has never been used past its last region. Requests
  of at least 37 bytes keep it so: every byte but zero they write is inside their own region.
\<close>

definition heap_end :: "kconf \<Rightarrow> (u64 \<times> bool) list \<Rightarrow> nat" where
  "heap_end c bs = bitmp_start c + kPageSize + chain_span bs"

definition heap_fresh :: "kconf \<Rightarrow> (u64 \<times> bool) list \<Rightarrow> kmem \<Rightarrow> bool" where
  "heap_fresh c bs k \<longleftrightarrow>
     chain_to (kbytes k) (bitmp_start c + kPageSize) bs \<and> (\<forall>b \<in> set bs. snd b) \<and>
     (\<forall>i \<ge> heap_end c bs. kbytes k i = 0)"

lemma load64_zeros: "(\<And>i. a \<le> i \<Longrightarrow> i < a + 8 \<Longrightarrow> m i = 0) \<Longrightarrow> load64 a m = 0"
  using load64_cong [of a m "\<lambda>_. 0"] by simp

lemma chain_span_append: "chain_span (as @ bs) = chain_span as + chain_span bs"
  by (induction as rule: chain_span.induct) simp_all

lemma first_fit_all_used: "\<forall>b \<in> set bs. snd b \<Longrightarrow> first_fit sz bs = length bs"
  using first_fit_skip [of bs sz "[]"] by (simp add: case_prod_beta)

lemma pad_zero: "p \<le> i \<Longrightarrow> i < p + 4 * n \<Longrightarrow> snd (rt_set_memory p 0 n m) i = 0"
proof -
  assume i: "p \<le> i" "i < p + 4 * n"
  have "le_bytes k 0 = replicate k 0" for k by (induction k) simp_all
  then have "enc32 0 ! j = 0" if "j < 4" for j
    using that by (simp add: enc32_def)
  with i show ?thesis by (simp add: rt_set_memory_def set_memory_loop_at)
qed

lemma init_HIB_pad: "h + 37 \<le> i \<Longrightarrow> i < h + 101 \<Longrightarrow> init_HIB h sz w user m i = 0"
  by (simp add: init_HIB_def pad_zero kKernelHeapAlignSz_def)

lemma mm_new_heap_fresh:
  assumes "heap_fresh c bs k" and "37 \<le> unat sz" and "sz < kKernelHeapMaxSize"
    and "length bs < walk_fuel c" and "heap_end c bs + 2 ^ 32 < 2 ^ 64"
  shows "\<exists>k'. mm_new_heap c sz w user k = Inr (heap_end c bs + 106, k') \<and>
    heap_fresh c (bs @ [(sz + 53, True)]) k' \<and> cr3 k' = cr3 k \<and>
    (\<forall>i < heap_end c bs. kbytes k' i = kbytes k i)"
proof -
  let ?p = "heap_end c bs"
  have used: "\<forall>b \<in> set bs. snd b" and zero: "\<And>i. ?p \<le> i \<Longrightarrow> kbytes k i = 0"
    and front: "chain_to (kbytes k) (bitmp_start c + kPageSize) bs"
    using assms(1) by (simp_all add: heap_fresh_def)
  have region: "heap_region c sz bs = ?p"
    using used by (simp add: heap_region_def heap_end_def first_fit_end first_fit_all_used)
  have "load64 ?p (kbytes k) = 0" by (rule load64_zeros) (rule zero)
  then have "chain (kbytes k) (bitmp_start c + kPageSize) bs"
    using front chain_append [of "kbytes k" "bitmp_start c + kPageSize" bs "[]"]
    by (simp add: heap_end_def kBitMapMagic_def)
  moreover have "sz \<noteq> 0" using assms(2) by auto
  ultimately have ready: "heap_ready c sz bs k"
    using assms(3-5) by (simp add: heap_ready_def region)
  define m where "m = init_HIB (?p + 53) (sz + 53) w user (claim ?p (sz + 53) (kbytes k))"
  have sz: "unat (sz + 53) = unat sz + 53" by (rule heap_size_fix [OF assms(3)])
  have below: "m i = kbytes k i" if "i < ?p" for i
    using that by (simp add: m_def init_HIB_frame claim_frame)
  have "chain_to m (bitmp_start c + kPageSize) bs"
    using front by (rule chain_to_frame) (simp add: below heap_end_def)
  moreover have "bm_magic ?p m = kBitMapMagic" "bm_size ?p m = sz + 53" "bm_used ?p m = 1"
    by (simp_all add: m_def init_HIB_load64_below claim_header)
  ultimately have "chain_to m (bitmp_start c + kPageSize) (bs @ [(sz + 53, True)])"
    using sz chain_append_to [of m _ bs "[(sz + 53, True)]"] by (simp add: heap_end_def)
  moreover have "m i = 0" if "?p + unat sz + 53 \<le> i" for i
  proof (cases "i < ?p + 154")
    case True
    then show ?thesis using that assms(2) by (simp add: m_def init_HIB_pad)
  next
    case False
    then show ?thesis by (simp add: m_def init_HIB_frame claim_frame zero)
  qed
  ultimately have "heap_fresh c (bs @ [(sz + 53, True)]) (mm_map_page ?p (MakeMMFlags w user) (k\<lparr>kbytes := m\<rparr>))"
    using used sz by (simp add: heap_fresh_def mm_map_page_def heap_end_def chain_span_append)
  then show ?thesis
    using mm_new_heap_eq [OF ready, of w user] below
    by (simp add: region m_def mm_map_page_def)
qed

lemma operator_new_fresh:
  assumes "heap_fresh c bs k" and "37 \<le> unat sz" and "sz < kKernelHeapMaxSize"
    and "length bs < walk_fuel c" and "heap_end c bs + 2 ^ 32 < 2 ^ 64"
  shows "\<exists>k'. operator_new c sz k = Inr (heap_end c bs + 106, k') \<and>
    heap_fresh c (bs @ [(sz + 53, True)]) k' \<and> cr3 k' = cr3 k \<and>
    (\<forall>i < heap_end c bs. kbytes k' i = kbytes k i)"
proof -
  have "sz \<noteq> 0" using assms(2) by auto
  then show ?thesis unfolding operator_new_def using mm_new_heap_fresh [OF assms] by simp
qed

lemma heap_fresh_map [simp]: "heap_fresh c bs (mm_map_page p fl k) = heap_fresh c bs k"
  by (simp add: heap_fresh_def mm_map_page_def)

subsection \<open>Properties\<close>

text \<open>
  C4. A block's life on the heap: in a kernel whose regions form a chain, \<^verbatim>\<open>mm_new_heap\<close>
  returns a block with a live header of the requested rights; \<^verbatim>\<open>mm_delete_heap\<close> of that block
  succeeds and marks its region unused; deleting it a second time is refused with
  \<^verbatim>\<open>kErrorInternal\<close> and changes nothing.
\<close>

theorem heap_new_delete_delete:
  assumes "heap_ready c sz bs k"
  shows "\<exists>p k1 k2. mm_new_heap c sz w user k = Inr (p + 106, k1) \<and>
    hib_magic (p + 53) (kbytes k1) = kKernelHeapMagic \<and> hib_present (p + 53) (kbytes k1) \<and>
    hib_size (p + 53) (kbytes k1) = sz + 53 \<and>
    bit (kbytes k1 (p + 61)) 1 = w \<and> bit (kbytes k1 (p + 61)) 2 = user \<and>
    bm_used p (kbytes k1) = 1 \<and>
    mm_delete_heap (p + 106) k1 = (kErrorSuccess, k2) \<and>
    bm_magic p (kbytes k2) = kBitMapMagic \<and> bm_used p (kbytes k2) = 0 \<and>
    mm_delete_heap (p + 106) k2 = (kErrorInternal, k2)"
proof -
  define p where "p = heap_region c sz bs"
  have small: "p + 2 ^ 32 < 2 ^ 64" and p: "p \<noteq> 0"
    using assms by (auto simp: heap_ready_def p_def heap_region_def kPageSize_def)
  define k1 where "k1 = mm_map_page p (MakeMMFlags w user)
      (kmem_upd (init_HIB (p + 53) (sz + 53) w user \<circ> claim p (sz + 53)) k)"
  define m1 where "m1 = init_HIB (p + 53) (sz + 53) w user (claim p (sz + 53) (kbytes k))"
  have new: "mm_new_heap c sz w user k = Inr (p + 106, k1)"
    using mm_new_heap_eq [OF assms] by (simp add: p_def k1_def)
  have m1: "kbytes k1 = m1" by (simp add: k1_def mm_map_page_def m1_def)
  have h: "hib_of (p + 106) = p + 53" "hib_of (p + 53) = p"
    using small by (simp_all add: hib_of_add)
  have chk: "mm_check_heap_address (p + 106)" by (simp add: mm_check_heap_address_def)
  have hdr: "bm_magic p m1 = kBitMapMagic" "bm_used p m1 = 1"
    by (simp_all add: m1_def init_HIB_load64_below claim_header)
  define m2 where "m2 = store64 (p + 16) 0 (store64 p kBitMapMagic (clear_HIB (p + 53) m1))"
  define k2 where "k2 = k1\<lparr>kbytes := m2\<rparr>"
  have "IsBitMap p (clear_HIB (p + 53) m1)"
    using p by (simp add: IsBitMap_def clear_HIB_load64_below hdr kBitMapMagic_def)
  then have del: "mm_delete_heap (p + 106) k1 = (kErrorSuccess, k2)"
    using p chk by (simp add: mm_delete_heap_def h m1 Let_def PageMgr_Free_def mm_free_bitmap_def
        PTEWrapper_new_def PTEWrapper_VirtualAddress_def FreeBitMap_def k2_def m2_def)
      (use init_HIB_bits(1) [of "p + 53" "sz + 53" w user "claim p (sz + 53) (kbytes k)"] in
        \<open>simp add: m1_def init_HIB_fields ac_simps\<close>)
  have "hib_magic (p + 53) m2 = 0"
    by (simp add: m2_def load_store64_other disjoint_ext_def clear_HIB_fields)
  then have again: "mm_delete_heap (p + 106) k2 = (kErrorInternal, k2)"
    using chk by (simp add: mm_delete_heap_def h k2_def kKernelHeapMagic_def)
  have "bm_magic p (kbytes k2) = kBitMapMagic" "bm_used p (kbytes k2) = 0"
    by (simp_all add: k2_def m2_def load_store64_other disjoint_ext_def)
  moreover have "hib_magic (p + 53) m1 = kKernelHeapMagic" "hib_present (p + 53) m1"
    "hib_size (p + 53) m1 = sz + 53"
    "bit (m1 (p + 61)) 1 = w" "bit (m1 (p + 61)) 2 = user"
    using init_HIB_bits [of "p + 53" "sz + 53" w user "claim p (sz + 53) (kbytes k)"]
      init_HIB_fields(1,2) [of "p + 53" "sz + 53" w user "claim p (sz + 53) (kbytes k)"]
    by (simp_all add: m1_def ac_simps)
  ultimately show ?thesis using new del again hdr unfolding m1 [symmetric] by blast
qed

text \<open>A small machine for the witnesses: empty memory, the walk starting at address 0.\<close>

definition tiny_conf :: kconf where
  "tiny_conf = \<lparr>debug = True, bitmp_start = 0, walk_fuel = 1\<rparr>"

definition tiny_kmem :: kmem where
  "tiny_kmem = \<lparr>kbytes = (\<lambda>_. 0), map_log = [], cr3 = 0\<rparr>"

lemma tiny_heap_ready: "sz \<noteq> 0 \<Longrightarrow> sz < kKernelHeapMaxSize \<Longrightarrow> heap_ready tiny_conf sz [] tiny_kmem"
  by (simp add: heap_ready_def tiny_conf_def tiny_kmem_def kBitMapMagic_def heap_region_def
      fit_offset_def kPageSize_def)

theorem heap_new_delete_delete_witness:
  "\<exists>p k1 k2. mm_new_heap tiny_conf 100 True False tiny_kmem = Inr (p + 106, k1) \<and>
     mm_delete_heap (p + 106) k1 = (kErrorSuccess, k2) \<and>
     mm_delete_heap (p + 106) k2 = (kErrorInternal, k2)"
proof -
  have "heap_ready tiny_conf 100 [] tiny_kmem"
    by (rule tiny_heap_ready) (simp_all add: kKernelHeapMaxSize_def)
  from heap_new_delete_delete [OF this, of True False] show ?thesis by blast
qed

text \<open>
  A heap block does not fit its region: the region is \<open>sz + 53\<close> bytes, but the header stands
  53 bytes into it, so the caller's \<open>sz\<close> bytes end 53 bytes past the region's end, where the walk
  puts the header of the next one.
\<close>

theorem heap_block_overruns_region:
  assumes "heap_ready c sz bs k"
  shows "\<exists>p k1. mm_new_heap c sz w user k = Inr (p + 106, k1) \<and>
    bm_magic p (kbytes k1) = kBitMapMagic \<and>
    p + 106 + unat sz = p + unat (bm_size p (kbytes k1)) + 53"
proof -
  define p where "p = heap_region c sz bs"
  have "sz < kKernelHeapMaxSize" using assms by (simp add: heap_ready_def)
  then have "unat (sz + 53) = unat sz + 53" by (rule heap_size_fix)
  with mm_new_heap_eq [OF assms, of w user] show ?thesis
    unfolding p_def [symmetric]
    by (simp add: mm_map_page_def init_HIB_load64_below claim_header)
qed

theorem heap_block_overruns_region_witness:
  "\<exists>p k1. mm_new_heap tiny_conf 100 True False tiny_kmem = Inr (p + 106, k1) \<and>
     p + 106 + 100 = p + unat (bm_size p (kbytes k1)) + 53"
proof -
  have "heap_ready tiny_conf 100 [] tiny_kmem"
    by (rule tiny_heap_ready) (simp_all add: kKernelHeapMaxSize_def)
  from heap_block_overruns_region [OF this, of True False] show ?thesis by auto
qed

text \<open>
  The address check accepts every non-null pointer: the subtraction it tests is unsigned, so
  the branch for an underflow is never taken.
\<close>

theorem mm_check_heap_address_is_null_check: "mm_check_heap_address p \<longleftrightarrow> p \<noteq> 0"
  by (simp add: mm_check_heap_address_def Let_def)

text \<open>
  \<^verbatim>\<open>Pmm::RequestPage\<close> never gives a page: it takes the present bit, which every new
  wrapper carries, for the sign of a failed allocation, so whenever it returns the result is empty
  although a bitmap region was claimed for it.
\<close>

theorem Pmm_RequestPage_always_empty:
  "Pmm_RequestPage c user readWrite k = Inr (r, k') \<Longrightarrow> r = None"
  by (auto simp: Pmm_RequestPage_def PageMgr_Request_def PTEWrapper_new_def bindF_eq_Inr
      split: prod.splits if_splits)

theorem Pmm_RequestPage_always_empty_witness:
  "\<exists>r k'. Pmm_RequestPage tiny_conf True True tiny_kmem = Inr (r, k') \<and> r = None"
proof -
  have "chain (kbytes tiny_kmem) (bitmp_start tiny_conf + kPageSize) []"
    by (simp add: tiny_kmem_def kBitMapMagic_def)
  from FindBitMap_chain [OF _ this, of "of_nat kPageSize" 1 True True]
  obtain r k' where "Pmm_RequestPage tiny_conf True True tiny_kmem = Inr (r, k')"
    by (simp add: Pmm_RequestPage_def PageMgr_Request_def mm_alloc_bitmap_def tiny_conf_def
        kPageSize_def PTEWrapper_new_def)
  then show ?thesis using Pmm_RequestPage_always_empty by blast
qed

end
