(* ===== verification/HwThreads.thy ===== *)
theory HwThreads
  imports HeapMgr
begin

text \<open>
  The hardware threads and their scheduler: \<^verbatim>\<open>HardwareThreadScheduler.cc\<close>, its header,
  and the part of \<^verbatim>\<open>HALKit/AMD64/HalApplicationProcessor.cc\<close> that hands a stack frame to
  an application processor.

  \<open>hw\<close> is the scheduler singleton together with the static state the file and the HAL keep:
  the busy timer that all threads share (a \<^verbatim>\<open>STATIC\<close> of \<^verbatim>\<open>IsBusy\<close>), the table of
  frames per process, the first APIC id, and the list of start-up interrupts sent so far (the
  APIC registers are hardware; the wait for the delivery bit is taken to end). A pointer to a
  hardware thread is its index.
\<close>

datatype ThreadKind = kAPSystemReserved | kAPStandard | kAPBoot | kInvalidAP | kAPCount

record HardwareThread =
  fStack :: nat
  fKind :: ThreadKind
  fID :: u32
  fSourcePID :: u32
  fWakeup :: bool
  fBusy :: bool
  fPTime :: u64

definition HardwareThread_new :: HardwareThread where
  "HardwareThread_new =
     \<lparr>fStack = 0, fKind = kAPStandard, fID = 0, fSourcePID = 0, fWakeup = False, fBusy = False,
      fPTime = 0\<rparr>"

definition kMaxAPInsideSched :: nat where
  "kMaxAPInsideSched = 8"

definition kSchedProcessLimitPerTeam :: nat where
  "kSchedProcessLimitPerTeam = 32"

record hw =
  fThreadList :: "HardwareThread list"
  fCurrentThread :: u32
  busy_timer :: u64
  kProcessBlocks :: "nat list"
  kAPICLocales0 :: u32
  ipi_log :: "(u32 \<times> u8) list"

definition hw_boot :: hw where
  "hw_boot =
     \<lparr>fThreadList = replicate kMaxAPInsideSched HardwareThread_new, fCurrentThread = 0,
      busy_timer = 0, kProcessBlocks = replicate kSchedProcessLimitPerTeam 0,
      kAPICLocales0 = 0, ipi_log = []\<rparr>"

definition hw_ok :: "hw \<Rightarrow> bool" where
  "hw_ok H \<longleftrightarrow> length (fThreadList H) = kMaxAPInsideSched \<and>
     length (kProcessBlocks H) = kSchedProcessLimitPerTeam"

abbreviation thread_upd :: "nat \<Rightarrow> (HardwareThread \<Rightarrow> HardwareThread) \<Rightarrow> hw \<Rightarrow> hw" where
  "thread_upd i f H \<equiv> H\<lparr>fThreadList := (fThreadList H)[i := f (fThreadList H ! i)]\<rparr>"

subsection \<open>A hardware thread\<close>

definition HardwareThread_ID :: "HardwareThread \<Rightarrow> u32" where
  "HardwareThread_ID t = fID t"

definition HardwareThread_Kind :: "HardwareThread \<Rightarrow> ThreadKind" where
  "HardwareThread_Kind t = fKind t"

text \<open>The timer is signed and the allowance unsigned, so they are compared as unsigned words.\<close>

definition HardwareThread_IsBusy :: "u64 \<Rightarrow> HardwareThread \<Rightarrow> bool \<times> HardwareThread \<times> u64" where
  "HardwareThread_IsBusy timer t =
     (let (timer1, t1) = (if fBusy t \<and> timer > fPTime t then (0, t\<lparr>fBusy := False\<rparr>) else (timer, t))
      in (fBusy t1, t1, timer1 + 1))"

definition HardwareThread_StackFrame :: "bool \<Rightarrow> HardwareThread \<Rightarrow> fault + nat" where
  "HardwareThread_StackFrame dbg t = bindF (must_pass dbg (fStack t \<noteq> 0)) (\<lambda>_. Inr (fStack t))"

definition HardwareThread_Busy :: "bool \<Rightarrow> HardwareThread \<Rightarrow> HardwareThread" where
  "HardwareThread_Busy busy t = t\<lparr>fBusy := busy\<rparr>"

definition HardwareThread_Wake :: "bool \<Rightarrow> HardwareThread \<Rightarrow> HardwareThread" where
  "HardwareThread_Wake wakeup t = t\<lparr>fWakeup := wakeup\<rparr>"

definition HardwareThread_IsWakeup :: "HardwareThread \<Rightarrow> bool" where
  "HardwareThread_IsWakeup t = fWakeup t"

text \<open>\<^verbatim>\<open>operator bool\<close> polls \<^verbatim>\<open>IsBusy\<close> only behind a frame, and so ages the timer.\<close>

definition HardwareThread_bool ::
  "bool \<Rightarrow> u64 \<Rightarrow> HardwareThread \<Rightarrow> fault + (bool \<times> HardwareThread \<times> u64)" where
  "HardwareThread_bool dbg timer t =
     bindF (HardwareThread_StackFrame dbg t) (\<lambda>frame.
       if frame = 0 then Inr (False, t, timer)
       else (let (busy, t1, timer1) = HardwareThread_IsBusy timer t in Inr (\<not> busy, t1, timer1)))"

subsection \<open>The HAL's process table (HalApplicationProcessor.cc)\<close>

text \<open>C++ remainder: the sign of the dividend.\<close>

definition crem :: "int \<Rightarrow> int \<Rightarrow> int" where
  "crem a b = (if a < 0 then - ((- a) mod b) else a mod b)"

definition hal_send_sipi :: "u32 \<Rightarrow> u8 \<Rightarrow> hw \<Rightarrow> hw" where
  "hal_send_sipi apic_id vector H = H\<lparr>ipi_log := ipi_log H @ [(apic_id, vector)]\<rparr>"

definition mp_get_current_context :: "int \<Rightarrow> hw \<Rightarrow> fault + nat" where
  "mp_get_current_context pid H =
     (let process_index = crem pid (int kSchedProcessLimitPerTeam)
      in if process_index < 0 then Inl OutOfBounds else Inr (kProcessBlocks H ! nat process_index))"

text \<open>Offsets of \<^verbatim>\<open>SP\<close> and \<^verbatim>\<open>BP\<close> in the packed \<^verbatim>\<open>HAL::StackFrame\<close>.\<close>

abbreviation frame_SP :: "nat \<Rightarrow> nat" where "frame_SP f \<equiv> f + 72"
abbreviation frame_BP :: "nat \<Rightarrow> nat" where "frame_BP f \<equiv> f + 80"

definition sizeof_StackFrame :: nat where
  "sizeof_StackFrame = 11 * 8"

definition mp_register_process :: "bool \<Rightarrow> nat \<Rightarrow> int \<Rightarrow> mem \<Rightarrow> hw \<Rightarrow> fault + (bool \<times> hw)" where
  "mp_register_process dbg stack_frame pid m H =
     bindF (must_pass dbg (stack_frame \<noteq> 0)) (\<lambda>_.
       let process_index = crem pid (int kSchedProcessLimitPerTeam) in
       if process_index < 0 then Inl OutOfBounds
       else let H1 = H\<lparr>kProcessBlocks := (kProcessBlocks H)[nat process_index := stack_frame]\<rparr> in
         if stack_frame = 0 then Inl NullDeref
         else Inr (True, hal_send_sipi (kAPICLocales0 H1)
                (ucast (drop_bit 12 (load64 (frame_BP stack_frame) m))) H1))"

subsection \<open>Switching a hardware thread to a process\<close>

definition HardwareThread_Switch ::
  "bool \<Rightarrow> nat \<Rightarrow> nat \<Rightarrow> nat \<Rightarrow> nat \<Rightarrow> u32 \<Rightarrow> mem \<Rightarrow> hw \<Rightarrow> fault + (bool \<times> mem \<times> hw)" where
  "HardwareThread_Switch dbg i image_ptr stack_ptr frame pid m H =
     (let (busy, t, timer) = HardwareThread_IsBusy (busy_timer H) (fThreadList H ! i);
          H1 = H\<lparr>fThreadList := (fThreadList H)[i := t], busy_timer := timer\<rparr> in
      if busy then Inr (False, m, H1)
      else let H2 = thread_upd i (\<lambda>t. t\<lparr>fStack := frame, fSourcePID := pid\<rparr>) H1 in
        if frame = 0 then Inl NullDeref
        else let m1 = store64 (frame_SP frame) (of_nat stack_ptr)
                       (store64 (frame_BP frame) (of_nat image_ptr) m) in
          bindF (mp_register_process dbg frame (uint pid) m1 H2) (\<lambda>(ret, H3). Inr (ret, m1, H3)))"

subsection \<open>The scheduler\<close>

text \<open>\<^verbatim>\<open>Array\<close> counts its extent, and calls itself empty when that is positive.\<close>

definition Array_Count :: "'a list \<Rightarrow> nat" where
  "Array_Count xs = length xs"

definition Array_Empty :: "'a list \<Rightarrow> bool" where
  "Array_Empty xs = (Array_Count xs > 0)"

definition Array_bool :: "'a list \<Rightarrow> bool" where
  "Array_bool xs = (\<not> Array_Empty xs)"

definition HwSched_Leak :: "hw \<Rightarrow> fault + nat" where
  "HwSched_Leak H =
     (if unat (fCurrentThread H) < length (fThreadList H)
      then Inr (fStack (fThreadList H ! unat (fCurrentThread H))) else Inl OutOfBounds)"

text \<open>\<^verbatim>\<open>operator[]\<close> gives a thread, or the null thread past the last one; it makes thread 0 the
  boot processor on the way unless that is reserved.\<close>

definition HwSched_at :: "nat \<Rightarrow> hw \<Rightarrow> nat option \<times> hw" where
  "HwSched_at idx H =
     (if idx = 0 then
        (if HardwareThread_Kind (fThreadList H ! 0) \<noteq> kAPSystemReserved
         then (Some 0, thread_upd 0 (\<lambda>t. t\<lparr>fKind := kAPBoot\<rparr>) H) else (Some 0, H))
      else if idx \<ge> kMaxAPInsideSched then (None, H)
      else (Some idx, H))"

definition HwSched_bool :: "hw \<Rightarrow> bool" where
  "HwSched_bool H = (\<not> Array_Empty (fThreadList H))"

definition HwSched_not :: "hw \<Rightarrow> bool" where
  "HwSched_not H = Array_Empty (fThreadList H)"

definition HwSched_Capacity :: "hw \<Rightarrow> nat" where
  "HwSched_Capacity H = Array_Count (fThreadList H)"

subsection \<open>Lemmas\<close>

lemma hw_boot_ok: "hw_ok hw_boot"
  by (simp add: hw_ok_def hw_boot_def)

lemma HwSched_at_ok: "hw_ok H \<Longrightarrow> hw_ok (snd (HwSched_at idx H))"
  by (simp add: HwSched_at_def hw_ok_def)

lemma hw_ok_thread_upd: "hw_ok H \<Longrightarrow> hw_ok (thread_upd i f H)"
  by (simp add: hw_ok_def)

lemma HardwareThread_Switch_ok:
  "hw_ok H \<Longrightarrow> HardwareThread_Switch dbg i img st fr pid m H = Inr (r, m', H') \<Longrightarrow> hw_ok H'"
  by (auto simp: HardwareThread_Switch_def mp_register_process_def hal_send_sipi_def hw_ok_def
      bindF_eq_Inr Let_def split: prod.splits if_splits)

text \<open>Polling a thread \<open>n\<close> times, with the shared timer.\<close>

fun poll_busy :: "nat \<Rightarrow> u64 \<Rightarrow> HardwareThread \<Rightarrow> bool list \<times> HardwareThread \<times> u64" where
  "poll_busy 0 timer t = ([], t, timer)"
| "poll_busy (Suc n) timer t =
     (let (b, t1, timer1) = HardwareThread_IsBusy timer t;
          (bs, t2, timer2) = poll_busy n timer1 t1
      in (b # bs, t2, timer2))"

lemma IsBusy_before: "fBusy t \<Longrightarrow> timer \<le> fPTime t \<Longrightarrow> HardwareThread_IsBusy timer t = (True, t, timer + 1)"
  by (simp add: HardwareThread_IsBusy_def)

lemma IsBusy_after:
  "fBusy t \<Longrightarrow> timer > fPTime t \<Longrightarrow> HardwareThread_IsBusy timer t = (False, t\<lparr>fBusy := False\<rparr>, 1)"
  by (simp add: HardwareThread_IsBusy_def)

lemma IsBusy_free: "\<not> fBusy t \<Longrightarrow> HardwareThread_IsBusy timer t = (False, t, timer + 1)"
  by (simp add: HardwareThread_IsBusy_def)

lemma fst_poll_Suc:
  "HardwareThread_IsBusy timer t = (b, t1, timer1) \<Longrightarrow>
   fst (poll_busy (Suc n) timer t) = b # fst (poll_busy n timer1 t1)"
  by (simp add: case_prod_beta)

declare poll_busy.simps(2) [simp del]

lemma poll_free: "\<not> fBusy t \<Longrightarrow> fst (poll_busy n timer t) = replicate n False"
  by (induction n arbitrary: timer) (simp_all add: fst_poll_Suc [OF IsBusy_free])

lemma poll_busy_from:
  assumes "fBusy t" and "unat timer + k = unat (fPTime t) + 1" and "unat (fPTime t) + 1 < 2 ^ 64"
  shows "fst (poll_busy (k + Suc n) timer t) = replicate k True @ replicate (Suc n) False"
  using assms
proof (induction k arbitrary: timer)
  case 0
  then have "timer > fPTime t" by (simp add: word_less_nat_alt)
  from fst_poll_Suc [OF IsBusy_after [OF 0(1) this], of n]
  show ?case by (simp add: poll_free)
next
  case (Suc k)
  then have le: "timer \<le> fPTime t" by (simp add: word_le_nat_alt)
  have "unat (timer + 1) = unat timer + 1"
    using Suc.prems unat_mult_add_small [of timer 1 1] by simp
  with Suc.prems have "fst (poll_busy (k + Suc n) (timer + 1) t) = replicate k True @ replicate (Suc n) False"
    by (intro Suc.IH) simp_all
  then show ?case
    using fst_poll_Suc [OF IsBusy_before [OF Suc.prems(1) le], of "k + Suc n"]
    by simp
qed

subsection \<open>Properties\<close>

text \<open>
  A busy thread frees itself: a thread marked busy, polled alone from a fresh timer, answers
  busy exactly \<open>fPTime + 1\<close> times and free from then on, whatever the length of the polling. (The
  one allowance it cannot outlive is the largest 64-bit number.)
\<close>

theorem IsBusy_expires:
  assumes "fBusy t" and "unat (fPTime t) + 1 < 2 ^ 64"
  shows "fst (poll_busy (unat (fPTime t) + 1 + Suc n) 0 t) =
    replicate (unat (fPTime t) + 1) True @ replicate (Suc n) False"
  by (rule poll_busy_from) (use assms in simp_all)

theorem IsBusy_expires_witness:
  "fst (poll_busy (1 + 1 + Suc 3) 0 (HardwareThread_new\<lparr>fBusy := True, fPTime := 1\<rparr>)) =
   replicate (1 + 1) True @ replicate (Suc 3) False"
  using IsBusy_expires [of "HardwareThread_new\<lparr>fBusy := True, fPTime := 1\<rparr>" 3]
  unfolding HardwareThread.simps HardwareThread.update_convs unsigned_1 by simp

text \<open>
  Switching a thread: a busy thread is left on its frame and the caller is told so; a free one
  takes the frame, has the image and the stack written into it, the frame is recorded under the
  process's slot and one start-up interrupt goes out for the image's page; a null frame faults.
\<close>

theorem HardwareThread_Switch_spec:
  assumes "hw_ok H" and "i < kMaxAPInsideSched"
  defines "t \<equiv> fThreadList H ! i"
  shows "(if fBusy t \<and> busy_timer H \<le> fPTime t then
      HardwareThread_Switch dbg i img st fr pid m H = Inr (False, m, H\<lparr>busy_timer := busy_timer H + 1\<rparr>)
    else if fr = 0 then HardwareThread_Switch dbg i img st fr pid m H = Inl NullDeref
    else \<exists>m' H'. HardwareThread_Switch dbg i img st fr pid m H = Inr (True, m', H') \<and>
      load64 (frame_BP fr) m' = of_nat img \<and> load64 (frame_SP fr) m' = of_nat st \<and>
      fThreadList H' ! i = t\<lparr>fStack := fr, fSourcePID := pid, fBusy := False\<rparr> \<and>
      mp_get_current_context (uint pid) H' = Inr fr \<and>
      ipi_log H' = ipi_log H @ [(kAPICLocales0 H, ucast (drop_bit 12 (of_nat img :: u64)))])"
proof -
  have len: "length (fThreadList H) = 8" "length (kProcessBlocks H) = 32" and i: "i < 8"
    using assms by (simp_all add: hw_ok_def kMaxAPInsideSched_def kSchedProcessLimitPerTeam_def)
  have slot: "0 \<le> crem (uint pid) 32" "nat (crem (uint pid) 32) < 32"
    by (simp_all add: crem_def nat_less_iff)
  show ?thesis
  proof (cases "fBusy t \<and> busy_timer H \<le> fPTime t")
    case True
    then show ?thesis
      by (simp add: HardwareThread_Switch_def IsBusy_before t_def Let_def)
  next
    case False
    then have "\<exists>timer. HardwareThread_IsBusy (busy_timer H) t = (False, t\<lparr>fBusy := False\<rparr>, timer)"
      by (cases "fBusy t") (auto simp: IsBusy_after IsBusy_free not_le)
    then show ?thesis
      using False i slot len
      by (auto simp: HardwareThread_Switch_def t_def Let_def mp_register_process_def
          mp_get_current_context_def hal_send_sipi_def kSchedProcessLimitPerTeam_def
          load_store64_other disjoint_ext_def not_less)
  qed
qed

theorem HardwareThread_Switch_spec_witness:
  "\<exists>m' H'. HardwareThread_Switch True 1 0x5000 64 0x100 3 (\<lambda>_. 0) hw_boot = Inr (True, m', H') \<and>
     load64 (frame_BP 0x100) m' = 0x5000 \<and> mp_get_current_context 3 H' = Inr 0x100"
  using HardwareThread_Switch_spec [OF hw_boot_ok, where i = 1 and img = "0x5000" and st = 64 and fr = "0x100"
      and pid = 3 and dbg = True and m = "\<lambda>_. 0"]
  by (auto simp: kMaxAPInsideSched_def hw_boot_def HardwareThread_new_def)

end
