(* ===== verification/UserProc.thy ===== *)
theory UserProc
  imports HwThreads
begin

text \<open>
  User processes: the data of \<^verbatim>\<open>KernelKit/UserProcessScheduler.h\<close>, and the operations of
  \<^verbatim>\<open>UserProcess\<close> in \<^verbatim>\<open>UserProcessScheduler.cc\<close> and its \<^verbatim>\<open>.inl\<close>
  (\<^verbatim>\<open>New\<close>, \<^verbatim>\<open>Delete\<close>, \<^verbatim>\<open>Exit\<close>, \<^verbatim>\<open>Crash\<close>,
  \<^verbatim>\<open>Wake\<close>), with the thread local allocation of \<^verbatim>\<open>ThreadLocalStorage.inl\<close> and the
  dylib hooks of \<^verbatim>\<open>IPEFDylibObject.cc\<close> they call.

  A process is a record; what it owns on the heap (its page directory, stack frame, stack and the
  doubly linked list of its allocations) is in the byte memory, at the addresses the heap of
  \<^verbatim>\<open>HeapMgr\<close> gives out. \<open>kstate\<close> is the whole state the scheduler works on. The processes
  of the team are in an array; \<open>slot_addr\<close> is the address of a slot, which \<^verbatim>\<open>delete this\<close>
  needs. Process ids are signed 64-bit numbers, far from wrapping, and are integers here.
\<close>

subsection \<open>Data\<close>

datatype ProcessStatusKind = kInvalid | kStarting | kRunning | kKilled | kFrozen | kFinished | kCount

datatype AffinityKind = kVeryHigh | kHigh | kStandard | kLowUsage | kVeryLowUsage

fun affinity_int :: "AffinityKind \<Rightarrow> int" where
  "affinity_int kVeryHigh = 250"
| "affinity_int kHigh = 200"
| "affinity_int kStandard = 1000"
| "affinity_int kLowUsage = 1500"
| "affinity_int kVeryLowUsage = 2000"

lemma affinity_int_inj: "affinity_int a = affinity_int b \<longleftrightarrow> a = b"
  by (cases a; cases b) simp_all

text \<open>The overloaded comparisons of the header compare the numbers behind the enumerators.\<close>

definition AffinityKind_less :: "AffinityKind \<Rightarrow> AffinityKind \<Rightarrow> bool" where
  "AffinityKind_less lhs rhs \<longleftrightarrow> affinity_int lhs < affinity_int rhs"

definition AffinityKind_greater :: "AffinityKind \<Rightarrow> AffinityKind \<Rightarrow> bool" where
  "AffinityKind_greater lhs rhs \<longleftrightarrow> affinity_int lhs > affinity_int rhs"

definition AffinityKind_less_eq :: "AffinityKind \<Rightarrow> AffinityKind \<Rightarrow> bool" where
  "AffinityKind_less_eq lhs rhs \<longleftrightarrow> affinity_int lhs \<le> affinity_int rhs"

definition AffinityKind_greater_eq :: "AffinityKind \<Rightarrow> AffinityKind \<Rightarrow> bool" where
  "AffinityKind_greater_eq lhs rhs \<longleftrightarrow> affinity_int lhs \<ge> affinity_int rhs"

instantiation AffinityKind :: linorder
begin

definition less_eq_AffinityKind :: "AffinityKind \<Rightarrow> AffinityKind \<Rightarrow> bool" where
  "less_eq_AffinityKind = AffinityKind_less_eq"

definition less_AffinityKind :: "AffinityKind \<Rightarrow> AffinityKind \<Rightarrow> bool" where
  "less_AffinityKind = AffinityKind_less"

instance
  by standard (auto simp: less_eq_AffinityKind_def less_AffinityKind_def AffinityKind_less_def
      AffinityKind_less_eq_def affinity_int_inj)

end

lemma AffinityKind_order:
  "AffinityKind_greater a b \<longleftrightarrow> b < a" "AffinityKind_greater_eq a b \<longleftrightarrow> b \<le> a"
  by (simp_all add: less_eq_AffinityKind_def less_AffinityKind_def AffinityKind_less_def
      AffinityKind_less_eq_def AffinityKind_greater_def AffinityKind_greater_eq_def)

datatype ProcessSubsystem =
    kProcessSubsystemSecurity
  | kProcessSubsystemApplication
  | kProcessSubsystemService
  | kProcessSubsystemDriver
  | kProcessSubsystemInvalid

record UserProcessImage =
  fCode :: nat
  fBlob :: nat

record UserProcessSignal =
  SignalIP :: u64
  PreviousStatus :: ProcessStatusKind
  SignalID :: u64

definition kProcessNameLen :: nat where
  "kProcessNameLen = 128"

definition kSchedMaxStackSz :: u64 where
  "kSchedMaxStackSz = 8 * 1024 * 1024"

definition kSchedMaxMemoryLimit :: u64 where
  "kSchedMaxMemoryLimit = 128 * 1024 * 1024 * 1024"

abbreviation kExectuableKind :: u32 where "kExectuableKind \<equiv> 1"
abbreviation kExectuableDylibKind :: u32 where "kExectuableDylibKind \<equiv> 2"

text \<open>\<^verbatim>\<open>ProcessParentTeam\<close> points to the scheduler's only team once \<^verbatim>\<open>Spawn\<close> has set it;
  before that the pointer is uninitialised.\<close>

record UserProcess =
  Name :: "u8 list"
  SubSystem :: ProcessSubsystem
  Owner :: nat
  StackFrame :: nat
  Affinity :: AffinityKind
  Status :: ProcessStatusKind
  StackReserve :: nat
  Image :: UserProcessImage
  StackSize :: u64
  DylibDelegate :: nat
  MemoryCursor :: u64
  MemoryLimit :: u64
  UsedMemory :: u64
  ProcessSignal :: UserProcessSignal
  ProcessMemoryHeap :: nat
  ProcessParentTeam :: bool
  VMRegister :: nat
  PTime :: u64
  ProcessId :: int
  Kind :: u32
  fLastExitCode :: u32
  fLocalCode :: u32

definition default_name :: "u8 list" where
  "default_name = [80, 114, 111, 99, 101, 115, 115] @ replicate (kProcessNameLen - 7) 0"

definition UserProcess_new :: UserProcess where
  "UserProcess_new =
     \<lparr>Name = default_name, SubSystem = kProcessSubsystemInvalid, Owner = 0, StackFrame = 0,
      Affinity = kStandard, Status = kFinished, StackReserve = 0, Image = \<lparr>fCode = 0, fBlob = 0\<rparr>,
      StackSize = kSchedMaxStackSz, DylibDelegate = 0, MemoryCursor = 0,
      MemoryLimit = kSchedMaxMemoryLimit, UsedMemory = 0,
      ProcessSignal = \<lparr>SignalIP = 0, PreviousStatus = kInvalid, SignalID = 0\<rparr>,
      ProcessMemoryHeap = 0, ProcessParentTeam = False, VMRegister = 0, PTime = 0, ProcessId = - 1,
      Kind = kExectuableKind, fLastExitCode = 0, fLocalCode = 0\<rparr>"

record UserProcessTeam =
  mProcessList :: "UserProcess list"
  mCurrentProcess :: "UserProcess option"
  mTeamId :: int
  mProcessCount :: int

record kstate =
  kern :: kmem
  mTeam :: UserProcessTeam
  hwthreads :: hw
  kLastExitCode :: u32

record sconf =
  kc :: kconf
  slot_addr :: "nat \<Rightarrow> nat"

abbreviation slot :: "nat \<Rightarrow> kstate \<Rightarrow> UserProcess" where
  "slot i s \<equiv> mProcessList (mTeam s) ! i"

definition put_slot :: "nat \<Rightarrow> UserProcess \<Rightarrow> kstate \<Rightarrow> kstate" where
  "put_slot i p s = s\<lparr>mTeam := (mTeam s)\<lparr>mProcessList := (mProcessList (mTeam s))[i := p]\<rparr>\<rparr>"

definition put_kern :: "kmem \<Rightarrow> kstate \<Rightarrow> kstate" where
  "put_kern k s = s\<lparr>kern := k\<rparr>"

text \<open>
  \<^verbatim>\<open>Ref<T>::operator=(T)\<close> of \<^verbatim>\<open>NewKit/Ref.h\<close>: assigning a value to a null reference
  leaves it null.
\<close>

definition Ref_assign :: "'a option \<Rightarrow> 'a \<Rightarrow> 'a option" where
  "Ref_assign fClass r = (case fClass of None \<Rightarrow> None | Some _ \<Rightarrow> Some r)"

subsection \<open>Getters\<close>

definition UserProcess_bool :: "UserProcess \<Rightarrow> bool" where
  "UserProcess_bool p = (Status p = kRunning)"

definition UserProcess_GetExitCode :: "UserProcess \<Rightarrow> u32" where
  "UserProcess_GetExitCode p = fLastExitCode p"

definition UserProcess_GetLocalCode :: "UserProcess \<Rightarrow> u32" where
  "UserProcess_GetLocalCode p = fLocalCode p"

definition UserProcess_GetName :: "UserProcess \<Rightarrow> u8 list" where
  "UserProcess_GetName p = Name p"

definition UserProcess_GetOwner :: "UserProcess \<Rightarrow> nat" where
  "UserProcess_GetOwner p = Owner p"

definition UserProcess_GetStatus :: "UserProcess \<Rightarrow> ProcessStatusKind" where
  "UserProcess_GetStatus p = Status p"

definition UserProcess_GetAffinity :: "UserProcess \<Rightarrow> AffinityKind" where
  "UserProcess_GetAffinity p = Affinity p"

definition UserProcess_Wake :: "bool \<Rightarrow> UserProcess \<Rightarrow> UserProcess" where
  "UserProcess_Wake should_wakeup p = p\<lparr>Status := if should_wakeup then kRunning else kFrozen\<rparr>"

definition sched_get_exit_code :: "kstate \<Rightarrow> u32" where
  "sched_get_exit_code s = kLastExitCode s"

subsection \<open>The allocation list of a process\<close>

text \<open>\<^verbatim>\<open>new T()\<close>: a zeroed object; writing through a null result faults.\<close>

definition new_object :: "kconf \<Rightarrow> nat \<Rightarrow> kmem \<Rightarrow> fault + (nat \<times> kmem)" where
  "new_object c sz k =
     bindF (operator_new c (of_nat sz) k) (\<lambda>(p, k1).
       if p = 0 then Inl NullDeref else Inr (p, kmem_upd (write_bytes p (replicate sz 0)) k1))"

text \<open>The node: entry, size, pad, previous and next, eight bytes each.\<close>

definition sizeof_ProcessMemoryHeapList :: nat where
  "sizeof_ProcessMemoryHeapList = 40"

abbreviation MemoryEntry :: "nat \<Rightarrow> mem \<Rightarrow> u64" where "MemoryEntry e m \<equiv> load64 e m"
abbreviation MemoryEntrySize :: "nat \<Rightarrow> mem \<Rightarrow> u64" where "MemoryEntrySize e m \<equiv> load64 (e + 8) m"
abbreviation MemoryNext :: "nat \<Rightarrow> mem \<Rightarrow> u64" where "MemoryNext e m \<equiv> load64 (e + 32) m"

text \<open>
  The loop of \<^verbatim>\<open>New\<close> that looks for the last entry runs while the entry is null, and reads
  through it.
\<close>

definition new_find_entry :: "nat \<Rightarrow> fault + nat" where
  "new_find_entry entry = (if entry = 0 then Inl NullDeref else Inr entry)"

definition UserProcess_New ::
  "kconf \<Rightarrow> u64 \<Rightarrow> u64 \<Rightarrow> UserProcess \<Rightarrow> kmem \<Rightarrow> fault + (nat \<times> UserProcess \<times> kmem)" where
  "UserProcess_New c sz pad_amount p k =
     (let vm_register = cr3 k in
      bindF (mm_new_heap c (sz + pad_amount) True True (k\<lparr>cr3 := VMRegister p\<rparr>)) (\<lambda>(ptr, k1).
        let k2 = k1\<lparr>cr3 := vm_register\<rparr> in
        bindF
          (if ProcessMemoryHeap p = 0 then
             bindF (new_object c sizeof_ProcessMemoryHeapList k2) (\<lambda>(e, k3).
               Inr (p\<lparr>ProcessMemoryHeap := e\<rparr>,
                    kmem_upd (store64 (e + 32) 0 \<circ> store64 (e + 24) 0 \<circ> store64 e (of_nat ptr) \<circ>
                              store64 (e + 8) sz \<circ> store64 (e + 16) pad_amount) k3))
           else
             bindF (new_find_entry (ProcessMemoryHeap p)) (\<lambda>entry.
               bindF (new_object c sizeof_ProcessMemoryHeapList k2) (\<lambda>(n, k3).
                 Inr (p, kmem_upd (store64 (n + 32) 0 \<circ> store64 (n + 24) (of_nat entry) \<circ>
                                   store64 n (of_nat ptr) \<circ> store64 (entry + 32) (of_nat n)) k3))))
          (\<lambda>(p1, k4). Inr (ptr, p1\<lparr>UsedMemory := UsedMemory p1 + sz\<rparr>, k4))))"

fun delete_walk :: "nat \<Rightarrow> nat \<Rightarrow> nat \<Rightarrow> UserProcess \<Rightarrow> kmem \<Rightarrow> fault + (bool \<times> UserProcess \<times> kmem)" where
  "delete_walk 0 entry ptr p k = Inl OutOfFuel"
| "delete_walk (Suc fuel) entry ptr p k =
     (if entry = 0 then Inr (False, p, k)
      else if MemoryEntry entry (kbytes k) = of_nat ptr then
        (let p1 = p\<lparr>UsedMemory := UsedMemory p - MemoryEntrySize entry (kbytes k)\<rparr>;
             pd = cr3 k;
             (ret, k1) = mm_delete_heap (unat (MemoryEntry entry (kbytes k))) (k\<lparr>cr3 := VMRegister p\<rparr>)
         in Inr (ret \<noteq> 0, p1, k1\<lparr>cr3 := pd\<rparr>))
      else delete_walk fuel (unat (MemoryNext entry (kbytes k))) ptr p k)"

definition UserProcess_Delete ::
  "kconf \<Rightarrow> nat option \<Rightarrow> u64 \<Rightarrow> UserProcess \<Rightarrow> kmem \<Rightarrow> fault + (bool \<times> UserProcess \<times> kmem)" where
  "UserProcess_Delete c ptr sz p k =
     (case ptr of
        None \<Rightarrow> Inr (False, p, k)
      | Some v \<Rightarrow>
          if sz = 0 then Inr (False, p, k)
          else delete_walk (walk_fuel c) (ProcessMemoryHeap p) v p k)"

subsection \<open>Leaving\<close>

text \<open>
  The list is walked and freed. The page directory register is restored inside the loop only.
\<close>

fun exit_walk :: "bool \<Rightarrow> nat \<Rightarrow> nat \<Rightarrow> nat \<Rightarrow> kmem \<Rightarrow> fault + kmem" where
  "exit_walk dbg 0 pd e k = Inl OutOfFuel"
| "exit_walk dbg (Suc fuel) pd e k =
     (if e = 0 then Inr k
      else
        bindF (if MemoryEntry e (kbytes k) \<noteq> 0 then
                 (let (ret, k1) = mm_delete_heap (unat (MemoryEntry e (kbytes k))) k
                  in bindF (must_pass dbg (ret \<noteq> 0)) (\<lambda>_. Inr k1))
               else Inr k)
          (\<lambda>k1. let k2 = k1\<lparr>cr3 := pd\<rparr>;
                    nxt = unat (MemoryNext e (kbytes k2));
                    (ret, k3) = mm_delete_heap e k2
                in exit_walk dbg fuel pd nxt k3))"

definition delete_if_valid :: "nat \<Rightarrow> kmem \<Rightarrow> fault + kmem" where
  "delete_if_valid ptr k =
     (if ptr = 0 then Inr k
      else bindF (mm_is_valid_heap ptr k) (\<lambda>valid.
        if valid then Inr (snd (mm_delete_heap ptr k)) else Inr k))"

text \<open>
  \<^verbatim>\<open>rtl_fini_dylib\<close>. On a null object it crashes the process (which returns at once: the caller,
  \<^verbatim>\<open>Exit\<close>, has left the running state) and then goes on through the null pointer.
  \<^verbatim>\<open>fMounted\<close> is behind the virtual table pointer.
\<close>

definition rtl_fini_dylib :: "nat \<Rightarrow> kmem \<Rightarrow> fault + (bool \<times> kmem)" where
  "rtl_fini_dylib dll_obj k =
     (if dll_obj = 0 then Inl NullDeref
      else let k1 = operator_delete (unat (load64 (dll_obj + 8) (kbytes k))) k;
               k2 = operator_delete dll_obj k1
           in Inr (True, k2))"

definition exit_dylib :: "UserProcess \<Rightarrow> kmem \<Rightarrow> fault + kmem" where
  "exit_dylib p k =
     (if Kind p = kExectuableDylibKind then
        bindF (rtl_fini_dylib (DylibDelegate p) k) (\<lambda>(success, k1).
          if \<not> success then ke_panic RUNTIME_CHECK_PROCESS else Inr k1)
      else Inr k)"

text \<open>What \<^verbatim>\<open>Exit\<close> does to the memory.\<close>

definition exit_memory :: "kconf \<Rightarrow> UserProcess \<Rightarrow> kmem \<Rightarrow> fault + kmem" where
  "exit_memory c p k =
     (let pd = cr3 k in
      bindF (exit_walk (debug c) (walk_fuel c) pd (ProcessMemoryHeap p) (k\<lparr>cr3 := VMRegister p\<rparr>)) (\<lambda>k1.
      bindF (delete_if_valid (fCode (Image p)) (snd (mm_free_bitmap (VMRegister p) k1))) (\<lambda>k2.
      bindF (delete_if_valid (fBlob (Image p)) k2) (\<lambda>k3.
      bindF (delete_if_valid (StackFrame p) k3) (\<lambda>k4.
      bindF (exit_dylib p k4) (\<lambda>k5.
      Inr (if StackReserve p \<noteq> 0 then snd (mm_delete_heap (StackReserve p) k5) else k5)))))))"

definition exit_record :: "u32 \<Rightarrow> UserProcess \<Rightarrow> UserProcess" where
  "exit_record exit_code p =
     p\<lparr>fLastExitCode := exit_code, Image := \<lparr>fCode = 0, fBlob = 0\<rparr>, StackFrame := 0,
       DylibDelegate := (if Kind p = kExectuableDylibKind then 0 else DylibDelegate p),
       ProcessId := 0, Status := kFinished\<rparr>"

definition UserProcess_Exit :: "sconf \<Rightarrow> u32 \<Rightarrow> nat \<Rightarrow> kstate \<Rightarrow> fault + kstate" where
  "UserProcess_Exit c exit_code i s =
     (let p = (slot i s)\<lparr>Status := if 0 <s exit_code then kKilled else kFrozen,
                         fLastExitCode := exit_code\<rparr>;
          s1 = put_slot i p (s\<lparr>kLastExitCode := exit_code\<rparr>) in
      bindF (exit_memory (kc c) p (kern s1)) (\<lambda>k1.
        let s2 = put_kern k1 (put_slot i (exit_record exit_code p) s1) in
        if \<not> ProcessParentTeam p then Inl NullDeref
        else Inr (put_kern (operator_delete (slot_addr c i) k1)
               (s2\<lparr>mTeam := (mTeam s2)\<lparr>mProcessCount := mProcessCount (mTeam s2) - 1\<rparr>\<rparr>))))"

definition UserProcess_Crash :: "sconf \<Rightarrow> nat \<Rightarrow> kstate \<Rightarrow> fault + kstate" where
  "UserProcess_Crash c i s =
     (if Status (slot i s) \<noteq> kRunning then Inr s else UserProcess_Exit c kErrorProcessFault i s)"

subsection \<open>Frames\<close>

lemma put_slot_simps [simp]:
  "length (mProcessList (mTeam (put_slot i p s))) = length (mProcessList (mTeam s))"
  "i < length (mProcessList (mTeam s)) \<Longrightarrow> slot i (put_slot i p s) = p"
  "j \<noteq> i \<Longrightarrow> slot j (put_slot i p s) = slot j s"
  "mCurrentProcess (mTeam (put_slot i p s)) = mCurrentProcess (mTeam s)"
  "mProcessCount (mTeam (put_slot i p s)) = mProcessCount (mTeam s)"
  "kern (put_slot i p s) = kern s"
  "hwthreads (put_slot i p s) = hwthreads s"
  "kLastExitCode (put_slot i p s) = kLastExitCode s"
  by (simp_all add: put_slot_def)

lemma put_kern_simps [simp]:
  "mTeam (put_kern k s) = mTeam s" "kern (put_kern k s) = k" "hwthreads (put_kern k s) = hwthreads s"
  "kLastExitCode (put_kern k s) = kLastExitCode s"
  by (simp_all add: put_kern_def)

lemma mm_free_bitmap_cr3: "cr3 (snd (mm_free_bitmap p k)) = cr3 k"
  by (simp add: mm_free_bitmap_def FreeBitMap_def Let_def)

lemma mm_delete_heap_cr3: "cr3 (snd (mm_delete_heap p k)) = cr3 k"
  using mm_free_bitmap_cr3 [of "hib_of (hib_of p)" "kmem_upd (clear_HIB (hib_of p)) k"]
  by (auto simp: mm_delete_heap_def Let_def PageMgr_Free_def PTEWrapper_new_def
      PTEWrapper_VirtualAddress_def split: prod.splits)

lemma operator_delete_cr3: "cr3 (operator_delete p k) = cr3 k"
  by (simp add: operator_delete_def mm_delete_heap_cr3)

lemma delete_if_valid_cr3: "delete_if_valid p k = Inr k' \<Longrightarrow> cr3 k' = cr3 k"
  by (auto simp: delete_if_valid_def bindF_eq_Inr mm_delete_heap_cr3 split: if_splits)

lemma rtl_fini_dylib_cr3: "rtl_fini_dylib d k = Inr (b, k') \<Longrightarrow> cr3 k' = cr3 k"
  by (auto simp: rtl_fini_dylib_def operator_delete_cr3 Let_def split: if_splits)

lemmas cr3_frames = mm_free_bitmap_cr3 mm_delete_heap_cr3 operator_delete_cr3

lemma UserProcess_Exit_team:
  assumes "UserProcess_Exit c code i s = Inr s'"
  shows "mProcessList (mTeam s') = (mProcessList (mTeam s))[i := exit_record code (slot i s)]"
    and "mCurrentProcess (mTeam s') = mCurrentProcess (mTeam s)"
    and "mProcessCount (mTeam s') = mProcessCount (mTeam s) - 1"
    and "hwthreads s' = hwthreads s"
    and "kLastExitCode s' = code"
  using assms
  by (auto simp: UserProcess_Exit_def bindF_eq_Inr Let_def put_slot_def put_kern_def exit_record_def
      split: if_splits)

subsection \<open>Properties\<close>

text \<open>The allocation list as the loops see it: the addresses of its nodes.\<close>

fun alloc_list :: "mem \<Rightarrow> nat \<Rightarrow> nat list \<Rightarrow> bool" where
  "alloc_list m e [] = (e = 0)"
| "alloc_list m e (n # ns) = (e = n \<and> n \<noteq> 0 \<and> alloc_list m (unat (MemoryNext n m)) ns)"

lemma delete_walk_list:
  "alloc_list (kbytes k) e ns \<Longrightarrow> length ns < fuel \<Longrightarrow>
   delete_walk fuel e v p k =
     (case find (\<lambda>n. MemoryEntry n (kbytes k) = of_nat v) ns of
        None \<Rightarrow> Inr (False, p, k)
      | Some n \<Rightarrow>
          Inr (fst (mm_delete_heap (unat (of_nat v :: u64)) (k\<lparr>cr3 := VMRegister p\<rparr>)) \<noteq> 0,
               p\<lparr>UsedMemory := UsedMemory p - MemoryEntrySize n (kbytes k)\<rparr>,
               (snd (mm_delete_heap (unat (of_nat v :: u64)) (k\<lparr>cr3 := VMRegister p\<rparr>)))\<lparr>cr3 := cr3 k\<rparr>))"
proof (induction ns arbitrary: e fuel)
  case Nil
  then show ?case by (cases fuel) simp_all
next
  case (Cons n ns)
  then obtain f where f: "fuel = Suc f" by (cases fuel) auto
  show ?case
    using Cons.prems Cons.IH [of "unat (MemoryNext n (kbytes k))" f]
    by (auto simp: f Let_def split: prod.splits)
qed

text \<open>
  \<^verbatim>\<open>UserProcess::Delete\<close>: on a process whose allocations form the list \<open>ns\<close>, deleting
  a pointer that no node holds changes nothing and gives \<open>No\<close>; deleting one that a node holds frees
  that block under the process's page directory, takes the first such node's recorded size off
  \<^verbatim>\<open>UsedMemory\<close> and restores the directory. The result is the heap's error code read as a
  truth value, so a delete that worked gives \<open>No\<close> as well.
\<close>

theorem UserProcess_Delete_spec:
  assumes "alloc_list (kbytes k) (ProcessMemoryHeap p) ns" and "length ns < walk_fuel c"
    and "sz \<noteq> 0" and "v < 2 ^ 64"
  shows "UserProcess_Delete c (Some v) sz p k =
    (case find (\<lambda>n. MemoryEntry n (kbytes k) = of_nat v) ns of
       None \<Rightarrow> Inr (False, p, k)
     | Some n \<Rightarrow>
         let (ret, k1) = mm_delete_heap v (k\<lparr>cr3 := VMRegister p\<rparr>)
         in Inr (ret \<noteq> kErrorSuccess, p\<lparr>UsedMemory := UsedMemory p - MemoryEntrySize n (kbytes k)\<rparr>,
                 k1\<lparr>cr3 := cr3 k\<rparr>))"
proof -
  have v: "unat (of_nat v :: u64) = v" using assms(4) by (rule unat_of_nat64_less)
  show ?thesis
    using assms(3) delete_walk_list [OF assms(1,2), of v p]
    by (simp add: UserProcess_Delete_def v case_prod_beta split: option.split)
qed

text \<open>A process with one allocation, for the witnesses: its node at 0x100 holds the block 0x1000.\<close>

definition one_alloc_mem :: mem where
  "one_alloc_mem = store64 0x108 24 (store64 0x100 0x1000 (\<lambda>_. 0))"

definition one_alloc :: UserProcess where
  "one_alloc = UserProcess_new\<lparr>ProcessMemoryHeap := 0x100, UsedMemory := 24\<rparr>"

lemma one_alloc_fields:
  "MemoryEntry 0x100 one_alloc_mem = 0x1000" "MemoryEntrySize 0x100 one_alloc_mem = 24"
  "MemoryNext 0x100 one_alloc_mem = 0"
  by (simp_all add: one_alloc_mem_def load_store64_other disjoint_ext_def)

lemmas one_alloc_eval = one_alloc_fields [simplified]

theorem UserProcess_Delete_spec_witness:
  "let k = tiny_kmem\<lparr>kbytes := one_alloc_mem\<rparr> in
   UserProcess_Delete (tiny_conf\<lparr>walk_fuel := 5\<rparr>) (Some 0x1000) 24 one_alloc k =
   (let (ret, k1) = mm_delete_heap 0x1000 (k\<lparr>cr3 := 0\<rparr>)
    in Inr (ret \<noteq> kErrorSuccess, one_alloc\<lparr>UsedMemory := 0\<rparr>, k1\<lparr>cr3 := 0\<rparr>))"
  using UserProcess_Delete_spec [where ns = "[0x100]" and v = "0x1000" and sz = 24 and p = one_alloc
      and c = "tiny_conf\<lparr>walk_fuel := 5\<rparr>" and k = "tiny_kmem\<lparr>kbytes := one_alloc_mem\<rparr>"]
  by (simp add: one_alloc_eval one_alloc_def UserProcess_new_def tiny_kmem_def)

text \<open>
  In a debug build no process that holds memory can leave: \<^verbatim>\<open>Exit\<close> demands the heap's
  result to be non-zero, and the code for success is zero, so the first block that is freed
  correctly panics the kernel, whatever the exit code.
\<close>

theorem Exit_debug_panics:
  assumes "debug (kc c)" and "walk_fuel (kc c) > 0"
    and "ProcessMemoryHeap (slot i s) = e" and "e \<noteq> 0" and "i < length (mProcessList (mTeam s))"
    and "MemoryEntry e (kbytes (kern s)) = of_nat v" and "v \<noteq> 0" and "v < 2 ^ 64"
    and "fst (mm_delete_heap v ((kern s)\<lparr>cr3 := VMRegister (slot i s)\<rparr>)) = kErrorSuccess"
  shows "UserProcess_Exit c code i s = Inl (Panic 1111)"
proof -
  have v: "unat (of_nat v :: u64) = v" using assms(8) by (rule unat_of_nat64_less)
  then have "(of_nat v :: u64) \<noteq> 0" using assms(7) by auto
  moreover obtain f where "walk_fuel (kc c) = Suc f" using assms(2) gr0_implies_Suc by blast
  ultimately have "exit_walk True (walk_fuel (kc c)) pd e ((kern s)\<lparr>cr3 := VMRegister (slot i s)\<rparr>) =
      Inl (Panic 1111)" for pd
    using assms(4,6,9) v by (simp add: case_prod_beta)
  then show ?thesis
    using assms(1,3) by (simp add: UserProcess_Exit_def exit_memory_def Let_def)
qed

theorem Exit_debug_panics_witness:
  "\<exists>s. ProcessMemoryHeap (slot 0 s) \<noteq> 0 \<and>
     UserProcess_Exit \<lparr>kc = tiny_conf, slot_addr = \<lambda>_. 0\<rparr> 7 0 s = Inl (Panic 1111)"
proof -
  define m where "m = put_bit 0xFCB 0 True (store64 0xFCB kKernelHeapMagic one_alloc_mem)"
  define s where "s = \<lparr>kern = tiny_kmem\<lparr>kbytes := m\<rparr>,
    mTeam = \<lparr>mProcessList = [one_alloc], mCurrentProcess = None, mTeamId = 0, mProcessCount = 1\<rparr>,
    hwthreads = hw_boot, kLastExitCode = 0\<rparr>"
  have h: "hib_of 0x1000 = 0xFCB" by (simp add: hib_of_add)
  have m: "hib_magic 0xFCB m = kKernelHeapMagic" "hib_present 0xFCB m" "MemoryEntry 0x100 m = 0x1000"
    using put_bit_byte [of 0 "0xFCB" True "store64 0xFCB kKernelHeapMagic one_alloc_mem" 0]
    by (simp_all add: m_def put_bit_load64 load_store64_other disjoint_ext_def one_alloc_fields)
  have slot0: "slot 0 s = one_alloc" by (simp add: s_def)
  have heap: "ProcessMemoryHeap one_alloc = 0x100" by (simp add: one_alloc_def)
  have "mm_check_heap_address 0x1000" by (simp add: mm_check_heap_address_def)
  then have "fst (mm_delete_heap 0x1000 ((kern s)\<lparr>cr3 := VMRegister (slot 0 s)\<rparr>)) = kErrorSuccess"
    by (simp add: mm_delete_heap_def h m [simplified] s_def Let_def case_prod_beta)
  then have "UserProcess_Exit \<lparr>kc = tiny_conf, slot_addr = \<lambda>_. 0\<rparr> 7 0 s = Inl (Panic 1111)"
    by (intro Exit_debug_panics [where e = "0x100" and v = "0x1000"])
      (simp_all add: slot0 heap tiny_conf_def, simp_all add: s_def m)
  then show ?thesis using slot0 heap by (intro exI [of _ s]) simp
qed

lemma exit_memory_cr3:
  assumes "exit_memory c p k = Inr k'" and "ProcessMemoryHeap p = 0" and "walk_fuel c > 0"
  shows "cr3 k' = VMRegister p"
proof -
  obtain f where f: "walk_fuel c = Suc f" using assms(3) gr0_implies_Suc by blast
  from assms(1,2) obtain k2 k3 k4 k5 where
    "delete_if_valid (fCode (Image p)) (snd (mm_free_bitmap (VMRegister p) (k\<lparr>cr3 := VMRegister p\<rparr>))) = Inr k2"
    and "delete_if_valid (fBlob (Image p)) k2 = Inr k3"
    and "delete_if_valid (StackFrame p) k3 = Inr k4"
    and k5: "exit_dylib p k4 = Inr k5"
    and k': "k' = (if StackReserve p \<noteq> 0 then snd (mm_delete_heap (StackReserve p) k5) else k5)"
    unfolding exit_memory_def Let_def f by (auto simp: bindF_eq_Inr)
  then have "cr3 k4 = VMRegister p"
    by (simp add: delete_if_valid_cr3 [of "fCode (Image p)"] delete_if_valid_cr3 [of "fBlob (Image p)"]
        delete_if_valid_cr3 [of "StackFrame p"] cr3_frames)
  moreover have "cr3 k5 = cr3 k4"
    using k5 by (auto simp: exit_dylib_def bindF_eq_Inr ke_panic_def rtl_fini_dylib_cr3 split: if_splits)
  ultimately show ?thesis by (simp add: k' cr3_frames)
qed

text \<open>
  A process that leaves without ever having allocated takes the kernel with it into its
  address space: \<^verbatim>\<open>Exit\<close> loads the process's page directory, and restores the kernel's only
  inside the loop over the allocations.
\<close>

theorem Exit_without_memory_keeps_directory:
  assumes "UserProcess_Exit c code i s = Inr s'" and "ProcessMemoryHeap (slot i s) = 0"
    and "walk_fuel (kc c) > 0"
  shows "cr3 (kern s') = VMRegister (slot i s)"
proof -
  obtain k1 where "exit_memory (kc c) ((slot i s)\<lparr>Status := if 0 <s code then kKilled else kFrozen,
      fLastExitCode := code\<rparr>) (kern s) = Inr k1" and "kern s' = operator_delete (slot_addr c i) k1"
    using assms(1) by (auto simp: UserProcess_Exit_def bindF_eq_Inr Let_def split: if_splits)
  with assms(2,3) show ?thesis
    using exit_memory_cr3 [of "kc c"] by (simp add: cr3_frames)
qed

theorem Exit_without_memory_keeps_directory_witness:
  "\<exists>s s'. cr3 (kern s) = 0 \<and> UserProcess_Exit \<lparr>kc = tiny_conf, slot_addr = \<lambda>_. 0\<rparr> 0 0 s = Inr s' \<and>
     cr3 (kern s') = 0x500"
proof -
  define p where "p = UserProcess_new\<lparr>ProcessParentTeam := True, VMRegister := 0x500\<rparr>"
  define s where "s = \<lparr>kern = tiny_kmem,
    mTeam = \<lparr>mProcessList = [p], mCurrentProcess = None, mTeamId = 0, mProcessCount = 1\<rparr>,
    hwthreads = hw_boot, kLastExitCode = 0\<rparr>"
  have kern: "kern s = tiny_kmem" and slot0: "slot 0 s = p" by (simp_all add: s_def)
  have f: "walk_fuel tiny_conf = Suc 0" by (simp add: tiny_conf_def)
  have "returns (UserProcess_Exit \<lparr>kc = tiny_conf, slot_addr = \<lambda>_. 0\<rparr> 0 0 s)"
    by (simp add: UserProcess_Exit_def exit_memory_def kern slot0 p_def UserProcess_new_def f Let_def
        mm_free_bitmap_def FreeBitMap_def IsBitMap_def tiny_kmem_def delete_if_valid_def exit_dylib_def)
  then obtain s' where s': "UserProcess_Exit \<lparr>kc = tiny_conf, slot_addr = \<lambda>_. 0\<rparr> 0 0 s = Inr s'"
    by (auto simp: returns_iff)
  moreover from Exit_without_memory_keeps_directory [OF this] have "cr3 (kern s') = 0x500"
    by (simp add: slot0 f) (simp add: p_def UserProcess_new_def)
  ultimately show ?thesis using kern by (intro exI [of _ s] exI [of _ s']) (simp add: tiny_kmem_def)
qed

end
