(* ===== verification/ProcSched.thy ===== *)
theory ProcSched
  imports UserProc
begin

text \<open>
  The user process scheduler: \<^verbatim>\<open>UserProcessScheduler\<close>, \<^verbatim>\<open>UserProcessHelper\<close>
  and \<^verbatim>\<open>UserProcessTeam\<close> (\<^verbatim>\<open>UserProcessScheduler.cc\<close>, \<^verbatim>\<open>UserProcessTeam.cc\<close>),
  the kernel-function launcher of \<^verbatim>\<open>CodeMgr.cc\<close> and the thread local allocation of
  \<^verbatim>\<open>ThreadLocalStorage.inl\<close>.

  The last part is a step relation of everything the rest of the kernel does to the scheduler, and
  the invariant of the states it reaches from boot.
\<close>

subsection \<open>The team\<close>

definition UserProcessTeam_new :: UserProcessTeam where
  "UserProcessTeam_new =
     \<lparr>mProcessList = replicate kSchedProcessLimitPerTeam (UserProcess_new\<lparr>Status := kKilled\<rparr>),
      mCurrentProcess = None, mTeamId = 0, mProcessCount = 0\<rparr>"

definition UserProcessTeam_AsArray :: "UserProcessTeam \<Rightarrow> UserProcess list" where
  "UserProcessTeam_AsArray t = mProcessList t"

definition UserProcessTeam_Id :: "UserProcessTeam \<Rightarrow> int" where
  "UserProcessTeam_Id t = mTeamId t"

definition UserProcessTeam_AsRef :: "UserProcessTeam \<Rightarrow> UserProcess option" where
  "UserProcessTeam_AsRef t = mCurrentProcess t"

definition CurrentTeam :: "kstate \<Rightarrow> UserProcessTeam" where
  "CurrentTeam s = mTeam s"

definition CurrentProcess :: "kstate \<Rightarrow> UserProcess option" where
  "CurrentProcess s = UserProcessTeam_AsRef (mTeam s)"

definition put_current :: "UserProcess option \<Rightarrow> kstate \<Rightarrow> kstate" where
  "put_current r s = s\<lparr>mTeam := (mTeam s)\<lparr>mCurrentProcess := r\<rparr>\<rparr>"

definition put_count :: "int \<Rightarrow> kstate \<Rightarrow> kstate" where
  "put_count n s = s\<lparr>mTeam := (mTeam s)\<lparr>mProcessCount := n\<rparr>\<rparr>"

definition kstate_boot :: "kmem \<Rightarrow> kstate" where
  "kstate_boot k = \<lparr>kern = k, mTeam = UserProcessTeam_new, hwthreads = hw_boot, kLastExitCode = 0\<rparr>"

definition UserProcessScheduler_bool :: "kstate \<Rightarrow> bool" where
  "UserProcessScheduler_bool s = (Array_Count (UserProcessTeam_AsArray (mTeam s)) > 0)"

definition UserProcessScheduler_not :: "kstate \<Rightarrow> bool" where
  "UserProcessScheduler_not s = (Array_Count (UserProcessTeam_AsArray (mTeam s)) = 0)"

text \<open>\<^verbatim>\<open>ErrorOr<PID>\<close>: the error code, or the id.\<close>

definition TheCurrentPID :: "kstate \<Rightarrow> u32 + int" where
  "TheCurrentPID s = (case CurrentProcess s of None \<Rightarrow> Inl kErrorProcessFault | Some p \<Rightarrow> Inr (ProcessId p))"

subsection \<open>Thread local storage\<close>

definition tls_new_ptr :: "kconf \<Rightarrow> nat \<Rightarrow> kstate \<Rightarrow> fault + (nat \<times> kstate)" where
  "tls_new_ptr c sz s =
     bindF (must_pass (debug c) (CurrentProcess s \<noteq> None)) (\<lambda>_.
       case CurrentProcess s of
         None \<Rightarrow> Inl NullDeref
       | Some p \<Rightarrow> bindF (UserProcess_New c (of_nat sz) 0 p (kern s)) (\<lambda>(ptr, p1, k1).
           Inr (ptr, put_kern k1 (put_current (Some p1) s))))"

definition tls_delete_ptr :: "kconf \<Rightarrow> nat \<Rightarrow> nat \<Rightarrow> kstate \<Rightarrow> fault + (bool \<times> kstate)" where
  "tls_delete_ptr c sz obj s =
     (if obj = 0 then Inr (False, s)
      else bindF (must_pass (debug c) (CurrentProcess s \<noteq> None)) (\<lambda>_.
        case CurrentProcess s of
          None \<Rightarrow> Inl NullDeref
        | Some p \<Rightarrow> bindF (UserProcess_Delete c (Some obj) (of_nat sz) p (kern s)) (\<lambda>(ok, p1, k1).
            Inr (ok, put_kern k1 (put_current (Some p1) s)))))"

text \<open>
  \<^verbatim>\<open>tls_new_class\<close> for a class whose default members are the zero bytes from offset 8 on (the
  virtual table pointer is not assigned).
\<close>

definition tls_new_class :: "kconf \<Rightarrow> nat \<Rightarrow> kstate \<Rightarrow> fault + (nat \<times> kstate)" where
  "tls_new_class c sz s =
     bindF (tls_new_ptr c sz s) (\<lambda>(obj, s1).
       if obj \<noteq> 0 then Inr (obj, put_kern (kmem_upd (write_bytes (obj + 8) (replicate (sz - 8) 0)) (kern s1)) s1)
       else Inr (0, s1))"

subsection \<open>rtl_init_dylib (IPEFDylibObject.cc)\<close>

text \<open>
  \<^verbatim>\<open>Mount\<close> refuses traits without an image, and \<^verbatim>\<open>rtl_init_dylib\<close> mounts freshly
  zeroed ones, so nothing is mounted and the routine always takes the branch that deletes the object
  and crashes the process. What follows that branch in the source is never reached.
\<close>

definition sizeof_IPEFDylibObject :: nat where
  "sizeof_IPEFDylibObject = 24"

definition IPEFDylibObject_Mount :: "nat \<Rightarrow> nat \<Rightarrow> nat \<Rightarrow> nat" where
  "IPEFDylibObject_Mount to_mount ImageObject fMounted =
     (if to_mount = 0 \<or> ImageObject = 0 then fMounted else to_mount)"

definition rtl_init_dylib :: "sconf \<Rightarrow> nat \<Rightarrow> kstate \<Rightarrow> fault + (nat \<times> kstate)" where
  "rtl_init_dylib c i s =
     bindF (tls_new_class (kc c) sizeof_IPEFDylibObject s) (\<lambda>(dll_obj, s1).
       if dll_obj = 0 then bindF (UserProcess_Crash c i s1) (\<lambda>s2. Inr (0, s2))
       else bindF (new_object (kc c) 16 (kern s1)) (\<lambda>(traits, k2).
         let s2 = put_kern k2 s1; fMounted = IPEFDylibObject_Mount traits 0 0 in
         if fMounted = 0 then
           bindF (tls_delete_ptr (kc c) sizeof_IPEFDylibObject dll_obj s2) (\<lambda>(ok, s3).
           bindF (UserProcess_Crash c i s3) (\<lambda>s4. Inr (0, s4)))
         else Inl OutOfFuel))"

subsection \<open>Spawn\<close>

definition sizeof_PDE :: nat where
  "sizeof_PDE = 8 * 0x200"

text \<open>\<^verbatim>\<open>rt_copy_memory\<close> of the name into the 128 bytes of the record, terminator included.\<close>

definition copy_name :: "mem \<Rightarrow> nat \<Rightarrow> u8 list \<Rightarrow> fault + u8 list" where
  "copy_name m name buf =
     (if name = 0 then Inl NullDeref
      else case rt_string_len m name of
        None \<Rightarrow> Inl OutOfFuel
      | Some len \<Rightarrow>
          if len < length buf then Inr (read_bytes name len m @ 0 # drop (Suc len) buf)
          else Inl OutOfBounds)"

definition spawn_fail :: "sconf \<Rightarrow> nat \<Rightarrow> kstate \<Rightarrow> fault + (int \<times> kstate)" where
  "spawn_fail c i s = bindF (UserProcess_Crash c i s) (\<lambda>s1. Inr (uint kErrorProcessFault, s1))"

abbreviation user_page_flags :: u32 where
  "user_page_flags \<equiv> kMMFlagsPresent OR kMMFlagsWr OR kMMFlagsUser"

definition spawn_dylib :: "sconf \<Rightarrow> nat \<Rightarrow> kstate \<Rightarrow> fault + kstate" where
  "spawn_dylib c i s =
     (if Kind (slot i s) = kExectuableDylibKind then
        bindF (rtl_init_dylib c i s) (\<lambda>(d, s1).
        bindF (must_pass (debug (kc c)) (d \<noteq> 0)) (\<lambda>_.
          Inr (put_slot i ((slot i s1)\<lparr>DylibDelegate := d\<rparr>) s1)))
      else Inr s)"

definition spawn_finish :: "nat \<Rightarrow> int \<Rightarrow> nat \<Rightarrow> kmem \<Rightarrow> kstate \<Rightarrow> kstate" where
  "spawn_finish i pid stack k s =
     put_kern (mm_map_page stack user_page_flags k)
       (put_slot i ((slot i s)\<lparr>StackReserve := stack, ProcessParentTeam := True, ProcessId := pid,
          Status := kStarting, PTime := of_int (affinity_int kStandard)\<rparr>) s)"

definition UserProcessScheduler_Spawn ::
  "sconf \<Rightarrow> nat \<Rightarrow> nat \<Rightarrow> nat \<Rightarrow> kstate \<Rightarrow> fault + (int \<times> kstate)" where
  "UserProcessScheduler_Spawn c name code img s =
     (let pid = mProcessCount (mTeam s) in
      if pid > int kSchedProcessLimitPerTeam then Inr (uint kErrorProcessFault, s)
      else if pid < 0 \<or> nat pid \<ge> length (mProcessList (mTeam s)) then Inl OutOfBounds
      else let i = nat pid; s0 = put_count (pid + 1) s in
        bindF (copy_name (kbytes (kern s0)) name (Name (slot i s0))) (\<lambda>nm.
        let s1 = put_slot i ((slot i s0)\<lparr>Image := \<lparr>fCode = code, fBlob = img\<rparr>, Name := nm\<rparr>) s0 in
        bindF (new_object (kc c) sizeof_PDE (kern s1)) (\<lambda>(v, k1).
        let s2 = put_kern k1 (put_slot i ((slot i s1)\<lparr>VMRegister := v\<rparr>) s1) in
        if v = 0 then spawn_fail c i s2
        else let s3 = put_kern (mm_map_page v user_page_flags k1) s2 in
        bindF (new_object (kc c) sizeof_StackFrame (kern s3)) (\<lambda>(f, k3).
        let s4 = put_kern k3 (put_slot i ((slot i s3)\<lparr>StackFrame := f\<rparr>) s3) in
        if f = 0 then spawn_fail c i s4
        else let s5 = put_kern (mm_map_page f user_page_flags k3) s4 in
        bindF (spawn_dylib c i s5) (\<lambda>s6.
        bindF (operator_new (kc c) (StackSize (slot i s6)) (kern s6)) (\<lambda>(r, k6).
          if r = 0 then
            spawn_fail c i (put_kern k6 (put_slot i ((slot i s6)\<lparr>StackReserve := r\<rparr>) s6))
          else Inr (pid, spawn_finish i pid r k6 s6)))))))"

text \<open>\<^verbatim>\<open>rtl_create_process\<close> of \<^verbatim>\<open>CodeMgr.cc\<close>.\<close>

definition kProcessInvalidID :: int where
  "kProcessInvalidID = - 1"

definition rtl_create_process_fn :: "sconf \<Rightarrow> nat \<Rightarrow> nat \<Rightarrow> kstate \<Rightarrow> fault + (int \<times> kstate)" where
  "rtl_create_process_fn c main process_name s =
     (if process_name = 0 \<or> kbytes (kern s) process_name = 0 then Inr (kProcessInvalidID, s)
      else UserProcessScheduler_Spawn c process_name main 0 s)"

subsection \<open>Remove\<close>

text \<open>The signed id is compared with the unsigned extent of the array.\<close>

definition UserProcessScheduler_Remove :: "sconf \<Rightarrow> int \<Rightarrow> kstate \<Rightarrow> fault + (bool \<times> kstate)" where
  "UserProcessScheduler_Remove c process_id s =
     (if process_id < 0 \<or> nat process_id > Array_Count (mProcessList (mTeam s)) then Inr (False, s)
      else if nat process_id = length (mProcessList (mTeam s)) then Inl OutOfBounds
      else bindF (UserProcess_Exit c 0 (nat process_id) s) (\<lambda>s1. Inr (True, s1)))"

subsection \<open>Run\<close>

definition CanBeScheduled :: "UserProcess \<Rightarrow> bool" where
  "CanBeScheduled process =
     (if Status process = kKilled \<or> Status process = kFinished \<or> Status process = kStarting \<or>
         Status process = kFrozen then False
      else if Status process = kInvalid then False
      else if fCode (Image process) = 0 then False
      else if Name process ! 0 = 0 then False
      else PTime process < 1)"

text \<open>
  \<^verbatim>\<open>UserProcessHelper::Switch\<close>: the first hardware thread that is neither invalid nor the boot
  one is tried. Writing the current id goes through \<^verbatim>\<open>TheCurrentPID().Leak().Leak()\<close>: a null
  dereference without a current process, and a write to a copy that dies at once with one.
\<close>

fun switch_loop :: "bool \<Rightarrow> nat list \<Rightarrow> nat \<Rightarrow> nat \<Rightarrow> nat \<Rightarrow> int \<Rightarrow> kstate \<Rightarrow> fault + (bool \<times> kstate)" where
  "switch_loop dbg [] image_ptr stack frame_ptr new_pid s = Inr (False, s)"
| "switch_loop dbg (index # is) image_ptr stack frame_ptr new_pid s =
     (case HwSched_at index (hwthreads s) of
        (None, H1) \<Rightarrow> Inl NullDeref
      | (Some t, H1) \<Rightarrow>
          let s1 = s\<lparr>hwthreads := H1\<rparr>; kind = HardwareThread_Kind (fThreadList H1 ! t) in
          if kind = kInvalidAP \<or> kind = kAPBoot
          then switch_loop dbg is image_ptr stack frame_ptr new_pid s1
          else case TheCurrentPID s1 of
            Inl e \<Rightarrow> Inl NullDeref
          | Inr prev_pid \<Rightarrow>
              let H2 = thread_upd t (HardwareThread_Busy False \<circ> HardwareThread_Wake True) H1;
                  prev_ptime = fPTime (fThreadList H2 ! t) in
              if new_pid < 0 \<or> nat new_pid \<ge> length (mProcessList (mTeam s)) then Inl OutOfBounds
              else let H3 = thread_upd t (\<lambda>h. h\<lparr>fPTime := PTime (slot (nat new_pid) s)\<rparr>) H2 in
                bindF (HardwareThread_Switch dbg t image_ptr stack frame_ptr (of_int new_pid)
                         (kbytes (kern s1)) H3) (\<lambda>(ret, m1, H4).
                  let H5 = (if \<not> ret then thread_upd t (HardwareThread_Busy True \<circ> (\<lambda>h. h\<lparr>fPTime := prev_ptime\<rparr>)) H4
                            else H4);
                      H6 = thread_upd t (HardwareThread_Wake False) H5
                  in Inr (True, put_kern ((kern s1)\<lparr>kbytes := m1\<rparr>) (s1\<lparr>hwthreads := H6\<rparr>))))"

definition UserProcessHelper_Switch ::
  "bool \<Rightarrow> nat \<Rightarrow> nat \<Rightarrow> nat \<Rightarrow> int \<Rightarrow> kstate \<Rightarrow> fault + (bool \<times> kstate)" where
  "UserProcessHelper_Switch dbg image_ptr stack frame_ptr new_pid s =
     switch_loop dbg [0..<HwSched_Capacity (hwthreads s)] image_ptr stack frame_ptr new_pid s"

definition run_slot :: "sconf \<Rightarrow> nat \<Rightarrow> kstate \<Rightarrow> fault + kstate" where
  "run_slot c i s =
     (if CanBeScheduled (slot i s) then
        let s1 = put_current (Ref_assign (CurrentProcess s) (slot i s)) s;
            s2 = put_slot i ((slot i s1)\<lparr>PTime := of_int (affinity_int (Affinity (slot i s1)))\<rparr>) s1;
            p = slot i s2 in
        bindF (UserProcessHelper_Switch (debug (kc c)) (fCode (Image p))
                 (StackReserve p + unat (StackSize p - 1)) (StackFrame p) (ProcessId p) s2) (\<lambda>(ok, s3).
          if \<not> ok then UserProcess_Crash c i s3 else Inr s3)
      else Inr (put_slot i ((slot i s)\<lparr>PTime := PTime (slot i s) - 1\<rparr>) s))"

fun run_slots :: "sconf \<Rightarrow> nat list \<Rightarrow> kstate \<Rightarrow> fault + kstate" where
  "run_slots c [] s = Inr s"
| "run_slots c (i # is) s = bindF (run_slot c i s) (run_slots c is)"

definition UserProcessScheduler_Run :: "sconf \<Rightarrow> kstate \<Rightarrow> fault + (nat \<times> kstate)" where
  "UserProcessScheduler_Run c s =
     (if mProcessCount (mTeam s) < 1 then Inr (0, s)
      else bindF (run_slots c [0..<Array_Count (mProcessList (mTeam s))] s) (\<lambda>s1.
        Inr (Array_Count (mProcessList (mTeam s)), s1)))"

definition StartScheduling :: "sconf \<Rightarrow> kstate \<Rightarrow> fault + (nat \<times> kstate)" where
  "StartScheduling c s = UserProcessScheduler_Run c s"

subsection \<open>The scheduler's states\<close>

text \<open>
  Everything the kernel does to the scheduler's state: the scheduler's operations, the operations on
  a process of the team, the fields the executable loader sets, and whatever the rest of the kernel
  does to the memory.
\<close>

inductive sched_step :: "sconf \<Rightarrow> kstate \<Rightarrow> kstate \<Rightarrow> bool" for c where
  step_spawn: "UserProcessScheduler_Spawn c name code img s = Inr (pid, s') \<Longrightarrow> sched_step c s s'"
| step_launch: "rtl_create_process_fn c main name s = Inr (pid, s') \<Longrightarrow> sched_step c s s'"
| step_remove: "UserProcessScheduler_Remove c pid s = Inr (b, s') \<Longrightarrow> sched_step c s s'"
| step_run: "UserProcessScheduler_Run c s = Inr (n, s') \<Longrightarrow> sched_step c s s'"
| step_crash: "i < kSchedProcessLimitPerTeam \<Longrightarrow> UserProcess_Crash c i s = Inr s' \<Longrightarrow> sched_step c s s'"
| step_exit: "i < kSchedProcessLimitPerTeam \<Longrightarrow> UserProcess_Exit c code i s = Inr s' \<Longrightarrow> sched_step c s s'"
| step_wake: "sched_step c s (put_slot i (UserProcess_Wake b (slot i s)) s)"
| step_new: "UserProcess_New (kc c) sz pad (slot i s) (kern s) = Inr (ptr, p, k) \<Longrightarrow>
    sched_step c s (put_kern k (put_slot i p s))"
| step_delete: "UserProcess_Delete (kc c) ptr sz (slot i s) (kern s) = Inr (b, p, k) \<Longrightarrow>
    sched_step c s (put_kern k (put_slot i p s))"
| step_tls_new: "tls_new_ptr (kc c) n s = Inr (ptr, s') \<Longrightarrow> sched_step c s s'"
| step_tls_delete: "tls_delete_ptr (kc c) n obj s = Inr (b, s') \<Longrightarrow> sched_step c s s'"
| step_loader: "sched_step c s (put_slot i ((slot i s)\<lparr>Kind := kd, StackSize := st, MemoryLimit := l\<rparr>) s)"
| step_memory: "sched_step c s (put_kern k s)"

inductive sched_reach :: "sconf \<Rightarrow> kstate \<Rightarrow> bool" for c where
  reach_boot: "sched_reach c (kstate_boot k)"
| reach_step: "sched_reach c s \<Longrightarrow> sched_step c s s' \<Longrightarrow> sched_reach c s'"

text \<open>
  The invariant: the team has its 32 slots and no current process, the hardware threads are the boot
  processor and standard ones, nothing has been started on them, and the count is at most 32.
\<close>

definition sched_inv :: "kstate \<Rightarrow> bool" where
  "sched_inv s \<longleftrightarrow>
     length (mProcessList (mTeam s)) = kSchedProcessLimitPerTeam \<and>
     mCurrentProcess (mTeam s) = None \<and>
     mProcessCount (mTeam s) \<le> int kSchedProcessLimitPerTeam \<and>
     length (fThreadList (hwthreads s)) = kMaxAPInsideSched \<and>
     fKind (fThreadList (hwthreads s) ! 0) \<in> {kAPStandard, kAPBoot} \<and>
     (\<forall>i. 0 < i \<and> i < kMaxAPInsideSched \<longrightarrow> fKind (fThreadList (hwthreads s) ! i) = kAPStandard) \<and>
     ipi_log (hwthreads s) = []"

lemma sched_inv_boot: "sched_inv (kstate_boot k)"
  by (simp add: sched_inv_def kstate_boot_def UserProcessTeam_new_def hw_boot_def HardwareThread_new_def
      kSchedProcessLimitPerTeam_def kMaxAPInsideSched_def)

lemma sched_inv_put [simp]:
  "sched_inv (put_slot i p s) = sched_inv s"
  "sched_inv (put_kern k s) = sched_inv s"
  by (simp_all add: sched_inv_def put_slot_def put_kern_def)

lemma put_count_simps [simp]:
  "mProcessList (mTeam (put_count n s)) = mProcessList (mTeam s)"
  "mCurrentProcess (mTeam (put_count n s)) = mCurrentProcess (mTeam s)"
  "mProcessCount (mTeam (put_count n s)) = n" "kern (put_count n s) = kern s"
  "hwthreads (put_count n s) = hwthreads s"
  by (simp_all add: put_count_def)

lemma sched_inv_count: "sched_inv s \<Longrightarrow> n \<le> 32 \<Longrightarrow> sched_inv (put_count n s)"
  by (simp add: sched_inv_def kSchedProcessLimitPerTeam_def)

lemma CurrentProcess_inv: "sched_inv s \<Longrightarrow> CurrentProcess s = None"
  by (simp add: sched_inv_def CurrentProcess_def UserProcessTeam_AsRef_def)

lemma UserProcess_Exit_inv: "UserProcess_Exit c code i s = Inr s' \<Longrightarrow> sched_inv s \<Longrightarrow> sched_inv s'"
  using UserProcess_Exit_team [of c code i s s'] by (simp add: sched_inv_def)

lemma UserProcess_Crash_inv: "UserProcess_Crash c i s = Inr s' \<Longrightarrow> sched_inv s \<Longrightarrow> sched_inv s'"
  by (auto simp: UserProcess_Crash_def dest: UserProcess_Exit_inv split: if_splits)

text \<open>Without a current process the thread local allocator faults, and so does the dylib hook.\<close>

lemma tls_new_ptr_inv: "sched_inv s \<Longrightarrow> \<exists>e. tls_new_ptr c n s = Inl e"
  by (cases "debug c") (simp_all add: tls_new_ptr_def CurrentProcess_inv)

lemma tls_delete_ptr_inv: "sched_inv s \<Longrightarrow> tls_delete_ptr c n obj s = Inr (b, s') \<Longrightarrow> s' = s"
  by (cases "debug c") (auto simp: tls_delete_ptr_def CurrentProcess_inv split: if_splits)

lemma rtl_init_dylib_inv: "sched_inv s \<Longrightarrow> \<exists>e. rtl_init_dylib c i s = Inl e"
  using tls_new_ptr_inv [of s "kc c" sizeof_IPEFDylibObject]
  by (auto simp: rtl_init_dylib_def tls_new_class_def)

lemma spawn_dylib_inv: "sched_inv s \<Longrightarrow> spawn_dylib c i s = Inr s' \<Longrightarrow> s' = s \<and> Kind (slot i s) \<noteq> kExectuableDylibKind"
  using rtl_init_dylib_inv [of s c i] by (auto simp: spawn_dylib_def split: if_splits)

lemma spawn_fail_inv: "spawn_fail c i s = Inr (pid, s') \<Longrightarrow> sched_inv s \<Longrightarrow> sched_inv s'"
  by (auto simp: spawn_fail_def bindF_eq_Inr dest: UserProcess_Crash_inv)

lemma spawn_finish_inv: "sched_inv (spawn_finish i pid r k s) = sched_inv s"
  by (simp add: spawn_finish_def)

lemma Spawn_full:
  "length (mProcessList (mTeam s)) = 32 \<Longrightarrow> mProcessCount (mTeam s) = 32 \<Longrightarrow>
   UserProcessScheduler_Spawn c name code img s = Inl OutOfBounds"
  by (simp add: UserProcessScheduler_Spawn_def kSchedProcessLimitPerTeam_def)

lemma Spawn_inv:
  assumes "UserProcessScheduler_Spawn c name code img s = Inr (pid, s')" and "sched_inv s"
  shows "sched_inv s'"
proof (cases "mProcessCount (mTeam s) > int kSchedProcessLimitPerTeam")
  case True
  then show ?thesis using assms by (simp add: UserProcessScheduler_Spawn_def)
next
  case False
  moreover have "mProcessCount (mTeam s) \<noteq> 32"
    using assms Spawn_full [of s c name code img]
    by (auto simp: sched_inv_def kSchedProcessLimitPerTeam_def)
  ultimately have n: "mProcessCount (mTeam s) < 32" by (simp add: kSchedProcessLimitPerTeam_def)
  then have "sched_inv (put_count (mProcessCount (mTeam s) + 1) s)"
    using assms(2) by (intro sched_inv_count) simp_all
  then show ?thesis
    using assms(1) False
    by (auto simp: UserProcessScheduler_Spawn_def bindF_eq_Inr Let_def spawn_finish_inv
        dest!: spawn_fail_inv spawn_dylib_inv [rotated] split: if_splits)
qed

subsection \<open>Run\<close>

definition age :: "UserProcess \<Rightarrow> UserProcess" where
  "age p = p\<lparr>PTime := PTime p - 1\<rparr>"

lemma run_slot_idle: "\<not> CanBeScheduled (slot i s) \<Longrightarrow> run_slot c i s = Inr (put_slot i (age (slot i s)) s)"
  by (simp add: run_slot_def age_def)

lemma TheCurrentPID_none: "mCurrentProcess (mTeam s) = None \<Longrightarrow> TheCurrentPID s = Inl kErrorProcessFault"
  by (simp add: TheCurrentPID_def CurrentProcess_def UserProcessTeam_AsRef_def)

lemma switch_faults:
  assumes "mCurrentProcess (mTeam s) = None" and "length (fThreadList (hwthreads s)) = kMaxAPInsideSched"
    and "fKind (fThreadList (hwthreads s) ! 0) \<in> {kAPStandard, kAPBoot}"
    and "fKind (fThreadList (hwthreads s) ! 1) = kAPStandard"
  shows "UserProcessHelper_Switch dbg image_ptr stack frame_ptr new_pid s = Inl NullDeref"
proof -
  have idx: "[0..<HwSched_Capacity (hwthreads s)] = 0 # 1 # [2..<8]"
    using assms(2) by (simp add: HwSched_Capacity_def Array_Count_def kMaxAPInsideSched_def upt_rec)
  have at0: "HwSched_at 0 (hwthreads s) = (Some 0, thread_upd 0 (\<lambda>t. t\<lparr>fKind := kAPBoot\<rparr>) (hwthreads s))"
    using assms(3) by (auto simp: HwSched_at_def HardwareThread_Kind_def)
  have at1: "HwSched_at 1 H = (Some 1, H)" for H
    by (simp add: HwSched_at_def kMaxAPInsideSched_def)
  show ?thesis
    unfolding UserProcessHelper_Switch_def idx switch_loop.simps at0 at1
    using assms by (simp add: HardwareThread_Kind_def TheCurrentPID_none kMaxAPInsideSched_def Let_def)
qed

lemma run_slot_busy:
  assumes "sched_inv s" and "CanBeScheduled (slot i s)"
  shows "run_slot c i s = Inl NullDeref"
proof -
  let ?s1 = "put_current (Ref_assign (CurrentProcess s) (slot i s)) s"
  let ?s2 = "put_slot i ((slot i ?s1)\<lparr>PTime := of_int (affinity_int (Affinity (slot i ?s1)))\<rparr>) ?s1"
  have "mCurrentProcess (mTeam ?s2) = None" "hwthreads ?s2 = hwthreads s"
    using assms(1) by (simp_all add: CurrentProcess_inv put_current_def Ref_assign_def)
  then have "UserProcessHelper_Switch dbg im st fr pid ?s2 = Inl NullDeref" for dbg im st fr pid
    using assms(1) by (intro switch_faults) (simp_all add: sched_inv_def kMaxAPInsideSched_def)
  then show ?thesis using assms(2) by (simp add: run_slot_def Let_def)
qed

lemma run_slots_busy:
  "sched_inv s \<Longrightarrow> distinct is \<Longrightarrow> \<exists>i \<in> set is. CanBeScheduled (slot i s) \<Longrightarrow>
   run_slots c is s = Inl NullDeref"
proof (induction "is" arbitrary: s)
  case (Cons i "is")
  show ?case
  proof (cases "CanBeScheduled (slot i s)")
    case True
    then show ?thesis using Cons.prems(1) by (simp add: run_slot_busy)
  next
    case False
    let ?s = "put_slot i (age (slot i s)) s"
    obtain j where j: "j \<in> set is" "CanBeScheduled (slot j s)" using Cons.prems(3) False by auto
    with Cons.prems(2) have "slot j ?s = slot j s" by (intro put_slot_simps(3)) auto
    with j have "\<exists>j \<in> set is. CanBeScheduled (slot j ?s)" by (intro bexI [of _ j]) simp_all
    then have "run_slots c is ?s = Inl NullDeref" using Cons.prems by (intro Cons.IH) simp_all
    then show ?thesis using False by (simp add: run_slot_idle)
  qed
qed simp

lemma put_slot_list: "mProcessList (mTeam (put_slot i p s)) = (mProcessList (mTeam s))[i := p]"
  by (simp add: put_slot_def)

lemma run_slots_idle:
  "\<forall>i < length ps. \<not> CanBeScheduled (ps ! i) \<Longrightarrow> mProcessList (mTeam s) = qs @ ps \<Longrightarrow>
   run_slots c [length qs..<length qs + length ps] s =
     Inr (s\<lparr>mTeam := (mTeam s)\<lparr>mProcessList := qs @ map age ps\<rparr>\<rparr>)"
proof (induction ps arbitrary: qs s)
  case Nil
  then show ?case by simp
next
  case (Cons p ps)
  let ?s = "put_slot (length qs) (age p) s"
  have slot: "slot (length qs) s = p" using Cons.prems(2) by simp
  have idle: "\<not> CanBeScheduled p" "\<forall>i < length ps. \<not> CanBeScheduled (ps ! i)"
    using Cons.prems(1) by auto
  have "run_slots c [length (qs @ [age p])..<length (qs @ [age p]) + length ps] ?s =
      Inr (?s\<lparr>mTeam := (mTeam ?s)\<lparr>mProcessList := (qs @ [age p]) @ map age ps\<rparr>\<rparr>)"
    by (rule Cons.IH) (use idle(2) Cons.prems(2) in \<open>simp_all add: put_slot_list\<close>)
  moreover have "[length qs..<length qs + length (p # ps)] =
      length qs # [length (qs @ [age p])..<length (qs @ [age p]) + length ps]"
    by (simp add: upt_conv_Cons del: upt_Suc)
  ultimately show ?case
    using idle(1) slot by (simp add: run_slot_idle put_slot_def del: upt_Suc)
qed

lemma run_inv:
  assumes "sched_inv s"
  shows "UserProcessScheduler_Run c s =
    (if mProcessCount (mTeam s) < 1 then Inr (0, s)
     else if \<exists>i < kSchedProcessLimitPerTeam. CanBeScheduled (slot i s) then Inl NullDeref
     else Inr (kSchedProcessLimitPerTeam,
       s\<lparr>mTeam := (mTeam s)\<lparr>mProcessList := map age (mProcessList (mTeam s))\<rparr>\<rparr>))"
proof (cases "\<exists>i < kSchedProcessLimitPerTeam. CanBeScheduled (slot i s)")
  case True
  then have "\<exists>i \<in> set [0..<kSchedProcessLimitPerTeam]. CanBeScheduled (slot i s)" by auto
  then have "run_slots c [0..<kSchedProcessLimitPerTeam] s = Inl NullDeref"
    by (rule run_slots_busy [OF assms, rotated]) simp
  with True assms show ?thesis by (simp add: UserProcessScheduler_Run_def Array_Count_def sched_inv_def)
next
  case False
  then have none: "(\<exists>i < kSchedProcessLimitPerTeam. CanBeScheduled (slot i s)) = False" by simp
  have "run_slots c [0..<kSchedProcessLimitPerTeam] s =
      Inr (s\<lparr>mTeam := (mTeam s)\<lparr>mProcessList := map age (mProcessList (mTeam s))\<rparr>\<rparr>)"
    using False assms run_slots_idle [of "mProcessList (mTeam s)" s "[]" c] by (simp add: sched_inv_def)
  with assms show ?thesis unfolding none
    by (simp add: UserProcessScheduler_Run_def Array_Count_def sched_inv_def)
qed

subsection \<open>The invariant is kept\<close>

lemma Remove_inv: "UserProcessScheduler_Remove c pid s = Inr (b, s') \<Longrightarrow> sched_inv s \<Longrightarrow> sched_inv s'"
  by (auto simp: UserProcessScheduler_Remove_def bindF_eq_Inr dest: UserProcess_Exit_inv split: if_splits)

lemma Run_keeps_inv: "UserProcessScheduler_Run c s = Inr (n, s') \<Longrightarrow> sched_inv s \<Longrightarrow> sched_inv s'"
  by (auto simp: run_inv sched_inv_def split: if_splits)

lemma sched_step_inv: "sched_step c s s' \<Longrightarrow> sched_inv s \<Longrightarrow> sched_inv s'"
proof (induction rule: sched_step.induct)
  case (step_launch main name s pid s')
  then show ?case by (auto simp: rtl_create_process_fn_def dest: Spawn_inv split: if_splits)
next
  case (step_tls_new n s ptr s')
  then show ?case using tls_new_ptr_inv [of s "kc c" n] by auto
qed (auto dest: Spawn_inv Remove_inv Run_keeps_inv UserProcess_Crash_inv UserProcess_Exit_inv tls_delete_ptr_inv)

lemma sched_reach_inv: "sched_reach c s \<Longrightarrow> sched_inv s"
  by (induction rule: sched_reach.induct) (auto simp: sched_inv_boot dest: sched_step_inv)

subsection \<open>Spawning on a fresh heap\<close>

lemma heap_end_append: "heap_end c (bs @ [(z, True)]) = heap_end c bs + unat z"
  by (simp add: heap_end_def chain_span_append)

lemma zero_fill_fresh:
  assumes fresh: "heap_fresh c (bs @ [(z, True)]) k" and z: "24 \<le> unat z"
  shows "heap_fresh c (bs @ [(z, True)]) (kmem_upd (write_bytes (heap_end c bs + 106) (replicate n 0)) k)"
proof -
  let ?p = "heap_end c bs" and ?m = "write_bytes (heap_end c bs + 106) (replicate n 0) (kbytes k)"
  have front: "chain_to (kbytes k) (bitmp_start c + kPageSize) bs"
    and hdr: "chain_to (kbytes k) ?p [(z, True)]"
    and zero: "\<And>i. ?p + unat z \<le> i \<Longrightarrow> kbytes k i = 0" and used: "\<forall>b \<in> set bs. snd b"
    using fresh by (auto simp: heap_fresh_def chain_append_to heap_end_append) (simp_all add: heap_end_def)
  have out: "i < ?p + 106 \<Longrightarrow> ?m i = kbytes k i" for i by (simp add: write_bytes_outside)
  have "chain_to ?m (bitmp_start c + kPageSize) bs"
    using front by (rule chain_to_frame) (rule out, simp add: heap_end_def)
  moreover have "load64 a ?m = load64 a (kbytes k)" if "a + 8 \<le> ?p + 24" for a
    using that by (intro load64_cong out) simp
  then have "chain_to ?m ?p [(z, True)]" using hdr by simp
  ultimately have "chain_to ?m (bitmp_start c + kPageSize) (bs @ [(z, True)])"
    by (simp add: chain_append_to heap_end_def)
  moreover have "?m i = 0" if "?p + unat z \<le> i" for i
    using zero [OF that] by (simp add: write_bytes_def less_diff_conv2)
  ultimately show ?thesis using used by (simp add: heap_fresh_def heap_end_append)
qed

lemma new_object_fresh:
  assumes "heap_fresh c bs k" and "37 \<le> n" and "n < 2 ^ 31" and "length bs < walk_fuel c"
    and "heap_end c bs + 2 ^ 32 < 2 ^ 64"
  shows "\<exists>k'. new_object c n k = Inr (heap_end c bs + 106, k') \<and>
    heap_fresh c (bs @ [(of_nat n + 53, True)]) k'"
proof -
  have n: "unat (of_nat n :: u64) = n" using assms(3) by (intro unat_of_nat64_less) simp
  then have max: "(of_nat n :: u64) < kKernelHeapMaxSize"
    using assms(3) by (simp add: word_less_nat_alt kKernelHeapMaxSize_def)
  obtain k1 where k1: "operator_new c (of_nat n) k = Inr (heap_end c bs + 106, k1)"
    "heap_fresh c (bs @ [(of_nat n + 53, True)]) k1"
    using operator_new_fresh [of c bs k "of_nat n"] assms n max by auto
  have "24 \<le> unat (of_nat n + 53 :: u64)"
    using heap_size_fix [OF max] by simp
  from zero_fill_fresh [OF k1(2) this, of n] k1(1) show ?thesis
    by (simp add: new_object_def)
qed

lemma copy_name_ok:
  "name \<noteq> 0 \<Longrightarrow> rt_string_len m name = Some len \<Longrightarrow> len < length buf \<Longrightarrow>
   copy_name m name buf = Inr (read_bytes name len m @ 0 # drop (Suc len) buf)"
  by (simp add: copy_name_def)

subsection \<open>Properties\<close>

definition named_conf :: sconf where
  "named_conf = \<lparr>kc = tiny_conf\<lparr>walk_fuel := 10\<rparr>, slot_addr = \<lambda>_. 0\<rparr>"

text \<open>
  C1. The scheduler's invariant: in every state the kernel can bring the scheduler to from boot, in
  any order of spawns, removals, runs, crashes, exits, wake-ups, allocations and frees, the team has
  32 slots, there is no current process (so \<^verbatim>\<open>TheCurrentPID\<close> is an error), and no start-up
  interrupt has been sent to a hardware thread: no process has ever been started.
\<close>

theorem sched_reachable_invariant:
  assumes "sched_reach c s"
  shows "length (mProcessList (mTeam s)) = 32 \<and> mProcessCount (mTeam s) \<le> 32 \<and>
    CurrentProcess s = None \<and> TheCurrentPID s = Inl kErrorProcessFault \<and> ipi_log (hwthreads s) = []"
  using sched_reach_inv [OF assms] CurrentProcess_inv
  by (auto simp: sched_inv_def TheCurrentPID_none kSchedProcessLimitPerTeam_def)

theorem sched_reachable_invariant_witness:
  "CurrentProcess (kstate_boot tiny_kmem) = None \<and> ipi_log (hwthreads (kstate_boot tiny_kmem)) = []"
  using sched_reachable_invariant [OF reach_boot [of named_conf tiny_kmem]] by simp

text \<open>
  C9. One round of the scheduler, in every reachable state: an empty team returns 0 at once;
  otherwise, when no slot can be scheduled, all 32 slots lose one tick (from 0 to the largest 64-bit
  number) and nothing else changes; and the first slot that can be scheduled makes the kernel write
  through the null reference to the current process.
\<close>

theorem Run_in_reachable_states:
  assumes "sched_reach c s"
  shows "UserProcessScheduler_Run c s =
    (if mProcessCount (mTeam s) < 1 then Inr (0, s)
     else if \<exists>i < 32. CanBeScheduled (slot i s) then Inl NullDeref
     else Inr (32, s\<lparr>mTeam := (mTeam s)\<lparr>mProcessList :=
       map (\<lambda>p. p\<lparr>PTime := PTime p - 1\<rparr>) (mProcessList (mTeam s))\<rparr>\<rparr>))"
  by (rule run_inv [OF sched_reach_inv [OF assms], unfolded age_def [abs_def] kSchedProcessLimitPerTeam_def])

theorem Run_in_reachable_states_witness:
  "UserProcessScheduler_Run named_conf (kstate_boot tiny_kmem) = Inr (0, kstate_boot tiny_kmem)"
  using Run_in_reachable_states [OF reach_boot [of named_conf tiny_kmem]]
  by (simp add: kstate_boot_def UserProcessTeam_new_def)

lemma Spawn_on_fresh_heap:
  assumes "sched_inv s" and "mProcessCount (mTeam s) = int i" and "i < 32"
    and "heap_fresh (kc c) bs (kern s)" and "length bs + 2 < walk_fuel (kc c)"
    and "heap_end (kc c) bs + 2 ^ 33 < 2 ^ 64"
    and "name \<noteq> 0" and "rt_string_len (kbytes (kern s)) name = Some len" and "len < length (Name (slot i s))"
    and "Kind (slot i s) \<noteq> kExectuableDylibKind"
    and "37 \<le> unat (StackSize (slot i s))" and "StackSize (slot i s) < kKernelHeapMaxSize"
  shows "\<exists>s' v f r. UserProcessScheduler_Spawn c name code img s = Inr (int i, s') \<and>
    0 < v \<and> v < f \<and> f < r \<and> mProcessCount (mTeam s') = int i + 1 \<and>
    slot i s' = (slot i s)\<lparr>Image := \<lparr>fCode = code, fBlob = img\<rparr>,
      Name := read_bytes name len (kbytes (kern s)) @ 0 # drop (Suc len) (Name (slot i s)),
      VMRegister := v, StackFrame := f, StackReserve := r, ProcessParentTeam := True,
      ProcessId := int i, Status := kStarting, PTime := 1000\<rparr> \<and>
    (\<forall>j. j \<noteq> i \<longrightarrow> slot j s' = slot j s)"
proof -
  let ?c = "kc c" and ?st = "StackSize (slot i s)"
  have len: "length (mProcessList (mTeam s)) = 32"
    using assms(1) by (simp add: sched_inv_def kSchedProcessLimitPerTeam_def)
  have sizes: "unat (of_nat n + 53 :: u64) = n + 53" if "n < 2 ^ 31" for n
  proof -
    have "unat (of_nat n :: u64) = n" using that by (intro unat_of_nat64_less) simp
    then show ?thesis
      using heap_size_fix [of "of_nat n"] that by (simp add: word_less_nat_alt kKernelHeapMaxSize_def)
  qed
  let ?bs1 = "bs @ [(of_nat sizeof_PDE + 53, True)]"
  obtain k1 where k1: "new_object ?c sizeof_PDE (kern s) = Inr (heap_end ?c bs + 106, k1)"
    "heap_fresh ?c ?bs1 k1"
    using new_object_fresh [OF assms(4), of sizeof_PDE] assms(5,6) by (auto simp: sizeof_PDE_def)
  have e1: "heap_end ?c ?bs1 = heap_end ?c bs + 4149"
    unfolding heap_end_append by (subst sizes) (simp_all add: sizeof_PDE_def)
  let ?bs2 = "?bs1 @ [(of_nat sizeof_StackFrame + 53, True)]"
  obtain k2 where k2: "new_object ?c sizeof_StackFrame (mm_map_page (heap_end ?c bs + 106) user_page_flags k1) =
      Inr (heap_end ?c ?bs1 + 106, k2)" "heap_fresh ?c ?bs2 k2"
    using new_object_fresh [of ?c ?bs1 "mm_map_page (heap_end ?c bs + 106) user_page_flags k1" sizeof_StackFrame]
      k1(2) assms(5,6) e1 by (auto simp: sizeof_StackFrame_def)
  have e2: "heap_end ?c ?bs2 = heap_end ?c ?bs1 + 141"
    unfolding heap_end_append by (subst sizes) (simp_all add: sizeof_StackFrame_def)
  obtain k3 where k3: "operator_new ?c ?st (mm_map_page (heap_end ?c ?bs1 + 106) user_page_flags k2) =
      Inr (heap_end ?c ?bs2 + 106, k3)"
    using operator_new_fresh [of ?c ?bs2 "mm_map_page (heap_end ?c ?bs1 + 106) user_page_flags k2" ?st]
      k2(2) assms(5,6,11,12) e1 e2 by auto
  show ?thesis
    using assms(2,3,10) k1(1) k2(1) k3 len copy_name_ok [OF assms(7-9)] e1 e2
    by (simp add: UserProcessScheduler_Spawn_def Let_def kSchedProcessLimitPerTeam_def spawn_dylib_def
        spawn_finish_def)
      (rule exI [of _ "heap_end ?c bs + 106"], simp, rule exI [of _ "heap_end ?c bs + 4255"], simp,
        rule exI [of _ "heap_end ?c bs + 4396"], simp add: add.commute)
qed

text \<open>
  C5. \<^verbatim>\<open>Spawn\<close> on a heap that has only grown: a program with a name shorter than 128 bytes
  goes into the slot of the current count and gets its number as its id; it is starting, with the
  standard allowance, its own page directory, frame and stack, and the count goes up by one. All
  other slots are untouched.
\<close>

theorem Spawn_starts_process:
  assumes "sched_inv s" and "mProcessCount (mTeam s) = int i" and "i < 32"
    and "heap_fresh (kc c) bs (kern s)" and "length bs + 2 < walk_fuel (kc c)"
    and "heap_end (kc c) bs + 2 ^ 33 < 2 ^ 64"
    and "name \<noteq> 0" and "rt_string_len (kbytes (kern s)) name = Some len" and "len < length (Name (slot i s))"
    and "Kind (slot i s) \<noteq> kExectuableDylibKind"
    and "37 \<le> unat (StackSize (slot i s))" and "StackSize (slot i s) < kKernelHeapMaxSize"
  shows "\<exists>s' v f r. UserProcessScheduler_Spawn c name code img s = Inr (int i, s') \<and>
    0 < v \<and> v < f \<and> f < r \<and> mProcessCount (mTeam s') = int i + 1 \<and>
    slot i s' = (slot i s)\<lparr>Image := \<lparr>fCode = code, fBlob = img\<rparr>,
      Name := read_bytes name len (kbytes (kern s)) @ 0 # drop (Suc len) (Name (slot i s)),
      VMRegister := v, StackFrame := f, StackReserve := r, ProcessParentTeam := True,
      ProcessId := int i, Status := kStarting, PTime := 1000\<rparr> \<and>
    (\<forall>j. j \<noteq> i \<longrightarrow> slot j s' = slot j s)"
  by (rule Spawn_on_fresh_heap [OF assms])

text \<open>A machine with the name \<^verbatim>\<open>A\<close> at address 16, for the witnesses.\<close>

definition named_kmem :: kmem where
  "named_kmem = tiny_kmem\<lparr>kbytes := (\<lambda>_. 0)(16 := 65)\<rparr>"

lemma named_fresh: "heap_fresh (kc named_conf) [] (named_kmem\<lparr>cr3 := r\<rparr>)"
  by (simp add: heap_fresh_def named_conf_def named_kmem_def tiny_conf_def heap_end_def kPageSize_def)

lemma named_len: "rt_string_len (kbytes named_kmem) 16 = Some 1"
  by (simp add: rt_string_len_iff named_kmem_def tiny_kmem_def)

lemma named_end: "heap_end (kc named_conf) [] = 4096"
  by (simp add: named_conf_def tiny_conf_def heap_end_def kPageSize_def)

lemma named_fuel: "walk_fuel (kc named_conf) = Suc 9"
  by (simp add: named_conf_def)

lemma boot_slot: "i < 32 \<Longrightarrow> slot i (kstate_boot k) = UserProcess_new\<lparr>Status := kKilled\<rparr>"
  by (simp add: kstate_boot_def UserProcessTeam_new_def kSchedProcessLimitPerTeam_def)

lemma boot_state: "mProcessCount (mTeam (kstate_boot k)) = 0" "kern (kstate_boot k) = k"
  by (simp_all add: kstate_boot_def UserProcessTeam_new_def)

lemma new_process_fields:
  "Kind UserProcess_new = 1" "unat (StackSize UserProcess_new) = 8388608" "length (Name UserProcess_new) = 128"
  "StackSize UserProcess_new < kKernelHeapMaxSize"
  by (simp_all add: UserProcess_new_def kSchedMaxStackSz_def default_name_def kProcessNameLen_def
      kKernelHeapMaxSize_def)

theorem Spawn_starts_process_witness:
  "\<exists>s'. UserProcessScheduler_Spawn named_conf 16 0x5000 0 (kstate_boot named_kmem) = Inr (0, s') \<and>
     Status (slot 0 s') = kStarting \<and> fCode (Image (slot 0 s')) = 0x5000"
  using Spawn_starts_process [OF sched_inv_boot [of named_kmem], where i = 0 and c = named_conf
      and bs = "[]" and name = 16 and len = 1 and code = "0x5000" and img = 0]
    named_fresh [of 0] named_len
  by (auto simp: boot_slot boot_state new_process_fields named_end named_fuel named_kmem_def tiny_kmem_def)



text \<open>Any spawn that gives an id has filled the slot of the count.\<close>

lemma Spawn_result:
  assumes "UserProcessScheduler_Spawn c name code img s = Inr (pid, s')" and "sched_inv s"
    and "pid \<noteq> uint kErrorProcessFault"
  shows "pid = mProcessCount (mTeam s) \<and> 0 \<le> pid \<and> pid < 32 \<and>
    fCode (Image (slot (nat pid) s')) = code \<and> Status (slot (nat pid) s') = kStarting"
proof -
  let ?n = "mProcessCount (mTeam s)"
  have len: "length (mProcessList (mTeam s)) = 32"
    using assms(2) by (simp add: sched_inv_def kSchedProcessLimitPerTeam_def)
  have n1: "\<not> ?n > int kSchedProcessLimitPerTeam"
    using assms(1,3) by (rule_tac notI) (simp add: UserProcessScheduler_Spawn_def)
  moreover have "\<not> (?n < 0 \<or> nat ?n \<ge> 32)"
    using assms(1) len n1 by (rule_tac notI) (simp add: UserProcessScheduler_Spawn_def)
  ultimately have n: "\<not> ?n > int kSchedProcessLimitPerTeam" "\<not> (?n < 0 \<or> nat ?n \<ge> 32)" .
  then have bound: "0 \<le> ?n" "nat ?n < 32" by simp_all
  then have "sched_inv (put_count (?n + 1) s)" using assms(2) by (intro sched_inv_count) simp_all
  moreover have failed: "spawn_fail c i t = Inr (pid, s') \<Longrightarrow> pid = uint kErrorProcessFault" for i t
    by (auto simp: spawn_fail_def bindF_eq_Inr)
  ultimately show ?thesis
    using assms(1,3) n bound len
    by (auto simp: UserProcessScheduler_Spawn_def bindF_eq_Inr Let_def spawn_finish_def
        dest!: spawn_dylib_inv [rotated] dest: failed split: if_splits)
qed

text \<open>
  The count is not a free slot: after any process but the last has been removed, the next
  process that is spawned takes the slot of the last one, which was still in use, and overwrites its
  code and status; the slot that was freed stays unused.
\<close>

theorem Spawn_after_Remove_overwrites:
  assumes "sched_inv s" and "UserProcessScheduler_Remove c a s = Inr (True, s1)"
    and "a < mProcessCount (mTeam s) - 1"
    and "UserProcessScheduler_Spawn c name code img s1 = Inr (pid, s2)"
    and "pid \<noteq> uint kErrorProcessFault"
  shows "pid = mProcessCount (mTeam s) - 1 \<and> pid \<noteq> a \<and> slot (nat pid) s1 = slot (nat pid) s \<and>
    fCode (Image (slot (nat pid) s2)) = code \<and> Status (slot (nat pid) s2) = kStarting"
proof -
  have "0 \<le> a" "a < 32" "UserProcess_Exit c 0 (nat a) s = Inr s1"
    using assms(1,2) by (auto simp: UserProcessScheduler_Remove_def bindF_eq_Inr Array_Count_def
        sched_inv_def kSchedProcessLimitPerTeam_def split: if_splits)
  moreover from UserProcess_Exit_team [OF this(3)]
  have "mProcessCount (mTeam s1) = mProcessCount (mTeam s) - 1"
    "\<And>j. j \<noteq> nat a \<Longrightarrow> slot j s1 = slot j s" by simp_all
  ultimately show ?thesis
    using Spawn_result [OF assms(4) Remove_inv [OF assms(2,1)] assms(5)] assms(3) by auto
qed

theorem Spawn_after_Remove_overwrites_witness:
  "\<exists>s s1 s2. sched_inv s \<and> Status (slot 1 s) = kRunning \<and> fCode (Image (slot 1 s)) = 0x7000 \<and>
     UserProcessScheduler_Remove named_conf 0 s = Inr (True, s1) \<and>
     UserProcessScheduler_Spawn named_conf 16 0x5000 0 s1 = Inr (1, s2) \<and>
     fCode (Image (slot 1 s2)) = 0x5000"
proof -
  define p where "p = UserProcess_new\<lparr>Status := kRunning, Image := \<lparr>fCode = 0x7000, fBlob = 0\<rparr>,
    ProcessParentTeam := True\<rparr>"
  define s where "s = put_count 2 (put_slot 1 p (put_slot 0 p (kstate_boot named_kmem)))"
  have inv: "sched_inv s" unfolding s_def by (intro sched_inv_count) (simp_all add: sched_inv_boot)
  have len: "length (mProcessList (mTeam s)) = 32" and kern: "kern s = named_kmem"
    and slots: "slot 0 s = p" "slot 1 s = p" and count: "mProcessCount (mTeam s) = 2"
    by (simp_all add: s_def boot_state kstate_boot_def UserProcessTeam_new_def kSchedProcessLimitPerTeam_def)
  have magic: "load64 0x7000 ((\<lambda>_. 0)(16 := 65)) = 0" by (rule load64_zeros) simp
  have walk: "exit_walk dbg (walk_fuel (kc named_conf)) pd 0 k = Inr k" for dbg pd k
    unfolding named_fuel exit_walk.simps by simp
  have mem: "exit_memory (kc named_conf) (p\<lparr>Status := st, fLastExitCode := 0\<rparr>) named_kmem = Inr named_kmem" for st
    by (simp add: exit_memory_def p_def UserProcess_new_def walk mm_free_bitmap_def delete_if_valid_def
        mm_is_valid_heap_def mm_is_bitmap_def IsBitMap_def named_kmem_def tiny_kmem_def magic exit_dylib_def
        kBitMapMagic_def Let_def)
  define s1 where "s1 = put_kern named_kmem (put_count 1
      (put_slot 0 (exit_record 0 (p\<lparr>Status := kFrozen, fLastExitCode := 0\<rparr>))
        (put_slot 0 (p\<lparr>Status := kFrozen, fLastExitCode := 0\<rparr>) (s\<lparr>kLastExitCode := 0\<rparr>))))"
  have rem: "UserProcessScheduler_Remove named_conf 0 s = Inr (True, s1)"
    using len mem by (simp add: UserProcessScheduler_Remove_def Array_Count_def UserProcess_Exit_def
        slots kern count s1_def p_def put_kern_def put_slot_def put_count_def operator_delete_def named_conf_def Let_def)
  have inv1: "sched_inv s1" by (rule Remove_inv [OF rem inv])
  have s1: "mProcessCount (mTeam s1) = int 1" "kern s1 = named_kmem" "slot 1 s1 = p"
    by (simp_all add: s1_def) (simp add: put_slot_def put_count_def slots [simplified])
  obtain s2 where s2: "UserProcessScheduler_Spawn named_conf 16 0x5000 0 s1 = Inr (1, s2)"
    using Spawn_on_fresh_heap [OF inv1 s1(1), where c = named_conf and bs = "[]" and name = 16
        and len = 1 and code = "0x5000" and img = 0] named_fresh [of 0] named_len
    by (auto simp: s1 s1(3) [simplified] p_def new_process_fields named_end named_fuel named_kmem_def tiny_kmem_def)
  from Spawn_after_Remove_overwrites [OF inv rem _ s2] have "fCode (Image (slot 1 s2)) = 0x5000"
    by (simp add: count)
  with inv rem s2 show ?thesis
    using slots by (intro exI [of _ s] exI [of _ s1] exI [of _ s2]) (simp add: p_def)
qed

end
