(* ===== verification/DriveMgr.thy ===== *)
theory DriveMgr
  imports ProcSched
begin

text \<open>
  The drive manager: \<^verbatim>\<open>DriveMgr.cc\<close>, \<^verbatim>\<open>DriveMgr+IO.cc\<close> and
  \<^verbatim>\<open>KernelKit/DriveMgr.h\<close>, built for an ATA disk.

  The disk itself is a byte store. The disk driver of the HAL is a parameter, \<open>disk_hw\<close>: the place
  on the disk where a transfer at a given \<^verbatim>\<open>lba\<close> starts, and whether the initialisation
  of a bus succeeds. A packet is
  passed by value, so a callee's changes to it are lost; its content pointer is a buffer handed to the
  call, \<open>None\<close> for a null pointer. Names are HOL strings, bytes on disk are words.
\<close>

subsection \<open>Data\<close>

text \<open>The four routines a drive's function pointers can hold, and the null pointer.\<close>

datatype drv_fn = NoFn | io_drv_unimplemented | io_drv_input | io_drv_output | io_drv_init

record DrivePacket =
  fPacketMime :: string
  fPacketSize :: nat
  fPacketCRC32 :: u32
  fPacketGood :: bool
  fPacketLba :: u64
  fPacketKindFlags :: u32
  fPacketReadOnly :: bool

record DriveTrait =
  fName :: string
  fKindD :: u32
  fFlags :: u32
  fPacket :: DrivePacket
  fLbaStart :: u64
  fLbaEnd :: u64
  fSectorSz :: u64
  fInput :: drv_fn
  fOutput :: drv_fn
  fVerify :: drv_fn
  fInit :: drv_fn

definition DriveTrait_new :: DriveTrait where
  "DriveTrait_new =
     \<lparr>fName = '''', fKindD = 0, fFlags = 0,
      fPacket = \<lparr>fPacketMime = ''*/*'', fPacketSize = 0, fPacketCRC32 = 0, fPacketGood = True,
        fPacketLba = 0, fPacketKindFlags = 0, fPacketReadOnly = False\<rparr>,
      fLbaStart = 0, fLbaEnd = 0, fSectorSz = 512, fInput = NoFn, fOutput = NoFn, fVerify = NoFn,
      fInit = NoFn\<rparr>"

record MountpointInterface =
  mA :: DriveTrait
  mB :: DriveTrait
  mC :: DriveTrait
  mD :: DriveTrait

abbreviation kDriveIndexA :: nat where "kDriveIndexA \<equiv> 0"
abbreviation kDriveIndexB :: nat where "kDriveIndexB \<equiv> 1"
abbreviation kDriveIndexC :: nat where "kDriveIndexC \<equiv> 2"
abbreviation kDriveIndexD :: nat where "kDriveIndexD \<equiv> 3"

definition kInvalidDisc :: u32 where "kInvalidDisc = - 1"
definition kMassStorageDisc :: u32 where "kMassStorageDisc = 0xDA"
definition kReadOnlyDrive :: u32 where "kReadOnlyDrive = 0x10"
definition kEPMDrive :: u32 where "kEPMDrive = 0x11"
definition kUnformattedDrive :: u32 where "kUnformattedDrive = 0x15"

record disk_hw =
  dpos :: "nat \<Rightarrow> nat"
  drv_std_init :: "u16 \<Rightarrow> bool \<Rightarrow> bool"

record disk =
  platter :: mem
  kATAIO :: u16
  kATAMaster :: bool

abbreviation ATA_PRIMARY_IO :: u16 where "ATA_PRIMARY_IO \<equiv> 0x1F0"
abbreviation ATA_SECONDARY_IO :: u16 where "ATA_SECONDARY_IO \<equiv> 0x170"

definition drv_std_read :: "disk_hw \<Rightarrow> u64 \<Rightarrow> nat \<Rightarrow> disk \<Rightarrow> u8 list" where
  "drv_std_read hw lba sz d = read_bytes (dpos hw (unat lba)) sz (platter d)"

definition drv_std_write :: "disk_hw \<Rightarrow> u64 \<Rightarrow> u8 list \<Rightarrow> disk \<Rightarrow> disk" where
  "drv_std_write hw lba bs d = d\<lparr>platter := write_bytes (dpos hw (unat lba)) bs (platter d)\<rparr>"

subsection \<open>The driver routines\<close>

text \<open>\<^verbatim>\<open>io_drv_input\<close> fills the first \<^verbatim>\<open>fPacketSize\<close> bytes of the buffer.\<close>

definition drv_input :: "disk_hw \<Rightarrow> DrivePacket \<Rightarrow> u8 list option \<Rightarrow> disk \<Rightarrow> fault + u8 list" where
  "drv_input hw p buf d =
     (case buf of
        None \<Rightarrow> Inl NullDeref
      | Some b \<Rightarrow>
          if fPacketSize p \<le> length b
          then Inr (drv_std_read hw (fPacketLba p) (fPacketSize p) d @ drop (fPacketSize p) b)
          else Inl OutOfBounds)"

definition drv_output :: "disk_hw \<Rightarrow> DrivePacket \<Rightarrow> u8 list option \<Rightarrow> disk \<Rightarrow> fault + disk" where
  "drv_output hw p buf d =
     (if fPacketReadOnly p then Inr d
      else case buf of
        None \<Rightarrow> Inl NullDeref
      | Some b \<Rightarrow>
          if fPacketSize p \<le> length b
          then Inr (drv_std_write hw (fPacketLba p) (take (fPacketSize p) b) d)
          else Inl OutOfBounds)"

text \<open>
  The result in the packet goes to the callee's copy. The bus and the drive are also the driver's output
  parameters: a successful initialisation sets them to the bus and to the master (0) or the slave (1).
\<close>

definition drv_init :: "disk_hw \<Rightarrow> DrivePacket \<Rightarrow> disk \<Rightarrow> disk" where
  "drv_init hw p d =
     (if drv_std_init hw ATA_PRIMARY_IO True then d\<lparr>kATAIO := ATA_PRIMARY_IO, kATAMaster := False\<rparr>
      else if \<not> drv_std_init hw ATA_SECONDARY_IO False then d\<lparr>kATAIO := ATA_SECONDARY_IO, kATAMaster := False\<rparr>
      else d\<lparr>kATAIO := ATA_SECONDARY_IO, kATAMaster := True\<rparr>)"

text \<open>
  A call through a function pointer of a drive: the buffer and the disk afterwards. Every routine has
  the same C++ type, so any of them can stand behind any pointer.
\<close>

definition call_drv ::
  "drv_fn \<Rightarrow> disk_hw \<Rightarrow> DrivePacket \<Rightarrow> u8 list option \<Rightarrow> disk \<Rightarrow> fault + (u8 list option \<times> disk)" where
  "call_drv fn hw p buf d =
     (case fn of
        NoFn \<Rightarrow> Inl NullDeref
      | io_drv_unimplemented \<Rightarrow> Inr (buf, d)
      | io_drv_input \<Rightarrow> bindF (drv_input hw p buf d) (\<lambda>b. Inr (Some b, d))
      | io_drv_output \<Rightarrow> bindF (drv_output hw p buf d) (\<lambda>d1. Inr (buf, d1))
      | io_drv_init \<Rightarrow> Inr (buf, drv_init hw p d))"

definition io_drv_kind :: string where
  "io_drv_kind = ''ATA-PIO''"

definition io_construct_blank_drive :: DriveTrait where
  "io_construct_blank_drive =
     DriveTrait_new\<lparr>fName := ''/media/blank/'', fKindD := kInvalidDisc, fInput := io_drv_unimplemented,
       fOutput := io_drv_unimplemented, fVerify := io_drv_unimplemented, fInit := io_drv_unimplemented\<rparr>"

subsection \<open>Detecting the partition scheme\<close>

text \<open>The packed EPM block: 496 bytes, with the magic at 0, the sector size at 49, the bounds at 57 and 65.\<close>

definition sizeof_EPM_PART_BLOCK :: nat where
  "sizeof_EPM_PART_BLOCK = 5 + 32 + 4 + 4 * 8 + 2 + 4 + 16 + 401"

definition kEPMMagic :: "u8 list" where
  "kEPMMagic = [69, 80, 77, 65, 77]"

definition epm_Magic :: "u8 list \<Rightarrow> u8 list" where "epm_Magic b = take 5 b"
definition epm_SectorSz :: "u8 list \<Rightarrow> u64" where "epm_SectorSz b = dec64 (take 8 (drop 49 b))"
definition epm_LbaStart :: "u8 list \<Rightarrow> u64" where "epm_LbaStart b = dec64 (take 8 (drop 57 b))"
definition epm_LbaEnd :: "u8 list \<Rightarrow> u64" where "epm_LbaEnd b = dec64 (take 8 (drop 65 b))"

abbreviation packet_upd :: "(DrivePacket \<Rightarrow> DrivePacket) \<Rightarrow> DriveTrait \<Rightarrow> DriveTrait" where
  "packet_upd f t \<equiv> t\<lparr>fPacket := f (fPacket t)\<rparr>"

text \<open>The block on the stack is uninitialised: its bytes, \<open>junk\<close>, are an argument.\<close>

definition io_detect_drive ::
  "disk_hw \<Rightarrow> u8 list \<Rightarrow> DriveTrait \<Rightarrow> disk \<Rightarrow> fault + (DriveTrait \<times> disk)" where
  "io_detect_drive hw junk trait d =
     bindF (call_drv (fInit trait) hw (fPacket trait) None d) (\<lambda>(_, d1).
     let t1 = packet_upd (\<lambda>p. p\<lparr>fPacketLba := 0, fPacketSize := sizeof_EPM_PART_BLOCK,
                fPacketMime := ''fs/detect-packet''\<rparr>) trait in
     bindF (call_drv (fInput t1) hw (fPacket t1) (Some junk) d1) (\<lambda>(buf, d2).
     let block_struct = the buf in
     bindF (if epm_Magic block_struct = kEPMMagic then
              (let t2 = (packet_upd (\<lambda>p. p\<lparr>fPacketReadOnly := False\<rparr>) t1)
                 \<lparr>fKindD := kMassStorageDisc OR kEPMDrive, fSectorSz := epm_SectorSz block_struct,
                  fLbaEnd := epm_LbaEnd block_struct, fLbaStart := epm_LbaStart block_struct\<rparr>
               in if fSectorSz t2 = 0 \<or> fLbaEnd t2 = 0 \<or> fSectorSz t2 = 0
                  then ke_panic RUNTIME_CHECK_FAILED else Inr t2)
            else Inr ((packet_upd (\<lambda>p. p\<lparr>fPacketReadOnly := True\<rparr>) t1)
                 \<lparr>fKindD := kMassStorageDisc OR kUnformattedDrive OR kReadOnlyDrive\<rparr>)) (\<lambda>t3.
     Inr (packet_upd (\<lambda>p. p\<lparr>fPacketMime := ''*/*'', fPacketKindFlags := fKindD t3, fPacketLba := 0,
            fPacketSize := 0\<rparr>) t3, d2))))"

definition io_construct_main_drive ::
  "disk_hw \<Rightarrow> u8 list \<Rightarrow> disk \<Rightarrow> fault + (DriveTrait \<times> disk)" where
  "io_construct_main_drive hw junk d =
     io_detect_drive hw junk
       (DriveTrait_new\<lparr>fName := ''/media/sda/'', fVerify := io_drv_unimplemented,
         fOutput := io_drv_output, fInput := io_drv_input, fInit := io_drv_init\<rparr>) d"

subsection \<open>The mountpoint\<close>

definition mount_drive :: "nat \<Rightarrow> MountpointInterface \<Rightarrow> DriveTrait option" where
  "mount_drive i M =
     (if i = kDriveIndexA then Some (mA M) else if i = kDriveIndexB then Some (mB M)
      else if i = kDriveIndexC then Some (mC M) else if i = kDriveIndexD then Some (mD M) else None)"

text \<open>
  \<^verbatim>\<open>GetAddressOf\<close> reports through the current process's local code; it gives the index of the
  drive, or the null pointer.
\<close>

definition GetAddressOf :: "nat \<Rightarrow> kstate \<Rightarrow> fault + (nat option \<times> kstate)" where
  "GetAddressOf i s =
     (case CurrentProcess s of
        None \<Rightarrow> Inl NullDeref
      | Some p \<Rightarrow>
          if i \<le> kDriveIndexD then Inr (Some i, put_current (Some (p\<lparr>fLocalCode := kErrorSuccess\<rparr>)) s)
          else Inr (None, put_current (Some (p\<lparr>fLocalCode := kErrorNoSuchDisk\<rparr>)) s))"

text \<open>The result is the packet's good flag, which was just cleared and which the callee cannot reach.\<close>

definition fs_ifs_transfer ::
  "(DriveTrait \<Rightarrow> drv_fn) \<Rightarrow> disk_hw \<Rightarrow> MountpointInterface option \<Rightarrow> DriveTrait \<Rightarrow> nat \<Rightarrow>
   u8 list option \<Rightarrow> disk \<Rightarrow> fault + (u32 \<times> DriveTrait \<times> u8 list option \<times> disk)" where
  "fs_ifs_transfer fn hw Mnt DrvTrait DrvIndex buf d =
     (case Mnt of
        None \<Rightarrow> Inr (1, DrvTrait, buf, d)
      | Some M \<Rightarrow>
          let T = packet_upd (\<lambda>p. p\<lparr>fPacketGood := False\<rparr>) DrvTrait;
              ret = (if fPacketGood (fPacket T) then 1 else 0) in
          case mount_drive DrvIndex M of
            None \<Rightarrow> Inr (ret, T, buf, d)
          | Some drv \<Rightarrow> bindF (call_drv (fn drv) hw (fPacket T) buf d) (\<lambda>(b, d1). Inr (ret, T, b, d1)))"

definition fs_ifs_read where "fs_ifs_read = fs_ifs_transfer fInput"
definition fs_ifs_write where "fs_ifs_write = fs_ifs_transfer fOutput"

subsection \<open>Where transfers start\<close>

text \<open>
  What the file system needs of the addressing: transfers of up to 514 bytes at addresses three sectors
  or more apart do not touch. It holds of the ATA driver's addressing and of the AHCI one's. The ATA
  driver divides the address by the sector size and moves one byte in each 16-bit word of the data port,
  so its places are words; the AHCI driver takes the address for a sector number.
\<close>

locale drive_addressing =
  fixes pos :: "nat \<Rightarrow> nat"
  assumes pos_apart: "a + 1536 \<le> b \<Longrightarrow> pos a + 514 \<le> pos b"
begin

lemma slots_disjoint:
  "a + 1536 \<le> b \<or> b + 1536 \<le> a \<Longrightarrow> n \<le> 514 \<Longrightarrow> k \<le> 514 \<Longrightarrow> disjoint_ext (pos a) n (pos b) k"
  using pos_apart [of a b] pos_apart [of b a] by (auto simp: disjoint_ext_def)

lemma read_other_slot:
  "a + 1536 \<le> b \<or> b + 1536 \<le> a \<Longrightarrow> n \<le> 514 \<Longrightarrow> length bs \<le> 514 \<Longrightarrow>
   read_bytes (pos a) n (write_bytes (pos b) bs m) = read_bytes (pos a) n m"
  by (simp add: read_write_bytes_disjoint slots_disjoint)

end

definition ata_pos :: "nat \<Rightarrow> nat" where
  "ata_pos lba = lba div 512 * 256"

definition ahci_pos :: "nat \<Rightarrow> nat" where
  "ahci_pos lba = lba * 512"

interpretation ata: drive_addressing ata_pos
proof
  fix a b :: nat
  assume "a + 1536 \<le> b"
  then have "a div 512 + 3 \<le> b div 512" using div_le_mono [of "a + 3 * 512" b 512] by simp
  then show "ata_pos a + 514 \<le> ata_pos b" by (simp add: ata_pos_def)
qed

interpretation ahci: drive_addressing ahci_pos
  by unfold_locales (simp add: ahci_pos_def)

subsection \<open>Lemmas\<close>

lemma drv_input_size: "drv_input hw p (Some b) d = Inr b' \<Longrightarrow> length b' = length b"
  by (auto simp: drv_input_def drv_std_read_def split: if_splits)

definition main_drive :: "DriveTrait \<Rightarrow> bool" where
  "main_drive t \<longleftrightarrow> fInput t = io_drv_input \<and> fOutput t = io_drv_output"

lemma platter_write: "platter (drv_std_write hw lba bs d) = write_bytes (dpos hw (unat lba)) bs (platter d)"
  by (simp add: drv_std_write_def)

subsection \<open>Properties\<close>



text \<open>
  Detecting the main drive: a disk whose first five bytes are not the EPM magic always gives a
  drive whose packets are read only, so nothing that goes through the drive can change the disk; one
  with the magic gives a writable drive with the sizes of the block, or a panic when a size is zero.
  The initialisation's success is not looked at.
\<close>

theorem io_construct_main_drive_spec:
  fixes hw :: disk_hw and d :: disk
  assumes "length junk = sizeof_EPM_PART_BLOCK"
  defines "blk \<equiv> read_bytes (dpos hw 0) sizeof_EPM_PART_BLOCK (platter d)"
  shows "if take 5 blk \<noteq> kEPMMagic then
      \<exists>t d'. io_construct_main_drive hw junk d = Inr (t, d') \<and> main_drive t \<and> platter d' = platter d \<and>
        (\<forall>p buf. fPacketReadOnly p = fPacketReadOnly (fPacket t) \<longrightarrow>
           call_drv (fOutput t) hw p buf d' = Inr (buf, d'))
    else if epm_SectorSz blk = 0 \<or> epm_LbaEnd blk = 0 then
      io_construct_main_drive hw junk d = Inl (Panic 1111)
    else \<exists>t d'. io_construct_main_drive hw junk d = Inr (t, d') \<and> main_drive t \<and>
        platter d' = platter d \<and> \<not> fPacketReadOnly (fPacket t) \<and> fSectorSz t = epm_SectorSz blk \<and>
        fLbaStart t = epm_LbaStart blk \<and> fLbaEnd t = epm_LbaEnd blk"
  using assms(1) unfolding blk_def
  by (auto simp: io_construct_main_drive_def io_detect_drive_def call_drv_def drv_init_def drv_input_def
      drv_output_def drv_std_read_def DriveTrait_new_def epm_Magic_def main_drive_def ke_panic_def Let_def)

theorem io_construct_main_drive_spec_witness:
  "\<exists>t d'. io_construct_main_drive \<lparr>dpos = ata_pos, drv_std_init = \<lambda>_ _. False\<rparr>
      (replicate sizeof_EPM_PART_BLOCK 0) \<lparr>platter = \<lambda>_. 0, kATAIO = 0, kATAMaster = False\<rparr> = Inr (t, d') \<and>
    main_drive t \<and> platter d' = (\<lambda>_. 0)"
proof -
  have "take 5 (read_bytes a 496 (\<lambda>_. 0)) \<noteq> kEPMMagic" for a
    by (rule notI, drule arg_cong [of _ _ hd])
      (simp add: read_bytes_def map_replicate_const kEPMMagic_def hd_take)
  then show ?thesis
    using io_construct_main_drive_spec [of "replicate sizeof_EPM_PART_BLOCK 0"
        "\<lparr>dpos = ata_pos, drv_std_init = \<lambda>_ _. False\<rparr>" "\<lparr>platter = \<lambda>_. 0, kATAIO = 0, kATAMaster = False\<rparr>"]
    by (auto simp: sizeof_EPM_PART_BLOCK_def split: if_splits)
qed

end
