(* ===== verification/NeFSLayout.thy ===== *)
theory NeFSLayout
  imports DriveMgr
begin

text \<open>
  The on-disk structures of NeFS (\<^verbatim>\<open>FSKit/OpenNeFS.h\<close>): the packed super block, catalog and
  fork records, their little-endian encodings at the offsets of the structs, and the C strings in them.
  Each encoding is an instance of \<open>typed_store\<close> on the disk, which gives what a read returns after a
  write.
\<close>

subsection \<open>Constants\<close>

abbreviation kNeFSCatalogKindFile :: u32 where "kNeFSCatalogKindFile \<equiv> 1"
abbreviation kNeFSCatalogKindDir :: u32 where "kNeFSCatalogKindDir \<equiv> 2"

definition kNeFSNodeNameLen :: nat where "kNeFSNodeNameLen = 256"
definition kNeFSMimeNameLen :: nat where "kNeFSMimeNameLen = 200"
definition kNeFSForkNameLen :: nat where "kNeFSForkNameLen = 200"
definition kNeFSPadLen :: nat where "kNeFSPadLen = 392"
definition kNeFSFlagDeleted :: nat where "kNeFSFlagDeleted = 70"
definition kNeFSFlagCreated :: nat where "kNeFSFlagCreated = 71"
definition kNeFSStatusLocked :: u16 where "kNeFSStatusLocked = 0x19"
definition kNeFSSeparator :: u8 where "kNeFSSeparator = 47"
definition kNeFSRoot :: "u8 list" where "kNeFSRoot = [47]"

subsection \<open>C strings\<close>

definition cstr :: "u8 list \<Rightarrow> u8 list" where
  "cstr bs = takeWhile (\<lambda>b. b \<noteq> 0) bs"

text \<open>\<^verbatim>\<open>rt_copy_memory\<close> of a string, with its terminator, into a field that has room for it.\<close>

definition put_cstr :: "u8 list \<Rightarrow> u8 list \<Rightarrow> u8 list" where
  "put_cstr str field = str @ 0 # drop (Suc (length str)) field"

lemma cstr_put_cstr [simp]: "0 \<notin> set str \<Longrightarrow> cstr (put_cstr str field @ rest) = str"
  unfolding cstr_def put_cstr_def append_assoc append_Cons
  by (rule takeWhile_append_stop) auto

lemma length_put_cstr: "length str < length field \<Longrightarrow> length (put_cstr str field) = length field"
  by (simp add: put_cstr_def)

subsection \<open>Records\<close>

record NFS_CATALOG_STRUCT =
  cat_Name :: "u8 list"
  cat_Mime :: "u8 list"
  cat_Flags :: u16
  cat_Status :: u16
  cat_CatalogFlags :: u16
  cat_Kind :: u32
  cat_DataForkSize :: u64
  cat_ResourceForkSize :: u64
  cat_DataFork :: u64
  cat_ResourceFork :: u64
  cat_NextSibling :: u64
  cat_PrevSibling :: u64

record NFS_FORK_STRUCT =
  fork_ForkName :: "u8 list"
  fork_CatalogName :: "u8 list"
  fork_Flags :: u32
  fork_Kind :: u32
  fork_ResourceId :: u64
  fork_ResourceKind :: u32
  fork_ResourceFlags :: u32
  fork_DataOffset :: u64
  fork_DataSize :: u64
  fork_NextSibling :: u64
  fork_PreviousSibling :: u64
  fork_Pad :: "u8 list"

record NFS_SUPER_BLOCK =
  sb_Ident :: "u8 list"
  sb_PartitionName :: "u8 list"
  sb_Flags :: u32
  sb_Kind :: u32
  sb_StartCatalog :: u64
  sb_CatalogCount :: u64
  sb_DiskSize :: u64
  sb_FreeCatalog :: u64
  sb_FreeSectors :: u64
  sb_SectorCount :: u64
  sb_SectorSize :: u64
  sb_Version :: u64
  sb_EpmBlock :: u64
  sb_Pad :: "u8 list"

definition catalog_ok :: "NFS_CATALOG_STRUCT \<Rightarrow> bool" where
  "catalog_ok c \<longleftrightarrow> length (cat_Name c) = 256 \<and> length (cat_Mime c) = 200"

definition fork_ok :: "NFS_FORK_STRUCT \<Rightarrow> bool" where
  "fork_ok f \<longleftrightarrow> length (fork_ForkName f) = 200 \<and> length (fork_CatalogName f) = 256 \<and> length (fork_Pad f) = 2"

definition super_ok :: "NFS_SUPER_BLOCK \<Rightarrow> bool" where
  "super_ok b \<longleftrightarrow> length (sb_Ident b) = 8 \<and> length (sb_PartitionName b) = 32 \<and> length (sb_Pad b) = 392"

text \<open>The value-initialised objects of \<^verbatim>\<open>new T()\<close> and \<^verbatim>\<open>T x{}\<close>.\<close>

definition catalog_zero :: NFS_CATALOG_STRUCT where
  "catalog_zero =
     \<lparr>cat_Name = replicate kNeFSNodeNameLen 0, cat_Mime = replicate kNeFSMimeNameLen 0, cat_Flags = 0,
      cat_Status = 0, cat_CatalogFlags = 0, cat_Kind = 0, cat_DataForkSize = 0, cat_ResourceForkSize = 0,
      cat_DataFork = 0, cat_ResourceFork = 0, cat_NextSibling = 0, cat_PrevSibling = 0\<rparr>"

definition fork_zero :: NFS_FORK_STRUCT where
  "fork_zero =
     \<lparr>fork_ForkName = replicate kNeFSForkNameLen 0, fork_CatalogName = replicate kNeFSNodeNameLen 0,
      fork_Flags = 0, fork_Kind = 0, fork_ResourceId = 0, fork_ResourceKind = 0, fork_ResourceFlags = 0,
      fork_DataOffset = 0, fork_DataSize = 0, fork_NextSibling = 0, fork_PreviousSibling = 0,
      fork_Pad = [0, 0]\<rparr>"

subsection \<open>Encodings\<close>

definition slice :: "nat \<Rightarrow> nat \<Rightarrow> u8 list \<Rightarrow> u8 list" where
  "slice a n bs = take n (drop a bs)"

definition enc_catalog :: "NFS_CATALOG_STRUCT \<Rightarrow> u8 list" where
  "enc_catalog c =
     cat_Name c @ cat_Mime c @ enc16 (cat_Flags c) @ enc16 (cat_Status c) @ enc16 (cat_CatalogFlags c) @
     enc32 (cat_Kind c) @ enc64 (cat_DataForkSize c) @ enc64 (cat_ResourceForkSize c) @
     enc64 (cat_DataFork c) @ enc64 (cat_ResourceFork c) @ enc64 (cat_NextSibling c) @
     enc64 (cat_PrevSibling c)"

definition dec_catalog :: "u8 list \<Rightarrow> NFS_CATALOG_STRUCT" where
  "dec_catalog b =
     \<lparr>cat_Name = slice 0 256 b, cat_Mime = slice 256 200 b, cat_Flags = dec16 (slice 456 2 b),
      cat_Status = dec16 (slice 458 2 b), cat_CatalogFlags = dec16 (slice 460 2 b),
      cat_Kind = dec32 (slice 462 4 b), cat_DataForkSize = dec64 (slice 466 8 b),
      cat_ResourceForkSize = dec64 (slice 474 8 b), cat_DataFork = dec64 (slice 482 8 b),
      cat_ResourceFork = dec64 (slice 490 8 b), cat_NextSibling = dec64 (slice 498 8 b),
      cat_PrevSibling = dec64 (slice 506 8 b)\<rparr>"

definition enc_fork :: "NFS_FORK_STRUCT \<Rightarrow> u8 list" where
  "enc_fork f =
     fork_ForkName f @ fork_CatalogName f @ enc32 (fork_Flags f) @ enc32 (fork_Kind f) @
     enc64 (fork_ResourceId f) @ enc32 (fork_ResourceKind f) @ enc32 (fork_ResourceFlags f) @
     enc64 (fork_DataOffset f) @ enc64 (fork_DataSize f) @ enc64 (fork_NextSibling f) @
     enc64 (fork_PreviousSibling f) @ fork_Pad f"

definition dec_fork :: "u8 list \<Rightarrow> NFS_FORK_STRUCT" where
  "dec_fork b =
     \<lparr>fork_ForkName = slice 0 200 b, fork_CatalogName = slice 200 256 b, fork_Flags = dec32 (slice 456 4 b),
      fork_Kind = dec32 (slice 460 4 b), fork_ResourceId = dec64 (slice 464 8 b),
      fork_ResourceKind = dec32 (slice 472 4 b), fork_ResourceFlags = dec32 (slice 476 4 b),
      fork_DataOffset = dec64 (slice 480 8 b), fork_DataSize = dec64 (slice 488 8 b),
      fork_NextSibling = dec64 (slice 496 8 b), fork_PreviousSibling = dec64 (slice 504 8 b),
      fork_Pad = slice 512 2 b\<rparr>"

definition enc_super :: "NFS_SUPER_BLOCK \<Rightarrow> u8 list" where
  "enc_super p =
     sb_Ident p @ sb_PartitionName p @ enc32 (sb_Flags p) @ enc32 (sb_Kind p) @ enc64 (sb_StartCatalog p) @
     enc64 (sb_CatalogCount p) @ enc64 (sb_DiskSize p) @ enc64 (sb_FreeCatalog p) @
     enc64 (sb_FreeSectors p) @ enc64 (sb_SectorCount p) @ enc64 (sb_SectorSize p) @
     enc64 (sb_Version p) @ enc64 (sb_EpmBlock p) @ sb_Pad p"

definition dec_super :: "u8 list \<Rightarrow> NFS_SUPER_BLOCK" where
  "dec_super b =
     \<lparr>sb_Ident = slice 0 8 b, sb_PartitionName = slice 8 32 b, sb_Flags = dec32 (slice 40 4 b),
      sb_Kind = dec32 (slice 44 4 b), sb_StartCatalog = dec64 (slice 48 8 b),
      sb_CatalogCount = dec64 (slice 56 8 b), sb_DiskSize = dec64 (slice 64 8 b),
      sb_FreeCatalog = dec64 (slice 72 8 b), sb_FreeSectors = dec64 (slice 80 8 b),
      sb_SectorCount = dec64 (slice 88 8 b), sb_SectorSize = dec64 (slice 96 8 b),
      sb_Version = dec64 (slice 104 8 b), sb_EpmBlock = dec64 (slice 112 8 b), sb_Pad = slice 120 392 b\<rparr>"

lemma slice_skip: "length xs \<le> a \<Longrightarrow> slice a n (xs @ ys) = slice (a - length xs) n ys"
  by (simp add: slice_def)

lemma slice_head: "length xs = n \<Longrightarrow> slice 0 n (xs @ ys) = xs"
  by (simp add: slice_def)

lemma slice_all: "length xs = n \<Longrightarrow> slice 0 n xs = xs"
  by (simp add: slice_def)

lemma length_slice: "a + n \<le> length bs \<Longrightarrow> length (slice a n bs) = n"
  by (simp add: slice_def)

lemmas slice_simps = slice_skip slice_head slice_all

lemma dec_enc_catalog: "catalog_ok c \<Longrightarrow> dec_catalog (enc_catalog c) = c"
  by (simp add: catalog_ok_def dec_catalog_def enc_catalog_def slice_simps)

lemma dec_enc_fork: "fork_ok f \<Longrightarrow> dec_fork (enc_fork f) = f"
  by (simp add: fork_ok_def dec_fork_def enc_fork_def slice_simps)

lemma dec_enc_super: "super_ok p \<Longrightarrow> dec_super (enc_super p) = p"
  by (simp add: super_ok_def dec_super_def enc_super_def slice_simps)

lemma length_enc_catalog: "catalog_ok c \<Longrightarrow> length (enc_catalog c) = 514"
  by (simp add: catalog_ok_def enc_catalog_def)

lemma length_enc_fork: "fork_ok f \<Longrightarrow> length (enc_fork f) = 514"
  by (simp add: fork_ok_def enc_fork_def)

lemma length_enc_super: "super_ok p \<Longrightarrow> length (enc_super p) = 512"
  by (simp add: super_ok_def enc_super_def)

lemma ok_dec_catalog: "length b = 514 \<Longrightarrow> catalog_ok (dec_catalog b)"
  by (simp add: catalog_ok_def dec_catalog_def length_slice)

lemma ok_dec_fork: "length b = 514 \<Longrightarrow> fork_ok (dec_fork b)"
  by (simp add: fork_ok_def dec_fork_def length_slice)

lemma ok_dec_super: "length b = 512 \<Longrightarrow> super_ok (dec_super b)"
  by (simp add: super_ok_def dec_super_def length_slice)

interpretation catalogs: typed_store read_bytes write_bytes enc_catalog dec_catalog 514 catalog_ok
  by unfold_locales (simp_all add: length_enc_catalog dec_enc_catalog ok_dec_catalog)

interpretation forks: typed_store read_bytes write_bytes enc_fork dec_fork 514 fork_ok
  by unfold_locales (simp_all add: length_enc_fork dec_enc_fork ok_dec_fork)

interpretation supers: typed_store read_bytes write_bytes enc_super dec_super 512 super_ok
  by unfold_locales (simp_all add: length_enc_super dec_enc_super ok_dec_super)

lemma catalog_zero_ok [simp]: "catalog_ok catalog_zero"
  by (simp add: catalog_ok_def catalog_zero_def kNeFSNodeNameLen_def kNeFSMimeNameLen_def)

lemma fork_zero_ok [simp]: "fork_ok fork_zero"
  by (simp add: fork_ok_def fork_zero_def kNeFSNodeNameLen_def kNeFSForkNameLen_def)

text \<open>
  The strings as the code reads them: from a field's first byte to the next zero byte, which may be
  past the field.
\<close>

definition catalog_name :: "NFS_CATALOG_STRUCT \<Rightarrow> u8 list" where
  "catalog_name c = cstr (enc_catalog c)"

definition fork_name :: "NFS_FORK_STRUCT \<Rightarrow> u8 list" where
  "fork_name f = cstr (enc_fork f)"

definition fork_catalog :: "NFS_FORK_STRUCT \<Rightarrow> u8 list" where
  "fork_catalog f = cstr (drop 200 (enc_fork f))"

lemma catalog_name_put: "0 \<notin> set str \<Longrightarrow> cat_Name c = put_cstr str old \<Longrightarrow> catalog_name c = str"
  by (simp add: catalog_name_def enc_catalog_def)

subsection \<open>Properties\<close>

text \<open>
  The three disk records survive the disk: a super block, a catalog and a fork of the sizes of
  the structs (512, 514 and 514 bytes) that are encoded and written at some place of a disk are decoded
  unchanged from that place, and what lies beside them is not touched.
\<close>

theorem nefs_records_round_trip:
  "(super_ok p \<longrightarrow> length (enc_super p) = 512 \<and> dec_super (read_bytes a 512 (write_bytes a (enc_super p) m)) = p) \<and>
   (catalog_ok c \<longrightarrow> length (enc_catalog c) = 514 \<and> dec_catalog (read_bytes a 514 (write_bytes a (enc_catalog c) m)) = c \<and>
      (\<forall>b n. disjoint_ext b n a 514 \<longrightarrow> read_bytes b n (write_bytes a (enc_catalog c) m) = read_bytes b n m)) \<and>
   (fork_ok f \<longrightarrow> length (enc_fork f) = 514 \<and> dec_fork (read_bytes a 514 (write_bytes a (enc_fork f) m)) = f)"
  using supers.read_write_same [of p a m] catalogs.read_write_same [of c a m] forks.read_write_same [of f a m]
    catalogs.read_write_other [of c]
  by (simp add: length_enc_super length_enc_catalog length_enc_fork)

theorem nefs_records_round_trip_witness:
  "dec_catalog (read_bytes 2560 514 (write_bytes 2560 (enc_catalog catalog_zero) (\<lambda>_. 1))) = catalog_zero"
  using nefs_records_round_trip [of undefined 2560 "\<lambda>_. 1" catalog_zero] by simp

end
