(* ===== verification/NeFS.thy ===== *)
theory NeFS
  imports NeFSLayout
begin

text \<open>
  The NeFS parser: \<^verbatim>\<open>FS/OpenNeFS.cc\<close> and the journal of \<^verbatim>\<open>FSKit/OpenNeFS.h\<close>.

  The state is the mountpoint, the disk behind its drive A and the global error code. Catalogs and
  forks the parser allocates are values; the heap they live on is the subject of \<open>HeapMgr\<close> and is
  taken to give out memory here. Names are C strings without their terminator; where the code tests a
  name for null it is an option. The two list walks and the search for a free slot follow links on the
  disk, so they have fuel.
\<close>

record nefs =
  mnt :: MountpointInterface
  dsk :: disk
  err_global :: u32

record nconf =
  hw :: disk_hw
  ndebug :: bool
  nfuel :: nat

definition kNeFSRootCatalogStartAddress :: u64 where
  "kNeFSRootCatalogStartAddress = 1024"

definition kNeFSCatalogStartAddress :: u64 where
  "kNeFSCatalogStartAddress = 2048 + 512"

definition kNeFSCatalogPadding :: nat where
  "kNeFSCatalogPadding = 4"

definition catalog_stride :: u64 where
  "catalog_stride = 514 * of_nat kNeFSCatalogPadding"

abbreviation set_err :: "u32 \<Rightarrow> nefs \<Rightarrow> nefs" where
  "set_err e s \<equiv> s\<lparr>err_global := e\<rparr>"

abbreviation set_mA :: "DriveTrait \<Rightarrow> nefs \<Rightarrow> nefs" where
  "set_mA t s \<equiv> s\<lparr>mnt := (mnt s)\<lparr>mA := t\<rparr>\<rparr>"

definition set_mime :: "string \<Rightarrow> DriveTrait \<Rightarrow> DriveTrait" where
  "set_mime str t = packet_upd (\<lambda>p. p\<lparr>fPacketMime := str\<rparr>) t"

definition set_packet :: "u64 \<Rightarrow> nat \<Rightarrow> DriveTrait \<Rightarrow> DriveTrait" where
  "set_packet lba sz t = packet_upd (\<lambda>p. p\<lparr>fPacketLba := lba, fPacketSize := sz\<rparr>) t"

text \<open>Setting a packet up for a buffer and handing it to the drive's input or output routine.\<close>

definition nefs_input :: "nconf \<Rightarrow> u64 \<Rightarrow> u8 list \<Rightarrow> DriveTrait \<Rightarrow> disk \<Rightarrow> fault + (u8 list \<times> DriveTrait \<times> disk)" where
  "nefs_input c lba buf t d =
     (let t1 = set_packet lba (length buf) t
      in bindF (call_drv (fInput t1) (hw c) (fPacket t1) (Some buf) d) (\<lambda>(b, d1). Inr (the b, t1, d1)))"

definition nefs_output :: "nconf \<Rightarrow> u64 \<Rightarrow> u8 list \<Rightarrow> DriveTrait \<Rightarrow> disk \<Rightarrow> fault + (DriveTrait \<times> disk)" where
  "nefs_output c lba buf t d =
     (let t1 = set_packet lba (length buf) t
      in bindF (call_drv (fOutput t1) (hw c) (fPacket t1) (Some buf) d) (\<lambda>(b, d1). Inr (t1, d1)))"

subsection \<open>The parent of a name\<close>

text \<open>
  The name is copied into a zeroed array of 256 characters, its last two characters are zeroed, and
  then everything back to the separator before them. Both subtractions and the walk can leave the array.
\<close>

fun parent_scan :: "u8 list \<Rightarrow> nat \<Rightarrow> fault + u8 list" where
  "parent_scan l 0 = (if l ! 0 = kNeFSSeparator then Inr (take 1 l) else Inl OutOfBounds)"
| "parent_scan l (Suc i) =
     (if l ! Suc i = kNeFSSeparator then Inr (take (Suc (Suc i)) l) else parent_scan l i)"

definition parent_name :: "u8 list \<Rightarrow> fault + u8 list" where
  "parent_name name =
     (if length name \<ge> kNeFSNodeNameLen then Inl OutOfBounds
      else if length name < 2 then Inl OutOfBounds
      else parent_scan (name[length name - 1 := 0, length name - 2 := 0]) (length name - 2))"

subsection \<open>FindCatalog\<close>

text \<open>The walk over the catalogs: the catalog and its address, or nothing, and the last packet's drive.\<close>

fun search_catalogs ::
  "nconf \<Rightarrow> nat \<Rightarrow> u8 list \<Rightarrow> bool \<Rightarrow> u64 \<Rightarrow> u64 \<Rightarrow> u8 list \<Rightarrow> nefs \<Rightarrow>
   fault + ((NFS_CATALOG_STRUCT \<times> u64) option \<times> u8 list \<times> nefs)" where
  "search_catalogs c 0 name search_hidden StartCatalog lba buf s = Inl OutOfFuel"
| "search_catalogs c (Suc fuel) name search_hidden StartCatalog lba buf s =
     bindF (nefs_input c lba buf (mA (mnt s)) (dsk s)) (\<lambda>(buf1, t1, d1).
       let s1 = set_mA t1 s\<lparr>dsk := d1\<rparr>;
           temporary_catalog = dec_catalog buf1;
           next_step = (\<lambda>s2.
             if cat_NextSibling temporary_catalog < StartCatalog then Inr (None, buf1, s2)
             else search_catalogs c fuel name search_hidden StartCatalog
                    (cat_NextSibling temporary_catalog) buf1 s2)
       in if name = catalog_name temporary_catalog then
            (if cat_Status temporary_catalog = kNeFSStatusLocked \<and> \<not> search_hidden
             then next_step (set_err kErrorFileLocked s1)
             else if cat_Flags temporary_catalog AND of_nat kNeFSFlagCreated = 0
             then next_step (set_err kErrorFileNotFound s1)
             else Inr (Some (temporary_catalog, lba), buf1, s1))
          else next_step s1)"

definition find_from ::
  "nconf \<Rightarrow> u8 list \<Rightarrow> bool \<Rightarrow> bool \<Rightarrow> NFS_SUPER_BLOCK \<Rightarrow> u64 \<Rightarrow> nefs \<Rightarrow>
   fault + (NFS_CATALOG_STRUCT option \<times> u64 \<times> nefs)" where
  "find_from c name search_hidden local_search part start s =
     bindF (search_catalogs c (nfuel c) name search_hidden (sb_StartCatalog part) start
              (enc_catalog catalog_zero) s) (\<lambda>(r, buf, s1).
       case r of
         Some (cat, lba) \<Rightarrow> Inr (Some cat, lba, s1)
       | None \<Rightarrow>
           if local_search then
             bindF (search_catalogs c (nfuel c) name search_hidden (sb_StartCatalog part)
                      (sb_StartCatalog part) buf s1) (\<lambda>(r2, buf2, s2).
               case r2 of
                 Some (cat, lba) \<Rightarrow> Inr (Some cat, lba, s2)
               | None \<Rightarrow> Inr (None, 0, set_err kErrorFileNotFound s2))
           else Inr (None, 0, set_err kErrorFileNotFound s1))"

text \<open>The super block as every operation reads it, into a zeroed buffer.\<close>

definition read_super :: "nconf \<Rightarrow> DriveTrait \<Rightarrow> disk \<Rightarrow> fault + (NFS_SUPER_BLOCK \<times> DriveTrait \<times> disk)" where
  "read_super c t d =
     bindF (nefs_input c kNeFSRootCatalogStartAddress (replicate 512 0) t d) (\<lambda>(b, t1, d1).
       Inr (dec_super b, t1, d1))"

definition find_start :: "nconf \<Rightarrow> nefs \<Rightarrow> fault + (NFS_SUPER_BLOCK \<times> nefs)" where
  "find_start c s =
     bindF (read_super c (set_mime ''fs/nefs-packet'' (mA (mnt s))) (dsk s)) (\<lambda>(part, t1, d1).
       Inr (part, set_mA t1 s\<lparr>dsk := d1\<rparr>))"

text \<open>The search the parent's own search is: without a local one.\<close>

definition FindCatalog_global ::
  "nconf \<Rightarrow> u8 list option \<Rightarrow> u64 \<Rightarrow> bool \<Rightarrow> nefs \<Rightarrow> fault + (NFS_CATALOG_STRUCT option \<times> u64 \<times> nefs)" where
  "FindCatalog_global c cname out_lba search_hidden s =
     (case cname of
        None \<Rightarrow> Inr (None, out_lba, s)
      | Some name \<Rightarrow>
          if name = [] then Inr (None, out_lba, s)
          else bindF (find_start c s) (\<lambda>(part, s1).
            find_from c name search_hidden False part kNeFSCatalogStartAddress s1))"

definition FindCatalog ::
  "nconf \<Rightarrow> u8 list option \<Rightarrow> u64 \<Rightarrow> bool \<Rightarrow> bool \<Rightarrow> nefs \<Rightarrow>
   fault + (NFS_CATALOG_STRUCT option \<times> u64 \<times> nefs)" where
  "FindCatalog c cname out_lba search_hidden local_search s =
     (case cname of
        None \<Rightarrow> Inr (None, out_lba, s)
      | Some name \<Rightarrow>
          if name = [] then Inr (None, out_lba, s)
          else bindF (find_start c s) (\<lambda>(part, s1).
            if name \<noteq> kNeFSRoot \<and> local_search then
              bindF (parent_name name) (\<lambda>pname.
              bindF (FindCatalog_global c (Some (cstr pname)) out_lba True s1) (\<lambda>(parent, lba1, s2).
                case parent of
                  Some p \<Rightarrow> find_from c name search_hidden True part (cat_NextSibling p) s2
                | None \<Rightarrow> Inr (None, lba1, s2)))
            else find_from c name search_hidden local_search part kNeFSCatalogStartAddress s1))"

definition GetCatalog :: "nconf \<Rightarrow> u8 list option \<Rightarrow> nefs \<Rightarrow> fault + (NFS_CATALOG_STRUCT option \<times> nefs)" where
  "GetCatalog c name s =
     bindF (FindCatalog c name 0 True False s) (\<lambda>(r, unused, s1). Inr (r, s1))"

definition CloseCatalog :: "NFS_CATALOG_STRUCT option \<Rightarrow> bool" where
  "CloseCatalog catalog = (case catalog of None \<Rightarrow> False | Some _ \<Rightarrow> True)"

subsection \<open>CreateCatalog\<close>

text \<open>The slot the new catalog goes to: its address and what is in it.\<close>

datatype alloc_result =
    Allocated NFS_CATALOG_STRUCT u64
  | AlreadyThere NFS_CATALOG_STRUCT
  | NoSlot

fun find_slot ::
  "nconf \<Rightarrow> nat \<Rightarrow> u8 list \<Rightarrow> u64 \<Rightarrow> u64 \<Rightarrow> u8 list \<Rightarrow> DriveTrait \<Rightarrow> disk \<Rightarrow>
   fault + (alloc_result \<times> DriveTrait \<times> disk)" where
  "find_slot c 0 name StartCatalog start_free buf t d = Inl OutOfFuel"
| "find_slot c (Suc fuel) name StartCatalog start_free buf t d =
     (let temporary_catalog = dec_catalog buf in
      if start_free < StartCatalog then Inr (NoSlot, t, d)
      else if cat_Flags temporary_catalog AND of_nat kNeFSFlagCreated = 0
      then Inr (Allocated temporary_catalog start_free, t, d)
      else if catalog_name temporary_catalog = name then Inr (AlreadyThere temporary_catalog, t, d)
      else bindF (nefs_input c (start_free + catalog_stride) buf t d) (\<lambda>(buf1, t1, d1).
        find_slot c fuel name StartCatalog (start_free + catalog_stride) buf1 t1 d1))"

definition child_catalog :: "u8 list \<Rightarrow> u32 \<Rightarrow> u32 \<Rightarrow> u64 \<Rightarrow> NFS_CATALOG_STRUCT" where
  "child_catalog name flags kind out_lba =
     catalog_zero\<lparr>cat_NextSibling := out_lba, cat_PrevSibling := out_lba, cat_Kind := kind,
       cat_Flags := of_nat kNeFSFlagCreated, cat_CatalogFlags := ucast flags,
       cat_Name := put_cstr name (cat_Name catalog_zero)\<rparr>"

text \<open>Writing the new catalog and the counters; the super block is read again in between.\<close>

definition write_child ::
  "nconf \<Rightarrow> NFS_CATALOG_STRUCT \<Rightarrow> NFS_CATALOG_STRUCT \<Rightarrow> NFS_SUPER_BLOCK \<Rightarrow> u64 \<Rightarrow> DriveTrait \<Rightarrow> disk \<Rightarrow> fault + disk" where
  "write_child c child temporary_catalog part_block start_free t d =
     bindF (nefs_output c start_free (enc_catalog temporary_catalog) t d) (\<lambda>(t1, d1).
     let fork = sb_DiskSize part_block - start_free;
         child1 = child\<lparr>cat_NextSibling := start_free + catalog_stride, cat_DataFork := fork,
                        cat_ResourceFork := fork\<rparr> in
     bindF (nefs_output c start_free (enc_catalog child1) t1 d1) (\<lambda>(t2, d2).
     bindF (nefs_input c kNeFSRootCatalogStartAddress (enc_super part_block) t2 d2) (\<lambda>(b, t3, d3).
     let p = dec_super b;
         p1 = p\<lparr>sb_FreeSectors := sb_FreeSectors p - 1, sb_CatalogCount := sb_CatalogCount p + 1,
                sb_FreeCatalog := sb_FreeCatalog p - 1\<rparr> in
     bindF (nefs_output c kNeFSRootCatalogStartAddress (enc_super p1) t3 d3) (\<lambda>(t4, d4). Inr d4))))"

text \<open>The parent is found: allocation proper.\<close>

definition create_below ::
  "nconf \<Rightarrow> u8 list \<Rightarrow> u32 \<Rightarrow> u32 \<Rightarrow> NFS_CATALOG_STRUCT option \<Rightarrow> u64 \<Rightarrow> nefs \<Rightarrow>
   fault + (NFS_CATALOG_STRUCT option \<times> nefs)" where
  "create_below c name flags kind catalog out_lba0 s =
     bindF (case catalog of
              Some _ \<Rightarrow> Inr (out_lba0, mA (mnt s), dsk s)
            | None \<Rightarrow> bindF (read_super c (mA (mnt s)) (dsk s)) (\<lambda>(blk, t, d). Inr (sb_StartCatalog blk, t, d)))
       (\<lambda>(out_lba, drive, d).
     let child = child_catalog name flags kind out_lba in
     bindF (read_super c (set_mime ''fs/nefs-packet'' drive) d) (\<lambda>(part_block, t1, d1).
     bindF (nefs_input c out_lba (enc_catalog catalog_zero) t1 d1) (\<lambda>(buf, t2, d2).
       if sb_FreeCatalog part_block < 1 then Inr (None, s\<lparr>dsk := d2\<rparr>)
       else bindF (find_slot c (nfuel c) name (sb_StartCatalog part_block) out_lba buf t2 d2) (\<lambda>(r, t3, d3).
         case r of
           Allocated temporary_catalog start_free \<Rightarrow>
             bindF (write_child c child temporary_catalog part_block start_free t3 d3) (\<lambda>d4.
               Inr (Some temporary_catalog, s\<lparr>dsk := d4\<rparr>))
         | AlreadyThere temporary_catalog \<Rightarrow> Inr (Some temporary_catalog, s\<lparr>dsk := d3\<rparr>)
         | NoSlot \<Rightarrow> Inr (None, s\<lparr>dsk := d3\<rparr>)))))"

text \<open>The empty name reads the byte before its first.\<close>

definition CreateCatalog_kind ::
  "nconf \<Rightarrow> u8 list \<Rightarrow> u32 \<Rightarrow> u32 \<Rightarrow> nefs \<Rightarrow> fault + (NFS_CATALOG_STRUCT option \<times> nefs)" where
  "CreateCatalog_kind c name flags kind s =
     (if name = [] then Inl OutOfBounds
      else if kind = kNeFSCatalogKindDir \<and> last name \<noteq> kNeFSSeparator then Inr (None, s)
      else if kind \<noteq> kNeFSCatalogKindDir \<and> last name = kNeFSSeparator then Inr (None, s)
      else bindF (FindCatalog c (Some name) 0 True False s) (\<lambda>(catalog_copy, out_lba, s1).
        if catalog_copy \<noteq> None then Inr (None, set_err kErrorFileExists s1)
        else bindF (parent_name name) (\<lambda>pname.
        bindF (FindCatalog c (Some (cstr pname)) out_lba True False s1) (\<lambda>(catalog, out_lba1, s2).
          if (case catalog of None \<Rightarrow> False | Some p \<Rightarrow> cat_Kind p = kNeFSCatalogKindFile)
          then Inr (None, s2)
          else create_below c name flags kind catalog out_lba1 s2))))"

definition CreateCatalog :: "nconf \<Rightarrow> u8 list \<Rightarrow> nefs \<Rightarrow> fault + (NFS_CATALOG_STRUCT option \<times> nefs)" where
  "CreateCatalog c name s = CreateCatalog_kind c name 0 kNeFSCatalogKindFile s"

text \<open>The body of \<^verbatim>\<open>Format\<close> is for a build flag that nothing defines.\<close>

definition Format :: "nefs \<Rightarrow> bool \<times> nefs" where
  "Format s = (False, s)"

subsection \<open>RemoveCatalog\<close>

text \<open>A missing catalog leaves \<^verbatim>\<open>out_lba\<close> at zero, so the test goes on through the null pointer.\<close>

definition RemoveCatalog :: "nconf \<Rightarrow> u8 list option \<Rightarrow> nefs \<Rightarrow> fault + (bool \<times> nefs)" where
  "RemoveCatalog c cname s =
     (if cname = None \<or> cname = Some kNeFSRoot
      then Inr (False, set_err kErrorInternal s)
      else bindF (FindCatalog c cname 0 True False s) (\<lambda>(r, out_lba, s1).
        case r of
          None \<Rightarrow> Inl NullDeref
        | Some catalog \<Rightarrow>
            if out_lba \<ge> kNeFSCatalogStartAddress \<or> cat_Flags catalog AND of_nat kNeFSFlagCreated \<noteq> 0 then
              let flags1 = (cat_Flags catalog AND NOT (of_nat kNeFSFlagCreated)) OR of_nat kNeFSFlagDeleted;
                  catalog1 = catalog\<lparr>cat_Flags := flags1\<rparr>;
                  drive = set_mime ''fs/nefs-packet'' (mA (mnt s1)) in
              bindF (nefs_output c out_lba (enc_catalog catalog1) drive (dsk s1)) (\<lambda>(t1, d1).
              bindF (read_super c t1 d1) (\<lambda>(p, t2, d2).
              let p1 = p\<lparr>sb_CatalogCount := sb_CatalogCount p - 1, sb_FreeSectors := sb_FreeSectors p + 1\<rparr> in
              bindF (nefs_output c kNeFSRootCatalogStartAddress (enc_super p1) t2 d2) (\<lambda>(t3, d3).
                Inr (True, s1\<lparr>dsk := d3\<rparr>))))
            else Inr (False, s1)))"

subsection \<open>Forks\<close>

text \<open>The walk of \<^verbatim>\<open>CreateFork\<close>: the place for the fork and the place before it.\<close>

fun fork_place ::
  "nconf \<Rightarrow> nat \<Rightarrow> NFS_FORK_STRUCT \<Rightarrow> u64 \<Rightarrow> u64 \<Rightarrow> NFS_FORK_STRUCT \<Rightarrow> u8 list \<Rightarrow> DriveTrait \<Rightarrow> disk \<Rightarrow>
   fault + (u64 \<times> u64 \<times> DriveTrait \<times> disk)" where
  "fork_place c 0 inp lba lba_prev prev_fork buf drv d = Inl OutOfFuel"
| "fork_place c (Suc fuel) inp lba lba_prev prev_fork buf drv d =
     (if \<not> fPacketGood (fPacket drv) then Inr (lba, lba_prev, drv, d)
      else bindF (nefs_input c lba buf drv d) (\<lambda>(buf1, t1, d1).
        let cur_fork = dec_fork buf1 in
        if fork_Flags cur_fork AND of_nat kNeFSFlagCreated \<noteq> 0 then
          (if fork_name cur_fork = fork_name inp \<and> fork_catalog cur_fork = fork_catalog inp
           then Inr (lba, lba_prev, t1, d1)
           else fork_place c fuel inp (fork_NextSibling cur_fork) lba cur_fork buf1 t1 d1)
        else if lba \<ge> kNeFSCatalogStartAddress then
          bindF (nefs_output c lba_prev (enc_fork (prev_fork\<lparr>fork_NextSibling := lba\<rparr>)) t1 d1) (\<lambda>(t2, d2).
            Inr (lba, lba_prev, t2, d2))
        else Inr (lba, lba_prev, t1, d1)))"

definition CreateFork :: "nconf \<Rightarrow> NFS_FORK_STRUCT \<Rightarrow> nefs \<Rightarrow> fault + (bool \<times> NFS_FORK_STRUCT \<times> nefs)" where
  "CreateFork c inp s =
     (if fork_ForkName inp ! 0 \<noteq> 0 \<and> fork_CatalogName inp ! 0 \<noteq> 0 \<and> fork_DataSize inp > 0 then
        bindF (GetCatalog c (Some (fork_catalog inp)) s) (\<lambda>(r, s1).
          case r of
            None \<Rightarrow> bindF (must_pass (ndebug c) False) (\<lambda>_. Inr (False, inp, s1))
          | Some catalog \<Rightarrow>
              let lba = cat_DataFork catalog in
              if \<not> lba < kNeFSCatalogStartAddress
              then bindF (must_pass (ndebug c) False) (\<lambda>_. Inr (False, inp, s1))
              else bindF (fork_place c (nfuel c) inp lba lba fork_zero (enc_fork fork_zero) (mA (mnt s1)) (dsk s1))
                (\<lambda>(lba1, lba_prev, drv, d).
                  let off = lba1 - 514;
                      out = inp\<lparr>fork_Flags := fork_Flags inp OR of_nat kNeFSFlagCreated,
                        fork_DataOffset := off, fork_PreviousSibling := lba_prev,
                        fork_NextSibling := off - fork_DataSize inp\<rparr>;
                      drv1 = set_packet lba1 514 drv in
                  bindF (fs_ifs_write (hw c) (Some (mnt s1)) drv1 kDriveIndexA (Some (enc_fork out)) d)
                    (\<lambda>(res, drv2, b, d1). Inr (True, out, s1\<lparr>dsk := d1\<rparr>))))
      else Inr (False, inp, s))"

text \<open>
  \<^verbatim>\<open>FindFork\<close> reads into the null pointer its result starts as; the packet's result is 0, so the
  code goes on through that pointer.
\<close>

definition FindFork ::
  "nconf \<Rightarrow> NFS_CATALOG_STRUCT \<Rightarrow> u8 list \<Rightarrow> bool \<Rightarrow> nefs \<Rightarrow> fault + (NFS_FORK_STRUCT option \<times> nefs)" where
  "FindFork c catalog name isDataFork s =
     (let lba = (if isDataFork then cat_DataFork catalog else cat_ResourceFork catalog) in
      if lba = 0 then Inr (None, s)
      else let drive = set_mime ''fs/nefs-packet'' (set_packet lba 514 (mA (mnt s))) in
        bindF (fs_ifs_read (hw c) (Some (mnt s)) drive kDriveIndexA None (dsk s)) (\<lambda>(res, drive1, b, d1).
          if res \<noteq> 0 then
            Inr (None, (if res = 1 then set_err kErrorDiskReadOnly else if res = 2 then set_err kErrorDiskIsFull
                        else id) (s\<lparr>dsk := d1\<rparr>))
          else Inl NullDeref))"

fun write_fork ::
  "nconf \<Rightarrow> nat \<Rightarrow> u8 list \<Rightarrow> u8 list \<Rightarrow> u8 list \<Rightarrow> u64 \<Rightarrow> u8 list \<Rightarrow> DriveTrait \<Rightarrow> disk \<Rightarrow> fault + (bool \<times> disk)" where
  "write_fork c 0 cname fname data startFork buf drive d = Inl OutOfFuel"
| "write_fork c (Suc fuel) cname fname data startFork buf drive d =
     (if \<not> startFork \<ge> kNeFSCatalogStartAddress then Inr (False, d)
      else bindF (nefs_input c startFork buf drive d) (\<lambda>(buf1, t1, d1).
        let f = dec_fork buf1 in
        if fork_Flags f AND of_nat kNeFSFlagCreated \<noteq> 0 \<and> fork_name f = fname \<and> fork_catalog f = cname \<and>
           fork_DataSize f = of_nat (length data)
        then bindF (nefs_output c (fork_DataOffset f) data t1 d1) (\<lambda>(t2, d2). Inr (True, d2))
        else write_fork c fuel cname fname data (fork_NextSibling f) buf1 t1 d1))"

definition WriteCatalog ::
  "nconf \<Rightarrow> u8 list \<Rightarrow> bool \<Rightarrow> u8 list \<Rightarrow> u8 list \<Rightarrow> nefs \<Rightarrow> fault + (bool \<times> nefs)" where
  "WriteCatalog c cname is_rsrc_fork data fname s =
     (if length data < 1 then Inr (False, s)
      else let drive = set_mime ''fs/nefs-packet'' (mA (mnt s)) in
        bindF (GetCatalog c (Some cname) s) (\<lambda>(r, s1).
          case r of
            None \<Rightarrow> Inr (False, s1)
          | Some catalog \<Rightarrow>
              let startFork = (if \<not> is_rsrc_fork then cat_DataFork catalog else cat_ResourceFork catalog) in
              bindF (write_fork c (nfuel c) cname fname data startFork (enc_fork fork_zero) drive (dsk s1))
                (\<lambda>(ok, d1). Inr (ok, s1\<lparr>dsk := d1\<rparr>))))"

text \<open>The walk of \<^verbatim>\<open>ReadCatalog\<close>: where it stopped and the last fork read, if one was.\<close>

fun read_fork ::
  "nconf \<Rightarrow> nat \<Rightarrow> u8 list \<Rightarrow> u8 list \<Rightarrow> u64 \<Rightarrow> NFS_FORK_STRUCT option \<Rightarrow> u8 list \<Rightarrow> DriveTrait \<Rightarrow> disk \<Rightarrow>
   fault + (u64 \<times> NFS_FORK_STRUCT option \<times> disk)" where
  "read_fork c 0 cname fname lba cur buf drive d = Inl OutOfFuel"
| "read_fork c (Suc fuel) cname fname lba cur buf drive d =
     (if \<not> lba > kNeFSCatalogStartAddress then Inr (lba, cur, d)
      else bindF (nefs_input c lba buf drive d) (\<lambda>(buf1, t1, d1).
        let f = dec_fork buf1 in
        if fname = fork_name f \<and> cname = fork_catalog f then Inr (lba, Some f, d1)
        else read_fork c fuel cname fname (fork_NextSibling f) (Some f) buf1 t1 d1))"

definition ReadCatalog ::
  "nconf \<Rightarrow> NFS_CATALOG_STRUCT option \<Rightarrow> bool \<Rightarrow> nat \<Rightarrow> u8 list \<Rightarrow> nefs \<Rightarrow> fault + (NFS_FORK_STRUCT option \<times> nefs)" where
  "ReadCatalog c catalog is_rsrc_fork dataSz forkName s =
     (case catalog of
        None \<Rightarrow> Inr (None, set_err kErrorFileNotFound s)
      | Some cat \<Rightarrow>
          let lba0 = (if \<not> is_rsrc_fork then cat_DataFork cat else cat_ResourceFork cat) in
          bindF (read_fork c (nfuel c) (catalog_name cat) forkName lba0 None (enc_fork fork_zero)
                   (set_mime ''fs/nefs-packet'' (mA (mnt s))) (dsk s)) (\<lambda>(lba, f, d1).
            if lba < kNeFSCatalogStartAddress then Inr (None, s\<lparr>dsk := d1\<rparr>) else Inr (f, s\<lparr>dsk := d1\<rparr>)))"

definition Seek :: "NFS_CATALOG_STRUCT option \<Rightarrow> nat \<Rightarrow> nefs \<Rightarrow> bool \<times> nefs" where
  "Seek catalog off s =
     (if catalog = None then (False, set_err kErrorFileNotFound s) else (False, set_err kErrorUnimplemented s))"

definition Tell :: "NFS_CATALOG_STRUCT option \<Rightarrow> nefs \<Rightarrow> nat \<times> nefs" where
  "Tell catalog s =
     (if catalog = None then (0, set_err kErrorFileNotFound s) else (0, set_err kErrorUnimplemented s))"

definition fs_init_nefs :: "nconf \<Rightarrow> u8 list \<Rightarrow> nefs \<Rightarrow> fault + (bool \<times> nefs)" where
  "fs_init_nefs c junk s =
     bindF (io_construct_main_drive (hw c) junk (dsk s)) (\<lambda>(t, d). Inr (True, set_mA t s\<lparr>dsk := d\<rparr>))"

subsection \<open>The journal\<close>

record NeFileSystemJournal =
  mNode :: "NFS_CATALOG_STRUCT option"
  mStamp :: "u8 list"

definition ascii :: "string \<Rightarrow> u8 list" where
  "ascii str = map (\<lambda>ch. of_nat (of_char ch)) str"

definition default_stamp :: "u8 list" where
  "default_stamp = ascii ''/etc/xml/journal.jrnl''"

text \<open>A stamp longer than the field is out of bounds; the stamp is kept without its terminator.\<close>

definition Journal_new :: "u8 list option \<Rightarrow> fault + NeFileSystemJournal" where
  "Journal_new stamp =
     (case stamp of
        None \<Rightarrow> Inr \<lparr>mNode = None, mStamp = default_stamp\<rparr>
      | Some str \<Rightarrow> if length str < kNeFSNodeNameLen then Inr \<lparr>mNode = None, mStamp = str\<rparr> else Inl OutOfBounds)"

definition CreateJournal ::
  "nconf \<Rightarrow> bool \<Rightarrow> NeFileSystemJournal \<Rightarrow> nefs \<Rightarrow> fault + (bool \<times> NeFileSystemJournal \<times> nefs)" where
  "CreateJournal c parser j s =
     (if \<not> parser then Inr (False, j, s)
      else bindF (CreateCatalog_kind c (ascii ''/etc/xml/'') 0 kNeFSCatalogKindDir s) (\<lambda>(dir, s1).
        bindF (CreateCatalog c (mStamp j) s1) (\<lambda>(node, s2). Inr (node \<noteq> None, j\<lparr>mNode := node\<rparr>, s2))))"

definition GetJournal ::
  "nconf \<Rightarrow> bool \<Rightarrow> NeFileSystemJournal \<Rightarrow> nefs \<Rightarrow> fault + (bool \<times> NeFileSystemJournal \<times> nefs)" where
  "GetJournal c parser j s =
     (if \<not> parser then Inr (False, j, s)
      else bindF (GetCatalog c (Some (mStamp j)) s) (\<lambda>(node, s1).
        case node of None \<Rightarrow> Inr (False, j, s1) | Some n \<Rightarrow> Inr (True, j\<lparr>mNode := node\<rparr>, s1)))"

definition ReleaseJournal :: "NeFileSystemJournal \<Rightarrow> bool \<times> NeFileSystemJournal" where
  "ReleaseJournal j = (case mNode j of None \<Rightarrow> (False, j) | Some _ \<Rightarrow> (True, j\<lparr>mNode := None\<rparr>))"

definition CommitJournal ::
  "nconf \<Rightarrow> bool \<Rightarrow> u8 list \<Rightarrow> u8 list \<Rightarrow> NeFileSystemJournal \<Rightarrow> nefs \<Rightarrow> fault + (bool \<times> nefs)" where
  "CommitJournal c parser xml_data journal_name j s =
     (if \<not> parser \<or> mNode j = None then Inr (False, s)
      else if length (mStamp j) \<ge> kNeFSNodeNameLen \<or> length journal_name \<ge> kNeFSForkNameLen
      then Inl OutOfBounds
      else let new_fork = fork_zero\<lparr>fork_CatalogName := put_cstr (mStamp j) (fork_CatalogName fork_zero),
                 fork_ForkName := put_cstr journal_name (fork_ForkName fork_zero), fork_ResourceKind := 0,
                 fork_ResourceId := 0, fork_ResourceFlags := 0,
                 fork_DataSize := of_nat (length xml_data), fork_Kind := 0\<rparr> in
        bindF (CreateFork c new_fork s) (\<lambda>(ok, f, s1).
          if \<not> ok then Inr (False, s1)
          else WriteCatalog c (fork_catalog f) True xml_data (fork_name f) s1))"

end
