(* ===== verification/NeFSSpec.thy ===== *)
theory NeFSSpec
  imports NeFS
begin

text \<open>
  What the NeFS parser does to a disk: the list of catalogs a search sees, and the searches, creations
  and removals of catalogs and the searches for forks in terms of it. The lemmas assume a mounted main
  drive (its routines are the ATA driver's) and an addressing of the disk under which neighbouring
  records do not overlap, an instance of \<open>drive_addressing\<close>.
\<close>

subsection \<open>Records at an address\<close>

definition cat_at :: "nconf \<Rightarrow> disk \<Rightarrow> u64 \<Rightarrow> NFS_CATALOG_STRUCT" where
  "cat_at c d lba = dec_catalog (drv_std_read (hw c) lba 514 d)"

definition super_at :: "nconf \<Rightarrow> disk \<Rightarrow> NFS_SUPER_BLOCK" where
  "super_at c d = dec_super (drv_std_read (hw c) kNeFSRootCatalogStartAddress 512 d)"

definition fork_at :: "nconf \<Rightarrow> disk \<Rightarrow> u64 \<Rightarrow> NFS_FORK_STRUCT" where
  "fork_at c d lba = dec_fork (drv_std_read (hw c) lba 514 d)"

lemma cat_at_ok [simp]: "catalog_ok (cat_at c d lba)"
  unfolding cat_at_def drv_std_read_def by (rule catalogs.read_ok)

lemma super_at_ok [simp]: "super_ok (super_at c d)"
  unfolding super_at_def drv_std_read_def by (rule supers.read_ok)

text \<open>Two drives that differ in their packet's address, size and type only.\<close>

definition same_drive :: "DriveTrait \<Rightarrow> DriveTrait \<Rightarrow> bool" where
  "same_drive t t' \<longleftrightarrow> fInput t' = fInput t \<and> fOutput t' = fOutput t \<and>
     fPacketReadOnly (fPacket t') = fPacketReadOnly (fPacket t) \<and>
     fPacketGood (fPacket t') = fPacketGood (fPacket t)"

lemma same_drive_refl [simp]: "same_drive t t"
  by (simp add: same_drive_def)

lemma same_drive_trans: "same_drive t t1 \<Longrightarrow> same_drive t1 t2 \<Longrightarrow> same_drive t t2"
  by (simp add: same_drive_def)

lemma same_drive_packet [simp]:
  "same_drive t (set_packet lba n t1) = same_drive t t1"
  "same_drive t (set_mime str t1) = same_drive t t1"
  by (simp_all add: same_drive_def set_packet_def set_mime_def)

lemma main_drive_same: "same_drive t t' \<Longrightarrow> main_drive t \<Longrightarrow> main_drive t'"
  by (simp add: same_drive_def main_drive_def)

lemma main_drive_packet [simp]:
  "main_drive (set_packet lba n t) = main_drive t" "main_drive (set_mime str t) = main_drive t"
  by (simp_all add: main_drive_def set_packet_def set_mime_def)

definition read_only :: "DriveTrait \<Rightarrow> bool" where
  "read_only t = fPacketReadOnly (fPacket t)"

lemma read_only_packet [simp]:
  "read_only (set_packet lba n t) = read_only t" "read_only (set_mime str t) = read_only t"
  by (simp_all add: read_only_def set_packet_def set_mime_def)

lemma read_only_same: "same_drive t t' \<Longrightarrow> read_only t' = read_only t"
  by (simp add: same_drive_def read_only_def)

lemma nefs_input_main:
  "main_drive t \<Longrightarrow>
   nefs_input c lba buf t d = Inr (drv_std_read (hw c) lba (length buf) d, set_packet lba (length buf) t, d)"
  by (simp add: nefs_input_def main_drive_def call_drv_def drv_input_def set_packet_def drv_std_read_def)

lemma nefs_output_main:
  "main_drive t \<Longrightarrow>
   nefs_output c lba buf t d =
     Inr (set_packet lba (length buf) t, if read_only t then d else drv_std_write (hw c) lba buf d)"
  by (simp add: nefs_output_def main_drive_def call_drv_def drv_output_def set_packet_def read_only_def)

lemma length_drv_std_read [simp]: "length (drv_std_read h lba n d) = n"
  by (simp add: drv_std_read_def)

lemma read_super_main:
  "main_drive t \<Longrightarrow>
   read_super c t d = Inr (super_at c d, set_packet kNeFSRootCatalogStartAddress 512 t, d)"
  by (simp add: read_super_def nefs_input_main super_at_def)

lemma length_enc_zero [simp]: "length (enc_catalog catalog_zero) = 514" "length (enc_fork fork_zero) = 514"
  by (simp_all add: length_enc_catalog length_enc_fork)

subsection \<open>Writes seen from other addresses\<close>

definition apart :: "u64 \<Rightarrow> u64 \<Rightarrow> bool" where
  "apart a b \<longleftrightarrow> unat a + 1536 \<le> unat b \<or> unat b + 1536 \<le> unat a"

lemma apart_sym: "apart a b = apart b a"
  by (auto simp: apart_def)

lemma drv_read_other:
  assumes "drive_addressing (dpos h)" and "apart a b" and "n \<le> 514" and "length bs \<le> 514"
  shows "drv_std_read h a n (drv_std_write h b bs d) = drv_std_read h a n d"
  using drive_addressing.read_other_slot [OF assms(1), of "unat a" "unat b" n bs] assms(2-4)
  by (simp add: drv_std_read_def platter_write apart_def)

lemma drv_read_same: "length bs = n \<Longrightarrow> drv_std_read h a n (drv_std_write h a bs d) = bs"
  using read_write_bytes_same by (auto simp: drv_std_read_def platter_write)

lemma cat_at_write_same: "catalog_ok cat \<Longrightarrow> cat_at c (drv_std_write (hw c) a (enc_catalog cat) d) a = cat"
  by (simp add: cat_at_def drv_read_same length_enc_catalog dec_enc_catalog)

lemma cat_at_write_other:
  "drive_addressing (dpos (hw c)) \<Longrightarrow> apart a b \<Longrightarrow> length bs \<le> 514 \<Longrightarrow>
   cat_at c (drv_std_write (hw c) b bs d) a = cat_at c d a"
  by (simp add: cat_at_def drv_read_other)

lemma super_at_write_same:
  "super_ok p \<Longrightarrow> super_at c (drv_std_write (hw c) kNeFSRootCatalogStartAddress (enc_super p) d) = p"
  by (simp add: super_at_def drv_read_same length_enc_super dec_enc_super)

lemma super_at_write_other:
  "drive_addressing (dpos (hw c)) \<Longrightarrow> apart kNeFSRootCatalogStartAddress b \<Longrightarrow> length bs \<le> 514 \<Longrightarrow>
   super_at c (drv_std_write (hw c) b bs d) = super_at c d"
  by (simp add: super_at_def drv_read_other)

subsection \<open>The catalogs a search sees\<close>

text \<open>
  The catalogs from an address on, each followed through its next sibling until that is below the start
  of the catalogs.
\<close>

fun cat_chain :: "nconf \<Rightarrow> disk \<Rightarrow> u64 \<Rightarrow> u64 \<Rightarrow> u64 list \<Rightarrow> bool" where
  "cat_chain c d start lba [] = False"
| "cat_chain c d start lba (l # ls) =
     (l = lba \<and>
      (if cat_NextSibling (cat_at c d lba) < start then ls = []
       else cat_chain c d start (cat_NextSibling (cat_at c d lba)) ls))"

definition visible :: "bool \<Rightarrow> NFS_CATALOG_STRUCT \<Rightarrow> bool" where
  "visible search_hidden cat \<longleftrightarrow>
     \<not> (cat_Status cat = kNeFSStatusLocked \<and> \<not> search_hidden) \<and> cat_Flags cat AND of_nat kNeFSFlagCreated \<noteq> 0"

definition cat_hit :: "nconf \<Rightarrow> disk \<Rightarrow> u8 list \<Rightarrow> bool \<Rightarrow> u64 \<Rightarrow> bool" where
  "cat_hit c d name search_hidden l \<longleftrightarrow>
     catalog_name (cat_at c d l) = name \<and> visible search_hidden (cat_at c d l)"

text \<open>Mounted: the main drive's routines are behind drive A.\<close>

abbreviation mounted :: "nefs \<Rightarrow> bool" where
  "mounted s \<equiv> main_drive (mA (mnt s))"

definition same_fs :: "nefs \<Rightarrow> nefs \<Rightarrow> bool" where
  "same_fs s s' \<longleftrightarrow> dsk s' = dsk s \<and> same_drive (mA (mnt s)) (mA (mnt s'))"

lemma same_fs_refl [simp]: "same_fs s s"
  by (simp add: same_fs_def)

lemma same_fs_trans: "same_fs s s1 \<Longrightarrow> same_fs s1 s2 \<Longrightarrow> same_fs s s2"
  by (auto simp: same_fs_def intro: same_drive_trans)

lemma same_fs_err [simp]: "same_fs s (set_err e s1) = same_fs s s1"
  by (simp add: same_fs_def)

lemma same_fs_mounted: "same_fs s s' \<Longrightarrow> mounted s \<Longrightarrow> mounted s'"
  by (auto simp: same_fs_def intro: main_drive_same)

lemma search_catalogs_chain:
  assumes "cat_chain c (dsk s) start lba ls" and "length ls \<le> fuel" and "mounted s" and "length buf = 514"
  shows "\<exists>buf' s'. length buf' = 514 \<and> same_fs s s' \<and>
    search_catalogs c fuel name search_hidden start lba buf s =
      Inr (map_option (\<lambda>l. (cat_at c (dsk s) l, l)) (find (cat_hit c (dsk s) name search_hidden) ls), buf', s')"
  using assms
proof (induction ls arbitrary: fuel lba buf s)
  case Nil
  then show ?case by simp
next
  case (Cons l ls)
  obtain f where f: "fuel = Suc f" "length ls \<le> f" using Cons.prems(2) by (cases fuel) auto
  let ?b = "drv_std_read (hw c) lba 514 (dsk s)" and ?cat = "cat_at c (dsk s) lba"
  define s1 where "s1 = set_mA (set_packet lba 514 (mA (mnt s))) s\<lparr>dsk := dsk s\<rparr>"
  have l: "l = lba" using Cons.prems(1) by simp
  have fs1: "same_fs s s1" by (simp add: s1_def same_fs_def)
  have "\<exists>buf' s'. length buf' = 514 \<and> same_fs s s' \<and>
      (if cat_NextSibling ?cat < start then Inr (None, ?b, s2)
       else search_catalogs c f name search_hidden start (cat_NextSibling ?cat) ?b s2) =
      Inr (map_option (\<lambda>l. (cat_at c (dsk s) l, l)) (find (cat_hit c (dsk s) name search_hidden) ls), buf', s')"
    if s2: "same_fs s s2" for s2
  proof (cases "cat_NextSibling ?cat < start")
    case True
    then show ?thesis using Cons.prems(1) s2 by auto
  next
    case False
    have d: "dsk s2 = dsk s" using s2 by (simp add: same_fs_def)
    have "cat_chain c (dsk s2) start (cat_NextSibling ?cat) ls"
      using Cons.prems(1) False by (simp add: d)
    from Cons.IH [OF this f(2) same_fs_mounted [OF s2 Cons.prems(3)], of ?b] s2 False show ?thesis
      by (auto simp: d intro: same_fs_trans)
  qed
  note continue = this
  show ?case
  proof (cases "cat_hit c (dsk s) name search_hidden lba")
    case True
    then have "search_catalogs c fuel name search_hidden start lba buf s = Inr (Some (?cat, lba), ?b, s1)"
      using Cons.prems(3,4)
      by (auto simp: f nefs_input_main Let_def cat_at_def [symmetric] s1_def [symmetric] cat_hit_def visible_def)
    then show ?thesis using True l fs1 by simp
  next
    case False
    have "\<exists>s2. same_fs s s2 \<and> search_catalogs c fuel name search_hidden start lba buf s =
        (if cat_NextSibling ?cat < start then Inr (None, ?b, s2)
         else search_catalogs c f name search_hidden start (cat_NextSibling ?cat) ?b s2)"
    proof -
      let ?s2 = "if name = catalog_name ?cat
        then (if cat_Status ?cat = kNeFSStatusLocked \<and> \<not> search_hidden then set_err kErrorFileLocked s1
              else set_err kErrorFileNotFound s1)
        else s1"
      have "same_fs s ?s2" using fs1 by simp
      moreover have "search_catalogs c fuel name search_hidden start lba buf s =
        (if cat_NextSibling ?cat < start then Inr (None, ?b, ?s2)
         else search_catalogs c f name search_hidden start (cat_NextSibling ?cat) ?b ?s2)"
        using Cons.prems(3,4) False unfolding f(1) cat_hit_def visible_def
        by (auto simp: nefs_input_main Let_def cat_at_def [symmetric] s1_def [symmetric])
      ultimately show ?thesis by blast
    qed
    with continue False l show ?thesis by auto
  qed
qed

lemma find_start_main:
  "mounted s \<Longrightarrow> \<exists>s1. same_fs s s1 \<and> find_start c s = Inr (super_at c (dsk s), s1)"
  by (auto simp: find_start_def read_super_main same_fs_def)

text \<open>What a search without a parent finds.\<close>

definition chain_from_root :: "nconf \<Rightarrow> disk \<Rightarrow> u64 list \<Rightarrow> bool" where
  "chain_from_root c d ls \<longleftrightarrow>
     cat_chain c d (sb_StartCatalog (super_at c d)) kNeFSCatalogStartAddress ls \<and> length ls \<le> nfuel c"

lemma FindCatalog_chain:
  assumes "mounted s" and "name \<noteq> []" and "chain_from_root c (dsk s) ls"
  shows "\<exists>s'. same_fs s s' \<and>
    FindCatalog c (Some name) out_lba search_hidden False s =
      (case find (cat_hit c (dsk s) name search_hidden) ls of
         Some l \<Rightarrow> Inr (Some (cat_at c (dsk s) l), l, s')
       | None \<Rightarrow> Inr (None, 0, s')) \<and>
    (find (cat_hit c (dsk s) name search_hidden) ls = None \<longrightarrow> err_global s' = kErrorFileNotFound)"
proof -
  obtain s1 where s1: "same_fs s s1" "find_start c s = Inr (super_at c (dsk s), s1)"
    using find_start_main [OF assms(1)] by blast
  have d: "dsk s1 = dsk s" and m1: "mounted s1"
    using s1(1) assms(1) same_fs_mounted by (auto simp: same_fs_def)
  obtain buf s2 where s2: "same_fs s1 s2"
    "search_catalogs c (nfuel c) name search_hidden (sb_StartCatalog (super_at c (dsk s)))
       kNeFSCatalogStartAddress (enc_catalog catalog_zero) s1 =
     Inr (map_option (\<lambda>l. (cat_at c (dsk s) l, l)) (find (cat_hit c (dsk s) name search_hidden) ls), buf, s2)"
    using search_catalogs_chain [of c s1 "sb_StartCatalog (super_at c (dsk s))" kNeFSCatalogStartAddress ls
        "nfuel c" "enc_catalog catalog_zero" name search_hidden] assms(3) m1
    by (auto simp: d chain_from_root_def)
  have fs2: "same_fs s s2" using s1(1) s2(1) by (rule same_fs_trans)
  show ?thesis
  proof (cases "find (cat_hit c (dsk s) name search_hidden) ls")
    case None
    then show ?thesis
      using assms(2) s1(2) s2(2) fs2
      by (intro exI [of _ "set_err kErrorFileNotFound s2"]) (simp add: FindCatalog_def find_from_def)
  next
    case (Some l)
    then show ?thesis
      using assms(2) s1(2) s2(2) fs2 by (intro exI [of _ s2]) (simp add: FindCatalog_def find_from_def)
  qed
qed

text \<open>Catalogs that lie apart from each other and from the super block.\<close>

definition spread :: "u64 list \<Rightarrow> bool" where
  "spread ls \<longleftrightarrow> (\<forall>a \<in> set ls. apart a kNeFSRootCatalogStartAddress \<and> (\<forall>b \<in> set ls. a \<noteq> b \<longrightarrow> apart a b))"

lemma cat_chain_cong:
  "cat_chain c d start lba ls \<Longrightarrow>
   (\<And>l. l \<in> set ls \<Longrightarrow> cat_NextSibling (cat_at c d' l) = cat_NextSibling (cat_at c d l)) \<Longrightarrow>
   cat_chain c d' start lba ls"
proof (induction ls arbitrary: lba)
  case (Cons l ls)
  then have "l = lba" by simp
  with Cons show ?case by (auto split: if_splits)
qed simp

lemma find_cong_on: "(\<And>x. x \<in> set xs \<Longrightarrow> P x = Q x) \<Longrightarrow> find P xs = find Q xs"
  by (induction xs) auto

lemma find_SomeD: "find P xs = Some x \<Longrightarrow> x \<in> set xs \<and> P x"
  by (induction xs) (auto split: if_splits)

lemma removed_flags:
  "((x :: u16) AND NOT (of_nat kNeFSFlagCreated) OR of_nat kNeFSFlagDeleted) AND of_nat kNeFSFlagCreated =
   of_nat kNeFSFlagDeleted"
proof -
  have "(x AND NOT 71) AND 71 = 0" by (simp add: and.assoc)
  then show ?thesis
    by (simp add: kNeFSFlagCreated_def kNeFSFlagDeleted_def bit.conj_disj_distrib2)
qed

definition removed :: "NFS_CATALOG_STRUCT \<Rightarrow> NFS_CATALOG_STRUCT" where
  "removed cat = cat\<lparr>cat_Flags := (cat_Flags cat AND NOT (of_nat kNeFSFlagCreated)) OR of_nat kNeFSFlagDeleted\<rparr>"

lemma removed_ok [simp]: "catalog_ok (removed cat) = catalog_ok cat"
  by (simp add: removed_def catalog_ok_def)

lemma visible_removed: "visible h (removed cat) = (\<not> (cat_Status cat = kNeFSStatusLocked \<and> \<not> h))"
proof -
  have "(of_nat kNeFSFlagDeleted :: u16) \<noteq> 0" by (simp add: kNeFSFlagDeleted_def)
  then show ?thesis by (simp add: visible_def removed_def removed_flags)
qed

text \<open>A name that ends inside its field.\<close>

definition named :: "NFS_CATALOG_STRUCT \<Rightarrow> bool" where
  "named cat \<longleftrightarrow> 0 \<in> set (cat_Name cat)"

lemma catalog_name_named: "named cat \<Longrightarrow> catalog_name cat = cstr (cat_Name cat)"
  unfolding named_def catalog_name_def enc_catalog_def cstr_def by (rule takeWhile_append1) auto

lemma removed_name: "named cat \<Longrightarrow> catalog_name (removed cat) = catalog_name cat"
proof -
  assume "named cat"
  then have "named (removed cat)" by (simp add: named_def removed_def)
  with \<open>named cat\<close> show ?thesis by (simp add: catalog_name_named) (simp add: removed_def)
qed

subsection \<open>Properties\<close>

text \<open>
  C3. \<^verbatim>\<open>FindCatalog\<close> is a search of the catalog list: on a mounted drive whose catalogs from
  the first one on are \<open>ls\<close>, it returns the first of them that has the name, is created and is not
  locked (unless locked ones are looked for too), with its address; when there is none it returns
  nothing, the address 0 and the error for a missing file. The disk is not changed.
\<close>

theorem FindCatalog_spec:
  assumes "mounted s" and "name \<noteq> []" and "chain_from_root c (dsk s) ls"
  shows "\<exists>r lba s'. FindCatalog c (Some name) out_lba search_hidden False s = Inr (r, lba, s') \<and> dsk s' = dsk s \<and>
    (case find (\<lambda>l. catalog_name (cat_at c (dsk s) l) = name \<and> visible search_hidden (cat_at c (dsk s) l)) ls of
       Some l \<Rightarrow> r = Some (cat_at c (dsk s) l) \<and> lba = l
     | None \<Rightarrow> r = None \<and> lba = 0 \<and> err_global s' = kErrorFileNotFound)"
  using FindCatalog_chain [OF assms, of out_lba search_hidden]
  by (auto simp: cat_hit_def [abs_def] same_fs_def split: option.splits)

text \<open>Marking a catalog removed and then storing the partition block: what the disk holds after each step.\<close>

lemma removal_on_disk:
  fixes c :: nconf and d :: disk and l :: u64
  defines "d1 \<equiv> drv_std_write (hw c) l (enc_catalog (removed (cat_at c d l))) d"
  assumes "drive_addressing (dpos (hw c))" and "spread ls" and "l \<in> set ls" and "super_ok p1"
  shows "super_at c d1 = super_at c d"
    and "super_at c (drv_std_write (hw c) kNeFSRootCatalogStartAddress (enc_super p1) d1) = p1"
    and "l' \<in> set ls \<Longrightarrow> cat_at c (drv_std_write (hw c) kNeFSRootCatalogStartAddress (enc_super p1) d1) l' =
      (if l' = l then removed (cat_at c d l) else cat_at c d l')"
proof -
  have ok: "catalog_ok (removed (cat_at c d l))" by simp
  show "super_at c d1 = super_at c d"
    using assms(2-4) by (simp add: d1_def super_at_write_other apart_sym [of kNeFSRootCatalogStartAddress l] spread_def
        length_enc_catalog [OF ok])
  show "super_at c (drv_std_write (hw c) kNeFSRootCatalogStartAddress (enc_super p1) d1) = p1"
    using super_at_write_same [OF assms(5)] by simp
  show "cat_at c (drv_std_write (hw c) kNeFSRootCatalogStartAddress (enc_super p1) d1) l' =
      (if l' = l then removed (cat_at c d l) else cat_at c d l')" if "l' \<in> set ls"
  proof -
    have "apart l' kNeFSRootCatalogStartAddress" "l' \<noteq> l \<Longrightarrow> apart l' l"
      using that assms(3,4) by (auto simp: spread_def)
    then show ?thesis
      using assms(2) ok by (auto simp: d1_def cat_at_write_other cat_at_write_same length_enc_catalog
          length_enc_super [OF assms(5)])
  qed
qed

text \<open>On a disk that differs in one removed catalog alone, the chain is the same and a search of its name finds it still.\<close>

lemma removal_keeps_chain:
  assumes "\<And>l'. l' \<in> set ls \<Longrightarrow> cat_at c d2 l' = (if l' = l then removed (cat_at c d l) else cat_at c d l')"
    and "cat_chain c d start prev ls"
  shows "cat_chain c d2 start prev ls"
  by (rule cat_chain_cong [OF assms(2)]) (simp add: assms(1) removed_def)

lemma removal_keeps_hit:
  assumes at: "\<And>l'. l' \<in> set ls \<Longrightarrow> cat_at c d2 l' = (if l' = l then removed (cat_at c d l) else cat_at c d l')"
    and hit: "find (cat_hit c d name True) ls = Some l" and "named (cat_at c d l)"
  shows "find (cat_hit c d2 name True) ls = Some l"
proof -
  have l: "l \<in> set ls" "cat_hit c d name True l" using find_SomeD [OF hit] by simp_all
  then have "cat_Flags (cat_at c d l) AND of_nat kNeFSFlagCreated \<noteq> 0" by (simp add: cat_hit_def visible_def)
  then have "find (cat_hit c d2 name True) ls = find (cat_hit c d name True) ls"
    using l(2) assms(3) by (intro find_cong_on) (simp add: cat_hit_def at removed_name visible_removed)
  with hit show ?thesis by simp
qed

text \<open>
  C8. A removed catalog is not gone. \<^verbatim>\<open>RemoveCatalog\<close> of a catalog that a search finds marks
  it deleted on the disk, takes one off the catalog count and adds one free sector, but no free catalog;
  as the mark for deleted shares bits with the mark for created, the next search finds the catalog
  again at the same address, flagged deleted. Removing a name that no search finds faults through the
  null result.
\<close>

theorem RemoveCatalog_leaves_it_visible:
  assumes "mounted s" and "\<not> read_only (mA (mnt s))" and "drive_addressing (dpos (hw c))"
    and "name \<noteq> []" and "name \<noteq> kNeFSRoot" and "chain_from_root c (dsk s) ls" and "spread ls"
  shows "case find (cat_hit c (dsk s) name True) ls of
      None \<Rightarrow> RemoveCatalog c (Some name) s = Inl NullDeref
    | Some l \<Rightarrow> named (cat_at c (dsk s) l) \<longrightarrow>
        (\<exists>s1 s2. RemoveCatalog c (Some name) s = Inr (True, s1) \<and>
           cat_at c (dsk s1) l = removed (cat_at c (dsk s) l) \<and>
           sb_CatalogCount (super_at c (dsk s1)) = sb_CatalogCount (super_at c (dsk s)) - 1 \<and>
           sb_FreeSectors (super_at c (dsk s1)) = sb_FreeSectors (super_at c (dsk s)) + 1 \<and>
           sb_FreeCatalog (super_at c (dsk s1)) = sb_FreeCatalog (super_at c (dsk s)) \<and>
           FindCatalog c (Some name) 0 True False s1 = Inr (Some (removed (cat_at c (dsk s) l)), l, s2))"
proof -
  obtain s' where s': "same_fs s s'"
    "FindCatalog c (Some name) 0 True False s =
      (case find (cat_hit c (dsk s) name True) ls of
         Some l \<Rightarrow> Inr (Some (cat_at c (dsk s) l), l, s') | None \<Rightarrow> Inr (None, 0, s'))"
    using FindCatalog_chain [OF assms(1,4,6), of 0 True] by blast
  have d: "dsk s' = dsk s" and m': "mounted s'" "\<not> read_only (mA (mnt s'))"
    using s'(1) assms(1,2) same_fs_mounted by (auto simp: same_fs_def read_only_same)
  show ?thesis
  proof (cases "find (cat_hit c (dsk s) name True) ls")
    case None
    then show ?thesis using s'(2) assms(4,5) by (simp add: RemoveCatalog_def)
  next
    case (Some l)
    define cat where "cat = cat_at c (dsk s) l"
    define p where "p = super_at c (dsk s)"
    define p1 where "p1 = p\<lparr>sb_CatalogCount := sb_CatalogCount p - 1, sb_FreeSectors := sb_FreeSectors p + 1\<rparr>"
    define d1 where "d1 = drv_std_write (hw c) l (enc_catalog (removed cat)) (dsk s)"
    define s1 where "s1 = s'\<lparr>dsk := drv_std_write (hw c) kNeFSRootCatalogStartAddress (enc_super p1) d1\<rparr>"
    have l: "l \<in> set ls" "cat_hit c (dsk s) name True l" using find_SomeD [OF Some] by simp_all
    have created: "cat_Flags cat AND of_nat kNeFSFlagCreated \<noteq> 0"
      using l(2) by (simp add: cat_hit_def visible_def cat_def)
    have ok: "catalog_ok (removed cat)" by (simp add: cat_def)
    have ok1: "super_ok p1" using super_at_ok [of c "dsk s"] by (simp add: super_ok_def p1_def p_def)
    note disk = removal_on_disk [OF assms(3,7) l(1) ok1, where d = "dsk s", folded cat_def, folded d1_def p_def]
    have rem: "RemoveCatalog c (Some name) s = Inr (True, s1)"
      using s'(2) Some assms(4,5) created m'
      by (simp add: RemoveCatalog_def Let_def nefs_output_main read_super_main cat_def [symmetric]
          removed_def [symmetric] d d1_def [symmetric] disk(1) p1_def [symmetric] length_enc_catalog [OF ok])
        (simp add: s1_def)
    have at: "cat_at c (dsk s1) l' = (if l' = l then removed (cat_at c (dsk s) l) else cat_at c (dsk s) l')"
      if "l' \<in> set ls" for l' using disk(3) [OF that] by (simp add: s1_def cat_def)
    have super2: "super_at c (dsk s1) = p1" using disk(2) by (simp add: s1_def)
    have "chain_from_root c (dsk s1) ls"
      using assms(6) removal_keeps_chain [OF at] by (simp add: chain_from_root_def super2 p1_def p_def)
    moreover have "mounted s1" using m'(1) by (simp add: s1_def)
    ultimately obtain s2 where "named cat \<Longrightarrow>
        FindCatalog c (Some name) 0 True False s1 = Inr (Some (removed cat), l, s2)"
      using FindCatalog_chain [OF _ assms(4), of s1 c ls 0 True] removal_keeps_hit [OF at Some] at [OF l(1)]
      by (cases "named cat") (auto simp: cat_def)
    then show ?thesis
      using Some rem super2 at [OF l(1)] unfolding cat_def p_def p1_def by auto
  qed
qed

end
