(* ===== verification/NeFSCreate.thy ===== *)
theory NeFSCreate
  imports NeFSSpec
begin

text \<open>
  Creating catalogs. A partition that catalogs have been created on and not otherwise linked is dense:
  its first \<open>n\<close> slots (2056 bytes apart, from 2560 on) hold created catalogs, each of which names the
  next slot as its sibling, and the slots after them are blank. On such a partition the search sees
  exactly the slots up to the first blank one, and a creation fills that one.
\<close>

subsection \<open>Slots\<close>

definition slot_lba :: "nat \<Rightarrow> u64" where
  "slot_lba i = kNeFSCatalogStartAddress + of_nat i * catalog_stride"

definition slots_fit :: "nat \<Rightarrow> bool" where
  "slots_fit N \<longleftrightarrow> 2560 + 2056 * (N + 1) < 2 ^ 64"

lemma unat_slot: "i \<le> N + 1 \<Longrightarrow> slots_fit N \<Longrightarrow> unat (slot_lba i) = 2560 + 2056 * i"
proof -
  assume i: "i \<le> N + 1" "slots_fit N"
  have "slot_lba i = of_nat (2560 + 2056 * i)"
    by (simp add: slot_lba_def kNeFSCatalogStartAddress_def catalog_stride_def kNeFSCatalogPadding_def)
  with i show ?thesis by (simp only: slots_fit_def) (subst unat_of_nat64_less, simp_all)
qed

lemma slot_lba_0: "slot_lba 0 = kNeFSCatalogStartAddress"
  by (simp add: slot_lba_def)

lemma slot_lba_Suc: "slot_lba i + catalog_stride = slot_lba (Suc i)"
  by (simp add: slot_lba_def algebra_simps)

lemma slot_not_below: "i \<le> N + 1 \<Longrightarrow> slots_fit N \<Longrightarrow> \<not> slot_lba i < kNeFSCatalogStartAddress"
  by (simp add: word_less_nat_alt unat_slot kNeFSCatalogStartAddress_def)

lemma slots_apart:
  "i \<le> N \<Longrightarrow> j \<le> N \<Longrightarrow> slots_fit N \<Longrightarrow> i \<noteq> j \<Longrightarrow> apart (slot_lba i) (slot_lba j)"
proof -
  assume le: "i \<le> N" "j \<le> N" and fit: "slots_fit N" and ne: "i \<noteq> j"
  have "unat (slot_lba i) = 2560 + 2056 * i" "unat (slot_lba j) = 2560 + 2056 * j"
    by (rule unat_slot, use le fit in simp_all)+
  with ne show ?thesis unfolding apart_def by linarith
qed

lemma slot_apart_super: "i \<le> N \<Longrightarrow> slots_fit N \<Longrightarrow> apart (slot_lba i) kNeFSRootCatalogStartAddress"
proof -
  assume le: "i \<le> N" and fit: "slots_fit N"
  have "unat (slot_lba i) = 2560 + 2056 * i" by (rule unat_slot) (use le fit in simp_all)
  moreover have "unat kNeFSRootCatalogStartAddress = 1024" by (simp add: kNeFSRootCatalogStartAddress_def)
  ultimately show ?thesis unfolding apart_def by linarith
qed

lemma slot_inj: "i \<le> N \<Longrightarrow> j \<le> N \<Longrightarrow> slots_fit N \<Longrightarrow> slot_lba i = slot_lba j \<longleftrightarrow> i = j"
proof -
  assume "i \<le> N" "j \<le> N" "slots_fit N"
  then have "i \<noteq> j \<Longrightarrow> apart (slot_lba i) (slot_lba j)" by (rule slots_apart)
  then have "i \<noteq> j \<Longrightarrow> slot_lba i \<noteq> slot_lba j" by (auto simp: apart_def)
  then show ?thesis by blast
qed

subsection \<open>Dense partitions\<close>

definition created :: "NFS_CATALOG_STRUCT \<Rightarrow> bool" where
  "created cat \<longleftrightarrow> cat_Flags cat AND of_nat kNeFSFlagCreated \<noteq> 0"

definition dense :: "nconf \<Rightarrow> disk \<Rightarrow> nat \<Rightarrow> nat \<Rightarrow> bool" where
  "dense c d n N \<longleftrightarrow>
     sb_StartCatalog (super_at c d) = kNeFSCatalogStartAddress \<and>
     (\<forall>i < n. created (cat_at c d (slot_lba i)) \<and> cat_NextSibling (cat_at c d (slot_lba i)) = slot_lba (Suc i)) \<and>
     (\<forall>i. n \<le> i \<and> i \<le> N \<longrightarrow> cat_at c d (slot_lba i) = catalog_zero)"

lemma created_zero [simp]: "\<not> created catalog_zero"
  by (simp add: created_def catalog_zero_def)

lemma visible_hidden: "visible True cat = created cat"
  by (simp add: visible_def created_def)

lemma dense_chain_at:
  assumes "dense c d n N" and "n \<le> N" and "slots_fit N" and "p \<le> n"
  shows "cat_chain c d kNeFSCatalogStartAddress (slot_lba p) (map slot_lba [p..<Suc n])"
  using assms(4)
proof (induction "n - p" arbitrary: p)
  case 0
  then have "p = n" by simp
  moreover have "cat_at c d (slot_lba n) = catalog_zero" using assms(1,2) by (simp add: dense_def)
  ultimately show ?case by (simp add: catalog_zero_def kNeFSCatalogStartAddress_def)
next
  case (Suc k)
  then have p: "p < n" and "k = n - Suc p" by simp_all
  then have IH: "cat_chain c d kNeFSCatalogStartAddress (slot_lba (Suc p)) (map slot_lba [Suc p..<Suc n])"
    using Suc.hyps(1) [of "Suc p"] by simp
  have nxt: "cat_NextSibling (cat_at c d (slot_lba p)) = slot_lba (Suc p)"
    using assms(1) p by (simp add: dense_def)
  have "\<not> slot_lba (Suc p) < kNeFSCatalogStartAddress"
    using p assms(2,3) slot_not_below [of "Suc p" N] by simp
  moreover have "map slot_lba [p..<Suc n] = slot_lba p # map slot_lba [Suc p..<Suc n]"
    using p by (simp add: upt_conv_Cons)
  ultimately show ?case using IH nxt by simp
qed

lemma dense_chain:
  "dense c d n N \<Longrightarrow> n \<le> N \<Longrightarrow> slots_fit N \<Longrightarrow> n < nfuel c \<Longrightarrow>
   chain_from_root c d (map slot_lba [0..<Suc n])"
  using dense_chain_at [of c d n N 0] by (simp add: chain_from_root_def dense_def slot_lba_0 del: upt_Suc)

lemma find_map_None: "find P (map f xs) = None \<longleftrightarrow> (\<forall>x \<in> set xs. \<not> P (f x))"
  by (induction xs) auto

text \<open>The slots a name is found in.\<close>

lemma dense_find:
  assumes "dense c d n N" and "n \<le> N"
  shows "find (cat_hit c d name True) (map slot_lba [0..<Suc n]) = Some l \<Longrightarrow>
    \<exists>p < n. l = slot_lba p \<and> created (cat_at c d l) \<and> catalog_name (cat_at c d l) = name"
  and "find (cat_hit c d name True) (map slot_lba [0..<Suc n]) = None \<longleftrightarrow>
    (\<forall>i < n. catalog_name (cat_at c d (slot_lba i)) \<noteq> name)"
proof -
  have blank: "cat_at c d (slot_lba n) = catalog_zero" using assms by (simp add: dense_def)
  then have last: "\<not> cat_hit c d name True (slot_lba n)" by (simp add: cat_hit_def visible_hidden)
  show "\<exists>p < n. l = slot_lba p \<and> created (cat_at c d l) \<and> catalog_name (cat_at c d l) = name"
    if "find (cat_hit c d name True) (map slot_lba [0..<Suc n]) = Some l"
  proof -
    from find_SomeD [OF that] have l: "l \<in> slot_lba ` {0..<Suc n}" "cat_hit c d name True l"
      by (simp_all only: set_map set_upt)
    from l(1) obtain p where "p < Suc n" "l = slot_lba p" by (rule imageE) simp
    with last l(2) show ?thesis by (auto simp: cat_hit_def visible_hidden less_Suc_eq)
  qed
  have "find (cat_hit c d name True) (map slot_lba [0..<Suc n]) = None \<longleftrightarrow>
      (\<forall>i < Suc n. \<not> cat_hit c d name True (slot_lba i))"
    by (simp only: find_map_None set_upt Ball_def atLeastLessThan_iff) simp
  also have "\<dots> \<longleftrightarrow> (\<forall>i < n. catalog_name (cat_at c d (slot_lba i)) \<noteq> name)"
    using last assms(1) by (auto simp: less_Suc_eq cat_hit_def visible_hidden dense_def)
  finally show "find (cat_hit c d name True) (map slot_lba [0..<Suc n]) = None \<longleftrightarrow>
    (\<forall>i < n. catalog_name (cat_at c d (slot_lba i)) \<noteq> name)" .
qed

lemma find_slot_dense:
  assumes "dense c d n N" and "n \<le> N" and "slots_fit N"
    and "\<forall>i < n. catalog_name (cat_at c d (slot_lba i)) \<noteq> name"
    and "p \<le> n" and "n - p < fuel" and "main_drive t"
    and "length buf = 514" and "dec_catalog buf = cat_at c d (slot_lba p)"
  shows "\<exists>t'. same_drive t t' \<and>
    find_slot c fuel name kNeFSCatalogStartAddress (slot_lba p) buf t d =
      Inr (Allocated catalog_zero (slot_lba n), t', d)"
  using assms(5-)
proof (induction fuel arbitrary: p t buf)
  case 0
  then show ?case by simp
next
  case (Suc f)
  have nb: "\<not> slot_lba p < kNeFSCatalogStartAddress"
    using Suc.prems(1) assms(2,3) slot_not_below [of p N] by simp
  show ?case
  proof (cases "p = n")
    case True
    then have "dec_catalog buf = catalog_zero" using Suc.prems(5) assms(1,2) by (simp add: dense_def)
    then show ?thesis using True nb by (intro exI [of _ t]) (simp add: catalog_zero_def)
  next
    case False
    then have p: "p < n" using Suc.prems(1) by simp
    then have cr: "created (cat_at c d (slot_lba p))" "catalog_name (cat_at c d (slot_lba p)) \<noteq> name"
      using assms(1,4) by (simp_all add: dense_def)
    let ?t = "set_packet (slot_lba (Suc p)) 514 t"
    have "n - Suc p < f" using Suc.prems(2) p by simp
    then obtain t' where "same_drive ?t t'" "find_slot c f name kNeFSCatalogStartAddress (slot_lba (Suc p))
        (drv_std_read (hw c) (slot_lba (Suc p)) 514 d) ?t d = Inr (Allocated catalog_zero (slot_lba n), t', d)"
      using Suc.IH [of "Suc p" ?t "drv_std_read (hw c) (slot_lba (Suc p)) 514 d"] Suc.prems p
      by (auto simp: cat_at_def)
    then show ?thesis
      using nb cr Suc.prems(3-5)
      by (intro exI [of _ t'])
        (simp add: created_def slot_lba_Suc nefs_input_main same_drive_def set_packet_def)
  qed
qed

subsection \<open>Writing the new catalog\<close>

definition placed_child :: "NFS_CATALOG_STRUCT \<Rightarrow> NFS_SUPER_BLOCK \<Rightarrow> u64 \<Rightarrow> NFS_CATALOG_STRUCT" where
  "placed_child child p a =
     child\<lparr>cat_NextSibling := a + catalog_stride, cat_DataFork := sb_DiskSize p - a,
           cat_ResourceFork := sb_DiskSize p - a\<rparr>"

definition counted :: "NFS_SUPER_BLOCK \<Rightarrow> NFS_SUPER_BLOCK" where
  "counted p = p\<lparr>sb_FreeSectors := sb_FreeSectors p - 1, sb_CatalogCount := sb_CatalogCount p + 1,
                  sb_FreeCatalog := sb_FreeCatalog p - 1\<rparr>"

definition child_disk :: "nconf \<Rightarrow> NFS_CATALOG_STRUCT \<Rightarrow> u64 \<Rightarrow> disk \<Rightarrow> disk" where
  "child_disk c child a d =
     drv_std_write (hw c) kNeFSRootCatalogStartAddress (enc_super (counted (super_at c d)))
       (drv_std_write (hw c) a (enc_catalog (placed_child child (super_at c d) a))
         (drv_std_write (hw c) a (enc_catalog catalog_zero) d))"

lemma counted_ok [simp]: "super_ok (counted p) = super_ok p"
  by (simp add: counted_def super_ok_def)

lemma placed_child_ok [simp]: "catalog_ok (placed_child child p a) = catalog_ok child"
  by (simp add: placed_child_def catalog_ok_def)

lemma write_child_main:
  assumes "main_drive t" and "\<not> read_only t" and "drive_addressing (dpos (hw c))"
    and "apart a kNeFSRootCatalogStartAddress" and "catalog_ok child"
  shows "write_child c child catalog_zero (super_at c d) a t d = Inr (child_disk c child a d)"
proof -
  let ?p = "super_at c d"
  have ok: "catalog_ok (placed_child child ?p a)" using assms(5) by simp
  have "super_at c (drv_std_write (hw c) a (enc_catalog (placed_child child ?p a))
      (drv_std_write (hw c) a (enc_catalog catalog_zero) d)) = ?p"
    using assms(3,4) by (simp add: super_at_write_other apart_sym [of kNeFSRootCatalogStartAddress a]
        length_enc_catalog [OF ok])
  then show ?thesis
    using assms(1,2)
    by (simp add: write_child_def Let_def nefs_output_main nefs_input_main length_enc_super
        placed_child_def [symmetric] super_at_def [symmetric] child_disk_def counted_def)
qed

lemma child_disk_reads:
  assumes "drive_addressing (dpos (hw c))" and "catalog_ok child"
    and "apart a kNeFSRootCatalogStartAddress"
  shows "super_at c (child_disk c child a d) = counted (super_at c d)"
    and "cat_at c (child_disk c child a d) a = placed_child child (super_at c d) a"
    and "apart b a \<Longrightarrow> apart b kNeFSRootCatalogStartAddress \<Longrightarrow>
      cat_at c (child_disk c child a d) b = cat_at c d b"
  using assms
  by (simp_all add: child_disk_def super_at_write_same cat_at_write_same cat_at_write_other
      length_enc_super length_enc_catalog)

lemma child_catalog_ok: "length name < 256 \<Longrightarrow> catalog_ok (child_catalog name flags kind lba)"
  by (simp add: child_catalog_def catalog_ok_def catalog_zero_def kNeFSNodeNameLen_def
      kNeFSMimeNameLen_def length_put_cstr)

lemma created_child: "created (placed_child (child_catalog name flags kind lba) p a)"
  by (simp add: created_def placed_child_def child_catalog_def kNeFSFlagCreated_def)

lemma child_name: "0 \<notin> set name \<Longrightarrow> catalog_name (placed_child (child_catalog name flags kind lba) p a) = name"
  by (rule catalog_name_put) (simp_all add: placed_child_def child_catalog_def)

text \<open>A creation on a dense partition keeps it dense, with one more slot.\<close>

lemma child_disk_dense:
  assumes "dense c d n N" and "n < N" and "slots_fit N" and "drive_addressing (dpos (hw c))"
    and "length name < 256"
  shows "dense c (child_disk c (child_catalog name flags kind lba) (slot_lba n) d) (Suc n) N"
proof -
  let ?child = "child_catalog name flags kind lba"
  let ?d = "child_disk c ?child (slot_lba n) d"
  have ok: "catalog_ok ?child" using assms(5) by (rule child_catalog_ok)
  have sup: "apart (slot_lba i) kNeFSRootCatalogStartAddress" if "i \<le> N" for i
    using that assms(3) by (rule slot_apart_super)
  have n: "n \<le> N" using assms(2) by simp
  note reads = child_disk_reads [OF assms(4) ok sup [OF n], where d = d]
  have other: "cat_at c ?d (slot_lba i) = cat_at c d (slot_lba i)" if "i \<le> N" "i \<noteq> n" for i
    using slots_apart [OF that(1) n assms(3) that(2)] sup [OF that(1)] by (rule reads(3))
  have here: "created (cat_at c ?d (slot_lba n))" "cat_NextSibling (cat_at c ?d (slot_lba n)) = slot_lba (Suc n)"
    unfolding reads(2) by (simp_all add: created_child slot_lba_Suc [symmetric]) (simp add: placed_child_def)
  have "sb_StartCatalog (super_at c ?d) = kNeFSCatalogStartAddress"
    using assms(1) unfolding reads(1) by (simp add: counted_def dense_def)
  moreover have "created (cat_at c ?d (slot_lba i)) \<and> cat_NextSibling (cat_at c ?d (slot_lba i)) = slot_lba (Suc i)"
    if "i < Suc n" for i
    using that here other [of i] assms(1,2) by (cases "i = n") (simp_all add: dense_def)
  moreover have "cat_at c ?d (slot_lba i) = catalog_zero" if "Suc n \<le> i" "i \<le> N" for i
    using that other [of i] assms(1) by (simp add: dense_def)
  ultimately show ?thesis unfolding dense_def by blast
qed

subsection \<open>The whole creation\<close>

lemma create_below_dense:
  assumes m: "mounted s" "\<not> read_only (mA (mnt s))" "drive_addressing (dpos (hw c))"
    and dn: "dense c (dsk s) n N" "n < N" "slots_fit N" "n < nfuel c"
    and free: "\<not> sb_FreeCatalog (super_at c (dsk s)) < 1"
    and name: "length name < 256" "\<forall>i < n. catalog_name (cat_at c (dsk s) (slot_lba i)) \<noteq> name"
    and at: "catalog = None \<and> p = 0 \<or> catalog \<noteq> None \<and> out_lba = slot_lba p" "p \<le> n"
  shows "create_below c name flags kind catalog out_lba s =
    Inr (Some catalog_zero,
      s\<lparr>dsk := child_disk c (child_catalog name flags kind (slot_lba p)) (slot_lba n) (dsk s)\<rparr>)"
proof -
  let ?d = "dsk s" and ?child = "child_catalog name flags kind (slot_lba p)"
  have start: "sb_StartCatalog (super_at c ?d) = kNeFSCatalogStartAddress" using dn(1) by (simp add: dense_def)
  obtain t0 where t0: "same_drive (mA (mnt s)) t0"
    "(case catalog of Some _ \<Rightarrow> Inr (out_lba, mA (mnt s), ?d)
       | None \<Rightarrow> bindF (read_super c (mA (mnt s)) ?d) (\<lambda>(blk, t, d). Inr (sb_StartCatalog blk, t, d))) =
     Inr (slot_lba p, t0, ?d)"
    using at m(1) start by (cases catalog) (auto simp: read_super_main slot_lba_0)
  have mt0: "main_drive t0" using t0(1) m(1) by (rule main_drive_same)
  define t1 where "t1 = set_packet kNeFSRootCatalogStartAddress 512 (set_mime ''fs/nefs-packet'' t0)"
  define t2 where "t2 = set_packet (slot_lba p) 514 t1"
  have mt: "main_drive t1" "main_drive t2" using mt0 by (simp_all add: t1_def t2_def)
  have "n - p < nfuel c" using dn(4) by simp
  then obtain t3 where t3: "same_drive t2 t3"
    "find_slot c (nfuel c) name kNeFSCatalogStartAddress (slot_lba p) (drv_std_read (hw c) (slot_lba p) 514 ?d) t2 ?d =
     Inr (Allocated catalog_zero (slot_lba n), t3, ?d)"
    using find_slot_dense [OF dn(1) _ dn(3) name(2) at(2) _ mt(2), of "nfuel c"
        "drv_std_read (hw c) (slot_lba p) 514 ?d"] dn(2) by (auto simp: cat_at_def)
  have "same_drive (mA (mnt s)) t2" using t0(1) by (simp add: t1_def t2_def)
  then have "same_drive (mA (mnt s)) t3" using t3(1) by (rule same_drive_trans)
  then have t3': "main_drive t3" "\<not> read_only t3"
    using m(1,2) by (simp add: main_drive_def same_drive_def, simp add: read_only_same)
  have "write_child c ?child catalog_zero (super_at c ?d) (slot_lba n) t3 ?d = Inr (child_disk c ?child (slot_lba n) ?d)"
    using t3' m(3) slot_apart_super [of n N] dn(2,3) child_catalog_ok [OF name(1)]
    by (intro write_child_main) simp_all
  then show ?thesis
    using mt0 mt free t3(2) start
    by (simp add: create_below_def t0(2) read_super_main t1_def [symmetric] nefs_input_main t2_def [symmetric])
qed

lemma CreateCatalog_kind_dense:
  assumes m: "mounted s" "\<not> read_only (mA (mnt s))" "drive_addressing (dpos (hw c))"
    and dn: "dense c (dsk s) n N" "n < N" "slots_fit N" "n < nfuel c"
    and free: "\<not> sb_FreeCatalog (super_at c (dsk s)) < 1"
    and name: "length name < 256" "\<forall>i < n. catalog_name (cat_at c (dsk s) (slot_lba i)) \<noteq> name" "name \<noteq> []"
      "last name = kNeFSSeparator \<longleftrightarrow> kind = kNeFSCatalogKindDir"
    and parent: "parent_name name = Inr pn" "cstr pn \<noteq> []"
      "\<forall>i < n. catalog_name (cat_at c (dsk s) (slot_lba i)) = cstr pn \<longrightarrow>
         cat_Kind (cat_at c (dsk s) (slot_lba i)) \<noteq> kNeFSCatalogKindFile"
  shows "\<exists>p s1. p \<le> n \<and> same_fs s s1 \<and> CreateCatalog_kind c name flags kind s =
    Inr (Some catalog_zero,
      s1\<lparr>dsk := child_disk c (child_catalog name flags kind (slot_lba p)) (slot_lba n) (dsk s)\<rparr>)"
proof -
  have n: "n \<le> N" using dn(2) by simp
  note chain = dense_chain [OF dn(1) n dn(3,4)]
  note found = dense_find [OF dn(1) n]
  have none: "find (cat_hit c (dsk s) name True) (map slot_lba [0..<Suc n]) = None"
    unfolding found(2) by (rule name(2))
  obtain s1 where s1: "same_fs s s1" "FindCatalog c (Some name) 0 True False s = Inr (None, 0, s1)"
    using FindCatalog_chain [OF m(1) name(3) chain, of 0 True] unfolding none by auto
  have d1: "dsk s1 = dsk s" using s1(1) by (simp add: same_fs_def)
  note chain1 = chain [folded d1]
  obtain s2 where s2: "same_fs s1 s2" "FindCatalog c (Some (cstr pn)) 0 True False s1 =
      (case find (cat_hit c (dsk s) (cstr pn) True) (map slot_lba [0..<Suc n]) of
         Some l \<Rightarrow> Inr (Some (cat_at c (dsk s) l), l, s2) | None \<Rightarrow> Inr (None, 0, s2))"
    using FindCatalog_chain [OF same_fs_mounted [OF s1(1) m(1)] parent(2) chain1, of 0 True]
    unfolding d1 by blast
  have fs2: "same_fs s s2" using s1(1) s2(1) by (rule same_fs_trans)
  have d2: "dsk s2 = dsk s" using fs2 by (simp add: same_fs_def)
  have m2: "mounted s2" "\<not> read_only (mA (mnt s2))"
    using fs2 m(1,2) same_fs_mounted by (auto simp: same_fs_def read_only_same)
  obtain catalog out_lba p where cp: "catalog = None \<and> p = 0 \<or> catalog \<noteq> None \<and> out_lba = slot_lba p" "p \<le> n"
    "\<not> (case catalog of None \<Rightarrow> False | Some q \<Rightarrow> cat_Kind q = kNeFSCatalogKindFile)"
    "FindCatalog c (Some (cstr pn)) 0 True False s1 = Inr (catalog, out_lba, s2)"
  proof (cases "find (cat_hit c (dsk s) (cstr pn) True) (map slot_lba [0..<Suc n])")
    case None
    then show ?thesis using s2(2) that [of None 0] by simp
  next
    case (Some l)
    from found(1) [OF Some] obtain q where q: "q < n" "l = slot_lba q" "catalog_name (cat_at c (dsk s) l) = cstr pn"
      by blast
    then show ?thesis using Some s2(2) parent(3) that [of "Some (cat_at c (dsk s) l)" q l] by simp
  qed
  have "create_below c name flags kind catalog out_lba s2 =
    Inr (Some catalog_zero,
      s2\<lparr>dsk := child_disk c (child_catalog name flags kind (slot_lba p)) (slot_lba n) (dsk s)\<rparr>)"
    using create_below_dense [of s2 c n N name catalog p out_lba flags kind] m2 m(3) dn free name(1,2) cp(1,2)
    unfolding d2 by blast
  then have "CreateCatalog_kind c name flags kind s = Inr (Some catalog_zero,
      s2\<lparr>dsk := child_disk c (child_catalog name flags kind (slot_lba p)) (slot_lba n) (dsk s)\<rparr>)"
    using name(3,4) s1(2) cp(3,4) parent(1) by (auto simp: CreateCatalog_kind_def)
  with cp(2) fs2 show ?thesis by blast
qed

lemma create_on_dense:
  assumes "mounted s" and "\<not> read_only (mA (mnt s))" and "drive_addressing (dpos (hw c))"
    and "dense c (dsk s) n N" and "n < N" and "slots_fit N" and "Suc n < nfuel c"
    and "1 \<le> sb_FreeCatalog (super_at c (dsk s))"
    and "name \<noteq> []" and "0 \<notin> set name" and "length name < 256"
    and "last name = kNeFSSeparator \<longleftrightarrow> kind = kNeFSCatalogKindDir"
    and "\<forall>i < n. catalog_name (cat_at c (dsk s) (slot_lba i)) \<noteq> name"
    and "parent_name name = Inr pn" and "cstr pn \<noteq> []"
    and "\<forall>i < n. catalog_name (cat_at c (dsk s) (slot_lba i)) = cstr pn \<longrightarrow>
           cat_Kind (cat_at c (dsk s) (slot_lba i)) \<noteq> kNeFSCatalogKindFile"
  shows "\<exists>s'. CreateCatalog_kind c name flags kind s = Inr (Some catalog_zero, s') \<and>
    mounted s' \<and> \<not> read_only (mA (mnt s')) \<and> dense c (dsk s') (Suc n) N \<and>
    catalog_name (cat_at c (dsk s') (slot_lba n)) = name \<and> cat_Kind (cat_at c (dsk s') (slot_lba n)) = kind \<and>
    created (cat_at c (dsk s') (slot_lba n)) \<and>
    cat_DataFork (cat_at c (dsk s') (slot_lba n)) = sb_DiskSize (super_at c (dsk s)) - slot_lba n \<and>
    super_at c (dsk s') = counted (super_at c (dsk s)) \<and>
    (\<forall>i \<le> N. i \<noteq> n \<longrightarrow> cat_at c (dsk s') (slot_lba i) = cat_at c (dsk s) (slot_lba i))"
proof -
  have fuel: "n < nfuel c" and n: "n \<le> N" using assms(5,7) by simp_all
  have free: "\<not> sb_FreeCatalog (super_at c (dsk s)) < 1" using assms(8) by (simp only: not_less)
  obtain p s1 where created1: "same_fs s s1" "CreateCatalog_kind c name flags kind s = Inr (Some catalog_zero,
      s1\<lparr>dsk := child_disk c (child_catalog name flags kind (slot_lba p)) (slot_lba n) (dsk s)\<rparr>)"
    using CreateCatalog_kind_dense [OF assms(1-6) fuel free assms(11,13,9,12,14-16)] by blast
  define child where "child = child_catalog name flags kind (slot_lba p)"
  define s' where "s' = s1\<lparr>dsk := child_disk c child (slot_lba n) (dsk s)\<rparr>"
  have d: "dsk s' = child_disk c child (slot_lba n) (dsk s)" by (simp add: s'_def)
  have ok: "catalog_ok child" using assms(11) by (simp add: child_def child_catalog_ok)
  have sup: "apart (slot_lba i) kNeFSRootCatalogStartAddress" if "i \<le> N" for i
    using that assms(6) by (rule slot_apart_super)
  note reads = child_disk_reads [OF assms(3) ok sup [OF n], where d = "dsk s", folded d]
  have facts: "catalog_name (cat_at c (dsk s') (slot_lba n)) = name" "cat_Kind (cat_at c (dsk s') (slot_lba n)) = kind"
    "created (cat_at c (dsk s') (slot_lba n))"
    "cat_DataFork (cat_at c (dsk s') (slot_lba n)) = sb_DiskSize (super_at c (dsk s)) - slot_lba n"
    using assms(10) unfolding reads(2) child_def
    by (simp_all add: child_name created_child) (simp_all add: placed_child_def child_catalog_def)
  have "dense c (dsk s') (Suc n) N"
    unfolding d child_def using assms(4-6,3,11) by (rule child_disk_dense)
  moreover have "cat_at c (dsk s') (slot_lba i) = cat_at c (dsk s) (slot_lba i)" if "i \<le> N" "i \<noteq> n" for i
    using slots_apart [OF that(1) n assms(6) that(2)] sup [OF that(1)] by (rule reads(3))
  moreover have "mounted s'" "\<not> read_only (mA (mnt s'))"
    using same_fs_mounted [OF created1(1) assms(1)] created1(1) assms(2)
    by (auto simp: s'_def same_fs_def read_only_same)
  ultimately show ?thesis
    using created1(2) [folded child_def, folded s'_def] reads(1) facts by blast
qed

text \<open>The next search for a new name finds the slot it is in.\<close>

lemma find_new_name:
  assumes "mounted s" and "dense c (dsk s) n N" and "n \<le> N" and "slots_fit N" and "n < nfuel c" and "name \<noteq> []"
    and "p < n" and "\<forall>i < n. catalog_name (cat_at c (dsk s) (slot_lba i)) = name \<longleftrightarrow> i = p"
  shows "find (cat_hit c (dsk s) name True) (map slot_lba [0..<Suc n]) = Some (slot_lba p)"
    and "\<exists>s2. FindCatalog c (Some name) 0 True False s = Inr (Some (cat_at c (dsk s) (slot_lba p)), slot_lba p, s2)"
proof -
  have "find (cat_hit c (dsk s) name True) (map slot_lba [0..<Suc n]) \<noteq> None"
    unfolding dense_find(2) [OF assms(2,3)] using assms(7,8) by blast
  then obtain l where l: "find (cat_hit c (dsk s) name True) (map slot_lba [0..<Suc n]) = Some l"
    by blast
  from dense_find(1) [OF assms(2,3) l] obtain q where q: "q < n" "l = slot_lba q"
    "catalog_name (cat_at c (dsk s) l) = name" by blast
  then have "q = p" using assms(8) by simp
  with l q(2) show hit: "find (cat_hit c (dsk s) name True) (map slot_lba [0..<Suc n]) = Some (slot_lba p)"
    by simp
  show "\<exists>s2. FindCatalog c (Some name) 0 True False s = Inr (Some (cat_at c (dsk s) (slot_lba p)), slot_lba p, s2)"
    using FindCatalog_chain [OF assms(1,6) dense_chain [OF assms(2-5)], of 0 True]
    unfolding hit option.case by blast
qed

subsection \<open>A small partition\<close>

text \<open>A blank disk with a super block on it, and what creating one catalog makes of it.\<close>

definition demo_conf :: nconf where
  "demo_conf = \<lparr>hw = \<lparr>dpos = ahci_pos, drv_std_init = \<lambda>_ _. True\<rparr>, ndebug = True, nfuel = 8\<rparr>"

definition demo_super :: NFS_SUPER_BLOCK where
  "demo_super = \<lparr>sb_Ident = replicate 8 0, sb_PartitionName = replicate 32 0, sb_Flags = 0, sb_Kind = 0,
     sb_StartCatalog = kNeFSCatalogStartAddress, sb_CatalogCount = 0, sb_DiskSize = 0x100000,
     sb_FreeCatalog = 3, sb_FreeSectors = 100, sb_SectorCount = 100, sb_SectorSize = 512, sb_Version = 1,
     sb_EpmBlock = 0, sb_Pad = replicate 392 0\<rparr>"

definition demo_disk :: disk where
  "demo_disk = drv_std_write (hw demo_conf) kNeFSRootCatalogStartAddress (enc_super demo_super)
     \<lparr>platter = \<lambda>_. 0, kATAIO = 0, kATAMaster = False\<rparr>"

definition demo_fs :: nefs where
  "demo_fs = \<lparr>mnt = \<lparr>mA = DriveTrait_new\<lparr>fInput := io_drv_input, fOutput := io_drv_output\<rparr>,
       mB = DriveTrait_new, mC = DriveTrait_new, mD = DriveTrait_new\<rparr>, dsk = demo_disk, err_global = 0\<rparr>"

lemma slice_blank: "a + n \<le> k \<Longrightarrow> slice a n (replicate k 0) = replicate n 0"
  by (simp add: slice_def)

lemma dec_blank: "dec16 (replicate 2 0) = 0" "dec32 (replicate 4 0) = 0" "dec64 (replicate 8 0) = 0"
  by code_simp+

lemma dec_catalog_blank: "dec_catalog (replicate 514 0) = catalog_zero"
  by (simp add: dec_catalog_def slice_blank dec_blank catalog_zero_def kNeFSNodeNameLen_def kNeFSMimeNameLen_def)

lemma demo_addressing [simp]: "drive_addressing (dpos (hw demo_conf))"
  by (simp add: demo_conf_def ahci.drive_addressing_axioms)

lemma demo_slots [simp]: "slots_fit 3"
  by (simp add: slots_fit_def)

lemma demo_super_at [simp]: "super_at demo_conf demo_disk = demo_super"
  unfolding demo_disk_def
  by (rule super_at_write_same) (simp add: super_ok_def demo_super_def)

lemma demo_blank: "i \<le> 3 \<Longrightarrow> cat_at demo_conf demo_disk (slot_lba i) = catalog_zero"
proof -
  assume i: "i \<le> 3"
  let ?blank = "\<lparr>platter = \<lambda>_. 0, kATAIO = 0, kATAMaster = False\<rparr>"
  have "cat_at demo_conf demo_disk (slot_lba i) = cat_at demo_conf ?blank (slot_lba i)"
    unfolding demo_disk_def using slot_apart_super [OF i demo_slots]
    by (intro cat_at_write_other)
      (simp_all add: length_enc_super super_ok_def demo_super_def)
  also have "\<dots> = catalog_zero"
    by (simp add: cat_at_def drv_std_read_def read_bytes_def map_replicate_const dec_catalog_blank)
  finally show ?thesis .
qed

lemma demo_dense: "dense demo_conf demo_disk 0 3"
  by (simp add: dense_def demo_blank) (simp add: demo_super_def)

lemma demo_mounted: "mounted demo_fs" "\<not> read_only (mA (mnt demo_fs))" "dsk demo_fs = demo_disk"
  by (simp_all add: demo_fs_def main_drive_def read_only_def DriveTrait_new_def)

text \<open>The same partition with the file \<^verbatim>\<open>/abc\<close> on it.\<close>

definition demo_name :: "u8 list" where
  "demo_name = ascii ''/abc''"

lemma demo_name_eval: "demo_name = [47, 97, 98, 99]"
  unfolding demo_name_def ascii_def by code_simp

definition demo_fs1 :: nefs where
  "demo_fs1 = demo_fs\<lparr>dsk := child_disk demo_conf
     (child_catalog demo_name 0 kNeFSCatalogKindFile (slot_lba 0)) (slot_lba 0) demo_disk\<rparr>"

lemma demo1_mounted: "mounted demo_fs1" "\<not> read_only (mA (mnt demo_fs1))"
  using demo_mounted by (simp_all add: demo_fs1_def)

lemma demo1_dense: "dense demo_conf (dsk demo_fs1) 1 3"
  using child_disk_dense [OF demo_dense, of demo_name] by (simp add: demo_fs1_def demo_name_eval)

lemma demo1_chain: "chain_from_root demo_conf (dsk demo_fs1) [slot_lba 0, slot_lba 1]"
  using dense_chain [OF demo1_dense] by (simp add: demo_conf_def)

lemma demo1_catalog: "cat_at demo_conf (dsk demo_fs1) (slot_lba 0) =
  placed_child (child_catalog demo_name 0 kNeFSCatalogKindFile (slot_lba 0)) demo_super (slot_lba 0)"
  using child_disk_reads(2) [of demo_conf "child_catalog demo_name 0 kNeFSCatalogKindFile (slot_lba 0)"
      "slot_lba 0" demo_disk] slot_apart_super [of 0 3]
  by (simp add: demo_fs1_def child_catalog_ok demo_name_eval)

lemma demo1_find: "find (cat_hit demo_conf (dsk demo_fs1) demo_name True) [slot_lba 0, slot_lba 1] = Some (slot_lba 0)"
  using child_name [of demo_name] created_child
  by (simp add: cat_hit_def visible_hidden demo1_catalog demo_name_eval)

lemma demo1_named: "named (cat_at demo_conf (dsk demo_fs1) (slot_lba 0))"
  by (simp add: named_def demo1_catalog placed_child_def child_catalog_def put_cstr_def)

lemma demo1_spread: "spread [slot_lba 0, slot_lba 1]"
  using slot_apart_super [of _ 3] slots_apart [of _ 3] by (auto simp: spread_def)

subsection \<open>Properties\<close>

theorem FindCatalog_spec_witness:
  "\<exists>r lba s'. FindCatalog demo_conf (Some demo_name) 0 True False demo_fs1 = Inr (Some r, lba, s') \<and>
    lba = slot_lba 0 \<and> catalog_name r = demo_name"
  using FindCatalog_spec [OF demo1_mounted(1) _ demo1_chain, of demo_name 0 True] demo1_find
    child_name [of demo_name]
  by (auto simp: cat_hit_def [abs_def] demo1_catalog demo_name_eval)

theorem RemoveCatalog_leaves_it_visible_witness:
  "\<exists>s1 s2. RemoveCatalog demo_conf (Some demo_name) demo_fs1 = Inr (True, s1) \<and>
    FindCatalog demo_conf (Some demo_name) 0 True False s1 =
      Inr (Some (removed (cat_at demo_conf (dsk demo_fs1) (slot_lba 0))), slot_lba 0, s2)"
  using RemoveCatalog_leaves_it_visible [OF demo1_mounted demo_addressing _ _ demo1_chain demo1_spread, of demo_name]
    demo1_find demo1_named
  by (auto simp: demo_name_eval kNeFSRoot_def)

text \<open>
  C2. Creating a catalog on a dense partition (the slots from 2560 on hold created catalogs, each
  the next one's predecessor, and the rest is blank) with a free catalog left, a name that is not there
  yet and ends as its kind wants, and a parent path whose catalog, if there is one, is not a file: the
  first blank slot gets a created catalog of that name and kind that names the next slot as its
  sibling, the counters of the super block go down and up by one, every other slot is untouched, the
  partition is dense again, and the next search for the name finds the new catalog. The result the
  caller gets, though, is the blank catalog the slot held before.
\<close>

theorem CreateCatalog_on_dense_partition:
  assumes "mounted s" and "\<not> read_only (mA (mnt s))" and "drive_addressing (dpos (hw c))"
    and "dense c (dsk s) n N" and "n < N" and "slots_fit N" and "Suc n < nfuel c"
    and "1 \<le> sb_FreeCatalog (super_at c (dsk s))"
    and "name \<noteq> []" and "0 \<notin> set name" and "length name < 256"
    and "last name = kNeFSSeparator \<longleftrightarrow> kind = kNeFSCatalogKindDir"
    and "\<forall>i < n. catalog_name (cat_at c (dsk s) (slot_lba i)) \<noteq> name"
    and "parent_name name = Inr pn" and "cstr pn \<noteq> []"
    and "\<forall>i < n. catalog_name (cat_at c (dsk s) (slot_lba i)) = cstr pn \<longrightarrow>
           cat_Kind (cat_at c (dsk s) (slot_lba i)) \<noteq> kNeFSCatalogKindFile"
  shows "\<exists>s' cat s2. CreateCatalog_kind c name flags kind s = Inr (Some catalog_zero, s') \<and>
    dense c (dsk s') (Suc n) N \<and>
    cat_at c (dsk s') (slot_lba n) = cat \<and> catalog_name cat = name \<and> cat_Kind cat = kind \<and> created cat \<and>
    super_at c (dsk s') = counted (super_at c (dsk s)) \<and>
    (\<forall>i \<le> N. i \<noteq> n \<longrightarrow> cat_at c (dsk s') (slot_lba i) = cat_at c (dsk s) (slot_lba i)) \<and>
    FindCatalog c (Some name) 0 True False s' = Inr (Some cat, slot_lba n, s2)"
proof -
  obtain s' where s': "CreateCatalog_kind c name flags kind s = Inr (Some catalog_zero, s')" "mounted s'"
    "dense c (dsk s') (Suc n) N" "catalog_name (cat_at c (dsk s') (slot_lba n)) = name"
    "cat_Kind (cat_at c (dsk s') (slot_lba n)) = kind" "created (cat_at c (dsk s') (slot_lba n))"
    "super_at c (dsk s') = counted (super_at c (dsk s))"
    "\<forall>i \<le> N. i \<noteq> n \<longrightarrow> cat_at c (dsk s') (slot_lba i) = cat_at c (dsk s) (slot_lba i)"
    using create_on_dense [OF assms] by blast
  have "catalog_name (cat_at c (dsk s') (slot_lba i)) = name \<longleftrightarrow> i = n" if "i < Suc n" for i
    using that s'(4,8) assms(5,13) by (cases "i = n") simp_all
  then obtain s2 where "FindCatalog c (Some name) 0 True False s' = Inr (Some (cat_at c (dsk s') (slot_lba n)), slot_lba n, s2)"
    using find_new_name(2) [OF s'(2,3) _ assms(6,7,9), of n] assms(5) by auto
  with s' show ?thesis by blast
qed

theorem CreateCatalog_on_dense_partition_witness:
  "\<exists>s' s2 cat. CreateCatalog_kind demo_conf demo_name 0 kNeFSCatalogKindFile demo_fs = Inr (Some catalog_zero, s') \<and>
    FindCatalog demo_conf (Some demo_name) 0 True False s' = Inr (Some cat, slot_lba 0, s2)"
proof -
  have "parent_name demo_name = Inr [47]" "cstr [47] \<noteq> []"
    unfolding demo_name_eval by code_simp+
  moreover have "last demo_name = kNeFSSeparator \<longleftrightarrow> kNeFSCatalogKindFile = kNeFSCatalogKindDir"
    by (simp add: demo_name_eval kNeFSSeparator_def)
  moreover have "1 \<le> sb_FreeCatalog (super_at demo_conf (dsk demo_fs))" "Suc 0 < nfuel demo_conf"
    by (simp_all add: demo_mounted) (simp_all add: demo_super_def demo_conf_def)
  moreover have "demo_name \<noteq> []" "0 \<notin> set demo_name" "length demo_name < 256"
    by (simp_all add: demo_name_eval)
  ultimately show ?thesis
    using CreateCatalog_on_dense_partition [of demo_fs demo_conf 0 3 demo_name kNeFSCatalogKindFile "[47]" 0]
      demo_mounted demo_dense
    by (simp del: demo_super_at) blast
qed

end
