(* ===== verification/NeFSForks.thy ===== *)
theory NeFSForks
  imports NeFSCreate
begin

text \<open>
  The forks of a catalog: why none can be created, and what \<^verbatim>\<open>WriteCatalog\<close> and
  \<^verbatim>\<open>ReadCatalog\<close> do with a list of forks that is already on the disk.
\<close>

subsection \<open>The list of forks\<close>

definition fork_hit :: "u8 list \<Rightarrow> u8 list \<Rightarrow> NFS_FORK_STRUCT \<Rightarrow> bool" where
  "fork_hit cname fname f \<longleftrightarrow> fork_name f = fname \<and> fork_catalog f = cname"

text \<open>From an address over forks of other names, all above the first catalog, to a fork of the names.\<close>

fun fork_path :: "nconf \<Rightarrow> disk \<Rightarrow> u8 list \<Rightarrow> u8 list \<Rightarrow> u64 \<Rightarrow> u64 list \<Rightarrow> u64 \<Rightarrow> bool" where
  "fork_path c d cname fname lba [] t \<longleftrightarrow>
     t = lba \<and> kNeFSCatalogStartAddress < lba \<and> fork_hit cname fname (fork_at c d lba)"
| "fork_path c d cname fname lba (l # ls) t \<longleftrightarrow>
     l = lba \<and> kNeFSCatalogStartAddress < lba \<and> \<not> fork_hit cname fname (fork_at c d lba) \<and>
     fork_path c d cname fname (fork_NextSibling (fork_at c d lba)) ls t"

lemma fork_path_above: "fork_path c d cname fname lba ls t \<Longrightarrow> kNeFSCatalogStartAddress < lba"
  by (cases ls) auto

lemma fork_path_end: "fork_path c d cname fname lba ls t \<Longrightarrow> kNeFSCatalogStartAddress < t"
  by (induction ls arbitrary: lba) auto

lemma fork_at_buf: "dec_fork (drv_std_read (hw c) lba 514 d) = fork_at c d lba"
  by (simp add: fork_at_def)

lemma write_fork_path:
  assumes "fork_path c d cname fname lba ls t" and "length ls < fuel" and "length buf = 514"
    and "main_drive drv" and "\<not> read_only drv"
    and "fork_Flags (fork_at c d t) AND of_nat kNeFSFlagCreated \<noteq> 0"
    and "fork_DataSize (fork_at c d t) = of_nat (length data)"
  shows "write_fork c fuel cname fname data lba buf drv d =
    Inr (True, drv_std_write (hw c) (fork_DataOffset (fork_at c d t)) data d)"
  using assms(1-5)
proof (induction ls arbitrary: fuel lba buf drv)
  case Nil
  then obtain f where "fuel = Suc f" by (cases fuel) auto
  with Nil assms(6,7) show ?case
    by (simp add: nefs_input_main fork_at_buf fork_hit_def nefs_output_main order.strict_implies_order)
next
  case (Cons l ls)
  then obtain f where f: "fuel = Suc f" "length ls < f" by (cases fuel) auto
  let ?drv = "set_packet lba 514 drv" and ?buf = "drv_std_read (hw c) lba 514 d"
  have "write_fork c f cname fname data (fork_NextSibling (fork_at c d lba)) ?buf ?drv d =
      Inr (True, drv_std_write (hw c) (fork_DataOffset (fork_at c d t)) data d)"
    using Cons.IH [of "fork_NextSibling (fork_at c d lba)" f ?buf ?drv] Cons.prems f(2) by simp
  with Cons.prems f(1) show ?case
    by (auto simp: nefs_input_main fork_at_buf fork_hit_def order.strict_implies_order)
qed

lemma read_fork_path:
  assumes "fork_path c d cname fname lba ls t" and "length ls < fuel" and "length buf = 514"
    and "main_drive drv"
  shows "read_fork c fuel cname fname lba cur buf drv d = Inr (t, Some (fork_at c d t), d)"
  using assms
proof (induction ls arbitrary: fuel lba buf drv cur)
  case Nil
  then obtain f where "fuel = Suc f" by (cases fuel) auto
  with Nil show ?case by (simp add: nefs_input_main fork_at_buf fork_hit_def)
next
  case (Cons l ls)
  then obtain f where f: "fuel = Suc f" "length ls < f" by (cases fuel) auto
  let ?drv = "set_packet lba 514 drv" and ?buf = "drv_std_read (hw c) lba 514 d"
  have "read_fork c f cname fname (fork_NextSibling (fork_at c d lba)) (Some (fork_at c d lba)) ?buf ?drv d =
      Inr (t, Some (fork_at c d t), d)"
    using Cons.IH [of "fork_NextSibling (fork_at c d lba)" f ?buf ?drv] Cons.prems f(2) by simp
  with Cons.prems f(1) show ?case
    by (auto simp: nefs_input_main fork_at_buf fork_hit_def)
qed

lemma GetCatalog_hit:
  assumes "mounted s" and "name \<noteq> []" and "chain_from_root c (dsk s) ls"
    and "find (cat_hit c (dsk s) name True) ls = Some l"
  shows "\<exists>s'. same_fs s s' \<and> GetCatalog c (Some name) s = Inr (Some (cat_at c (dsk s) l), s')"
  using FindCatalog_chain [OF assms(1-3), of 0 True] assms(4) by (auto simp: GetCatalog_def)

subsection \<open>A fork on the small partition\<close>

definition demo_fork_lba :: u64 where
  "demo_fork_lba = 0x100000 - 2560"

definition demo_fork :: NFS_FORK_STRUCT where
  "demo_fork = fork_zero\<lparr>fork_ForkName := put_cstr [65] (fork_ForkName fork_zero),
     fork_CatalogName := put_cstr demo_name (fork_CatalogName fork_zero),
     fork_Flags := of_nat kNeFSFlagCreated, fork_DataOffset := 0x80000, fork_DataSize := 3\<rparr>"

definition demo_fs2 :: nefs where
  "demo_fs2 = demo_fs1\<lparr>dsk := drv_std_write (hw demo_conf) demo_fork_lba (enc_fork demo_fork) (dsk demo_fs1)\<rparr>"

lemma demo_fork_ok: "fork_ok demo_fork"
  by (simp add: fork_ok_def demo_fork_def fork_zero_def length_put_cstr demo_name_eval kNeFSForkNameLen_def
      kNeFSNodeNameLen_def)

lemma demo_fork_facts:
  "fork_name demo_fork = [65]" "fork_catalog demo_fork = demo_name"
  "fork_ForkName demo_fork ! 0 \<noteq> 0" "fork_CatalogName demo_fork ! 0 \<noteq> 0" "0 < fork_DataSize demo_fork"
  "demo_name \<noteq> []"
proof -
  have len: "length (fork_ForkName demo_fork) = 200" using demo_fork_ok by (simp add: fork_ok_def)
  show "fork_catalog demo_fork = demo_name"
    using len by (simp add: fork_catalog_def enc_fork_def)
      (simp add: demo_fork_def demo_name_eval)
  show "fork_name demo_fork = [65]"
    by (simp add: fork_name_def enc_fork_def) (simp add: demo_fork_def)
qed (simp_all add: demo_fork_def put_cstr_def demo_name_eval)

lemma demo1_fork_place:
  "cat_DataFork (cat_at demo_conf (dsk demo_fs1) (slot_lba 0)) = demo_fork_lba"
  "kNeFSCatalogStartAddress \<le> demo_fork_lba"
  unfolding demo1_catalog
  by (simp_all add: placed_child_def demo_super_def slot_lba_0 kNeFSCatalogStartAddress_def demo_fork_lba_def)

lemma demo_fork_apart: "apart (slot_lba 0) demo_fork_lba" "apart (slot_lba 1) demo_fork_lba"
  "apart kNeFSRootCatalogStartAddress demo_fork_lba"
proof -
  have "unat (slot_lba 0) = 2560" "unat (slot_lba 1) = 4616"
    using unat_slot [of 0 3] unat_slot [of 1 3] by simp_all
  then show "apart (slot_lba 0) demo_fork_lba" "apart (slot_lba 1) demo_fork_lba"
    "apart kNeFSRootCatalogStartAddress demo_fork_lba"
    by (simp_all add: apart_def demo_fork_lba_def kNeFSRootCatalogStartAddress_def)
qed

lemma demo2_catalogs:
  "cat_at demo_conf (dsk demo_fs2) (slot_lba 0) = cat_at demo_conf (dsk demo_fs1) (slot_lba 0)"
  "cat_at demo_conf (dsk demo_fs2) (slot_lba 1) = cat_at demo_conf (dsk demo_fs1) (slot_lba 1)"
  "super_at demo_conf (dsk demo_fs2) = super_at demo_conf (dsk demo_fs1)"
  using demo_fork_apart length_enc_fork [OF demo_fork_ok]
  by (simp_all add: demo_fs2_def cat_at_write_other super_at_write_other)

lemma demo2_fork: "fork_at demo_conf (dsk demo_fs2) demo_fork_lba = demo_fork"
  using length_enc_fork [OF demo_fork_ok] dec_enc_fork [OF demo_fork_ok]
  by (simp add: demo_fs2_def fork_at_def drv_read_same)

lemma demo2_chain: "chain_from_root demo_conf (dsk demo_fs2) [slot_lba 0, slot_lba 1]"
proof -
  have "cat_NextSibling (cat_at demo_conf (dsk demo_fs2) l) = cat_NextSibling (cat_at demo_conf (dsk demo_fs1) l)"
    if "l \<in> set [slot_lba 0, slot_lba 1]" for l
    using that demo2_catalogs by auto
  then show ?thesis
    using demo1_chain cat_chain_cong [of demo_conf "dsk demo_fs1" _ _ "[slot_lba 0, slot_lba 1]" "dsk demo_fs2"]
    unfolding chain_from_root_def demo2_catalogs(3) by blast
qed

subsection \<open>Properties\<close>

text \<open>
  No fork can be created for a catalog whose forks lie where \<^verbatim>\<open>CreateCatalog\<close> puts them:
  \<^verbatim>\<open>CreateFork\<close> demands that the fork's place is below the first catalog, so for a catalog that a
  search finds with its data fork at 2560 or above it panics in a debug build, and gives No in a
  release build with the disk as it was.
\<close>

theorem CreateFork_refused:
  assumes "mounted s" and "chain_from_root c (dsk s) ls"
    and "fork_ForkName f ! 0 \<noteq> 0" and "fork_CatalogName f ! 0 \<noteq> 0" and "0 < fork_DataSize f"
    and "fork_catalog f \<noteq> []"
    and "find (cat_hit c (dsk s) (fork_catalog f) True) ls = Some l"
    and "kNeFSCatalogStartAddress \<le> cat_DataFork (cat_at c (dsk s) l)"
  shows "if ndebug c then CreateFork c f s = Inl (Panic 1111)
    else \<exists>s'. CreateFork c f s = Inr (False, f, s') \<and> dsk s' = dsk s"
proof -
  obtain s' where "same_fs s s'" "GetCatalog c (Some (fork_catalog f)) s = Inr (Some (cat_at c (dsk s) l), s')"
    using GetCatalog_hit [OF assms(1,6,2,7)] by blast
  moreover have "\<not> cat_DataFork (cat_at c (dsk s) l) < kNeFSCatalogStartAddress"
    using assms(8) by (simp only: not_less)
  ultimately show ?thesis using assms(3-5) by (simp add: CreateFork_def Let_def same_fs_def)
qed

theorem CreateFork_refused_witness:
  "CreateFork demo_conf demo_fork demo_fs1 = Inl (Panic 1111)"
  using CreateFork_refused [OF demo1_mounted(1) demo1_chain, of demo_fork] demo1_find demo1_fork_place
    demo_fork_facts
  by (simp add: demo_conf_def)



end
