(* ===== verification/FileMgr.thy ===== *)
theory FileMgr
  imports NeFSCreate
begin

text \<open>
  The file manager: \<^verbatim>\<open>FileMgr.cc\<close>, \<^verbatim>\<open>FS/OpenNeFS+FileMgr.cc\<close> and the
  classes of \<^verbatim>\<open>KernelKit/FileMgr.h\<close>.

  The abstract class \<^verbatim>\<open>IFilesystemMgr\<close> is a record of its virtual operations, and a mounted
  file system is such a record. What the file streams need of one is the locale \<open>filesystem_mgr\<close>,
  of which the NeFS manager is an instance. A node is a catalog, a null node \<open>None\<close>; paths, names
  and data are byte lists, \<open>None\<close> for a null pointer.

  The parser keeps no state of its own that these operations use, so the calls that the manager makes
  through its null \<^verbatim>\<open>mParser\<close> are calls of the parser's functions.
\<close>

subsection \<open>The interface\<close>

type_synonym node = "NFS_CATALOG_STRUCT option"

record 's IFilesystemMgr =
  ifs_Create :: "u8 list option \<Rightarrow> 's \<Rightarrow> fault + (node \<times> 's)"
  ifs_CreateAlias :: "u8 list option \<Rightarrow> 's \<Rightarrow> fault + (node \<times> 's)"
  ifs_CreateDirectory :: "u8 list option \<Rightarrow> 's \<Rightarrow> fault + (node \<times> 's)"
  ifs_CreateSwapFile :: "u8 list option \<Rightarrow> 's \<Rightarrow> fault + (node \<times> 's)"
  ifs_Remove :: "u8 list option \<Rightarrow> 's \<Rightarrow> fault + (bool \<times> 's)"
  ifs_Open :: "u8 list option \<Rightarrow> u8 list option \<Rightarrow> 's \<Rightarrow> fault + (node \<times> 's)"
  ifs_Write :: "node \<Rightarrow> u8 list option \<Rightarrow> u32 \<Rightarrow> nat \<Rightarrow> 's \<Rightarrow> fault + 's"
  ifs_Read :: "node \<Rightarrow> u32 \<Rightarrow> nat \<Rightarrow> 's \<Rightarrow> fault + (NFS_FORK_STRUCT option \<times> 's)"
  ifs_WriteNamed :: "u8 list \<Rightarrow> node \<Rightarrow> u8 list option \<Rightarrow> u32 \<Rightarrow> nat \<Rightarrow> 's \<Rightarrow> fault + 's"
  ifs_ReadNamed :: "u8 list \<Rightarrow> node \<Rightarrow> u32 \<Rightarrow> nat \<Rightarrow> 's \<Rightarrow> fault + (NFS_FORK_STRUCT option \<times> 's)"
  ifs_Seek :: "node \<Rightarrow> nat \<Rightarrow> 's \<Rightarrow> bool \<times> 's"
  ifs_Tell :: "node \<Rightarrow> 's \<Rightarrow> u64 \<times> 's"
  ifs_Rewind :: "node \<Rightarrow> 's \<Rightarrow> bool \<times> 's"

text \<open>\<^verbatim>\<open>kMountedFilesystem\<close> is the pointer; the three static functions read and write it.\<close>

definition GetMounted :: "'p option \<Rightarrow> 'p option" where
  "GetMounted kMountedFilesystem = kMountedFilesystem"

definition Unmount :: "'p option \<Rightarrow> 'p option \<times> 'p option" where
  "Unmount kMountedFilesystem =
     (if kMountedFilesystem \<noteq> None then (kMountedFilesystem, None) else (None, kMountedFilesystem))"

definition Mount :: "'p option \<Rightarrow> 'p option \<Rightarrow> bool \<times> 'p option" where
  "Mount mount_ptr kMountedFilesystem =
     (if mount_ptr \<noteq> None then (True, mount_ptr) else (False, kMountedFilesystem))"

definition kFileWriteAll :: u32 where "kFileWriteAll = 100"
definition kFileReadAll :: u32 where "kFileReadAll = 101"
definition kFileReadChunk :: u32 where "kFileReadChunk = 102"
definition kFileWriteChunk :: u32 where "kFileWriteChunk = 103"
definition kFileFlagRsrc :: u32 where "kFileFlagRsrc = 104"
definition kFileFlagData :: u32 where "kFileFlagData = 105"

definition kNPos :: u64 where "kNPos = - 1"
definition kNeFSForkSize :: nat where "kNeFSForkSize = 514"
definition kNeFSDataFork :: "u8 list" where "kNeFSDataFork = ascii ''main_data''"
definition kNeFSUpDir :: "u8 list" where "kNeFSUpDir = ascii ''..''"
definition kNeFSMetaFilePrefix :: u8 where "kNeFSMetaFilePrefix = 36"

subsection \<open>The NeFS manager\<close>

text \<open>
  The constructor keeps the new parser in a local variable of the member's name: the member stays null,
  and the destructor finds nothing to delete. The argument is what the allocation gave.
\<close>

record NeFileSystemMgr =
  mParser :: "nat option"

definition NeFileSystemMgr_new :: "bool \<Rightarrow> nat option \<Rightarrow> fault + NeFileSystemMgr" where
  "NeFileSystemMgr_new dbg parser =
     bindF (must_pass dbg (parser \<noteq> None)) (\<lambda>_. Inr \<lparr>mParser = None\<rparr>)"

definition NeFileSystemMgr_deletes :: "NeFileSystemMgr \<Rightarrow> nat option" where
  "NeFileSystemMgr_deletes M = (case mParser M of Some p \<Rightarrow> Some p | None \<Rightarrow> None)"

definition GetParser :: "NeFileSystemMgr \<Rightarrow> nat option" where
  "GetParser M = mParser M"

definition Root :: "u8 list" where "Root = kNeFSRoot"
definition UpDir :: "u8 list" where "UpDir = kNeFSUpDir"
definition Separator :: u8 where "Separator = kNeFSSeparator"
definition MetaFile :: u8 where "MetaFile = kNeFSMetaFilePrefix"

definition NeMgr_Remove :: "nconf \<Rightarrow> u8 list option \<Rightarrow> nefs \<Rightarrow> fault + (bool \<times> nefs)" where
  "NeMgr_Remove c path s = (if path = None \<or> path = Some [] then Inr (False, s) else RemoveCatalog c path s)"

definition NeMgr_create_kind :: "nconf \<Rightarrow> u32 \<Rightarrow> u8 list option \<Rightarrow> nefs \<Rightarrow> fault + (node \<times> nefs)" where
  "NeMgr_create_kind c kind path s =
     (case path of None \<Rightarrow> Inl NullDeref | Some p \<Rightarrow> CreateCatalog_kind c p 0 kind s)"

definition NeMgr_Create :: "nconf \<Rightarrow> u8 list option \<Rightarrow> nefs \<Rightarrow> fault + (node \<times> nefs)" where
  "NeMgr_Create c path s =
     (case path of None \<Rightarrow> Inl NullDeref | Some p \<Rightarrow> CreateCatalog c p s)"

definition NeMgr_CreateDirectory where
  "NeMgr_CreateDirectory c = NeMgr_create_kind c kNeFSCatalogKindDir"

definition NeMgr_CreateAlias where
  "NeMgr_CreateAlias c = NeMgr_create_kind c 3"

definition NeMgr_CreateSwapFile where
  "NeMgr_CreateSwapFile c = NeMgr_create_kind c 8"

definition NeMgr_Open :: "nconf \<Rightarrow> u8 list option \<Rightarrow> u8 list option \<Rightarrow> nefs \<Rightarrow> fault + (node \<times> nefs)" where
  "NeMgr_Open c path r s =
     (if path = None \<or> path = Some [] then Inr (None, s)
      else if r = None \<or> r = Some [] then Inr (None, s)
      else GetCatalog c path s)"

text \<open>The data is read up to the size; \<open>OutOfBounds\<close> when there is less of it.\<close>

definition NeMgr_WriteNamed ::
  "nconf \<Rightarrow> u8 list \<Rightarrow> node \<Rightarrow> u8 list option \<Rightarrow> u32 \<Rightarrow> nat \<Rightarrow> nefs \<Rightarrow> fault + nefs" where
  "NeMgr_WriteNamed c name nd data flags sz s =
     (if sz = 0 \<or> sz > kNeFSForkSize then Inr s
      else case data of
        None \<Rightarrow> Inr s
      | Some bs \<Rightarrow>
          (case nd of
             None \<Rightarrow> Inl NullDeref
           | Some cat \<Rightarrow>
               if cat_Kind cat = kNeFSCatalogKindFile then
                 (if length bs < sz then Inl OutOfBounds
                  else bindF (WriteCatalog c (catalog_name cat) (flags AND kFileFlagRsrc \<noteq> 0) (take sz bs) name s)
                    (\<lambda>(ok, s1). Inr s1))
               else Inr s))"

definition NeMgr_ReadNamed ::
  "nconf \<Rightarrow> u8 list \<Rightarrow> node \<Rightarrow> u32 \<Rightarrow> nat \<Rightarrow> nefs \<Rightarrow> fault + (NFS_FORK_STRUCT option \<times> nefs)" where
  "NeMgr_ReadNamed c name nd flags sz s =
     (if sz > kNeFSForkSize then Inr (None, s)
      else if sz = 0 then Inr (None, s)
      else case nd of
        None \<Rightarrow> Inl NullDeref
      | Some cat \<Rightarrow>
          if cat_Kind cat = kNeFSCatalogKindFile
          then ReadCatalog c (Some cat) (flags AND kFileFlagRsrc \<noteq> 0) sz name s
          else Inr (None, s))"

definition NeMgr_Write :: "nconf \<Rightarrow> node \<Rightarrow> u8 list option \<Rightarrow> u32 \<Rightarrow> nat \<Rightarrow> nefs \<Rightarrow> fault + nefs" where
  "NeMgr_Write c nd data flags sz s =
     (if nd = None \<or> sz = 0 then Inr s else NeMgr_WriteNamed c kNeFSDataFork nd data flags sz s)"

definition NeMgr_Read :: "nconf \<Rightarrow> node \<Rightarrow> u32 \<Rightarrow> nat \<Rightarrow> nefs \<Rightarrow> fault + (NFS_FORK_STRUCT option \<times> nefs)" where
  "NeMgr_Read c nd flags sz s =
     (if nd = None \<or> sz = 0 then Inr (None, s) else NeMgr_ReadNamed c kNeFSDataFork nd flags sz s)"

definition NeMgr_Seek :: "node \<Rightarrow> nat \<Rightarrow> nefs \<Rightarrow> bool \<times> nefs" where
  "NeMgr_Seek nd off s = (if nd = None \<or> off = 0 then (False, s) else Seek nd off s)"

definition NeMgr_Tell :: "node \<Rightarrow> nefs \<Rightarrow> u64 \<times> nefs" where
  "NeMgr_Tell nd s = (if nd = None then (kNPos, s) else (case Tell nd s of (n, s1) \<Rightarrow> (of_nat n, s1)))"

definition NeMgr_Rewind :: "node \<Rightarrow> nefs \<Rightarrow> bool \<times> nefs" where
  "NeMgr_Rewind nd s = (if nd = None then (False, s) else NeMgr_Seek nd 0 s)"

definition NeFileSystemMgr_ops :: "nconf \<Rightarrow> nefs IFilesystemMgr" where
  "NeFileSystemMgr_ops c =
     \<lparr>ifs_Create = NeMgr_Create c, ifs_CreateAlias = NeMgr_CreateAlias c,
      ifs_CreateDirectory = NeMgr_CreateDirectory c, ifs_CreateSwapFile = NeMgr_CreateSwapFile c,
      ifs_Remove = NeMgr_Remove c, ifs_Open = NeMgr_Open c, ifs_Write = NeMgr_Write c,
      ifs_Read = NeMgr_Read c, ifs_WriteNamed = NeMgr_WriteNamed c, ifs_ReadNamed = NeMgr_ReadNamed c,
      ifs_Seek = NeMgr_Seek, ifs_Tell = NeMgr_Tell, ifs_Rewind = NeMgr_Rewind\<rparr>"

subsection \<open>File streams\<close>

datatype FileMgrRestrict =
    kFileMgrRestrictRead
  | kFileMgrRestrictReadBinary
  | kFileMgrRestrictWrite
  | kFileMgrRestrictWriteBinary
  | kFileMgrRestrictReadWrite
  | kFileMgrRestrictReadWriteBinary

record FileStream =
  fFile :: node
  fFileRestrict :: FileMgrRestrict

definition kRestrictList :: "(u8 list \<times> FileMgrRestrict) list" where
  "kRestrictList =
     [(ascii ''r'', kFileMgrRestrictRead), (ascii ''rb'', kFileMgrRestrictReadBinary),
      (ascii ''rwb'', kFileMgrRestrictReadWriteBinary), (ascii ''w'', kFileMgrRestrictWrite),
      (ascii ''rw'', kFileMgrRestrictReadWrite)]"

text \<open>The comparison looks at as many characters as the entry of the table has.\<close>

definition restrict_matches :: "u8 list \<Rightarrow> u8 list \<Rightarrow> bool" where
  "restrict_matches restrict_type entry \<longleftrightarrow> take (length entry) (restrict_type @ [0]) = entry"

fun restrict_lookup :: "(u8 list \<times> FileMgrRestrict) list \<Rightarrow> u8 list \<Rightarrow> FileMgrRestrict \<Rightarrow> FileMgrRestrict" where
  "restrict_lookup [] restrict_type dflt = dflt"
| "restrict_lookup ((entry, mapped_to) # es) restrict_type dflt =
     (if restrict_matches restrict_type entry then mapped_to else restrict_lookup es restrict_type dflt)"

definition FileStream_new ::
  "'s IFilesystemMgr option \<Rightarrow> u8 list option \<Rightarrow> u8 list \<Rightarrow> 's \<Rightarrow> fault + (FileStream \<times> 's)" where
  "FileStream_new vfs path restrict_type s =
     (case GetMounted vfs of
        None \<Rightarrow> Inl NullDeref
      | Some man \<Rightarrow> bindF (ifs_Open man path (Some restrict_type) s) (\<lambda>(nd, s1).
          Inr (\<lparr>fFile = nd, fFileRestrict = restrict_lookup kRestrictList restrict_type kFileMgrRestrictReadBinary\<rparr>, s1)))"

definition may_write :: "FileStream \<Rightarrow> bool" where
  "may_write F \<longleftrightarrow> \<not> (fFileRestrict F \<noteq> kFileMgrRestrictReadWrite \<and> fFileRestrict F \<noteq> kFileMgrRestrictReadWriteBinary \<and>
     fFileRestrict F \<noteq> kFileMgrRestrictWrite \<and> fFileRestrict F \<noteq> kFileMgrRestrictWriteBinary)"

definition may_read :: "FileStream \<Rightarrow> bool" where
  "may_read F \<longleftrightarrow> \<not> (fFileRestrict F \<noteq> kFileMgrRestrictReadWrite \<and> fFileRestrict F \<noteq> kFileMgrRestrictReadWriteBinary \<and>
     fFileRestrict F \<noteq> kFileMgrRestrictRead \<and> fFileRestrict F \<noteq> kFileMgrRestrictReadBinary)"

text \<open>The result of a write is the error code of the \<^verbatim>\<open>ErrorOr\<close> it gives.\<close>

definition FileStream_Write ::
  "'s IFilesystemMgr option \<Rightarrow> FileStream \<Rightarrow> u8 list \<Rightarrow> u8 list option \<Rightarrow> nat \<Rightarrow> 's \<Rightarrow> fault + (u32 \<times> 's)" where
  "FileStream_Write vfs F name data len s =
     (if \<not> may_write F then Inr (kErrorInvalidData, s)
      else if data = None then Inr (kErrorInvalidData, s)
      else case GetMounted vfs of
        Some man \<Rightarrow> bindF (ifs_WriteNamed man name (fFile F) data 0 len s) (\<lambda>s1. Inr (0, s1))
      | None \<Rightarrow> Inr (kErrorInvalidData, s))"

definition FileStream_Read ::
  "'s IFilesystemMgr option \<Rightarrow> FileStream \<Rightarrow> u8 list \<Rightarrow> nat \<Rightarrow> 's \<Rightarrow> fault + (NFS_FORK_STRUCT option \<times> 's)" where
  "FileStream_Read vfs F name sz s =
     (if \<not> may_read F then Inr (None, s)
      else case GetMounted vfs of
        Some man \<Rightarrow> ifs_ReadNamed man name (fFile F) kFileReadAll 0 s
      | None \<Rightarrow> Inr (None, s))"

definition FileStream_ReadAt ::
  "'s IFilesystemMgr option \<Rightarrow> FileStream \<Rightarrow> nat \<Rightarrow> nat \<Rightarrow> 's \<Rightarrow> fault + (NFS_FORK_STRUCT option \<times> 's)" where
  "FileStream_ReadAt vfs F offset sz s =
     (if \<not> may_read F then Inr (None, s)
      else case GetMounted vfs of
        Some man \<Rightarrow> (case ifs_Seek man (fFile F) offset s of (ok, s1) \<Rightarrow> ifs_Read man (fFile F) kFileReadChunk sz s1)
      | None \<Rightarrow> Inr (None, s))"

definition FileStream_Leak :: "FileStream \<Rightarrow> node" where
  "FileStream_Leak F = fFile F"

definition FileStream_MIME :: "u8 list" where
  "FileStream_MIME = ascii ''n-application-kind/all''"

subsection \<open>What a stream relies on\<close>

text \<open>
  The two things the streams depend on: nothing is opened without a path, and a read of no bytes gives
  the null pointer and changes nothing.
\<close>

locale filesystem_mgr =
  fixes M :: "'s IFilesystemMgr"
  assumes open_null: "ifs_Open M None r s = Inr (None, s)"
    and read_named_none: "ifs_ReadNamed M name nd flags 0 s = Inr (None, s)"
    and read_none: "ifs_Read M nd flags 0 s = Inr (None, s)"
begin

lemma stream_open_null: "FileStream_new (Some M) None r s =
  Inr (\<lparr>fFile = None, fFileRestrict = restrict_lookup kRestrictList r kFileMgrRestrictReadBinary\<rparr>, s)"
  by (simp add: FileStream_new_def GetMounted_def open_null)

lemma stream_read_none: "FileStream_Read (Some M) F name sz s = Inr (None, s)"
  by (simp add: FileStream_Read_def GetMounted_def read_named_none)

lemma stream_read_at_none: "ifs_Seek M (fFile F) offset s = (ok, s1) \<Longrightarrow>
  FileStream_ReadAt (Some M) F offset 0 s = Inr (None, if may_read F then s1 else s)"
  by (simp add: FileStream_ReadAt_def GetMounted_def read_none)

end

interpretation nefs_mgr: filesystem_mgr "NeFileSystemMgr_ops c" for c
  by unfold_locales
    (simp_all add: NeFileSystemMgr_ops_def NeMgr_Open_def NeMgr_ReadNamed_def NeMgr_Read_def)

subsection \<open>Restrictions\<close>

lemma kRestrictList_eval: "kRestrictList =
  [([114], kFileMgrRestrictRead), ([114, 98], kFileMgrRestrictReadBinary),
   ([114, 119, 98], kFileMgrRestrictReadWriteBinary), ([119], kFileMgrRestrictWrite),
   ([114, 119], kFileMgrRestrictReadWrite)]"
  unfolding kRestrictList_def ascii_def by code_simp

text \<open>The prefix test is the kernel's comparison of the two strings over the entry's length.\<close>

lemma restrict_matches_string_cmp:
  assumes "length entry < 2 ^ 32" and "0 \<notin> set entry"
    and "read_bytes b (length entry) m = entry"
    and "read_bytes a (Suc (length str)) m = str @ [0]"
  shows "rt_string_cmp m a b (length entry) = 0 \<longleftrightarrow> restrict_matches str entry"
proof -
  have "read_bytes a (length entry) m = entry \<longleftrightarrow> take (length entry) (str @ [0]) = entry"
  proof (cases "length entry \<le> Suc (length str)")
    case True
    then have "take (length entry) (read_bytes a (Suc (length str)) m) = read_bytes a (length entry) m"
      by (simp add: read_bytes_def take_map take_upt del: upt_Suc)
    with assms(4) show ?thesis by simp
  next
    case False
    then have "read_bytes a (length entry) m ! length str = (str @ [0]) ! length str"
      using assms(4)[symmetric] by (simp add: read_bytes_def del: upt_Suc)
    moreover have "entry ! length str \<in> set entry" using False by (intro nth_mem) simp
    ultimately have "read_bytes a (length entry) m \<noteq> entry" using assms(2) by auto
    moreover have "length (take (length entry) (str @ [0])) \<noteq> length entry" using False by simp
    ultimately show ?thesis by metis
  qed
  with assms(1,3) show ?thesis by (simp add: rt_string_cmp_zero_iff restrict_matches_def)
qed

lemma restrict_of:
  "restrict_lookup kRestrictList r kFileMgrRestrictReadBinary =
    (case r of [] \<Rightarrow> kFileMgrRestrictReadBinary
     | ch # _ \<Rightarrow> if ch = 114 then kFileMgrRestrictRead else if ch = 119 then kFileMgrRestrictWrite
                 else kFileMgrRestrictReadBinary)"
  by (cases r) (auto simp: kRestrictList_eval restrict_matches_def)

subsection \<open>Properties\<close>

text \<open>
  The mode of a file stream is decided by the first letter alone, because every mode that begins
  with an r matches the table's first entry: an r gives a stream that can only read, a w one that can
  only write, and no stream can do both. And a stream cannot read either: reading a fork by name asks
  the NeFS manager for no bytes and gives the null pointer, whatever is on the disk, and writing
  through a stream opened with an r is refused.
\<close>

theorem FileStream_modes:
  assumes "FileStream_new vfs path r s = Inr (F, s1)"
  shows "fFileRestrict F = (case r of [] \<Rightarrow> kFileMgrRestrictReadBinary
     | ch # _ \<Rightarrow> if ch = 114 then kFileMgrRestrictRead else if ch = 119 then kFileMgrRestrictWrite
                 else kFileMgrRestrictReadBinary) \<and>
    may_read F \<noteq> may_write F \<and>
    FileStream_Read (Some (NeFileSystemMgr_ops c)) F name sz d = Inr (None, d) \<and>
    (r \<noteq> [] \<and> hd r = 114 \<longrightarrow>
       FileStream_Write (Some (NeFileSystemMgr_ops c)) F name data len d = Inr (kErrorInvalidData, d))"
proof -
  obtain nd where F: "F = \<lparr>fFile = nd, fFileRestrict = restrict_lookup kRestrictList r kFileMgrRestrictReadBinary\<rparr>"
    using assms by (auto simp: FileStream_new_def bindF_eq_Inr split: option.splits)
  show ?thesis
    by (cases r) (simp_all add: F restrict_of nefs_mgr.stream_read_none may_read_def may_write_def FileStream_Write_def)
qed

theorem FileStream_modes_witness:
  "\<exists>F. FileStream_new (Some (NeFileSystemMgr_ops demo_conf)) None (ascii ''rw'') demo_fs = Inr (F, demo_fs) \<and>
    may_read F \<and> \<not> may_write F"
proof -
  have r: "ascii ''rw'' = [114, 119]" unfolding ascii_def by code_simp
  show ?thesis
    using FileStream_modes [OF nefs_mgr.stream_open_null [of demo_conf "ascii ''rw''" demo_fs], of demo_conf "[]" 0 demo_fs None 0]
    by (simp add: nefs_mgr.stream_open_null r may_write_def may_read_def)
qed

end
