(* ===== verification/PEFLoad.thy ===== *)
theory PEFLoad
  imports FileMgr
begin

text \<open>
  The PEF loader: \<^verbatim>\<open>PEFCodeMgr.cc\<close> over the structures of \<^verbatim>\<open>KernelKit/PEF.h\<close>.

  The blob is the list of bytes the pointer leads to. The loader's file is a stream on the mounted file
  system, none for a loader made from a blob. The two symbols the loader reads numbers from are lists of
  bytes too. The path string the loader keeps for printing is left out.
\<close>

subsection \<open>The structures\<close>

definition kPefMagic :: "u8 list" where "kPefMagic = [74, 111, 121, 33, 0]"
definition kPefNameLen :: nat where "kPefNameLen = 255"
definition kPefAbi :: u32 where "kPefAbi = 0x5046"
definition kPefStart :: "u8 list" where "kPefStart = ascii ''__ImageStart''"
definition kPefStackSizeSymbol :: "u8 list" where "kPefStackSizeSymbol = ascii ''__PEFSizeOfReserveStack''"
definition kPefHeapSizeSymbol :: "u8 list" where "kPefHeapSizeSymbol = ascii ''__PEFSizeOfReserveHeap''"
definition kPefNameSymbol :: "u8 list" where "kPefNameSymbol = ascii ''__PEFProgramName''"

abbreviation kPefArchAMD64 :: u32 where "kPefArchAMD64 \<equiv> 1"
abbreviation kPefCode :: int where "kPefCode \<equiv> 0xC"
abbreviation kPefData :: int where "kPefData \<equiv> 0xD"
abbreviation kPefZero :: int where "kPefZero \<equiv> 0xE"

definition ldr_get_platform :: u32 where
  "ldr_get_platform = kPefArchAMD64"

record PEFContainer =
  pef_Magic :: "u8 list"
  pef_Linker :: u32
  pef_Version :: u32
  pef_Kind :: u32
  pef_Abi :: u32
  pef_Cpu :: u32
  pef_SubCpu :: u32
  pef_Start :: u64
  pef_HdrSz :: u64
  pef_Count :: u64

definition sizeof_PEFContainer :: nat where
  "sizeof_PEFContainer = 5 + 6 * 4 + 3 * 8"

definition dec_container :: "u8 list \<Rightarrow> PEFContainer" where
  "dec_container b =
     \<lparr>pef_Magic = slice 0 5 b, pef_Linker = dec32 (slice 5 4 b), pef_Version = dec32 (slice 9 4 b),
      pef_Kind = dec32 (slice 13 4 b), pef_Abi = dec32 (slice 17 4 b), pef_Cpu = dec32 (slice 21 4 b),
      pef_SubCpu = dec32 (slice 25 4 b), pef_Start = dec64 (slice 29 8 b), pef_HdrSz = dec64 (slice 37 8 b),
      pef_Count = dec64 (slice 45 8 b)\<rparr>"

record PEFCommandHeader =
  cmd_Name :: "u8 list"
  cmd_Cpu :: u32
  cmd_SubCpu :: u32
  cmd_Flags :: u32
  cmd_Kind :: u16
  cmd_Offset :: u64
  cmd_Size :: u64

definition sizeof_PEFCommandHeader :: nat where
  "sizeof_PEFCommandHeader = 255 + 3 * 4 + 2 + 2 * 8"

definition dec_command :: "u8 list \<Rightarrow> PEFCommandHeader" where
  "dec_command b =
     \<lparr>cmd_Name = slice 0 255 b, cmd_Cpu = dec32 (slice 255 4 b), cmd_SubCpu = dec32 (slice 259 4 b),
      cmd_Flags = dec32 (slice 263 4 b), cmd_Kind = dec16 (slice 267 2 b), cmd_Offset = dec64 (slice 269 8 b),
      cmd_Size = dec64 (slice 277 8 b)\<rparr>"

subsection \<open>The loader\<close>

record PEFLoader =
  fFileS :: "FileStream option"
  fCachedBlob :: "u8 list option"
  fFatBinary :: bool
  fBad :: bool

text \<open>The constructor from a blob leaves the fat-binary flag as it finds it.\<close>

definition PEFLoader_new_blob :: "bool \<Rightarrow> bool \<Rightarrow> u8 list option \<Rightarrow> fault + PEFLoader" where
  "PEFLoader_new_blob dbg junk blob =
     bindF (must_pass dbg (blob \<noteq> None)) (\<lambda>_.
       Inr \<lparr>fFileS = None, fCachedBlob = blob, fFatBinary = junk, fBad = False\<rparr>)"

definition native_magic :: "PEFContainer \<Rightarrow> bool" where
  "native_magic k \<longleftrightarrow> pef_Cpu k = ldr_get_platform \<and> pef_Magic k = kPefMagic \<and> pef_Abi k = kPefAbi"

definition fat_magic :: "PEFContainer \<Rightarrow> bool" where
  "fat_magic k \<longleftrightarrow> rev (pef_Magic k) = kPefMagic \<and> pef_Abi k = kPefAbi"

definition PEFLoader_new_path ::
  "'s IFilesystemMgr option \<Rightarrow> u8 list option \<Rightarrow> 's \<Rightarrow> fault + (PEFLoader \<times> 's)" where
  "PEFLoader_new_path vfs path s =
     bindF (FileStream_new vfs path (ascii ''rb'') s) (\<lambda>(F, s1).
     bindF (FileStream_Read vfs F (ascii ''PEF_CONTAINER'') (16 * 1024 * 1024) s1) (\<lambda>(r, s2).
       case r of
         None \<Rightarrow> Inl NullDeref
       | Some fork \<Rightarrow>
           let blob = enc_fork fork; container = dec_container blob in
           if native_magic container then
             Inr (\<lparr>fFileS = Some F, fCachedBlob = Some blob, fFatBinary = False, fBad = False\<rparr>, s2)
           else if fat_magic container then
             Inr (\<lparr>fFileS = Some F, fCachedBlob = Some blob, fFatBinary = True, fBad = False\<rparr>, s2)
           else Inr (\<lparr>fFileS = Some F, fCachedBlob = None, fFatBinary = False, fBad = True\<rparr>, s2)))"

definition IsLoaded :: "PEFLoader \<Rightarrow> bool" where
  "IsLoaded L \<longleftrightarrow> \<not> fBad L \<and> fCachedBlob L \<noteq> None"

definition GetBlob :: "PEFLoader \<Rightarrow> u8 list option" where
  "GetBlob L = fCachedBlob L"

definition container_kind :: "int \<Rightarrow> u8 list option" where
  "container_kind kind =
     (if kind = kPefCode then Some (ascii ''.code64'') else if kind = kPefData then Some (ascii ''.data64'')
      else if kind = kPefZero then Some (ascii ''.zero64'') else None)"

text \<open>
  The blanks of the first \<^verbatim>\<open>kPefNameLen\<close> characters of the name are mangled in place; the
  length is the bounded one, which does not look at the first character. An empty name is not modelled.
\<close>

definition mangle :: "u8 list \<Rightarrow> u8 list" where
  "mangle name = map (\<lambda>ch. if ch = 32 then 36 else ch) (take kPefNameLen name) @ drop kPefNameLen name"

text \<open>The loop looks at the same header again and again: the pointer to it is never advanced.\<close>

fun find_command ::
  "nat \<Rightarrow> bool \<Rightarrow> u8 list \<Rightarrow> int \<Rightarrow> u8 list option \<Rightarrow> fault + u8 list option" where
  "find_command 0 fat symbol kind blob = Inr None"
| "find_command (Suc left) fat symbol kind blob =
     (case blob of
        None \<Rightarrow> Inl NullDeref
      | Some b \<Rightarrow>
          let header = dec_command b in
          if cstr b = symbol \<and> uint (cmd_Kind header) = kind then
            (if cmd_Cpu header \<noteq> ldr_get_platform \<and> \<not> fat then Inr None
             else if sizeof_PEFCommandHeader + unat (cmd_Size header) \<le> length b
             then Inr (Some (slice sizeof_PEFCommandHeader (unat (cmd_Size header)) b))
             else Inl OutOfBounds)
          else find_command left fat symbol kind blob)"

definition FindSymbol ::
  "'s IFilesystemMgr option \<Rightarrow> PEFLoader \<Rightarrow> u8 list option \<Rightarrow> int \<Rightarrow> 's \<Rightarrow> fault + (u8 list option \<times> 's)" where
  "FindSymbol vfs L name kind s =
     (case (fCachedBlob L, name) of
        (Some cached, Some nm) \<Rightarrow>
          if fBad L then Inr (None, s)
          else (case fFileS L of
            None \<Rightarrow> Inl NullDeref
          | Some F \<Rightarrow>
              bindF (FileStream_Read vfs F nm (16 * 1024 * 1024) s) (\<lambda>(r, s1).
                case container_kind kind of
                  None \<Rightarrow> Inr (None, s1)
                | Some prefix \<Rightarrow>
                    bindF (find_command (unat (pef_Count (dec_container cached))) (fFatBinary L)
                             (prefix @ mangle nm) kind (map_option enc_fork r)) (\<lambda>symb. Inr (symb, s1))))
      | _ \<Rightarrow> Inr (None, s))"

definition FindStart ::
  "'s IFilesystemMgr option \<Rightarrow> PEFLoader \<Rightarrow> 's \<Rightarrow> fault + ((u32 + u8 list) \<times> 's)" where
  "FindStart vfs L s =
     bindF (FindSymbol vfs L (Some kPefStart) kPefCode s) (\<lambda>(symb, s1).
       case symb of Some p \<Rightarrow> Inr (Inr p, s1) | None \<Rightarrow> Inr (Inl kErrorExecutable, s1))"

subsection \<open>Creating a process\<close>

text \<open>
  The scheduler's state and the file system's side by side. The symbols the loader returns are blocks of
  kernel memory; \<open>place\<close> gives their addresses. The id the scheduler gives is compared with -1 and
  then used as an index.
\<close>

definition symbol_word :: "u8 list option \<Rightarrow> fault + u64" where
  "symbol_word symb =
     (case symb of None \<Rightarrow> Inl NullDeref
      | Some b \<Rightarrow> if length b < 8 then Inl OutOfBounds else Inr (dec64 (take 8 b)))"

definition rtl_create_process ::
  "sconf \<Rightarrow> 's IFilesystemMgr option \<Rightarrow> (u8 list option \<Rightarrow> nat) \<Rightarrow> PEFLoader \<Rightarrow> u32 \<Rightarrow> kstate \<Rightarrow> 's \<Rightarrow>
   fault + (int \<times> kstate \<times> 's)" where
  "rtl_create_process c vfs place L process_kind ks s =
     bindF (FindStart vfs L s) (\<lambda>(start, s1).
       case start of
         Inl e \<Rightarrow> Inr (kProcessInvalidID, ks, s1)
       | Inr p \<Rightarrow>
           bindF (FindSymbol vfs L (Some kPefNameSymbol) kPefData s1) (\<lambda>(nm, s2).
           bindF (UserProcessScheduler_Spawn c (place nm) (place (Some p)) (place (GetBlob L)) ks) (\<lambda>(pid, ks1).
             if pid = kProcessInvalidID then Inr (pid, ks1, s2)
             else if pid < 0 \<or> nat pid \<ge> length (mProcessList (mTeam ks1)) then Inl OutOfBounds
             else let i = nat pid; ks2 = put_slot i ((slot i ks1)\<lparr>Kind := process_kind\<rparr>) ks1 in
               bindF (FindSymbol vfs L (Some kPefStackSizeSymbol) kPefData s2) (\<lambda>(a, s3).
               bindF (symbol_word a) (\<lambda>stack.
               let ks3 = put_slot i ((slot i ks2)\<lparr>StackSize := stack\<rparr>) ks2 in
               bindF (FindSymbol vfs L (Some kPefHeapSizeSymbol) kPefData s3) (\<lambda>(b, s4).
               bindF (symbol_word b) (\<lambda>limit.
                 Inr (pid, put_slot i ((slot i ks3)\<lparr>MemoryLimit := limit\<rparr>) ks3, s4))))))))"

subsection \<open>Lemmas\<close>

context filesystem_mgr
begin

lemma loader_needs_blob: "\<exists>e. PEFLoader_new_path (Some M) path s = Inl e"
  by (cases "FileStream_new (Some M) path (ascii ''rb'') s")
    (auto simp: PEFLoader_new_path_def stream_read_none)

end

lemma FindSymbol_no_file: "FindSymbol vfs \<lparr>fFileS = None, fCachedBlob = Some b, fFatBinary = fat, fBad = False\<rparr>
    (Some name) kind s = Inl NullDeref"
  by (simp add: FindSymbol_def)

subsection \<open>Properties\<close>


end
