(* ===== verification/HalPaging.thy ===== *)
theory HalPaging
  imports BitMapMgr
begin

text \<open>
  The page manager of the AMD64 HAL: \<^verbatim>\<open>HALKit/AMD64/HalPagingMgrAMD64.cc\<close>.

  The state is physical memory, the CR3 register, the static page store and the addresses given to
  \<^verbatim>\<open>invlpg\<close>. Addresses are 64-bit words with wrapping arithmetic. The heap's model only
  records the calls of \<^verbatim>\<open>mm_map_page\<close>; here is what a call does, \<open>hal_map_page\<close>.
\<close>

subsection \<open>State\<close>

record OPENNE_PAGE_STORE =
  fPde :: u64
  fPte :: u64
  fVAddr :: u64
  fStoreOp :: bool

record hal_pages =
  pmem :: mem
  cr3_reg :: u64
  page_store :: OPENNE_PAGE_STORE
  tlb_log :: "u64 list"

definition page_store_boot :: OPENNE_PAGE_STORE where
  "page_store_boot = \<lparr>fPde = 0, fPte = 0, fVAddr = 0, fStoreOp = False\<rparr>"

text \<open>The bits of a page table entry, \<^verbatim>\<open>OPENNE_PTE\<close>.\<close>

definition pte_Present :: nat where "pte_Present = 0"
definition pte_Wr :: nat where "pte_Wr = 1"
definition pte_User :: nat where "pte_User = 2"
definition pte_ExecDisable :: nat where "pte_ExecDisable = 1 + 1 + 1 + 1 + 1 + 1 + 1 + 1 + 1 + 3 + 36 + 10 + 5"

definition kMMFlagsNX :: u32 where "kMMFlagsNX = 8"

definition put_flag :: "nat \<Rightarrow> bool \<Rightarrow> u64 \<Rightarrow> u64" where
  "put_flag n b w = (if b then set_bit n w else unset_bit n w)"

definition IsValidPage :: "mem \<Rightarrow> u64 \<Rightarrow> bool" where
  "IsValidPage m pte \<longleftrightarrow> pte \<noteq> 0 \<and> bit (load64 (unat pte) m) pte_Present"

definition IsWRPage :: "mem \<Rightarrow> u64 \<Rightarrow> bool" where
  "IsWRPage m pte \<longleftrightarrow> pte \<noteq> 0 \<and> bit (load64 (unat pte) m) pte_Wr"

definition IsUserPage :: "mem \<Rightarrow> u64 \<Rightarrow> bool" where
  "IsUserPage m pte \<longleftrightarrow> pte \<noteq> 0 \<and> bit (load64 (unat pte) m) pte_User"

subsection \<open>Operations\<close>

text \<open>Each flag is set when its bit is in the flags, cleared when another one is, and left otherwise.\<close>

definition map_flag :: "u32 \<Rightarrow> u32 \<Rightarrow> nat \<Rightarrow> u64 \<Rightarrow> u64" where
  "map_flag flags f n w =
     (if flags AND f \<noteq> 0 then put_flag n True w
      else if flags AND NOT f \<noteq> 0 then put_flag n False w
      else w)"

definition pte_update :: "u32 \<Rightarrow> u64 \<Rightarrow> u64" where
  "pte_update flags w =
     (let w1 = put_flag pte_Present True w;
          w2 = map_flag flags kMMFlagsWr pte_Wr w1;
          w3 = map_flag flags kMMFlagsNX pte_ExecDisable w2
      in map_flag flags kMMFlagsUser pte_User w3)"

definition mmi_map_page_table_entry :: "u64 \<Rightarrow> u32 \<Rightarrow> u64 \<Rightarrow> u64 \<Rightarrow> hal_pages \<Rightarrow> u32 \<times> hal_pages" where
  "mmi_map_page_table_entry virtual_address flags pt_entry pd_entry s =
     (if pt_entry = 0 then (1, s)
      else (0, s\<lparr>pmem := store64 (unat pt_entry) (pte_update flags (load64 (unat pt_entry) (pmem s))) (pmem s),
                 tlb_log := pt_entry # tlb_log s,
                 page_store := \<lparr>fPde = pd_entry, fPte = pt_entry, fVAddr = virtual_address, fStoreOp = False\<rparr>\<rparr>))"

definition cPmlIndexMask :: u64 where "cPmlIndexMask = 0x1FF"
definition cPtIndexMask :: u64 where "cPtIndexMask = 0xFFF"
definition cPmlEntrySize :: u64 where "cPmlEntrySize = 8"

text \<open>The four levels as the code computes them: the page directory and the index into it.\<close>

definition pt_walk :: "u64 \<Rightarrow> u64 \<Rightarrow> u64 \<times> u64" where
  "pt_walk cr3v va =
     (let pml4_index = drop_bit 39 va AND cPmlIndexMask; pdpt_index = drop_bit 30 va AND cPmlIndexMask;
          pd_index = drop_bit 21 va AND cPmlIndexMask; pt_index = drop_bit 12 va AND cPmlIndexMask;
          pml4_base = cr3v AND NOT cPtIndexMask; pml4_entry = pml4_base + pml4_index * cPmlEntrySize;
          pdpt_base = pml4_entry AND NOT cPtIndexMask; pdpt_entry = pdpt_base + pdpt_index * cPmlEntrySize;
          pd_base = pdpt_entry AND NOT cPtIndexMask; pd_entry = pd_base + pd_index * cPmlEntrySize;
          pt_base = pd_entry AND NOT cPtIndexMask; pt_entry = pt_base + pt_index * cPmlEntrySize
      in (pt_base, pt_entry))"

text \<open>The element of the array of pointers at the directory: 8 bytes at base plus 8 times the index.\<close>

definition pde_entry :: "mem \<Rightarrow> u64 \<Rightarrow> u64 \<Rightarrow> u64" where
  "pde_entry m base index = load64 (unat (base + 8 * index)) m"

definition hal_map_page :: "u64 \<Rightarrow> u32 \<Rightarrow> hal_pages \<Rightarrow> u32 \<times> hal_pages" where
  "hal_map_page virtual_address flags s =
     (if virtual_address = 0 \<or> flags = 0 then (0, s)
      else let st = (page_store s)\<lparr>fStoreOp := True\<rparr> in
        if fVAddr st = virtual_address then
          mmi_map_page_table_entry (fVAddr st) flags (fPte st) (fPde st)
            (s\<lparr>page_store := st\<lparr>fStoreOp := False\<rparr>\<rparr>)
        else case pt_walk (cr3_reg s) virtual_address of (pt_base, pt_entry) \<Rightarrow>
          mmi_map_page_table_entry virtual_address flags (pde_entry (pmem s) pt_base pt_entry) pt_base
            (s\<lparr>page_store := st\<rparr>))"

subsection \<open>Lemmas\<close>

lemma index_small: "(z AND cPmlIndexMask) * cPmlEntrySize AND NOT cPtIndexMask = 0"
proof -
  let ?y = "(z AND cPmlIndexMask) * cPmlEntrySize"
  have "z AND cPmlIndexMask = take_bit 9 z"
    by (simp add: cPmlIndexMask_def take_bit_eq_mask mask_eq_exp_minus_1)
  then have "unat (z AND cPmlIndexMask) < 512"
    by (simp add: unsigned_take_bit_eq take_bit_eq_mod unat_mod)
  then have "unat ?y < 4096"
    by (simp add: cPmlEntrySize_def unat_word_ariths)
  then have "take_bit 12 ?y = ?y"
    by (intro unsigned_word_eqI [where ?'a = nat]) (simp add: unsigned_take_bit_eq take_bit_eq_mod unat_mod)
  then have "?y = ?y AND cPtIndexMask"
    by (simp add: cPtIndexMask_def take_bit_eq_mask mask_eq_exp_minus_1)
  then have "?y AND NOT cPtIndexMask = (?y AND cPtIndexMask) AND NOT cPtIndexMask" by simp
  then show ?thesis by (simp add: and.assoc)
qed

lemma base_index:
  "y AND NOT cPtIndexMask = 0 \<Longrightarrow>
   ((x AND NOT cPtIndexMask) + y) AND NOT cPtIndexMask = x AND NOT cPtIndexMask"
proof -
  assume y: "y AND NOT cPtIndexMask = 0"
  then have "(x AND NOT cPtIndexMask) AND y = 0"
    by (simp add: and.assoc and.commute [of "NOT cPtIndexMask" y])
  then have "(x AND NOT cPtIndexMask) + y = (x AND NOT cPtIndexMask) OR y"
    by (rule disjunctive_add_eq_or)
  then show ?thesis by (simp add: bit.conj_disj_distrib2 y and.assoc)
qed

lemma pt_walk_collapses:
  "pt_walk cr3v va =
    (cr3v AND NOT cPtIndexMask,
     (cr3v AND NOT cPtIndexMask) + (drop_bit 12 va AND cPmlIndexMask) * cPmlEntrySize)"
  by (simp add: pt_walk_def Let_def base_index index_small)

lemma map_flag_nonzero: "flags \<noteq> 0 \<Longrightarrow> map_flag flags f n w = put_flag n (flags AND f \<noteq> 0) w"
proof -
  assume nz: "flags \<noteq> 0"
  have "flags = (flags AND f) OR (flags AND NOT f)"
    by (simp add: bit.conj_disj_distrib [symmetric])
  with nz have "flags AND f = 0 \<Longrightarrow> flags AND NOT f \<noteq> 0" by auto
  then show ?thesis by (simp add: map_flag_def)
qed

lemma bit_put_flag: "n < 64 \<Longrightarrow> bit (put_flag n b w) i = (if i = n then b else bit w i)"
  by (auto simp: put_flag_def bit_set_bit_iff bit_unset_bit_iff)

text \<open>With any flag at all, the four bits are those of the flags and the others are left alone.\<close>

lemma bit_pte_update:
  "flags \<noteq> 0 \<Longrightarrow> bit (pte_update flags w) i =
    (if i = pte_User then flags AND kMMFlagsUser \<noteq> 0
     else if i = pte_ExecDisable then flags AND kMMFlagsNX \<noteq> 0
     else if i = pte_Wr then flags AND kMMFlagsWr \<noteq> 0
     else if i = pte_Present then True else bit w i)"
  by (simp add: pte_update_def Let_def map_flag_nonzero bit_put_flag pte_User_def pte_ExecDisable_def
      pte_Wr_def pte_Present_def)

subsection \<open>Properties\<close>

text \<open>
  C13. Mapping a page reads no page table above the last level: all four levels come out as the page
  CR3 points to, so only bits 12 to 20 of the address decide which entry is changed, and addresses that
  agree in them share one. The entry is the pointer found at that page plus eight times its own address
  (not index): a null one gives 1 and changes nothing but the store's busy flag; any other gets the
  present, writable, user and no-execute bits of the flags, all its other bits kept, and is what the
  page store remembers.
\<close>

theorem map_page_uses_low_index_only:
  assumes "va \<noteq> 0" and "flags \<noteq> 0" and "fVAddr (page_store s) \<noteq> va"
  defines "base \<equiv> cr3_reg s AND NOT 0xFFF" and "idx \<equiv> drop_bit 12 va AND 0x1FF"
  defines "e \<equiv> load64 (unat (base + 8 * (base + idx * 8))) (pmem s)"
  shows "if e = 0 then
      hal_map_page va flags s = (1, s\<lparr>page_store := (page_store s)\<lparr>fStoreOp := True\<rparr>\<rparr>)
    else \<exists>s'. hal_map_page va flags s = (0, s') \<and>
      (\<forall>i. bit (load64 (unat e) (pmem s')) i =
         (if i = pte_User then flags AND kMMFlagsUser \<noteq> 0
          else if i = pte_ExecDisable then flags AND kMMFlagsNX \<noteq> 0
          else if i = pte_Wr then flags AND kMMFlagsWr \<noteq> 0
          else if i = pte_Present then True else bit (load64 (unat e) (pmem s)) i)) \<and>
      (\<forall>a. a < unat e \<or> unat e + 8 \<le> a \<longrightarrow> pmem s' a = pmem s a) \<and>
      page_store s' = \<lparr>fPde = base, fPte = e, fVAddr = va, fStoreOp = False\<rparr>"
  using assms(1-3) unfolding e_def idx_def base_def
  by (simp add: hal_map_page_def pt_walk_collapses Let_def mmi_map_page_table_entry_def pde_entry_def
      cPtIndexMask_def cPmlIndexMask_def cPmlEntrySize_def bit_pte_update store64_outside)

theorem map_page_uses_low_index_only_witness:
  "\<exists>s'. hal_map_page 0x201000 3 \<lparr>pmem = store64 0x9040 0x5000 (\<lambda>_. 0), cr3_reg = 0x1000,
      page_store = page_store_boot, tlb_log = []\<rparr> = (0, s') \<and> page_store s' =
    \<lparr>fPde = 0x1000, fPte = 0x5000, fVAddr = 0x201000, fStoreOp = False\<rparr>"
  using map_page_uses_low_index_only [of "0x201000" 3 "\<lparr>pmem = store64 0x9040 0x5000 (\<lambda>_. 0), cr3_reg = 0x1000,
      page_store = page_store_boot, tlb_log = []\<rparr>"]
  by (auto simp: page_store_boot_def)

end
