(* ===== verification/AtaPio.thy ===== *)
theory AtaPio
  imports DriveMgr
begin

text \<open>
  The ATA driver in PIO mode: \<^verbatim>\<open>HALKit/AMD64/Storage/ATA.cc\<close>, at the level of port accesses.

  The disk is hardware: what it answers is a stream. \<open>in8s\<close> gives the answer to the n-th read of a
  byte port and \<open>in16s\<close> the n-th word of the data port, so every device is covered; what the driver
  writes to the ports is logged, bytes and words alike. Loops that wait for the device have fuel.
\<close>

subsection \<open>Ports\<close>

record ata_bus =
  in8s :: "u16 \<Rightarrow> nat \<Rightarrow> u8"
  in8_count :: nat
  in16s :: "nat \<Rightarrow> u16"
  in16_count :: nat
  out_log :: "(u16 \<times> u16) list"
  kATADetected :: bool
  kATAData :: "u8 list"

definition rt_in8 :: "u16 \<Rightarrow> ata_bus \<Rightarrow> u8 \<times> ata_bus" where
  "rt_in8 port s = (in8s s port (in8_count s), s\<lparr>in8_count := Suc (in8_count s)\<rparr>)"

definition rt_in16 :: "u16 \<Rightarrow> ata_bus \<Rightarrow> u16 \<times> ata_bus" where
  "rt_in16 port s = (in16s s (in16_count s), s\<lparr>in16_count := Suc (in16_count s)\<rparr>)"

definition rt_out :: "u16 \<Rightarrow> u16 \<Rightarrow> ata_bus \<Rightarrow> ata_bus" where
  "rt_out port v s = s\<lparr>out_log := out_log s @ [(port, v)]\<rparr>"

definition rt_out8 :: "u16 \<Rightarrow> u8 \<Rightarrow> ata_bus \<Rightarrow> ata_bus" where
  "rt_out8 port v s = rt_out port (ucast v) s"

definition ATA_SR_BSY :: u8 where "ATA_SR_BSY = 0x80"
definition ATA_SR_DRDY :: u8 where "ATA_SR_DRDY = 0x40"
definition ATA_SR_ERR :: u8 where "ATA_SR_ERR = 0x01"

abbreviation ATA_REG_DATA :: u16 where "ATA_REG_DATA \<equiv> 0x00"
abbreviation ATA_REG_NEIN :: u16 where "ATA_REG_NEIN \<equiv> 0x01"
abbreviation ATA_REG_SEC_COUNT0 :: u16 where "ATA_REG_SEC_COUNT0 \<equiv> 0x02"
abbreviation ATA_REG_LBA0 :: u16 where "ATA_REG_LBA0 \<equiv> 0x03"
abbreviation ATA_REG_LBA1 :: u16 where "ATA_REG_LBA1 \<equiv> 0x04"
abbreviation ATA_REG_LBA2 :: u16 where "ATA_REG_LBA2 \<equiv> 0x05"
abbreviation ATA_REG_HDDEVSEL :: u16 where "ATA_REG_HDDEVSEL \<equiv> 0x06"
abbreviation ATA_REG_COMMAND :: u16 where "ATA_REG_COMMAND \<equiv> 0x07"
abbreviation ATA_REG_STATUS :: u16 where "ATA_REG_STATUS \<equiv> 0x07"
abbreviation ATA_REG_LBA3 :: u16 where "ATA_REG_LBA3 \<equiv> 0x09"

abbreviation ATA_CMD_READ_PIO :: u8 where "ATA_CMD_READ_PIO \<equiv> 0x20"
abbreviation ATA_CMD_WRITE_PIO :: u8 where "ATA_CMD_WRITE_PIO \<equiv> 0x30"
abbreviation ATA_CMD_IDENTIFY :: u8 where "ATA_CMD_IDENTIFY \<equiv> 0xEC"

abbreviation ATA_MASTER :: u8 where "ATA_MASTER \<equiv> 0"
abbreviation ATA_SLAVE :: u8 where "ATA_SLAVE \<equiv> 1"
abbreviation ATA_PRIMARY_SEL :: u8 where "ATA_PRIMARY_SEL \<equiv> 0xA0"
abbreviation ATA_SECONDARY_SEL :: u8 where "ATA_SECONDARY_SEL \<equiv> 0xB0"

definition kATADataLen :: nat where "kATADataLen = 256"

subsection \<open>Waiting\<close>

fun wait_busy :: "nat \<Rightarrow> u16 \<Rightarrow> ata_bus \<Rightarrow> fault + ata_bus" where
  "wait_busy 0 IO s = Inl OutOfFuel"
| "wait_busy (Suc fuel) IO s =
     (case rt_in8 (IO + ATA_REG_STATUS) s of (stat, s1) \<Rightarrow>
        if stat AND ATA_SR_BSY \<noteq> 0 then wait_busy fuel IO s1 else Inr s1)"

fun wait_ready :: "nat \<Rightarrow> u16 \<Rightarrow> ata_bus \<Rightarrow> fault + (bool \<times> ata_bus)" where
  "wait_ready 0 IO s = Inl OutOfFuel"
| "wait_ready (Suc fuel) IO s =
     (case rt_in8 (IO + ATA_REG_STATUS) s of (stat, s1) \<Rightarrow>
        if stat AND ATA_SR_ERR \<noteq> 0 then Inr (False, s1)
        else if stat AND ATA_SR_DRDY = 0 then wait_ready fuel IO s1
        else Inr (True, s1))"

definition drv_std_wait_io :: "nat \<Rightarrow> u16 \<Rightarrow> ata_bus \<Rightarrow> fault + (bool \<times> ata_bus)" where
  "drv_std_wait_io fuel IO s =
     (let s1 = ((\<lambda>t. snd (rt_in8 (IO + ATA_REG_STATUS) t)) ^^ 400) s
      in bindF (wait_busy fuel IO s1) (wait_ready fuel IO))"

text \<open>The callers drop the answer.\<close>

definition wait_io :: "nat \<Rightarrow> u16 \<Rightarrow> ata_bus \<Rightarrow> fault + ata_bus" where
  "wait_io fuel IO s = bindF (drv_std_wait_io fuel IO s) (\<lambda>(ok, s1). Inr s1)"

definition drv_std_select :: "u16 \<Rightarrow> ata_bus \<Rightarrow> ata_bus" where
  "drv_std_select Bus s =
     (if Bus = ATA_PRIMARY_IO then rt_out8 (Bus + ATA_REG_HDDEVSEL) ATA_PRIMARY_SEL s
      else rt_out8 (Bus + ATA_REG_HDDEVSEL) ATA_SECONDARY_SEL s)"

definition drv_std_detected :: "ata_bus \<Rightarrow> bool" where
  "drv_std_detected s = kATADetected s"

fun init_retry :: "nat \<Rightarrow> u16 \<Rightarrow> ata_bus \<Rightarrow> fault + (bool \<times> ata_bus)" where
  "init_retry 0 IO s = Inl OutOfFuel"
| "init_retry (Suc fuel) IO s =
     (case rt_in8 (IO + ATA_REG_STATUS) s of (stat, s1) \<Rightarrow>
        if stat AND ATA_SR_ERR \<noteq> 0 then Inr (False, s1)
        else if stat AND ATA_SR_BSY \<noteq> 0 then init_retry fuel IO s1
        else Inr (True, s1))"

fun identify_loop :: "u16 \<Rightarrow> nat \<Rightarrow> nat \<Rightarrow> ata_bus \<Rightarrow> ata_bus" where
  "identify_loop IO indexData 0 s = s"
| "identify_loop IO indexData (Suc left) s =
     (case rt_in16 (IO + ATA_REG_DATA) s of (v, s1) \<Rightarrow>
        identify_loop IO (Suc indexData) left (s1\<lparr>kATAData := (kATAData s1)[indexData := ucast v]\<rparr>))"

text \<open>The two output parameters are in the result, there when the initialisation succeeds past detection.\<close>

definition ata_std_init :: "nat \<Rightarrow> u16 \<Rightarrow> ata_bus \<Rightarrow> fault + (bool \<times> (u16 \<times> u8) option \<times> ata_bus)" where
  "ata_std_init fuel Bus s =
     (if drv_std_detected s then Inr (True, None, s)
      else let s1 = rt_out8 (Bus + ATA_REG_NEIN) 1 (drv_std_select Bus s) in
        bindF (init_retry fuel Bus s1) (\<lambda>(ok, s2).
          if \<not> ok then Inr (False, None, s2)
          else bindF (wait_io fuel Bus (rt_out8 (Bus + ATA_REG_COMMAND) ATA_CMD_IDENTIFY s2)) (\<lambda>s3.
            Inr (True, Some (if Bus = ATA_PRIMARY_IO then ATA_PRIMARY_IO else ATA_SECONDARY_IO,
                             if Bus = ATA_PRIMARY_IO then ATA_MASTER else ATA_SLAVE),
                 identify_loop Bus 0 kATADataLen s3))))"

subsection \<open>Transfers\<close>

text \<open>The registers for a transfer of a size at an address, after the division by the sector size.\<close>

definition setup_transfer :: "u64 \<Rightarrow> u16 \<Rightarrow> u8 \<Rightarrow> u64 \<Rightarrow> u64 \<Rightarrow> u8 \<Rightarrow> ata_bus \<Rightarrow> ata_bus" where
  "setup_transfer Lba IO Master SectorSz Size' cmd s =
     (let Command = (if Master = 0 then 0xE0 else 0xF0);
          s1 = rt_out8 (IO + ATA_REG_HDDEVSEL) (Command OR ucast (drop_bit 24 Lba AND 0x0F)) s;
          s2 = rt_out8 (IO + ATA_REG_SEC_COUNT0) (ucast ((Size' + SectorSz) div SectorSz)) s1;
          s3 = rt_out8 (IO + ATA_REG_LBA0) (ucast (Lba AND 0xFF)) s2;
          s4 = rt_out8 (IO + ATA_REG_LBA1) (ucast (drop_bit 8 Lba)) s3;
          s5 = rt_out8 (IO + ATA_REG_LBA2) (ucast (drop_bit 16 Lba)) s4;
          s6 = rt_out8 (IO + ATA_REG_LBA3) (ucast (drop_bit 24 Lba)) s5
      in rt_out8 (IO + ATA_REG_COMMAND) cmd s6)"

fun read_words :: "nat \<Rightarrow> u16 \<Rightarrow> nat \<Rightarrow> u8 list \<Rightarrow> ata_bus \<Rightarrow> fault + (u8 list \<times> ata_bus)" where
  "read_words fuel IO 0 acc s = Inr (acc, s)"
| "read_words fuel IO (Suc left) acc s =
     bindF (wait_io fuel IO s) (\<lambda>s1.
     case rt_in16 (IO + ATA_REG_DATA) s1 of (v, s2) \<Rightarrow>
     bindF (wait_io fuel IO s2) (\<lambda>s3. read_words fuel IO left (acc @ [ucast v]) s3))"

definition ata_std_read ::
  "nat \<Rightarrow> u64 \<Rightarrow> u16 \<Rightarrow> u8 \<Rightarrow> u64 \<Rightarrow> nat \<Rightarrow> ata_bus \<Rightarrow> fault + (u8 list \<times> ata_bus)" where
  "ata_std_read fuel Lba IO Master SectorSz sz s =
     (if SectorSz = 0 then Inl DivByZero
      else bindF (wait_io fuel IO s) (\<lambda>s1.
        let s2 = setup_transfer (Lba div SectorSz) IO Master SectorSz (of_nat sz) ATA_CMD_READ_PIO
                   (drv_std_select IO s1) in
        bindF (wait_io fuel IO s2) (read_words fuel IO sz [])))"

text \<open>A character is signed, so the word sent for it is its sign extension.\<close>

fun write_words :: "nat \<Rightarrow> u16 \<Rightarrow> u8 list \<Rightarrow> ata_bus \<Rightarrow> fault + ata_bus" where
  "write_words fuel IO [] s = Inr s"
| "write_words fuel IO (b # bs) s =
     bindF (wait_io fuel IO s) (\<lambda>s1.
     bindF (wait_io fuel IO (rt_out (IO + ATA_REG_DATA) (scast b) s1)) (write_words fuel IO bs))"

definition ata_std_write ::
  "nat \<Rightarrow> u64 \<Rightarrow> u16 \<Rightarrow> u8 \<Rightarrow> u8 list \<Rightarrow> u64 \<Rightarrow> ata_bus \<Rightarrow> fault + ata_bus" where
  "ata_std_write fuel Lba IO Master Buf SectorSz s =
     (if SectorSz = 0 then Inl DivByZero
      else bindF (wait_io fuel IO s) (\<lambda>s1.
        let s2 = setup_transfer (Lba div SectorSz) IO Master SectorSz (of_nat (length Buf)) ATA_CMD_WRITE_PIO
                   (drv_std_select IO s1) in
        bindF (wait_io fuel IO s2) (\<lambda>s3.
        bindF (write_words fuel IO Buf s3) (wait_io fuel IO))))"

text \<open>The capacity, from two characters of the identification (not words), sign extended.\<close>

definition drv_get_sector_count :: "ata_bus \<Rightarrow> u64" where
  "drv_get_sector_count s =
     scast ((push_bit 16 (scast (kATAData s ! 61)) :: u32) OR scast (kATAData s ! 60))"

definition drv_get_size :: "ata_bus \<Rightarrow> u64" where
  "drv_get_size s = drv_get_sector_count s * 512"

subsection \<open>A device that is ready\<close>

definition ready :: "ata_bus \<Rightarrow> bool" where
  "ready s \<longleftrightarrow> (\<forall>port n. in8s s port n AND ATA_SR_BSY = 0 \<and> in8s s port n AND ATA_SR_ERR = 0 \<and>
     in8s s port n AND ATA_SR_DRDY \<noteq> 0)"

lemma ready_cong: "in8s s' = in8s s \<Longrightarrow> ready s' = ready s"
  by (simp add: ready_def)

lemma funpow_in8: "((\<lambda>t. snd (rt_in8 p t)) ^^ n) s = s\<lparr>in8_count := in8_count s + n\<rparr>"
  by (induction n) (simp_all add: rt_in8_def)

lemma wait_io_ready:
  assumes "ready s" and "0 < fuel"
  shows "wait_io fuel IO s = Inr (s\<lparr>in8_count := in8_count s + 402\<rparr>)"
proof -
  obtain f where "fuel = Suc f" using assms(2) by (cases fuel) auto
  with assms(1) show ?thesis
    unfolding wait_io_def drv_std_wait_io_def funpow_in8 Let_def by (simp add: rt_in8_def ready_def)
qed

lemma read_words_Suc:
  "ready s \<Longrightarrow> 0 < fuel \<Longrightarrow>
   read_words fuel IO (Suc n) acc s = read_words fuel IO n (acc @ [ucast (in16s s (in16_count s))])
     (s\<lparr>in8_count := in8_count s + 804, in16_count := Suc (in16_count s)\<rparr>)"
  by (cases s) (simp add: wait_io_ready rt_in16_def ready_def add.commute)

lemma map_upt_Suc_shift: "map f [0..<Suc n] = f 0 # map (\<lambda>i. f (Suc i)) [0..<n]"
  by (simp add: upt_conv_Cons map_Suc_upt [symmetric] comp_def del: upt_Suc)

lemma read_words_ready:
  "ready s \<Longrightarrow> 0 < fuel \<Longrightarrow>
   read_words fuel IO n acc s =
     Inr (acc @ map (\<lambda>i. ucast (in16s s (in16_count s + i))) [0..<n],
          s\<lparr>in8_count := in8_count s + 804 * n, in16_count := in16_count s + n\<rparr>)"
proof (induction n arbitrary: acc s)
  case (Suc n)
  let ?s1 = "s\<lparr>in8_count := in8_count s + 804, in16_count := Suc (in16_count s)\<rparr>"
  have "ready ?s1" using Suc.prems(1) by (simp add: ready_def)
  from Suc.IH [OF this Suc.prems(2), of "acc @ [ucast (in16s s (in16_count s))]"] Suc.prems show ?case
    unfolding read_words_Suc [OF Suc.prems] map_upt_Suc_shift by (simp add: algebra_simps)
qed simp

subsection \<open>The registers\<close>

text \<open>The 28 bits of an address from its three low bytes and four bits more.\<close>

lemma nat_28_bits:
  "(n :: nat) mod 2 ^ 8 + 2 ^ 8 * (n div 2 ^ 8 mod 2 ^ 8) + 2 ^ 16 * (n div 2 ^ 16 mod 2 ^ 8) +
   2 ^ 24 * (n div 2 ^ 24 mod 2 ^ 4) = n mod 2 ^ 28"
proof -
  have "n mod 2 ^ 28 = 2 ^ 24 * (n div 2 ^ 24 mod 2 ^ 4) + n mod 2 ^ 24"
    using mod_mult2_eq [of n "2 ^ 24" "2 ^ 4"] by simp
  moreover have "n mod 2 ^ 24 = 2 ^ 16 * (n div 2 ^ 16 mod 2 ^ 8) + n mod 2 ^ 16"
    using mod_mult2_eq [of n "2 ^ 16" "2 ^ 8"] by simp
  moreover have "n mod 2 ^ 16 = 2 ^ 8 * (n div 2 ^ 8 mod 2 ^ 8) + n mod 2 ^ 8"
    using mod_mult2_eq [of n "2 ^ 8" "2 ^ 8"] by simp
  ultimately show ?thesis by simp
qed

lemma unat_to_u8: "unat (ucast (w :: u64) :: u8) = unat w mod 2 ^ 8"
  by (rule trans [OF unsigned_ucast_eq [where ?'a = nat]]) (simp add: take_bit_nat_def)

lemma unat_to_u16: "unat (ucast (b :: u8) :: u16) = unat b"
proof -
  have "unat (ucast b :: u16) = take_bit 16 (unat b)"
    by (rule trans [OF unsigned_ucast_eq [where ?'a = nat]]) simp
  with unat_u8_less [of b] show ?thesis by (simp add: take_bit_nat_def)
qed

lemma unat_byte_of: "unat (ucast (ucast (w :: u64) :: u8) :: u16) = unat w mod 2 ^ 8"
  by (simp only: unat_to_u16 unat_to_u8)

lemma unat_drop: "unat (drop_bit k (w :: u64)) = unat w div 2 ^ k"
  by (simp only: unat_drop_bit_eq drop_bit_nat_def)

lemma unat_low: "unat (take_bit k (w :: 'a::len word)) = unat w mod 2 ^ k"
  by (rule trans [OF unsigned_take_bit_eq]) (simp only: take_bit_nat_def)

lemma device_bits:
  assumes "Command AND 0x0F = 0"
  shows "unat (ucast ((Command :: u8) OR ucast ((w :: u64) AND 0x0F)) :: u16) mod 2 ^ 4 = unat w mod 2 ^ 4"
proof -
  let ?b = "Command OR ucast (w AND 0x0F)"
  have "take_bit 4 Command = 0" using assms by (simp add: take_bit_eq_mask mask_eq_exp_minus_1)
  moreover have w: "w AND 0x0F = take_bit 4 w" by (simp add: take_bit_eq_mask mask_eq_exp_minus_1)
  ultimately have "take_bit 4 ?b = take_bit 4 (ucast (take_bit 4 w))"
    by (simp only: take_bit_or or.left_neutral)
  then have "unat (take_bit 4 ?b) = unat (take_bit 4 (ucast (take_bit 4 w) :: u8))" by (rule arg_cong)
  then have "unat ?b mod 2 ^ 4 = unat w mod 2 ^ 4 mod 2 ^ 8 mod 2 ^ 4"
    by (simp only: unat_low unat_to_u8)
  then show ?thesis by (simp only: unat_to_u16) (simp add: w)
qed

lemma setup_transfer_log:
  "setup_transfer L IO Master SectorSz n cmd s = s\<lparr>out_log := out_log s @
     [(IO + 6, ucast ((if Master = 0 then 0xE0 else 0xF0) OR ucast (drop_bit 24 L AND 0x0F) :: u8)),
      (IO + 2, ucast (ucast ((n + SectorSz) div SectorSz) :: u8)), (IO + 3, ucast (ucast (L AND 0xFF) :: u8)),
      (IO + 4, ucast (ucast (drop_bit 8 L) :: u8)), (IO + 5, ucast (ucast (drop_bit 16 L) :: u8)),
      (IO + 9, ucast (ucast (drop_bit 24 L) :: u8)), (IO + 7, ucast cmd)]\<rparr>"
  unfolding setup_transfer_def rt_out8_def rt_out_def Let_def by simp

lemma select_log:
  "drv_std_select IO s = s\<lparr>out_log := out_log s @ [(IO + 6, if IO = ATA_PRIMARY_IO then 0xA0 else 0xB0)]\<rparr>"
  unfolding drv_std_select_def rt_out8_def rt_out_def by simp

subsection \<open>Transfers on a device that is ready\<close>

text \<open>
  What is written to select and command a transfer of \<open>sz\<close> bytes at an address: the device, the sector
  count, the low 28 bits of the sector and the command.
\<close>

definition transfer_regs :: "u16 \<Rightarrow> nat \<Rightarrow> nat \<Rightarrow> nat \<Rightarrow> u16 \<Rightarrow> (u16 \<times> u16) list \<Rightarrow> bool" where
  "transfer_regs IO lba sec sz cmd log \<longleftrightarrow> (\<exists>dev cnt r0 r1 r2 r3.
     log = [(IO + 6, if IO = ATA_PRIMARY_IO then 0xA0 else 0xB0), (IO + 6, dev), (IO + 2, cnt), (IO + 3, r0),
       (IO + 4, r1), (IO + 5, r2), (IO + 9, r3), (IO + 7, cmd)] \<and>
     unat r0 + 2 ^ 8 * unat r1 + 2 ^ 16 * unat r2 + 2 ^ 24 * (unat dev mod 2 ^ 4) = lba div sec mod 2 ^ 28 \<and>
     unat cnt = (sz div sec + 1) mod 256)"

lemma sector_count:
  assumes "0 < sec" "sec < 2 ^ 32" "sz < 2 ^ 32"
  shows "unat ((of_nat sz + of_nat sec :: u64) div of_nat sec) = sz div sec + 1"
proof -
  have "unat (of_nat (sz + sec) :: u64) = sz + sec" "unat (of_nat sec :: u64) = sec"
    using assms by (intro unat_of_nat64_less; simp)+
  moreover have "(of_nat sz + of_nat sec :: u64) = of_nat (sz + sec)" by simp
  ultimately have "unat ((of_nat sz + of_nat sec :: u64) div of_nat sec) = (sz + sec) div sec"
    by (simp only: unat_div)
  also have "\<dots> = sz div sec + 1" using assms(1) by (intro div_add_self2) simp
  finally show ?thesis .
qed

lemma setup_transfer_regs:
  assumes "0 < sec" "sec < 2 ^ 32" "sz < 2 ^ 32"
  shows "\<exists>log. transfer_regs IO (unat Lba) sec sz (ucast cmd) log \<and>
    setup_transfer (Lba div of_nat sec) IO Master (of_nat sec) (of_nat sz) cmd (drv_std_select IO s) =
      s\<lparr>out_log := out_log s @ log\<rparr>"
proof -
  define L where "L = Lba div of_nat sec"
  define C :: u8 where "C = (if Master = 0 then 0xE0 else 0xF0)"
  define dev :: u16 where "dev = ucast (C OR ucast (drop_bit 24 L AND 0x0F))"
  define cnt :: u16 where "cnt = ucast (ucast ((of_nat sz + of_nat sec) div of_nat sec :: u64) :: u8)"
  define r0 :: u16 where "r0 = ucast (ucast (L AND 0xFF) :: u8)"
  define r1 :: u16 where "r1 = ucast (ucast (drop_bit 8 L) :: u8)"
  define r2 :: u16 where "r2 = ucast (ucast (drop_bit 16 L) :: u8)"
  define r3 :: u16 where "r3 = ucast (ucast (drop_bit 24 L) :: u8)"
  have "unat (of_nat sec :: u64) = sec" using assms(2) by (intro unat_of_nat64_less) simp
  then have L: "unat L = unat Lba div sec" by (simp add: L_def unat_div)
  have "L AND 0xFF = take_bit 8 L" by (simp add: take_bit_eq_mask mask_eq_exp_minus_1)
  then have r0: "unat r0 = unat L mod 2 ^ 8" by (simp only: r0_def unat_byte_of unat_low mod_mod_trivial)
  have C0: "C AND 0x0F = 0" by (simp add: C_def)
  have bits: "unat r0 + 2 ^ 8 * unat r1 + 2 ^ 16 * unat r2 + 2 ^ 24 * (unat dev mod 2 ^ 4) = unat L mod 2 ^ 28"
    unfolding r0 r1_def r2_def dev_def unat_byte_of device_bits [OF C0] unat_drop by (rule nat_28_bits)
  have cnt: "unat cnt = (sz div sec + 1) mod 256"
    unfolding cnt_def unat_byte_of sector_count [OF assms] by simp
  have "setup_transfer L IO Master (of_nat sec) (of_nat sz) cmd (drv_std_select IO s) =
      s\<lparr>out_log := out_log s @
        [(IO + 6, if IO = ATA_PRIMARY_IO then 0xA0 else 0xB0), (IO + 6, dev), (IO + 2, cnt), (IO + 3, r0),
         (IO + 4, r1), (IO + 5, r2), (IO + 9, r3), (IO + 7, ucast cmd)]\<rparr>"
    unfolding setup_transfer_log select_log dev_def cnt_def r0_def r1_def r2_def r3_def C_def by simp
  with bits [unfolded L] cnt show ?thesis unfolding transfer_regs_def L_def by blast
qed

lemma read_transfer_ready:
  assumes "ready s" "0 < fuel" "0 < sec" "sec < 2 ^ 32" "sz < 2 ^ 32"
  shows "\<exists>log. transfer_regs IO (unat Lba) sec sz 0x20 log \<and>
    bindF (wait_io fuel IO s) (\<lambda>s1.
      bindF (wait_io fuel IO (setup_transfer (Lba div of_nat sec) IO Master (of_nat sec) (of_nat sz)
        ATA_CMD_READ_PIO (drv_std_select IO s1))) (read_words fuel IO sz [])) =
    Inr (map (\<lambda>i. ucast (in16s s (in16_count s + i))) [0..<sz],
      s\<lparr>in8_count := in8_count s + 804 * (sz + 1), in16_count := in16_count s + sz, out_log := out_log s @ log\<rparr>)"
proof -
  let ?s1 = "s\<lparr>in8_count := in8_count s + 402\<rparr>"
  obtain log where log: "transfer_regs IO (unat Lba) sec sz (ucast ATA_CMD_READ_PIO) log"
    "setup_transfer (Lba div of_nat sec) IO Master (of_nat sec) (of_nat sz) ATA_CMD_READ_PIO
      (drv_std_select IO ?s1) = ?s1\<lparr>out_log := out_log ?s1 @ log\<rparr>"
    using setup_transfer_regs [OF assms(3-5)] by blast
  let ?s2 = "s\<lparr>in8_count := in8_count s + 804, out_log := out_log s @ log\<rparr>"
  have r: "ready (?s1\<lparr>out_log := out_log ?s1 @ log\<rparr>)" "ready ?s2" using assms(1) by (simp_all add: ready_def)
  have "wait_io fuel IO (?s1\<lparr>out_log := out_log ?s1 @ log\<rparr>) = Inr ?s2"
    by (subst wait_io_ready [OF r(1) assms(2)]) simp
  then have "bindF (wait_io fuel IO s) (\<lambda>s1.
      bindF (wait_io fuel IO (setup_transfer (Lba div of_nat sec) IO Master (of_nat sec) (of_nat sz)
        ATA_CMD_READ_PIO (drv_std_select IO s1))) (read_words fuel IO sz [])) = read_words fuel IO sz [] ?s2"
    unfolding wait_io_ready [OF assms(1,2), of IO] bindF_Inr log(2) by (simp only: bindF_Inr)
  also have "\<dots> = Inr (map (\<lambda>i. ucast (in16s s (in16_count s + i))) [0..<sz],
      s\<lparr>in8_count := in8_count s + 804 * (sz + 1), in16_count := in16_count s + sz, out_log := out_log s @ log\<rparr>)"
    unfolding read_words_ready [OF r(2) assms(2)] by simp
  finally show ?thesis using log(1) by (intro exI [of _ log]) simp
qed

lemma write_words_ready:
  "ready s \<Longrightarrow> 0 < fuel \<Longrightarrow>
   write_words fuel IO bs s = Inr (s\<lparr>in8_count := in8_count s + 804 * length bs,
     out_log := out_log s @ map (\<lambda>b. (IO, scast b)) bs\<rparr>)"
proof (induction bs arbitrary: s)
  case (Cons b bs)
  let ?s2 = "s\<lparr>in8_count := in8_count s + 402, out_log := out_log s @ [(IO, scast b)]\<rparr>"
  have r: "ready ?s2" "ready (?s2\<lparr>in8_count := in8_count ?s2 + 402\<rparr>)"
    using Cons.prems(1) by (simp_all add: ready_def)
  have "write_words fuel IO (b # bs) s = write_words fuel IO bs (?s2\<lparr>in8_count := in8_count ?s2 + 402\<rparr>)"
    using wait_io_ready [OF Cons.prems, of IO] wait_io_ready [OF r(1) Cons.prems(2), of IO]
    by (simp add: rt_out_def)
  then show ?case using Cons.IH [OF r(2) Cons.prems(2)] by (simp add: algebra_simps)
qed simp

lemma write_transfer_ready:
  assumes "ready s" "0 < fuel" "0 < sec" "sec < 2 ^ 32" "length Buf < 2 ^ 32"
  shows "\<exists>log. transfer_regs IO (unat Lba) sec (length Buf) 0x30 log \<and>
    bindF (wait_io fuel IO s) (\<lambda>s1.
      bindF (wait_io fuel IO (setup_transfer (Lba div of_nat sec) IO Master (of_nat sec) (of_nat (length Buf))
        ATA_CMD_WRITE_PIO (drv_std_select IO s1))) (\<lambda>s3.
      bindF (write_words fuel IO Buf s3) (wait_io fuel IO))) =
    Inr (s\<lparr>in8_count := in8_count s + 804 * (length Buf + 1) + 402,
      out_log := out_log s @ log @ map (\<lambda>b. (IO, scast b)) Buf\<rparr>)"
proof -
  let ?s1 = "s\<lparr>in8_count := in8_count s + 402\<rparr>"
  obtain log where log: "transfer_regs IO (unat Lba) sec (length Buf) (ucast ATA_CMD_WRITE_PIO) log"
    "setup_transfer (Lba div of_nat sec) IO Master (of_nat sec) (of_nat (length Buf)) ATA_CMD_WRITE_PIO
      (drv_std_select IO ?s1) = ?s1\<lparr>out_log := out_log ?s1 @ log\<rparr>"
    using setup_transfer_regs [OF assms(3-5)] by blast
  let ?s2 = "s\<lparr>in8_count := in8_count s + 804, out_log := out_log s @ log\<rparr>"
  let ?s3 = "?s2\<lparr>in8_count := in8_count ?s2 + 804 * length Buf,
      out_log := out_log ?s2 @ map (\<lambda>b. (IO, scast b)) Buf\<rparr>"
  have r: "ready (?s1\<lparr>out_log := out_log ?s1 @ log\<rparr>)" "ready ?s2" "ready ?s3"
    using assms(1) by (simp_all add: ready_def)
  have "wait_io fuel IO (?s1\<lparr>out_log := out_log ?s1 @ log\<rparr>) = Inr ?s2"
    by (subst wait_io_ready [OF r(1) assms(2)]) simp
  then have "bindF (wait_io fuel IO s) (\<lambda>s1.
      bindF (wait_io fuel IO (setup_transfer (Lba div of_nat sec) IO Master (of_nat sec) (of_nat (length Buf))
        ATA_CMD_WRITE_PIO (drv_std_select IO s1))) (\<lambda>s3.
      bindF (write_words fuel IO Buf s3) (wait_io fuel IO))) = wait_io fuel IO ?s3"
    unfolding wait_io_ready [OF assms(1,2), of IO] bindF_Inr log(2)
    by (simp only: bindF_Inr write_words_ready [OF r(2) assms(2)])
  also have "\<dots> = Inr (s\<lparr>in8_count := in8_count s + 804 * (length Buf + 1) + 402,
      out_log := out_log s @ log @ map (\<lambda>b. (IO, scast b)) Buf\<rparr>)"
    unfolding wait_io_ready [OF r(3) assms(2)] by simp
  finally show ?thesis using log(1) by (intro exI [of _ log]) simp
qed

subsection \<open>Properties\<close>

text \<open>
  C14. Reading from a disk that answers ready at every poll: the bytes are the low halves of as many
  words of the data port as there are bytes to read; before, the bus is selected and the device, the
  sector count and the address registers are written, in this order, with the low 28 bits of the
  address divided by 512 and one sector more than whole ones fit in the size (as a byte), and last the
  command. As a word is taken for each byte, the 514 words of a catalog or a fork are two more than the
  two sectors asked for hold.
\<close>

theorem ata_read_on_ready_device:
  assumes "ready s" and "0 < fuel" and "sz < 2 ^ 32"
  shows "\<exists>s' dev cnt r0 r1 r2 r3.
    ata_std_read fuel Lba IO Master 512 sz s =
      Inr (map (\<lambda>i. ucast (in16s s (in16_count s + i))) [0..<sz], s') \<and>
    in16_count s' = in16_count s + sz \<and>
    out_log s' = out_log s @
      [(IO + 6, if IO = ATA_PRIMARY_IO then 0xA0 else 0xB0), (IO + 6, dev), (IO + 2, cnt), (IO + 3, r0),
       (IO + 4, r1), (IO + 5, r2), (IO + 9, r3), (IO + 7, 0x20)] \<and>
    unat r0 + 2 ^ 8 * unat r1 + 2 ^ 16 * unat r2 + 2 ^ 24 * (unat dev mod 2 ^ 4) = unat Lba div 512 mod 2 ^ 28 \<and>
    unat cnt = (sz div 512 + 1) mod 256 \<and>
    (sz = 514 \<longrightarrow> 256 * unat cnt < in16_count s' - in16_count s)"
proof -
  obtain log where log: "transfer_regs IO (unat Lba) 512 sz 0x20 log"
    and run: "ata_std_read fuel Lba IO Master 512 sz s =
      Inr (map (\<lambda>i. ucast (in16s s (in16_count s + i))) [0..<sz],
        s\<lparr>in8_count := in8_count s + 804 * (sz + 1), in16_count := in16_count s + sz, out_log := out_log s @ log\<rparr>)"
    using read_transfer_ready [OF assms(1,2) _ _ assms(3), of 512 IO Lba Master]
    by (auto simp: ata_std_read_def Let_def)
  then show ?thesis unfolding transfer_regs_def by fastforce
qed

theorem ata_read_on_ready_device_witness:
  "\<exists>s'. ata_std_read 1 2560 ATA_PRIMARY_IO 0 512 2
      \<lparr>in8s = \<lambda>_ _. 0x40, in8_count = 0, in16s = of_nat, in16_count = 0, out_log = [], kATADetected = False,
       kATAData = []\<rparr> = Inr ([0, 1], s')"
proof -
  have "ready \<lparr>in8s = \<lambda>_ _. 0x40, in8_count = 0, in16s = of_nat, in16_count = 0, out_log = [],
      kATADetected = False, kATAData = []\<rparr>"
    by (simp add: ready_def ATA_SR_BSY_def ATA_SR_ERR_def ATA_SR_DRDY_def)
  moreover have "map (\<lambda>i. ucast (of_nat i :: u16) :: u8) [0..<2] = [0, 1]" by code_simp
  ultimately show ?thesis
    using ata_read_on_ready_device [of "\<lparr>in8s = \<lambda>_ _. 0x40, in8_count = 0, in16s = of_nat, in16_count = 0,
      out_log = [], kATADetected = False, kATAData = []\<rparr>" 1 2 2560 ATA_PRIMARY_IO 0] by auto
qed

end
