(* ===== verification/UserCred.thy ===== *)
theory UserCred
  imports NeFSLayout
begin

text \<open>
  Users and their passwords: \<^verbatim>\<open>User.cc\<close> and \<^verbatim>\<open>KernelKit/User.h\<close>.

  A password is the C string handed in, without its terminator, \<open>None\<close> for a null pointer. The
  temporary copy of the password has exactly the password's length; the terminator that the copying
  routine writes behind it is not part of it.
\<close>

subsection \<open>Data\<close>

abbreviation kRingInvalid :: u32 where "kRingInvalid \<equiv> 0"
abbreviation kRingStdUser :: u32 where "kRingStdUser \<equiv> 1"
abbreviation kRingSuperUser :: u32 where "kRingSuperUser \<equiv> 2"
abbreviation kRingGuestUser :: u32 where "kRingGuestUser \<equiv> 5"

definition kMaxUserNameLen :: nat where "kMaxUserNameLen = 255"
definition kMaxUserTokenLen :: nat where "kMaxUserTokenLen = 255"
definition kStdUserType :: u8 where "kStdUserType = 0xCE"
definition kSuperUserType :: u8 where "kSuperUserType = 0xEC"

record User =
  mUserRing :: u32
  mUserName :: "u8 list"
  mUserKey :: "u8 list"

definition User_blank :: "u32 \<Rightarrow> User" where
  "User_blank ring = \<lparr>mUserRing = ring, mUserName = replicate kMaxUserNameLen 0, mUserKey = replicate kMaxUserTokenLen 0\<rparr>"

text \<open>Copying a C string with its terminator into a field.\<close>

definition copy_string :: "u8 list \<Rightarrow> u8 list \<Rightarrow> fault + u8 list" where
  "copy_string str field = (if length str < length field then Inr (put_cstr str field) else Inl OutOfBounds)"

definition User_new :: "u32 \<Rightarrow> u8 list option \<Rightarrow> fault + User" where
  "User_new ringKind userName =
     (case userName of
        None \<Rightarrow> Inl NullDeref
      | Some name \<Rightarrow> bindF (copy_string name (mUserName (User_blank ringKind))) (\<lambda>field.
          Inr ((User_blank ringKind)\<lparr>mUserName := field\<rparr>)))"

text \<open>The constructor from a selector only checks that it is not negative.\<close>

definition User_new_sel :: "bool \<Rightarrow> u32 \<Rightarrow> u8 list option \<Rightarrow> fault + User" where
  "User_new_sel dbg sel userName = bindF (must_pass dbg (0 \<le> sint sel)) (\<lambda>_. User_new sel userName)"

definition User_Ring :: "User \<Rightarrow> u32" where
  "User_Ring u = mUserRing u"

definition User_Name :: "User \<Rightarrow> u8 list" where
  "User_Name u = mUserName u"

definition IsStdUser :: "User \<Rightarrow> bool" where
  "IsStdUser u \<longleftrightarrow> User_Ring u = kRingStdUser"

definition IsSuperUser :: "User \<Rightarrow> bool" where
  "IsSuperUser u \<longleftrightarrow> User_Ring u = kRingSuperUser"

definition User_eq :: "User \<Rightarrow> User \<Rightarrow> bool" where
  "User_eq this lhs \<longleftrightarrow> mUserRing lhs = mUserRing this"

definition User_ne :: "User \<Rightarrow> User \<Rightarrow> bool" where
  "User_ne this lhs \<longleftrightarrow> mUserRing lhs \<noteq> mUserRing this"

subsection \<open>Tokens\<close>

text \<open>
  The loop over the password: it stops at a terminator, and otherwise puts the character, with the
  bits of the user's kind set, at the same place.
\<close>

fun token_loop :: "u8 list \<Rightarrow> User \<Rightarrow> nat \<Rightarrow> nat \<Rightarrow> u8 list \<Rightarrow> fault + u8 list" where
  "token_loop in_password user i_pass 0 password = Inr password"
| "token_loop in_password user i_pass (Suc left) password =
     (let cur_chr = (in_password @ [0]) ! i_pass in
      if i_pass > length in_password then Inl OutOfBounds
      else if cur_chr = 0 then Inr password
      else if i_pass \<ge> length password then Inl OutOfBounds
      else token_loop in_password user (Suc i_pass) left
             (password[i_pass := cur_chr OR (if IsStdUser user then kStdUserType else kSuperUserType)]))"

definition cred_construct_token ::
  "u8 list option \<Rightarrow> u8 list \<Rightarrow> User option \<Rightarrow> nat \<Rightarrow> fault + (u32 \<times> u8 list option)" where
  "cred_construct_token password in_password user len =
     (case (password, user) of
        (Some p, Some u) \<Rightarrow> bindF (token_loop in_password u 0 len p) (\<lambda>p1. Inr (0, Some p1))
      | _ \<Rightarrow> Inr (1, password))"

text \<open>Both callers take the result for a success flag.\<close>

definition User_Save :: "u8 list option \<Rightarrow> User \<Rightarrow> fault + (bool \<times> User)" where
  "User_Save password_to_fill u =
     (case password_to_fill of
        None \<Rightarrow> Inr (False, u)
      | Some pw \<Rightarrow>
          if pw = [] then Inr (False, u)
          else bindF (cred_construct_token (Some pw) pw (Some u) (length pw)) (\<lambda>(err, password).
            if err = 0 then Inr (False, u)
            else case password of
              None \<Rightarrow> Inl NullDeref
            | Some p \<Rightarrow> bindF (copy_string (take (length pw) p) (mUserKey u)) (\<lambda>key.
                Inr (True, u\<lparr>mUserKey := key\<rparr>))))"

text \<open>Matching compares as many characters as the key on record has.\<close>

definition User_Matches :: "u8 list option \<Rightarrow> User \<Rightarrow> fault + bool" where
  "User_Matches password_to_fill u =
     (case password_to_fill of
        None \<Rightarrow> Inr False
      | Some pw \<Rightarrow>
          if pw \<noteq> [] then Inr False
          else bindF (cred_construct_token (Some pw) pw (Some u) (length pw)) (\<lambda>(err, password).
            if err = 0 then Inr False
            else let n = length (cstr (mUserKey u)) in
              case password of
                None \<Rightarrow> Inl NullDeref
              | Some p \<Rightarrow> if n \<le> length p then Inr (take n p = take n (mUserKey u)) else Inl OutOfBounds))"

subsection \<open>Lemmas\<close>

text \<open>The token of a password: every character with the kind's bits set.\<close>

definition token :: "User \<Rightarrow> u8 list \<Rightarrow> u8 list" where
  "token u pw = map (\<lambda>ch. ch OR (if IsStdUser u then kStdUserType else kSuperUserType)) pw"

lemma token_loop_prefix:
  "0 \<notin> set pw \<Longrightarrow> i + left = length pw \<Longrightarrow> length p = length pw \<Longrightarrow>
   token_loop pw u i left p = Inr (take i p @ drop i (token u pw))"
proof (induction left arbitrary: i p)
  case 0
  then show ?case by (simp add: token_def)
next
  case (Suc left)
  then have i: "i < length pw" by simp
  have "(pw @ [0]) ! i = pw ! i" using i by (simp add: nth_append)
  moreover have "pw ! i \<noteq> 0" using Suc.prems(1) nth_mem [OF i] by metis
  moreover have "drop i (token u pw) = token u pw ! i # drop (Suc i) (token u pw)"
    using i by (simp add: Cons_nth_drop_Suc [symmetric] token_def)
  moreover have "take (Suc i) (p[i := v]) = take i p @ [v]" for v
    using i Suc.prems(3) by (simp add: take_Suc_conv_app_nth)
  ultimately show ?case
    using i Suc.prems Suc.IH [of "Suc i" "p[i := pw ! i OR (if IsStdUser u then kStdUserType else kSuperUserType)]"]
    by (simp add: token_def)
qed

lemma cred_construct_token_ok:
  "0 \<notin> set pw \<Longrightarrow> cred_construct_token (Some pw) pw (Some u) (length pw) = Inr (0, Some (token u pw))"
  using token_loop_prefix [of pw 0 "length pw" pw u] by (simp add: cred_construct_token_def)

subsection \<open>Properties\<close>

text \<open>
  No user ever has a password. The token of a password is computed as it should be, each character
  with the bits of the user's ring set, and reported with 0; \<^verbatim>\<open>Save\<close> takes the 0 for a failure, so
  it gives No for every password and leaves the key on record as it was, and \<^verbatim>\<open>Matches\<close> gives No
  for every password as well.
\<close>

theorem no_password_saved_or_matched:
  assumes "case pw of None \<Rightarrow> True | Some p \<Rightarrow> 0 \<notin> set p"
  shows "User_Save pw u = Inr (False, u) \<and> User_Matches pw u = Inr False \<and>
    (\<forall>p. pw = Some p \<longrightarrow>
       cred_construct_token (Some p) p (Some u) (length p) = Inr (0, Some (token u p)) \<and>
       length (token u p) = length p)"
proof (cases pw)
  case None
  then show ?thesis by (simp add: User_Save_def User_Matches_def)
next
  case (Some p)
  with assms have tok: "cred_construct_token (Some p) p (Some u) (length p) = Inr (0, Some (token u p))"
    by (simp add: cred_construct_token_ok)
  moreover have "length (token u p) = length p" by (simp add: token_def)
  ultimately show ?thesis using Some by (cases "p = []") (simp_all add: User_Save_def User_Matches_def)
qed

theorem no_password_saved_or_matched_witness:
  "User_Save (Some [115, 101]) (User_blank kRingSuperUser) = Inr (False, User_blank kRingSuperUser) \<and>
   User_Matches (Some [115, 101]) (User_blank kRingSuperUser) = Inr False"
  using no_password_saved_or_matched [of "Some [115, 101]" "User_blank kRingSuperUser"] by simp

end
