(* ===== verification/NetIPC.thy ===== *)
theory NetIPC
  imports NeFSLayout KStr
begin

text \<open>
  Messages between processes, \<^verbatim>\<open>NetworkKit/IPC.h\<close> and \<^verbatim>\<open>Network/IPCMsg.cc\<close>, and IP
  addresses, \<^verbatim>\<open>NetworkKit/IP.h\<close> and \<^verbatim>\<open>Network/IPAddr.cc\<close>.
\<close>

subsection \<open>Messages\<close>

record IPC_ADDR =
  UserProcessID :: u64
  UserProcessTeam :: u64

definition IPC_ADDR_eq :: "IPC_ADDR \<Rightarrow> IPC_ADDR \<Rightarrow> bool" where
  "IPC_ADDR_eq this addr \<longleftrightarrow> UserProcessID addr = UserProcessID this \<and> UserProcessTeam addr = UserProcessTeam this"

abbreviation kIPCLittleEndian :: u8 where "kIPCLittleEndian \<equiv> 0"
abbreviation kIPCBigEndian :: u8 where "kIPCBigEndian \<equiv> 1"
abbreviation kIPCMixedEndian :: u8 where "kIPCMixedEndian \<equiv> 2"

definition kIPCHeaderMagic :: u32 where "kIPCHeaderMagic = 0x4950434"
definition kIPCMsgSize :: nat where "kIPCMsgSize = 6094"

record IPC_MSG =
  IpcHeaderMagic :: u32
  IpcEndianess :: u8
  IpcPacketSize :: u64
  IpcFrom :: IPC_ADDR
  IpcTo :: IPC_ADDR
  IpcCRC32 :: u32
  IpcMsg :: u32
  IpcMsgSz :: u32
  IpcData :: "u8 list"

definition sizeof_IPC_MSG :: nat where
  "sizeof_IPC_MSG = 4 + 1 + 8 + 16 + 16 + 4 + 4 + 4 + kIPCMsgSize"

definition IPC_MSG_zero :: IPC_MSG where
  "IPC_MSG_zero =
     \<lparr>IpcHeaderMagic = 0, IpcEndianess = 0, IpcPacketSize = 0, IpcFrom = \<lparr>UserProcessID = 0, UserProcessTeam = 0\<rparr>,
      IpcTo = \<lparr>UserProcessID = 0, UserProcessTeam = 0\<rparr>, IpcCRC32 = 0, IpcMsg = 0, IpcMsgSz = 0,
      IpcData = replicate kIPCMsgSize 0\<rparr>"

text \<open>\<^verbatim>\<open>RTL_ENDIAN\<close> compares the first byte at an address with a value.\<close>

datatype Endian = kEndianInvalid | kEndianBig | kEndianLittle | kEndianMixed

fun endian_code :: "Endian \<Rightarrow> u8" where
  "endian_code kEndianInvalid = 0"
| "endian_code kEndianBig = 1"
| "endian_code kEndianLittle = 2"
| "endian_code kEndianMixed = 3"

definition RTL_ENDIAN :: "u8 \<Rightarrow> u8 \<Rightarrow> Endian" where
  "RTL_ENDIAN first_byte val = (if first_byte = val then kEndianBig else kEndianLittle)"

definition first_byte :: "IPC_MSG \<Rightarrow> u8" where
  "first_byte p = ucast (IpcHeaderMagic p)"

text \<open>\<^verbatim>\<open>err_local_get() = e\<close>: the local code of the current process, which has to be there.\<close>

definition set_err_local :: "u32 \<Rightarrow> kstate \<Rightarrow> fault + kstate" where
  "set_err_local e s =
     (case CurrentProcess s of
        None \<Rightarrow> Inl NullDeref
      | Some p \<Rightarrow> Inr (put_current (Some (p\<lparr>fLocalCode := e\<rparr>)) s))"

definition ipc_check_failed :: "kstate \<Rightarrow> fault + (bool \<times> kstate)" where
  "ipc_check_failed s = bindF (set_err_local kErrorIPC s) (\<lambda>s1. Inr (False, s1))"

definition ipc_int_sanitize_packet :: "IPC_MSG \<Rightarrow> kstate \<Rightarrow> fault + (bool \<times> kstate)" where
  "ipc_int_sanitize_packet pckt s =
     (let endian = RTL_ENDIAN (first_byte pckt) (first_byte pckt);
          bad_endian = (case endian of
              kEndianBig \<Rightarrow> IpcEndianess pckt = kIPCLittleEndian
            | kEndianLittle \<Rightarrow> IpcEndianess pckt = kIPCBigEndian
            | kEndianMixed \<Rightarrow> IpcEndianess pckt = kIPCMixedEndian
            | kEndianInvalid \<Rightarrow> True)
      in if bad_endian then ipc_check_failed s
         else if IPC_ADDR_eq (IpcFrom pckt) (IpcTo pckt) \<or> unat (IpcPacketSize pckt) > kIPCMsgSize
         then ipc_check_failed s
         else Inr (IpcPacketSize pckt > 1 \<and> IpcHeaderMagic pckt = kIPCHeaderMagic, s))"

definition ipc_sanitize_packet :: "IPC_MSG option \<Rightarrow> kstate \<Rightarrow> fault + (bool \<times> kstate)" where
  "ipc_sanitize_packet pckt s =
     (case pckt of None \<Rightarrow> Inr (False, s) | Some p \<Rightarrow> ipc_int_sanitize_packet p s)"

text \<open>
  The argument is the variable the caller's packet pointer is in, if there is one; a null pointer in it
  is replaced by a new zeroed packet, or stays when the heap gives none.
\<close>

definition ipc_construct_packet :: "IPC_MSG option option \<Rightarrow> IPC_MSG option \<Rightarrow> bool \<times> IPC_MSG option option" where
  "ipc_construct_packet pckt_in new_packet =
     (case pckt_in of
        None \<Rightarrow> (False, None)
      | Some held \<Rightarrow>
          let p0 = (case held of None \<Rightarrow> new_packet | Some p \<Rightarrow> Some p) in
          case p0 of
            None \<Rightarrow> (False, Some None)
          | Some p \<Rightarrow>
              let endian = RTL_ENDIAN (first_byte p) (first_byte p) in
              (True, Some (Some (p\<lparr>IpcHeaderMagic := kIPCHeaderMagic, IpcEndianess := endian_code endian,
                 IpcPacketSize := of_nat sizeof_IPC_MSG,
                 IpcTo := \<lparr>UserProcessID = 0, UserProcessTeam = 0\<rparr>,
                 IpcFrom := \<lparr>UserProcessID = 0, UserProcessTeam = 0\<rparr>\<rparr>))))"

text \<open>The copy ends with a terminator, which has to fit as well.\<close>

definition IPC_Pass :: "IPC_MSG \<Rightarrow> IPC_MSG option \<Rightarrow> fault + (bool \<times> IPC_MSG option)" where
  "IPC_Pass this target =
     (case target of
        None \<Rightarrow> Inr (False, target)
      | Some t \<Rightarrow>
          if IPC_ADDR_eq (IpcFrom t) (IpcTo this) then
            (if IpcMsgSz this > IpcMsgSz t then Inr (False, target)
             else let n = unat (IpcMsgSz this) in
               if n < kIPCMsgSize
               then Inr (True, Some (t\<lparr>IpcData := put_cstr (take n (IpcData this)) (IpcData t)\<rparr>))
               else Inl OutOfBounds)
          else Inr (False, target))"

subsection \<open>IP addresses\<close>

text \<open>
  The address is its four (eight) bytes. The constructors copy that many bytes into it, and the copying
  routine's terminator goes to the byte behind.
\<close>

definition copy_array :: "nat \<Rightarrow> nat \<Rightarrow> u8 list \<Rightarrow> fault + u8 list" where
  "copy_array room n bytes =
     (if length bytes < n \<or> \<not> n < room then Inl OutOfBounds else Inr (take n bytes @ replicate (room - n) 0))"

definition RawIPAddress_new :: "u8 list \<Rightarrow> fault + u8 list" where
  "RawIPAddress_new bytes = copy_array 4 4 bytes"

definition RawIPAddress6_new :: "u8 list \<Rightarrow> fault + u8 list" where
  "RawIPAddress6_new bytes = copy_array 8 8 bytes"

fun ip_all_equal :: "u8 list \<Rightarrow> u8 list \<Rightarrow> bool" where
  "ip_all_equal (a # as) (b # bs) = (if a \<noteq> b then False else ip_all_equal as bs)"
| "ip_all_equal _ _ = True"

fun ip_all_differ :: "u8 list \<Rightarrow> u8 list \<Rightarrow> bool" where
  "ip_all_differ (a # as) (b # bs) = (if a = b then False else ip_all_differ as bs)"
| "ip_all_differ _ _ = True"

definition RawIPAddress_eq :: "u8 list \<Rightarrow> u8 list \<Rightarrow> bool" where
  "RawIPAddress_eq this ipv4 = ip_all_equal (take 4 ipv4) (take 4 this)"

definition RawIPAddress_ne :: "u8 list \<Rightarrow> u8 list \<Rightarrow> bool" where
  "RawIPAddress_ne this ipv4 = ip_all_differ (take 4 ipv4) (take 4 this)"

definition RawIPAddress6_eq :: "u8 list \<Rightarrow> u8 list \<Rightarrow> bool" where
  "RawIPAddress6_eq this ipv6 = ip_all_equal (take 8 ipv6) (take 8 this)"

definition RawIPAddress6_ne :: "u8 list \<Rightarrow> u8 list \<Rightarrow> bool" where
  "RawIPAddress6_ne this ipv6 = ip_all_differ (take 8 ipv6) (take 8 this)"

text \<open>Indexing: past the bound the placeholder, and at the bound the byte behind the address.\<close>

definition RawIPAddress_at :: "u8 list \<Rightarrow> nat \<Rightarrow> fault + u8" where
  "RawIPAddress_at this index =
     (if index > 4 then Inr 48 else if index < length this then Inr (this ! index) else Inl OutOfBounds)"

definition RawIPAddress6_at :: "u8 list \<Rightarrow> nat \<Rightarrow> fault + u8" where
  "RawIPAddress6_at this index =
     (if index > 8 then Inr 48 else if index < length this then Inr (this ! index) else Inl OutOfBounds)"

text \<open>The string of an address is made of what starts at its first byte, up to a zero.\<close>

definition IPFactory_ToKString :: "bool \<Rightarrow> nat \<Rightarrow> nat \<Rightarrow> mem \<Rightarrow> (fault + (KString option \<times> mem)) option" where
  "IPFactory_ToKString dbg buf addr m = StringBuilder_Construct dbg buf addr m"

fun ip_check_loop :: "u8 list \<Rightarrow> nat \<Rightarrow> bool" where
  "ip_check_loop [] cnter = True"
| "ip_check_loop (ch # rest) cnter =
     (if ch = 46 then ip_check_loop rest 0
      else if cnter = 3 then False
      else ip_check_loop rest (Suc cnter))"

definition IpCheckVersion4 :: "u8 list option \<Rightarrow> bool" where
  "IpCheckVersion4 ip = (case ip of None \<Rightarrow> False | Some str \<Rightarrow> ip_check_loop str 0)"

subsection \<open>Lemmas\<close>

lemma RTL_ENDIAN_self: "RTL_ENDIAN b b = kEndianBig"
  by (simp add: RTL_ENDIAN_def)

lemma ip_all_equal_iff: "length as = length bs \<Longrightarrow> ip_all_equal as bs \<longleftrightarrow> as = bs"
  by (induction as bs rule: ip_all_equal.induct) auto

lemma ip_all_differ_iff: "ip_all_differ as bs \<longleftrightarrow> (\<forall>(a, b) \<in> set (zip as bs). a \<noteq> b)"
  by (induction as bs rule: ip_all_differ.induct) auto

text \<open>The parts of a string between its dots.\<close>

fun dot_parts :: "u8 list \<Rightarrow> u8 list list" where
  "dot_parts [] = [[]]"
| "dot_parts (ch # rest) =
     (if ch = 46 then [] # dot_parts rest
      else case dot_parts rest of p # ps \<Rightarrow> (ch # p) # ps | [] \<Rightarrow> [[ch]])"

lemma dot_parts_nonempty [simp]: "dot_parts str \<noteq> []"
  by (induction str) (auto split: list.split)

lemma ip_check_loop_parts:
  "n \<le> 3 \<Longrightarrow> ip_check_loop str n \<longleftrightarrow>
    n + length (hd (dot_parts str)) \<le> 3 \<and> (\<forall>p \<in> set (tl (dot_parts str)). length p \<le> 3)"
proof (induction str arbitrary: n)
  case (Cons ch rest)
  obtain p ps where parts: "dot_parts rest = p # ps" using dot_parts_nonempty [of rest] by (cases "dot_parts rest") auto
  show ?case
  proof (cases "ch = 46 \<or> n = 3")
    case True
    then show ?thesis using Cons.IH [of 0] Cons.prems parts by auto
  next
    case False
    then show ?thesis using Cons.IH [of "Suc n"] Cons.prems parts by auto
  qed
qed simp

subsection \<open>Properties\<close>

text \<open>
  A message the kernel constructs is never accepted: the size \<^verbatim>\<open>ipc_construct_packet\<close> puts
  into it is that of the whole structure, 6151, which is over the limit of 6094 for the check. Whatever
  addresses are put into the message afterwards, checking it in any state the scheduler can be in
  writes the error through the missing current process; with a current process it would give No.
\<close>

theorem constructed_packet_refused:
  assumes "ipc_construct_packet (Some held) (Some fresh) = (True, Some (Some p))"
  shows "(sched_reach c ks \<longrightarrow>
      ipc_sanitize_packet (Some (p\<lparr>IpcFrom := a, IpcTo := b\<rparr>)) ks = Inl NullDeref) \<and>
    (CurrentProcess ks \<noteq> None \<longrightarrow>
      (\<exists>ks'. ipc_sanitize_packet (Some (p\<lparr>IpcFrom := a, IpcTo := b\<rparr>)) ks = Inr (False, ks')))"
proof -
  have sz: "IpcPacketSize p = of_nat sizeof_IPC_MSG"
    using assms by (auto simp: ipc_construct_packet_def Let_def split: option.splits)
  then have "unat (IpcPacketSize p) > kIPCMsgSize"
    by (simp add: sizeof_IPC_MSG_def kIPCMsgSize_def)
  then have "ipc_sanitize_packet (Some (p\<lparr>IpcFrom := a, IpcTo := b\<rparr>)) ks = ipc_check_failed ks"
    by (simp add: ipc_sanitize_packet_def ipc_int_sanitize_packet_def Let_def)
  then show ?thesis
    using CurrentProcess_inv sched_reach_inv [of c ks]
    by (auto simp: ipc_check_failed_def set_err_local_def)
qed

theorem constructed_packet_refused_witness:
  "ipc_sanitize_packet (Some ((IPC_MSG_zero\<lparr>IpcHeaderMagic := kIPCHeaderMagic, IpcEndianess := 1,
      IpcPacketSize := of_nat sizeof_IPC_MSG\<rparr>)\<lparr>IpcFrom := \<lparr>UserProcessID = 1, UserProcessTeam = 0\<rparr>,
      IpcTo := \<lparr>UserProcessID = 2, UserProcessTeam = 0\<rparr>\<rparr>)) (kstate_boot tiny_kmem) = Inl NullDeref"
proof -
  have "ipc_construct_packet (Some None) (Some IPC_MSG_zero) =
      (True, Some (Some (IPC_MSG_zero\<lparr>IpcHeaderMagic := kIPCHeaderMagic, IpcEndianess := 1,
      IpcPacketSize := of_nat sizeof_IPC_MSG\<rparr>)))"
    by (simp add: ipc_construct_packet_def RTL_ENDIAN_self IPC_MSG_zero_def)
  from constructed_packet_refused [OF this] reach_boot [of named_conf tiny_kmem] show ?thesis by blast
qed

text \<open>
  What counts as an address: \<^verbatim>\<open>IpCheckVersion4\<close> accepts exactly the strings whose parts
  between the dots have at most three characters, with no look at how many parts there are or what the
  characters are. Two addresses of four bytes are equal when all bytes are and different only when all
  are: two that differ in some of their bytes are neither.
\<close>

theorem IpCheckVersion4_spec:
  "(IpCheckVersion4 (Some str) \<longleftrightarrow> (\<forall>p \<in> set (dot_parts str). length p \<le> 3)) \<and>
   (length x = 4 \<and> length y = 4 \<longrightarrow>
      (RawIPAddress_eq x y \<longleftrightarrow> x = y) \<and>
      (RawIPAddress_ne x y \<longleftrightarrow> (\<forall>i < 4. x ! i \<noteq> y ! i)))"
proof -
  obtain p ps where "dot_parts str = p # ps"
    using dot_parts_nonempty [of str] by (cases "dot_parts str") auto
  then have "IpCheckVersion4 (Some str) \<longleftrightarrow> (\<forall>p \<in> set (dot_parts str). length p \<le> 3)"
    using ip_check_loop_parts [of 0 str] by (simp add: IpCheckVersion4_def)
  moreover have "RawIPAddress_ne x y \<longleftrightarrow> (\<forall>i < 4. x ! i \<noteq> y ! i)" if "length x = 4" "length y = 4"
    using that by (auto simp: RawIPAddress_ne_def ip_all_differ_iff set_zip)
  ultimately show ?thesis by (auto simp: RawIPAddress_eq_def ip_all_equal_iff)
qed

theorem IpCheckVersion4_spec_witness:
  "\<not> RawIPAddress_eq [10, 0, 0, 1] [10, 0, 0, 2] \<and> \<not> RawIPAddress_ne [10, 0, 0, 1] [10, 0, 0, 2]"
  using IpCheckVersion4_spec [of "[]" "[10, 0, 0, 1]" "[10, 0, 0, 2]"] by (auto intro: exI [of _ 0])

end
