(* ===== verification/Interrupts.thy ===== *)
theory Interrupts
  imports ProcSched
begin

text \<open>
  What the assembly stubs of the AMD64 kernel call: the fault handlers, the scheduler's timer
  interrupt and the system call entries of \<^verbatim>\<open>HalCoreInterruptHandlerAMD64.cc\<close>, the call
  tables of \<^verbatim>\<open>ArchKit/ArchKit.h\<close>, and the primitives of
  \<^verbatim>\<open>HalSchedulerCorePrimitivesAMD64.cc\<close>.

  The state is the scheduler's (\<open>kstate\<close>) and the two static variables of the file. A handler
  that ends in an endless loop gives the state it spins in; the log output of the handlers is not
  part of the state.
\<close>

record istate =
  sched :: kstate
  kIsScheduling :: bool
  try_count_before_brute :: int

datatype 's outcome = Returned 's | Spinning 's

definition SIGKILL :: u64 where "SIGKILL = 0"
definition SIGTRAP :: u64 where "SIGTRAP = 3"

subsection \<open>The fault handlers\<close>

text \<open>
  \<^verbatim>\<open>process.Leak().Crash()\<close>: \<^verbatim>\<open>Crash\<close>, and the \<^verbatim>\<open>Exit\<close> it ends in, on the
  object the current process reference points to, at the address \<open>this\<close>.
\<close>

definition current_Crash :: "sconf \<Rightarrow> nat \<Rightarrow> UserProcess \<Rightarrow> kstate \<Rightarrow> fault + kstate" where
  "current_Crash c this p s =
     (if Status p \<noteq> kRunning then Inr s
      else let p1 = p\<lparr>Status := kKilled, fLastExitCode := kErrorProcessFault\<rparr>;
               s1 = put_current (Some p1) (s\<lparr>kLastExitCode := kErrorProcessFault\<rparr>) in
        bindF (exit_memory (kc c) p1 (kern s1)) (\<lambda>k1.
          let s2 = put_kern k1 (put_current (Some (exit_record kErrorProcessFault p1)) s1) in
          if \<not> ProcessParentTeam p1 then Inl NullDeref
          else Inr (put_kern (operator_delete this k1)
                 (put_count (mProcessCount (mTeam s2) - 1) s2))))"

text \<open>
  The five fault handlers differ in their messages only. The reference is dereferenced before
  anything else.
\<close>

definition signal_process :: "u64 \<Rightarrow> u64 \<Rightarrow> ProcessStatusKind \<Rightarrow> UserProcess \<Rightarrow> UserProcess" where
  "signal_process ip sig st p =
     p\<lparr>ProcessSignal := \<lparr>SignalIP = ip, PreviousStatus = Status p, SignalID = sig\<rparr>, Status := st\<rparr>"

definition kill_current :: "sconf \<Rightarrow> nat \<Rightarrow> istate \<Rightarrow> fault + istate" where
  "kill_current c this s =
     (case CurrentProcess (sched s) of
        None \<Rightarrow> Inl NullDeref
      | Some p \<Rightarrow>
          if Status p \<noteq> kRunning then Inr s
          else let p1 = signal_process 0 SIGKILL kKilled p in
            bindF (current_Crash c this p1 (put_current (Some p1) (sched s))) (\<lambda>k.
              Inr (s\<lparr>kIsScheduling := False, sched := k\<rparr>)))"

definition idt_handle_gpf :: "sconf \<Rightarrow> nat \<Rightarrow> u64 \<Rightarrow> istate \<Rightarrow> fault + istate" where
  "idt_handle_gpf c this rsp s = kill_current c this s"

definition idt_handle_pf :: "sconf \<Rightarrow> nat \<Rightarrow> u64 \<Rightarrow> istate \<Rightarrow> fault + istate" where
  "idt_handle_pf c this rsp s = kill_current c this s"

definition idt_handle_math :: "sconf \<Rightarrow> nat \<Rightarrow> u64 \<Rightarrow> istate \<Rightarrow> fault + istate" where
  "idt_handle_math c this rsp s = kill_current c this s"

definition idt_handle_generic :: "sconf \<Rightarrow> nat \<Rightarrow> u64 \<Rightarrow> istate \<Rightarrow> fault + istate" where
  "idt_handle_generic c this rsp s = kill_current c this s"

definition idt_handle_ud :: "sconf \<Rightarrow> nat \<Rightarrow> u64 \<Rightarrow> istate \<Rightarrow> fault + istate" where
  "idt_handle_ud c this rsp s = kill_current c this s"

definition idt_handle_breakpoint :: "u64 \<Rightarrow> istate \<Rightarrow> fault + istate outcome" where
  "idt_handle_breakpoint rip s =
     (case CurrentProcess (sched s) of
        None \<Rightarrow> Inl NullDeref
      | Some p \<Rightarrow>
          if Status p \<noteq> kRunning then Inr (Returned s)
          else Inr (Spinning (s\<lparr>kIsScheduling := False,
                 sched := put_current (Some (signal_process rip SIGTRAP kFrozen p)) (sched s)\<rparr>)))"

lemmas fault_handlers = idt_handle_gpf_def idt_handle_pf_def idt_handle_math_def
  idt_handle_generic_def idt_handle_ud_def

subsection \<open>The timer interrupt\<close>

text \<open>
  The loop waits for \<^verbatim>\<open>kIsScheduling\<close> to go down, or for its counter to run out. Nothing
  else runs on the processor while it waits, so the flag is a parameter.
\<close>

definition kTryCount :: int where "kTryCount = 100000"

function brute_wait :: "bool \<Rightarrow> int \<Rightarrow> int" where
  "brute_wait scheduling tries =
     (if \<not> scheduling then tries
      else if tries - 1 < 1 then tries - 1 else brute_wait scheduling (tries - 1))"
  by pat_completeness auto
termination by (relation "measure (\<lambda>(b, n). nat n)") auto

declare brute_wait.simps [simp del]

definition idt_handle_scheduler :: "sconf \<Rightarrow> u64 \<Rightarrow> istate \<Rightarrow> fault + istate" where
  "idt_handle_scheduler c rsp s =
     (let s1 = s\<lparr>try_count_before_brute := brute_wait (kIsScheduling s) (try_count_before_brute s)\<rparr>;
          s2 = s1\<lparr>try_count_before_brute := kTryCount, kIsScheduling := True\<rparr> in
      bindF (StartScheduling c (sched s2)) (\<lambda>(n, k).
        Inr (s2\<lparr>sched := k, kIsScheduling := False\<rparr>)))"

subsection \<open>System calls\<close>

record 's HAL_SYSCALL_RECORD =
  fHash :: "64 word"
  fHooked :: bool
  fProc :: "(u64 \<Rightarrow> 's \<Rightarrow> fault + 's) option"

definition HAL_SYSCALL_RECORD_bool :: "'s HAL_SYSCALL_RECORD \<Rightarrow> bool" where
  "HAL_SYSCALL_RECORD_bool r = fHooked r"

definition kKernelMaxSystemCalls :: nat where
  "kKernelMaxSystemCalls = 256"

definition hal_system_call_enter ::
  "'s HAL_SYSCALL_RECORD list \<Rightarrow> u64 \<Rightarrow> u64 \<Rightarrow> 's \<Rightarrow> fault + 's" where
  "hal_system_call_enter kSyscalls rcx_syscall_index rdx_syscall_struct s =
     (if unat rcx_syscall_index < Array_Count kSyscalls then
        (if fHooked (kSyscalls ! unat rcx_syscall_index) then
           (case fProc (kSyscalls ! unat rcx_syscall_index) of
              Some f \<Rightarrow> f rdx_syscall_struct s
            | None \<Rightarrow> Inr s)
         else Inr s)
      else Inr s)"

definition hal_kernel_call_enter ::
  "'s HAL_SYSCALL_RECORD list \<Rightarrow> u64 \<Rightarrow> u64 \<Rightarrow> 's \<Rightarrow> fault + 's" where
  "hal_kernel_call_enter kKerncalls rcx_kerncall_index rdx_kerncall_struct s =
     (if unat rcx_kerncall_index < Array_Count kKerncalls then
        (if fHooked (kKerncalls ! unat rcx_kerncall_index) then
           (case fProc (kKerncalls ! unat rcx_kerncall_index) of
              Some f \<Rightarrow> f rdx_kerncall_struct s
            | None \<Rightarrow> Inr s)
         else Inr s)
      else Inr s)"

text \<open>
  \<^verbatim>\<open>rt_hash_seed\<close>: the sum, with the multiplier mixed in by exclusive or after each character.
  Characters and the multiplier are signed.
\<close>

fun hash_loop :: "u8 list \<Rightarrow> u32 \<Rightarrow> 64 word \<Rightarrow> 64 word" where
  "hash_loop [] mul hash = hash"
| "hash_loop (x # xs) mul hash = hash_loop xs mul ((hash + scast x) XOR scast mul)"

definition rt_hash_seed :: "mem \<Rightarrow> nat \<Rightarrow> u32 \<Rightarrow> (64 word) option" where
  "rt_hash_seed m seed mul =
     map_option (\<lambda>len. hash_loop (read_bytes seed len m) mul 0) (rt_string_len m seed)"

subsection \<open>Scheduling primitives\<close>

definition zka_pure_call :: "sconf \<Rightarrow> nat option \<Rightarrow> kstate \<Rightarrow> fault + kstate" where
  "zka_pure_call c process s = (case process of None \<Rightarrow> Inr s | Some i \<Rightarrow> UserProcess_Crash c i s)"

definition hal_check_stack :: "nat \<Rightarrow> mem \<Rightarrow> bool" where
  "hal_check_stack stack_ptr m =
     (if stack_ptr = 0 then False else load64 (frame_SP stack_ptr) m \<noteq> 0 \<and> load64 (frame_BP stack_ptr) m \<noteq> 0)"

definition mp_wakeup_thread :: "sconf \<Rightarrow> nat \<Rightarrow> kstate \<Rightarrow> fault + kstate" where
  "mp_wakeup_thread c stack s = bindF (StartScheduling c s) (\<lambda>(n, s1). Inr s1)"

definition mp_hang_thread :: "nat \<Rightarrow> kstate \<Rightarrow> kstate outcome" where
  "mp_hang_thread stack s = Spinning s"

subsection \<open>Lemmas\<close>

lemma brute_wait_idle [simp]: "brute_wait False n = n"
  by (subst brute_wait.simps) simp

lemma brute_wait_gives_up: "brute_wait True n = (if n < 1 then n - 1 else 0)"
proof (induction "nat n" arbitrary: n)
  case 0
  then show ?case by (subst brute_wait.simps) simp
next
  case (Suc k)
  then have "n \<ge> 1" and k: "k = nat (n - 1)" by linarith+
  show ?case
  proof (cases "n = 1")
    case True
    then show ?thesis by (subst brute_wait.simps) simp
  next
    case False
    with \<open>n \<ge> 1\<close> show ?thesis
      using Suc.hyps(1) [OF k] by (subst brute_wait.simps) simp
  qed
qed

lemma kill_current_reachable: "sched_reach c (sched s) \<Longrightarrow> kill_current c this s = Inl NullDeref"
  by (simp add: kill_current_def CurrentProcess_inv [OF sched_reach_inv])

lemma kill_current_running:
  "CurrentProcess (sched s) = Some p \<Longrightarrow> Status p = kRunning \<Longrightarrow>
   kill_current c this s = Inr (s\<lparr>kIsScheduling := False,
     sched := put_current (Some (signal_process 0 SIGKILL kKilled p)) (sched s)\<rparr>)"
  by (simp add: kill_current_def current_Crash_def signal_process_def Let_def)

lemma kill_current_idle:
  "CurrentProcess (sched s) = Some p \<Longrightarrow> Status p \<noteq> kRunning \<Longrightarrow> kill_current c this s = Inr s"
  by (simp add: kill_current_def)

text \<open>A state with a running current process, for the witnesses.\<close>

definition boot_istate :: istate where
  "boot_istate = \<lparr>sched = kstate_boot tiny_kmem, kIsScheduling = True, try_count_before_brute = 100000\<rparr>"

definition running_istate :: istate where
  "running_istate = boot_istate\<lparr>sched := put_current (Some (UserProcess_new\<lparr>Status := kRunning\<rparr>)) (kstate_boot tiny_kmem)\<rparr>"

lemma running_istate_current:
  "CurrentProcess (sched running_istate) = Some (UserProcess_new\<lparr>Status := kRunning\<rparr>)"
  by (simp add: running_istate_def CurrentProcess_def UserProcessTeam_AsRef_def put_current_def)

subsection \<open>Properties\<close>

text \<open>
  No fault of a process can be handled: in every state the scheduler reaches from boot, each of
  the handlers, breakpoint included, goes through the null reference to the current process.
\<close>

theorem fault_handlers_dereference_null:
  assumes "sched_reach c (sched s)"
  shows "idt_handle_gpf c this rsp s = Inl NullDeref \<and> idt_handle_pf c this rsp s = Inl NullDeref \<and>
    idt_handle_math c this rsp s = Inl NullDeref \<and> idt_handle_generic c this rsp s = Inl NullDeref \<and>
    idt_handle_ud c this rsp s = Inl NullDeref \<and> idt_handle_breakpoint rip s = Inl NullDeref"
  using kill_current_reachable [OF assms, of this] CurrentProcess_inv [OF sched_reach_inv [OF assms]]
  by (simp add: fault_handlers idt_handle_breakpoint_def)

theorem fault_handlers_dereference_null_witness:
  "idt_handle_gpf named_conf 0 0 boot_istate = Inl NullDeref \<and> idt_handle_breakpoint 0 boot_istate = Inl NullDeref"
  using fault_handlers_dereference_null [of named_conf boot_istate 0 0 0] reach_boot [of named_conf tiny_kmem]
  by (simp add: boot_istate_def)




text \<open>
  A system call does something exactly when its number is below the number of entries and its
  entry is hooked and has a routine, which then runs once on the caller's argument; every other
  number, however large, leaves the state as it is.
\<close>

theorem system_call_dispatch:
  "hal_system_call_enter tab i arg s =
     (if \<exists>f. unat i < length tab \<and> fHooked (tab ! unat i) \<and> fProc (tab ! unat i) = Some f
      then the (fProc (tab ! unat i)) arg s else Inr s) \<and>
   hal_kernel_call_enter tab i arg s = hal_system_call_enter tab i arg s"
  by (auto simp: hal_system_call_enter_def hal_kernel_call_enter_def Array_Count_def split: option.splits)

end
