(* ===== verification/Ports.thy ===== *)
theory Ports
  imports Bytes
begin

text \<open>
  The I/O ports of the AMD64 kernel (\<^verbatim>\<open>rt_in8\<close>, \<^verbatim>\<open>rt_out8\<close> and their 16 and 32
  bit versions, \<^verbatim>\<open>HALKit/AMD64/Processor.h\<close>; their bodies are assembly). What hangs on the
  ports is hardware, a parameter of the model: an answer is a function of the whole history of
  accesses before it, so every deterministic device is covered.
\<close>

datatype io_event = In u16 u32 | Out u16 u32

record iobus =
  answer :: "io_event list \<Rightarrow> u16 \<Rightarrow> u32"
  history :: "io_event list"

definition port_out :: "u16 \<Rightarrow> u32 \<Rightarrow> iobus \<Rightarrow> iobus" where
  "port_out port v b = b\<lparr>history := history b @ [Out port v]\<rparr>"

definition port_in :: "u16 \<Rightarrow> ('a::len) word \<Rightarrow> iobus \<Rightarrow> 'a word \<times> iobus" where
  "port_in port v b = (v, b\<lparr>history := history b @ [In port (ucast v)]\<rparr>)"

definition bus_out8 :: "u16 \<Rightarrow> u8 \<Rightarrow> iobus \<Rightarrow> iobus" where
  "bus_out8 port v = port_out port (ucast v)"

text \<open>\<^verbatim>\<open>rt_out16\<close> and \<^verbatim>\<open>rt_out32\<close> take a 16 and a 32 bit value.\<close>

definition bus_out16 :: "u16 \<Rightarrow> u16 \<Rightarrow> iobus \<Rightarrow> iobus" where
  "bus_out16 port v = port_out port (ucast v)"

definition bus_out32 :: "u16 \<Rightarrow> u32 \<Rightarrow> iobus \<Rightarrow> iobus" where
  "bus_out32 port v = port_out port v"

definition bus_in8 :: "u16 \<Rightarrow> iobus \<Rightarrow> u8 \<times> iobus" where
  "bus_in8 port b = port_in port (ucast (answer b (history b) port)) b"

definition bus_in16 :: "u16 \<Rightarrow> iobus \<Rightarrow> u16 \<times> iobus" where
  "bus_in16 port b = port_in port (ucast (answer b (history b) port)) b"

definition bus_in32 :: "u16 \<Rightarrow> iobus \<Rightarrow> u32 \<times> iobus" where
  "bus_in32 port b = port_in port (answer b (history b) port) b"

definition outs8 :: "(u16 \<times> u8) list \<Rightarrow> iobus \<Rightarrow> iobus" where
  "outs8 xs b = fold (\<lambda>(port, v). bus_out8 port v) xs b"

lemma bus_out_simps [simp]:
  "answer (bus_out8 p v b) = answer b" "history (bus_out8 p v b) = history b @ [Out p (ucast v)]"
  "answer (bus_out16 p w b) = answer b" "history (bus_out16 p w b) = history b @ [Out p (ucast w)]"
  "answer (bus_out32 p x b) = answer b" "history (bus_out32 p x b) = history b @ [Out p x]"
  by (simp_all add: bus_out8_def bus_out16_def bus_out32_def port_out_def)

lemma outs8_simps [simp]:
  "answer (outs8 xs b) = answer b"
  "history (outs8 xs b) = history b @ map (\<lambda>(p, v). Out p (ucast v)) xs"
  by (induction xs arbitrary: b) (auto simp: outs8_def)

lemma bus_in_simps [simp]:
  "answer (snd (bus_in8 p b)) = answer b"
  "history (snd (bus_in8 p b)) = history b @ [In p (ucast (fst (bus_in8 p b)))]"
  "answer (snd (bus_in16 p b)) = answer b"
  "history (snd (bus_in16 p b)) = history b @ [In p (ucast (fst (bus_in16 p b)))]"
  "answer (snd (bus_in32 p b)) = answer b"
  "history (snd (bus_in32 p b)) = history b @ [In p (fst (bus_in32 p b))]"
  by (simp_all add: bus_in8_def bus_in16_def bus_in32_def port_in_def)

end
