(* ===== verification/DebugOut.thy ===== *)
theory DebugOut
  imports Ports RtUtils
begin

text \<open>
  The kernel's terminal: the serial port of \<^verbatim>\<open>HALKit/AMD64/HalDebugOutput.cc\<close>, the device
  object of \<^verbatim>\<open>KernelKit/DeviceMgr.h\<close> and the printing of numbers in
  \<^verbatim>\<open>KernelKit/DebugOutput.h\<close>. \<open>dbg\<close> says whether \<^verbatim>\<open>__DEBUG__\<close> is defined.

  A string constant is a list of characters without its terminator, put in memory at address 1.
\<close>

subsection \<open>The serial port\<close>

datatype CommStatus = kStateInvalid | kStateReady | kStateTransmit

record serial =
  bus :: iobus
  kState :: CommStatus

definition kPort :: u16 where "kPort = 0x3F8"

abbreviation out_char :: "u8 \<Rightarrow> serial \<Rightarrow> serial" where
  "out_char ch s \<equiv> s\<lparr>bus := bus_out8 kPort ch (bus s)\<rparr>"

definition serial_setup :: "(u16 \<times> u8) list" where
  "serial_setup =
     [(kPort + 1, 0x00), (kPort + 3, 0x80), (kPort + 0, 0x03), (kPort + 1, 0x00), (kPort + 3, 0x03),
      (kPort + 2, 0xC7), (kPort + 4, 0x0B), (kPort + 4, 0x1E), (kPort + 0, 0xAE)]"

definition hal_serial_init :: "serial \<Rightarrow> fault + (bool \<times> serial)" where
  "hal_serial_init s =
     (if kState s = kStateReady \<or> kState s = kStateTransmit then Inr (True, s)
      else case bus_in8 kPort (outs8 serial_setup (bus s)) of (v, b) \<Rightarrow>
        if v \<noteq> 0xAE then ke_panic RUNTIME_CHECK_HANDSHAKE
        else Inr (True, \<lparr>bus = bus_out8 (kPort + 4) 0x0F b, kState = kStateReady\<rparr>))"

text \<open>A carriage return is sent as carriage return and line feed.\<close>

fun write_loop :: "mem \<Rightarrow> nat \<Rightarrow> nat \<Rightarrow> nat \<Rightarrow> serial \<Rightarrow> serial" where
  "write_loop m bytes index 0 s = s"
| "write_loop m bytes index (Suc left) s =
     (let ch = m (bytes + index);
          s1 = (if ch = 13 then out_char 13 s else s)
      in write_loop m bytes (Suc index) left (out_char (if ch = 13 then 10 else ch) s1))"

definition ke_io_write :: "bool \<Rightarrow> mem \<Rightarrow> nat \<Rightarrow> serial \<Rightarrow> fault + serial" where
  "ke_io_write dbg m bytes s =
     (if \<not> dbg then Inr s
      else bindF (hal_serial_init s) (\<lambda>(ok, s1).
        if bytes = 0 \<or> kState s1 \<noteq> kStateReady then Inr s1
        else if m bytes = 0 then Inr s1
        else let s2 = s1\<lparr>kState := kStateTransmit\<rparr>;
                 s3 = write_loop m bytes 0 (rt_string_len_bounded m bytes 255) s2
             in Inr (s3\<lparr>kState := kStateReady\<rparr>)))"

text \<open>
  Reading up to Enter. The inner test compares with \<^verbatim>\<open>!=\<close> joined by \<^verbatim>\<open>||\<close>. The
  characters are unsigned.
\<close>

definition read_skips :: "u8 \<Rightarrow> bool" where
  "read_skips ch \<longleftrightarrow> (ch < 0x30 \<or> ch < 0x41 \<or> ch < 0x61) \<and>
     (ch \<noteq> 0x40 \<or> ch \<noteq> 0x21 \<or> ch \<noteq> 0x3F \<or> ch \<noteq> 0x2E \<or> ch \<noteq> 0x2F \<or> ch \<noteq> 0x3A)"

fun read_loop :: "nat \<Rightarrow> nat \<Rightarrow> nat \<Rightarrow> mem \<Rightarrow> serial \<Rightarrow> fault + (nat \<times> mem \<times> serial)" where
  "read_loop 0 bytes index m s = Inl OutOfFuel"
| "read_loop (Suc fuel) bytes index m s =
     (case bus_in8 kPort (bus s) of (ch, b) \<Rightarrow>
        let s1 = s\<lparr>bus := b\<rparr> in
        if ch = 0xD then Inr (index, m, s1)
        else if read_skips ch then read_loop fuel bytes index m s1
        else read_loop fuel bytes (Suc index) (store8 (bytes + index) ch m) s1)"

definition ke_io_read :: "bool \<Rightarrow> nat \<Rightarrow> nat \<Rightarrow> mem \<Rightarrow> serial \<Rightarrow> fault + (mem \<times> serial)" where
  "ke_io_read dbg fuel bytes m s =
     (if \<not> dbg then Inr (m, s)
      else bindF (hal_serial_init s) (\<lambda>(ok, s1).
        if bytes = 0 \<or> kState s1 \<noteq> kStateReady then Inr (m, s1)
        else bindF (read_loop fuel bytes 0 m (s1\<lparr>kState := kStateTransmit\<rparr>)) (\<lambda>(index, m1, s2).
          Inr (store8 (bytes + index) 0 m1, s2\<lparr>kState := kStateReady\<rparr>))))"

subsection \<open>The device object\<close>

text \<open>A device is its two functions; either can be null.\<close>

record ('t, 's) IDeviceObject =
  fOut :: "('t \<Rightarrow> 's \<Rightarrow> fault + 's) option"
  fIn :: "('t \<Rightarrow> 's \<Rightarrow> fault + 's) option"

definition IDeviceObject_put :: "('t, 's) IDeviceObject \<Rightarrow> 't \<Rightarrow> 's \<Rightarrow> fault + 's" where
  "IDeviceObject_put d x s = (case fOut d of None \<Rightarrow> Inl NullDeref | Some f \<Rightarrow> f x s)"

definition IDeviceObject_get :: "('t, 's) IDeviceObject \<Rightarrow> 't \<Rightarrow> 's \<Rightarrow> fault + 's" where
  "IDeviceObject_get d x s = (case fIn d of None \<Rightarrow> Inl NullDeref | Some f \<Rightarrow> f x s)"

definition IDeviceObject_bool :: "('t, 's) IDeviceObject \<Rightarrow> bool" where
  "IDeviceObject_bool d \<longleftrightarrow> fOut d \<noteq> None \<and> fIn d \<noteq> None"

definition IDeviceObject_not :: "('t, 's) IDeviceObject \<Rightarrow> bool" where
  "IDeviceObject_not d \<longleftrightarrow> fOut d = None \<or> fIn d = None"

text \<open>The terminal over a memory and the serial port.\<close>

type_synonym terminal = "mem \<times> serial"

definition TerminalDevice_The :: "bool \<Rightarrow> nat \<Rightarrow> (nat, terminal) IDeviceObject" where
  "TerminalDevice_The dbg fuel =
     \<lparr>fOut = Some (\<lambda>p (m, s). bindF (ke_io_write dbg m p s) (\<lambda>s1. Inr (m, s1))),
      fIn = Some (\<lambda>p (m, s). ke_io_read dbg fuel p m s)\<rparr>"

definition str_mem :: "u8 list \<Rightarrow> mem" where
  "str_mem xs = write_bytes 1 (xs @ [0]) (\<lambda>_. 0)"

definition put_text :: "bool \<Rightarrow> u8 list \<Rightarrow> serial \<Rightarrow> fault + serial" where
  "put_text dbg xs s =
     bindF (IDeviceObject_put (TerminalDevice_The dbg 0) 1 (str_mem xs, s)) (\<lambda>(m, s1). Inr s1)"

definition end_line :: "bool \<Rightarrow> serial \<Rightarrow> fault + serial" where
  "end_line dbg = put_text dbg [13]"

definition carriage_return :: "bool \<Rightarrow> serial \<Rightarrow> fault + serial" where
  "carriage_return dbg = put_text dbg [13]"

definition tabulate :: "bool \<Rightarrow> serial \<Rightarrow> fault + serial" where
  "tabulate dbg = put_text dbg [9]"

definition bell :: "bool \<Rightarrow> serial \<Rightarrow> fault + serial" where
  "bell dbg = put_text dbg [7]"

definition get_console_in :: "bool \<Rightarrow> nat \<Rightarrow> nat \<Rightarrow> terminal \<Rightarrow> fault + terminal" where
  "get_console_in dbg fuel buf t = IDeviceObject_get (TerminalDevice_The dbg fuel) buf t"

subsection \<open>Numbers\<close>

text \<open>
  A \<^verbatim>\<open>Long\<close> is an integer here; negating the smallest one gives it back. Division and
  remainder truncate, and the results are turned into unsigned numbers, so the remainder of the
  smallest one is large and the branch for it prints the character code of the question mark, as a
  number.
\<close>

definition LONG_MIN :: int where "LONG_MIN = - (2 ^ 63)"

definition long_abs :: "int \<Rightarrow> int" where
  "long_abs x = (if x > 0 then x else if x = LONG_MIN then LONG_MIN else - x)"

definition tquot :: "int \<Rightarrow> int \<Rightarrow> int" where "tquot a b = sgn a * (\<bar>a\<bar> div b)"
definition trem :: "int \<Rightarrow> int \<Rightarrow> int" where "trem a b = sgn a * (\<bar>a\<bar> mod b)"

definition num_text :: "u8 list" where
  "num_text = [48, 49, 50, 51, 52, 53, 54, 55, 56, 57, 65, 66, 67, 68, 69, 70]"

definition above :: "int \<Rightarrow> int \<Rightarrow> bool" where
  "above h b \<longleftrightarrow> h mod 2 ^ 64 > b"

lemma tquot_measure: "tquot (long_abs x) b \<noteq> 0 \<Longrightarrow> 1 < b \<Longrightarrow> \<bar>tquot (long_abs x) b\<bar> < \<bar>x\<bar>"
proof -
  assume q: "tquot (long_abs x) b \<noteq> 0" and b: "1 < b"
  have eq: "\<bar>tquot (long_abs x) b\<bar> = \<bar>x\<bar> div b"
    using b by (auto simp: tquot_def long_abs_def LONG_MIN_def abs_mult sgn_if pos_imp_zdiv_nonneg_iff)
  with q b have "\<bar>x\<bar> \<noteq> 0" by (auto simp: tquot_def long_abs_def LONG_MIN_def)
  with b have "\<bar>x\<bar> div b < \<bar>x\<bar>" by (intro int_div_less_self) auto
  then show ?thesis by (simp add: eq)
qed

lemma tquot_0 [simp]: "tquot (long_abs 0) b = 0"
  by (simp add: tquot_def long_abs_def LONG_MIN_def)

lemma above_trem: "above (trem (long_abs x) b) b \<Longrightarrow> 0 < b \<Longrightarrow> b < 2 ^ 64 \<Longrightarrow> x = LONG_MIN"
proof (rule ccontr)
  assume a: "above (trem (long_abs x) b) b" and b: "0 < b" "b < 2 ^ 64" and x: "x \<noteq> LONG_MIN"
  have "0 \<le> \<bar>x\<bar> mod b" and "\<bar>x\<bar> mod b < b" using b by simp_all
  then have "0 \<le> trem (long_abs x) b" and "trem (long_abs x) b < b"
    using x by (auto simp: trem_def long_abs_def sgn_if)
  with a b show False by (simp add: above_def)
qed

function write_number :: "bool \<Rightarrow> int \<Rightarrow> serial \<Rightarrow> fault + serial" where
  "write_number dbg x s =
     (let y = tquot (long_abs x) 10; h = trem (long_abs x) 10 in
      bindF (if y \<noteq> 0 then write_number dbg y s else Inr s) (\<lambda>s1.
        if above h 10 then write_number dbg 63 s1
        else put_text dbg [num_text ! nat h] s1))"
  by pat_completeness auto
termination
  by (relation "measure (\<lambda>(dbg, x, s). nat \<bar>x\<bar>)")
    (auto simp: tquot_measure LONG_MIN_def dest!: above_trem)

function write_number_hex :: "bool \<Rightarrow> int \<Rightarrow> serial \<Rightarrow> fault + serial" where
  "write_number_hex dbg x s =
     (let y = tquot (long_abs x) 16; h = trem (long_abs x) 16 in
      bindF (if y \<noteq> 0 then write_number_hex dbg y s else Inr s) (\<lambda>s1.
        if above h 16 then write_number_hex dbg 63 s1
        else put_text dbg [num_text ! nat h] s1))"
  by pat_completeness auto
termination
  by (relation "measure (\<lambda>(dbg, x, s). nat \<bar>x\<bar>)")
    (auto simp: tquot_measure LONG_MIN_def dest!: above_trem)

declare write_number.simps [simp del] write_number_hex.simps [simp del]

definition number :: "bool \<Rightarrow> int \<Rightarrow> serial \<Rightarrow> fault + serial" where
  "number dbg x s = write_number dbg x s"

definition hex_number :: "bool \<Rightarrow> int \<Rightarrow> serial \<Rightarrow> fault + serial" where
  "hex_number dbg x s = bindF (write_number_hex dbg x s) (put_text dbg [104])"

definition number_string :: "bool \<Rightarrow> nat \<Rightarrow> serial \<Rightarrow> fault + serial" where
  "number_string dbg x s = put_text dbg [63] s"

subsection \<open>Lemmas\<close>

definition serial_ready :: "serial \<Rightarrow> bool" where
  "serial_ready s \<longleftrightarrow> kState s = kStateReady"

definition sent :: "u8 list \<Rightarrow> io_event list" where
  "sent xs = map (\<lambda>ch. Out kPort (ucast ch)) xs"

definition crlf :: "u8 list \<Rightarrow> u8 list" where
  "crlf xs = concat (map (\<lambda>ch. if ch = 13 then [13, 10] else [ch]) xs)"

lemma write_loop_sends:
  "history (bus (write_loop m p i n s)) = history (bus s) @ sent (crlf (map m [p + i..<p + i + n]))"
  "answer (bus (write_loop m p i n s)) = answer (bus s)"
  "kState (write_loop m p i n s) = kState s"
  by (induction m p i n s rule: write_loop.induct)
    (auto simp: Let_def sent_def crlf_def upt_conv_Cons simp del: upt_Suc)

lemma str_mem_at: "i < length xs \<Longrightarrow> str_mem xs (Suc i) = xs ! i"
  "str_mem xs (Suc (length xs)) = 0"
  by (simp_all add: str_mem_def write_bytes_def nth_append)

lemma str_mem_read: "map (str_mem xs) [1..<1 + length xs] = xs"
  by (rule nth_equalityI) (simp_all add: str_mem_at del: upt_Suc)

lemma bounded_len_one: "m (Suc p) = 0 \<Longrightarrow> rt_string_len_bounded m p 255 = 1"
  unfolding rt_string_len_bounded_def by (subst string_len_bounded_loop.simps) simp

text \<open>One character, as the printing of numbers sends it.\<close>

definition out_chars :: "u8 list \<Rightarrow> serial \<Rightarrow> serial" where
  "out_chars xs s = s\<lparr>bus := (bus s)\<lparr>history := history (bus s) @ sent xs\<rparr>\<rparr>"

lemma out_chars_simps [simp]:
  "kState (out_chars xs s) = kState s" "history (bus (out_chars xs s)) = history (bus s) @ sent xs"
  "out_chars [] s = s" "out_chars ys (out_chars xs s) = out_chars (xs @ ys) s"
  by (simp_all add: out_chars_def sent_def)

lemma put_char_ready:
  assumes "serial_ready s" and "ch \<noteq> 0" and "ch \<noteq> 13"
  shows "put_text True [ch] s = Inr (out_chars [ch] s)"
proof -
  have m: "str_mem [ch] 1 = ch" "str_mem [ch] (Suc 1) = 0"
    using str_mem_at(1) [of 0 "[ch]"] str_mem_at(2) [of "[ch]"] by simp_all
  have len: "rt_string_len_bounded (str_mem [ch]) 1 255 = 1"
    by (rule bounded_len_one) (rule m(2))
  have loop: "write_loop (str_mem [ch]) 1 0 1 t = out_char ch t" for t
    using m(1) assms(3) by simp
  show ?thesis
    using assms(1,2) m(1)
    by (cases s) (simp add: put_text_def IDeviceObject_put_def TerminalDevice_The_def ke_io_write_def
        hal_serial_init_def serial_ready_def Let_def len loop out_chars_def sent_def
        bus_out8_def port_out_def del: One_nat_def)
qed

text \<open>Digits of a number in a base, most significant first.\<close>

function digits :: "nat \<Rightarrow> nat \<Rightarrow> nat list" where
  "digits b n = (if b < 2 \<or> n < b then [n] else digits b (n div b) @ [n mod b])"
  by pat_completeness auto
termination by (relation "measure snd") auto

declare digits.simps [simp del]

lemma digits_decimal: "digits 10 n = decimal n"
  by (induction n rule: decimal.induct) (subst decimal.simps, subst digits.simps, simp)

lemma foldl_digits: "foldl (\<lambda>acc d. b * acc + d) 0 (digits b n) = n"
proof (induction b n rule: digits.induct)
  case (1 b n)
  then show ?case by (subst digits.simps) auto
qed

definition digit_char :: "nat \<Rightarrow> u8" where
  "digit_char k = num_text ! k"

lemma digit_chars_ok: "list_all (\<lambda>k. digit_char k \<noteq> 0 \<and> digit_char k \<noteq> 13) [0..<16]"
  by code_simp

lemma digit_char_ok: "k < 16 \<Longrightarrow> digit_char k \<noteq> 0 \<and> digit_char k \<noteq> 13"
  using digit_chars_ok by (simp add: list_all_iff)

lemma long_parts:
  assumes "LONG_MIN < x" and "0 < b"
  shows "tquot (long_abs x) (int b) = int (nat \<bar>x\<bar> div b)" and "trem (long_abs x) (int b) = int (nat \<bar>x\<bar> mod b)"
proof -
  have a: "long_abs x = \<bar>x\<bar>" using assms(1) by (auto simp: long_abs_def LONG_MIN_def)
  show "tquot (long_abs x) (int b) = int (nat \<bar>x\<bar> div b)"
    unfolding tquot_def a by (cases "x = 0") (simp_all add: zdiv_int)
  show "trem (long_abs x) (int b) = int (nat \<bar>x\<bar> mod b)"
    unfolding trem_def a by (cases "x = 0") (simp_all add: zmod_int)
qed

lemma serial_ready_out [simp]: "serial_ready (out_chars xs s) = serial_ready s"
  by (simp add: serial_ready_def)

lemma write_number_digits:
  assumes "LONG_MIN < x" and "serial_ready s"
  shows "write_number True x s = Inr (out_chars (map digit_char (digits 10 (nat \<bar>x\<bar>))) s)"
  using assms
proof (induction "nat \<bar>x\<bar>" arbitrary: x s rule: less_induct)
  case less
  let ?n = "nat \<bar>x\<bar>"
  have q: "tquot (long_abs x) 10 = int (?n div 10)" and h: "trem (long_abs x) 10 = int (?n mod 10)"
    using long_parts [OF less.prems(1), of 10] by simp_all
  have no: "\<not> above (int (?n mod 10)) 10" by (simp add: above_def)
  have char: "put_text True [digit_char (?n mod 10)] t = Inr (out_chars [digit_char (?n mod 10)] t)"
    if "serial_ready t" for t
    using that digit_char_ok [of "?n mod 10"] by (intro put_char_ready) auto
  show ?case
  proof (cases "?n < 10")
    case True
    then show ?thesis
      using char [OF less.prems(2)] no
      by (subst write_number.simps, subst digits.simps) (simp add: q h digit_char_def)
  next
    case False
    then have "write_number True (int (?n div 10)) s =
        Inr (out_chars (map digit_char (digits 10 (?n div 10))) s)"
      using less.hyps [of "int (?n div 10)" s] less.prems(2) by (simp add: LONG_MIN_def)
    moreover have "?n div 10 \<noteq> 0" using False by (simp add: div_eq_0_iff)
    ultimately show ?thesis
      using False char [of "out_chars (map digit_char (digits 10 (?n div 10))) s"] less.prems(2) no
      by (subst write_number.simps, subst digits.simps) (simp add: q h digit_char_def)
  qed
qed

lemma write_number_hex_digits:
  assumes "LONG_MIN < x" and "serial_ready s"
  shows "write_number_hex True x s = Inr (out_chars (map digit_char (digits 16 (nat \<bar>x\<bar>))) s)"
  using assms
proof (induction "nat \<bar>x\<bar>" arbitrary: x s rule: less_induct)
  case less
  let ?n = "nat \<bar>x\<bar>"
  have q: "tquot (long_abs x) 16 = int (?n div 16)" and h: "trem (long_abs x) 16 = int (?n mod 16)"
    using long_parts [OF less.prems(1), of 16] by simp_all
  have no: "\<not> above (int (?n mod 16)) 16" by (simp add: above_def)
  have char: "put_text True [digit_char (?n mod 16)] t = Inr (out_chars [digit_char (?n mod 16)] t)"
    if "serial_ready t" for t
    using that digit_char_ok [of "?n mod 16"] by (intro put_char_ready) auto
  show ?case
  proof (cases "?n < 16")
    case True
    then show ?thesis
      using char [OF less.prems(2)] no
      by (subst write_number_hex.simps, subst digits.simps) (simp add: q h digit_char_def)
  next
    case False
    then have "write_number_hex True (int (?n div 16)) s =
        Inr (out_chars (map digit_char (digits 16 (?n div 16))) s)"
      using less.hyps [of "int (?n div 16)" s] less.prems(2) by (simp add: LONG_MIN_def)
    moreover have "?n div 16 \<noteq> 0" using False by (simp add: div_eq_0_iff)
    ultimately show ?thesis
      using False char [of "out_chars (map digit_char (digits 16 (?n div 16))) s"] less.prems(2) no
      by (subst write_number_hex.simps, subst digits.simps) (simp add: q h digit_char_def)
  qed
qed

lemma bounded_len_exact:
  "m (p + n) = 0 \<Longrightarrow> (\<And>i. i < n \<Longrightarrow> len < i \<Longrightarrow> m (p + i) \<noteq> 0) \<Longrightarrow> len < n \<Longrightarrow> len \<le> Suc bound \<Longrightarrow>
   string_len_bounded_loop m p bound len = (if n \<le> Suc bound \<and> len \<le> bound then n else bound)"
proof (induction "n - len" arbitrary: len)
  case 0
  then show ?case by simp
next
  case (Suc k)
  show ?case
  proof (cases "bound < len")
    case True
    then show ?thesis by (subst string_len_bounded_loop.simps) simp
  next
    case False
    show ?thesis
    proof (cases "Suc len = n")
      case True
      with False Suc.prems show ?thesis by (subst string_len_bounded_loop.simps) simp
    next
      case more: False
      then have "string_len_bounded_loop m p bound (Suc len) =
          (if n \<le> Suc bound \<and> Suc len \<le> bound then n else bound)"
        using Suc.prems Suc.hyps(2) False by (intro Suc.hyps(1)) auto
      moreover have "m (p + Suc len) \<noteq> 0"
        using more Suc.prems(2) [of "Suc len"] Suc.prems(3) by simp
      ultimately show ?thesis
        using False more Suc.prems(3) by (subst string_len_bounded_loop.simps) auto
    qed
  qed
qed

lemma bounded_len_string:
  "rt_string_len m p = Some n \<Longrightarrow> 0 < n \<Longrightarrow> rt_string_len_bounded m p 255 = (if n \<le> 256 then n else 255)"
  unfolding rt_string_len_bounded_def rt_string_len_iff using bounded_len_exact [of m p n 0 255] by simp

text \<open>What \<open>n\<close> reads of the port give.\<close>

fun recv :: "nat \<Rightarrow> serial \<Rightarrow> u8 list \<times> serial" where
  "recv 0 s = ([], s)"
| "recv (Suc n) s =
     (case bus_in8 kPort (bus s) of (ch, b) \<Rightarrow>
      case recv n (s\<lparr>bus := b\<rparr>) of (xs, s1) \<Rightarrow> (ch # xs, s1))"

lemma read_skips_iff: "read_skips ch \<longleftrightarrow> ch < 0x61"
  by (auto simp: read_skips_def intro: order.strict_trans)

lemma store8_write_bytes: "write_bytes (a + 1) bs (store8 a v m) = write_bytes a (v # bs) m"
  by (rule ext) (auto simp: store8_def write_bytes_def nth_Cons' le_Suc_eq)

lemma read_loop_filters:
  assumes "recv n s = (ks, s1)" and "bus_in8 kPort (bus s1) = (13, b)" and "13 \<notin> set ks" and "n < fuel"
  shows "\<exists>m'. read_loop fuel p i m s = Inr (i + length (filter (\<lambda>c. 0x61 \<le> c) ks), m', s1\<lparr>bus := b\<rparr>) \<and>
    m' = write_bytes (p + i) (filter (\<lambda>c. 0x61 \<le> c) ks) m"
  using assms
proof (induction n arbitrary: s ks fuel i m)
  case 0
  then obtain f where "fuel = Suc f" by (cases fuel) auto
  with 0 show ?case by (auto simp: write_bytes_def fun_eq_iff)
next
  case (Suc n)
  obtain ch b1 where ch: "bus_in8 kPort (bus s) = (ch, b1)" by (cases "bus_in8 kPort (bus s)") auto
  obtain xs where xs: "recv n (s\<lparr>bus := b1\<rparr>) = (xs, s1)" "ks = ch # xs"
    using Suc.prems(1) ch by (auto split: prod.splits)
  obtain f where f: "fuel = Suc f" using Suc.prems(4) by (cases fuel) auto
  show ?case
  proof (cases "ch < 0x61")
    case True
    then show ?thesis
      using Suc.IH [OF xs(1) Suc.prems(2), of f i m] Suc.prems(3,4) ch xs(2) f
      by (auto simp: read_skips_iff not_le)
  next
    case False
    then show ?thesis
      using Suc.IH [OF xs(1) Suc.prems(2), of f "Suc i" "store8 (p + i) ch m"] Suc.prems(3,4) ch xs(2) f
        store8_write_bytes [of "p + i" _ ch m]
      by (auto simp: read_skips_iff not_le)
  qed
qed

lemma recv_frame: "recv n s = (ks, s1) \<Longrightarrow> recv n (s\<lparr>kState := k\<rparr>) = (ks, s1\<lparr>kState := k\<rparr>) \<and> kState s1 = kState s"
proof (induction n arbitrary: s ks)
  case (Suc n)
  then obtain ch b xs where ch: "bus_in8 kPort (bus s) = (ch, b)" "recv n (s\<lparr>bus := b\<rparr>) = (xs, s1)" "ks = ch # xs"
    by (auto split: prod.splits)
  have "s\<lparr>bus := b, kState := k\<rparr> = s\<lparr>kState := k, bus := b\<rparr>" by (cases s) simp
  with Suc.IH [OF ch(2)] ch show ?case by simp
qed simp

text \<open>A line with Enter pressed after the keys of a list, for the witnesses.\<close>

definition key_bus :: "u8 list \<Rightarrow> iobus" where
  "key_bus ks = \<lparr>answer = (\<lambda>h p. ucast ((ks @ [13]) ! length (filter (\<lambda>e. case e of In _ _ \<Rightarrow> True | _ \<Rightarrow> False) h))),
     history = []\<rparr>"

definition key_serial :: "u8 list \<Rightarrow> serial" where
  "key_serial ks = \<lparr>bus = key_bus ks, kState = kStateReady\<rparr>"

lemma key_recv:
  "recv (Suc (Suc 0)) (key_serial [0x41, 0x62]) =
     ([0x41, 0x62], (key_serial [0x41, 0x62])\<lparr>bus := (key_bus [0x41, 0x62])\<lparr>history := [In kPort 0x41, In kPort 0x62]\<rparr>\<rparr>)"
  by (simp add: key_serial_def key_bus_def bus_in8_def port_in_def)

subsection \<open>Properties\<close>

text \<open>
  Printing a number in a debug build, on a port that is set up: the port gets exactly the
  decimal digits of the absolute value (the sign is lost), and for \<^verbatim>\<open>hex_number\<close> its
  hexadecimal digits followed by an h. Reading the digits back gives the absolute value, for every
  \<^verbatim>\<open>Long\<close> but the smallest.
\<close>

theorem numbers_round_trip:
  assumes "LONG_MIN < x" and "kState s = kStateReady"
  shows "number True x s = Inr (out_chars (map digit_char (digits 10 (nat \<bar>x\<bar>))) s) \<and>
    hex_number True x s = Inr (out_chars (map digit_char (digits 16 (nat \<bar>x\<bar>)) @ [104]) s) \<and>
    foldl (\<lambda>acc d. 10 * acc + d) 0 (digits 10 (nat \<bar>x\<bar>)) = nat \<bar>x\<bar> \<and>
    foldl (\<lambda>acc d. 16 * acc + d) 0 (digits 16 (nat \<bar>x\<bar>)) = nat \<bar>x\<bar>"
  using assms(2) write_number_digits [OF assms(1)] write_number_hex_digits [OF assms(1)]
  by (simp add: number_def hex_number_def put_char_ready foldl_digits flip: serial_ready_def)

theorem numbers_round_trip_witness:
  "number True (- 305) (key_serial []) = Inr (out_chars [51, 48, 53] (key_serial []))"
proof -
  have "map digit_char (digits 10 305) = [51, 48, 53]" by code_simp
  then show ?thesis
    using numbers_round_trip [of "- 305" "key_serial []"] by (simp add: LONG_MIN_def key_serial_def)
qed

text \<open>
  Writing to the terminal in a debug build: a string of \<open>n > 0\<close> characters goes out whole when it
  has at most 256 of them, and its first 255 otherwise, each carriage return followed by a line
  feed; the port is ready again. An empty string or a null pointer sends nothing, and a release build
  never sends anything.
\<close>

theorem terminal_write_spec:
  assumes "kState s = kStateReady" and "p \<noteq> 0" and "rt_string_len m p = Some n"
  shows "ke_io_write False m p s = Inr s \<and> ke_io_write True m 0 s = Inr s \<and>
    (\<exists>s'. ke_io_write True m p s = Inr s' \<and> kState s' = kStateReady \<and>
      history (bus s') = history (bus s) @
        map (\<lambda>ch. Out 0x3F8 (ucast ch))
          (concat (map (\<lambda>ch. if ch = 13 then [13, 10] else [ch])
            (map m [p..<p + (if n \<le> 256 then n else 255)]))))"
proof (cases "n = 0")
  case True
  with assms show ?thesis by (simp add: ke_io_write_def hal_serial_init_def rt_string_len_iff)
next
  case False
  moreover have "m p \<noteq> 0" using assms(3) False by (auto simp: rt_string_len_iff dest: spec [of _ 0])
  ultimately show ?thesis
    using assms bounded_len_string [OF assms(3)] write_loop_sends(1) [of m p 0]
    by (simp add: ke_io_write_def hal_serial_init_def Let_def sent_def crlf_def kPort_def)
qed

theorem terminal_write_spec_witness:
  "\<exists>s'. ke_io_write True (str_mem [104, 13]) 1 (key_serial []) = Inr s' \<and>
     history (bus s') = [Out 0x3F8 104, Out 0x3F8 13, Out 0x3F8 10]"
proof -
  have m: "str_mem [104, 13] 1 = 104" "str_mem [104, 13] 2 = 13" "str_mem [104, 13] 3 = 0"
    by (simp_all add: str_mem_def write_bytes_def)
  have "rt_string_len (str_mem [104, 13]) 1 = Some 2"
    unfolding rt_string_len_iff less_2_cases_iff by (auto simp: m m(1) [simplified] numeral_2_eq_2 [symmetric])
  then obtain s' where "ke_io_write True (str_mem [104, 13]) 1 (key_serial []) = Inr s'"
    and "history (bus s') = map (\<lambda>ch. Out 0x3F8 (ucast ch)) (concat (map (\<lambda>ch. if ch = 13 then [13, 10] else [ch])
      (map (str_mem [104, 13]) [1..<1 + 2])))"
    using terminal_write_spec [of "key_serial []" 1 "str_mem [104, 13]" 2]
    by (auto simp: key_serial_def key_bus_def)
  moreover have "map (str_mem [104, 13]) [1..<1 + 2] = [104, 13]"
    using str_mem_read [of "[104, 13]"] by (simp del: upt_Suc)
  ultimately show ?thesis by simp
qed

text \<open>
  Reading a line: when the device sends the keys \<open>ks\<close> and then Enter, the buffer receives the keys
  from the small a upwards, then a terminator, however long the line is; digits, capitals and
  punctuation below it are dropped, the characters the code lists as accepted included.
\<close>

theorem terminal_read_spec:
  assumes "kState s = kStateReady" and "p \<noteq> 0" and "recv n s = (ks, s1)"
    and "bus_in8 kPort (bus s1) = (13, b)" and "13 \<notin> set ks" and "n < fuel"
  shows "ke_io_read True fuel p m s =
    Inr (write_bytes p (filter (\<lambda>c. 0x61 \<le> c) ks @ [0]) m, s1\<lparr>bus := b\<rparr>)"
proof -
  let ?xs = "filter (\<lambda>c. 0x61 \<le> c) ks" and ?t = "kStateTransmit"
  have "read_loop fuel p 0 m (s\<lparr>kState := ?t\<rparr>) =
      Inr (length ?xs, write_bytes p ?xs m, s1\<lparr>kState := ?t\<rparr>\<lparr>bus := b\<rparr>)"
    using read_loop_filters [of n "s\<lparr>kState := ?t\<rparr>" ks "s1\<lparr>kState := ?t\<rparr>" b fuel p 0 m]
      recv_frame [OF assms(3), of ?t] assms(4-6) by simp
  moreover have "s1\<lparr>kState := ?t\<rparr>\<lparr>bus := b\<rparr>\<lparr>kState := kStateReady\<rparr> = s1\<lparr>bus := b\<rparr>"
    using recv_frame [OF assms(3), of ?t] assms(1) by (cases s1) simp
  moreover have "store8 (p + length ?xs) 0 (write_bytes p ?xs m) = write_bytes p (?xs @ [0]) m"
    by (rule ext) (auto simp: store8_def write_bytes_def nth_append)
  ultimately show ?thesis
    using assms(1,2) by (simp add: ke_io_read_def hal_serial_init_def)
qed

theorem terminal_read_spec_witness:
  "\<exists>s'. ke_io_read True 5 0x100 (\<lambda>_. 0xFF) (key_serial [0x41, 0x62]) = Inr (write_bytes 0x100 [0x62, 0] (\<lambda>_. 0xFF), s')"
  using terminal_read_spec [OF _ _ key_recv _ _, of "0x100" "(key_bus [0x41, 0x62])\<lparr>history := [In kPort 0x41, In kPort 0x62, In kPort 13]\<rparr>"
      5 "\<lambda>_. 0xFF"]
  by (simp add: key_serial_def key_bus_def bus_in8_def port_in_def)

end
