(* ===== verification/CpuTables.thy ===== *)
theory CpuTables
  imports Ports
begin

text \<open>
  The processor's tables on AMD64: loading the interrupt descriptor table and the timer set-up of
  \<^verbatim>\<open>HALKit/AMD64/HalDescriptorLoader.cc\<close>, the data and the register helpers of
  \<^verbatim>\<open>HALKit/AMD64/Processor.h\<close> and the I/O APIC of \<^verbatim>\<open>HalAPICController.cc\<close>.

  \<open>cpu\<close> is what these routines change: the vector table, the two table registers as last loaded, the
  interrupt flag, the model specific registers and the ports. Instructions that only assembly can
  give (\<^verbatim>\<open>lidt\<close>, \<^verbatim>\<open>lgdt\<close>, \<^verbatim>\<open>cli\<close>, \<^verbatim>\<open>sti\<close>, \<^verbatim>\<open>rdmsr\<close>,
  \<^verbatim>\<open>wrmsr\<close>) act on these fields.
\<close>

subsection \<open>Data\<close>

record InterruptDescriptorAMD64 =
  OffsetLow :: u16
  Selector :: u16
  Ist :: u8
  TypeAttributes :: u8
  OffsetMid :: u16
  OffsetHigh :: u32
  Zero :: u32

definition InterruptDescriptorAMD64_zero :: InterruptDescriptorAMD64 where
  "InterruptDescriptorAMD64_zero =
     \<lparr>OffsetLow = 0, Selector = 0, Ist = 0, TypeAttributes = 0, OffsetMid = 0, OffsetHigh = 0, Zero = 0\<rparr>"

definition sizeof_InterruptDescriptorAMD64 :: nat where
  "sizeof_InterruptDescriptorAMD64 = 2 + 2 + 1 + 1 + 2 + 4 + 4"

record Register64 =
  Limit :: u16
  Base :: u64

record SegmentDescriptor =
  seg_Base :: u16
  seg_BaseMiddle :: u8
  seg_BaseHigh :: u8
  seg_Limit :: u16
  seg_Gran :: u8
  seg_AccessByte :: u8

definition SegmentDescriptor_IsValid :: "SegmentDescriptor \<Rightarrow> bool" where
  "SegmentDescriptor_IsValid seg \<longleftrightarrow> seg_Base seg > seg_Limit seg"

definition SegmentDescriptor_Equals :: "SegmentDescriptor \<Rightarrow> SegmentDescriptor \<Rightarrow> bool" where
  "SegmentDescriptor_Equals seg segRight \<longleftrightarrow>
     seg_Base seg = seg_Base segRight \<and> seg_Limit seg = seg_Limit segRight"

definition kKernelIdtSize :: nat where "kKernelIdtSize = 0x100"
definition kInterruptGate :: u8 where "kInterruptGate = 0x8E"
definition kIDTSelector :: u16 where "kIDTSelector = 0x08"
definition kPITDefaultTicks :: u16 where "kPITDefaultTicks = 1000"
definition kPITFrequency :: u32 where "kPITFrequency = 1193180"

abbreviation kPITControlPort :: u16 where "kPITControlPort \<equiv> 0x43"
abbreviation kPITChannel0Port :: u16 where "kPITChannel0Port \<equiv> 0x40"
abbreviation kPICData :: u16 where "kPICData \<equiv> 0x21"
abbreviation kPIC2Data :: u16 where "kPIC2Data \<equiv> 0xA1"

record cpu =
  kInterruptVectorTable :: "InterruptDescriptorAMD64 list"
  idtr :: Register64
  gdtr :: Register64
  interrupts_on :: bool
  msrs :: "u32 \<Rightarrow> u64"
  ports :: iobus

definition cpu_boot :: "iobus \<Rightarrow> cpu" where
  "cpu_boot b =
     \<lparr>kInterruptVectorTable = replicate kKernelIdtSize InterruptDescriptorAMD64_zero,
      idtr = \<lparr>Limit = 0, Base = 0\<rparr>, gdtr = \<lparr>Limit = 0, Base = 0\<rparr>, interrupts_on = True, msrs = (\<lambda>_. 0),
      ports = b\<rparr>"

subsection \<open>The interrupt controllers and the timer\<close>

text \<open>Shifting one left happens at 32 bits; the result is cut to a byte.\<close>

definition irq_port :: "u8 \<Rightarrow> u16 \<times> u8" where
  "irq_port irql = (if irql < 8 then (kPICData, irql) else (kPIC2Data, irql - 8))"

definition hal_set_irq_mask :: "u8 \<Rightarrow> iobus \<Rightarrow> iobus" where
  "hal_set_irq_mask irql b =
     (case irq_port irql of (port, n) \<Rightarrow> case bus_in8 port b of (v, b1) \<Rightarrow>
        bus_out8 port (ucast ((ucast v :: u32) OR push_bit (unat n) 1)) b1)"

definition hal_clear_irq_mask :: "u8 \<Rightarrow> iobus \<Rightarrow> iobus" where
  "hal_clear_irq_mask irql b =
     (case irq_port irql of (port, n) \<Rightarrow> case bus_in8 port b of (v, b1) \<Rightarrow>
        bus_out8 port (ucast ((ucast v :: u32) AND NOT (push_bit (unat n) 1))) b1)"

definition hal_enable_pit :: "u16 \<Rightarrow> iobus \<Rightarrow> iobus" where
  "hal_enable_pit ticks b =
     (let t = (if ticks = 0 then kPITDefaultTicks else ticks);
          divisor = (ucast (kPITFrequency div ucast t) :: u16);
          b1 = bus_out8 kPITControlPort 0x36 b;
          b2 = bus_out8 kPITChannel0Port (ucast (divisor AND 0xFF)) b1;
          b3 = bus_out8 kPITChannel0Port (ucast (drop_bit 8 divisor AND 0xFF)) b2
      in hal_clear_irq_mask 32 b3)"

subsection \<open>Loading the tables\<close>

definition gate_of :: "u64 \<Rightarrow> InterruptDescriptorAMD64" where
  "gate_of h =
     \<lparr>OffsetLow = ucast (h AND 0xFFFF), Selector = kIDTSelector, Ist = 0, TypeAttributes = kInterruptGate,
      OffsetMid = ucast (drop_bit 16 h AND 0xFFFF), OffsetHigh = ucast (drop_bit 32 h AND 0xFFFFFFFF), Zero = 0\<rparr>"

fun idt_loop :: "mem \<Rightarrow> nat \<Rightarrow> nat \<Rightarrow> nat \<Rightarrow> InterruptDescriptorAMD64 list \<Rightarrow> InterruptDescriptorAMD64 list" where
  "idt_loop m ptr_ivt idt_indx 0 tab = tab"
| "idt_loop m ptr_ivt idt_indx (Suc left) tab =
     idt_loop m ptr_ivt (Suc idt_indx) left (tab[idt_indx := gate_of (load64 (ptr_ivt + 8 * idt_indx) m)])"

text \<open>\<open>table\<close> is the address of \<^verbatim>\<open>kInterruptVectorTable\<close>.\<close>

definition IDTLoader_Load :: "mem \<Rightarrow> u64 \<Rightarrow> Register64 \<Rightarrow> cpu \<Rightarrow> Register64 \<times> cpu" where
  "IDTLoader_Load m table idt c =
     (let c1 = c\<lparr>interrupts_on := False,
                 kInterruptVectorTable := idt_loop m (unat (Base idt)) 0 kKernelIdtSize (kInterruptVectorTable c)\<rparr>;
          idt1 = \<lparr>Limit = of_nat (sizeof_InterruptDescriptorAMD64 * kKernelIdtSize), Base = table\<rparr>;
          c2 = c1\<lparr>idtr := idt1\<rparr>;
          c3 = c2\<lparr>ports := hal_enable_pit kPITDefaultTicks (ports c2)\<rparr>
      in (idt1, c3\<lparr>interrupts_on := True\<rparr>))"

definition GDTLoader_Load :: "Register64 \<Rightarrow> cpu \<Rightarrow> cpu" where
  "GDTLoader_Load gdt c = c\<lparr>gdtr := gdt\<rparr>"

text \<open>The overloads on references.\<close>

definition IDTLoader_LoadRef :: "mem \<Rightarrow> u64 \<Rightarrow> Register64 option \<Rightarrow> cpu \<Rightarrow> fault + (Register64 \<times> cpu)" where
  "IDTLoader_LoadRef m table idt c =
     (case idt of None \<Rightarrow> Inl NullDeref | Some r \<Rightarrow> Inr (IDTLoader_Load m table r c))"

definition GDTLoader_LoadRef :: "Register64 option \<Rightarrow> cpu \<Rightarrow> fault + cpu" where
  "GDTLoader_LoadRef gdt c =
     (case gdt of None \<Rightarrow> Inl NullDeref | Some r \<Rightarrow> Inr (GDTLoader_Load r c))"

subsection \<open>Model specific registers and the I/O APIC\<close>

text \<open>The processor's identification is a parameter: the fourth register it gives for leaf 1.\<close>

definition hal_has_msr :: "u32 \<Rightarrow> bool" where
  "hal_has_msr cpuid_edx \<longleftrightarrow> cpuid_edx AND push_bit 5 1 \<noteq> 0"

text \<open>The two halves, where both pointers are valid.\<close>

definition hal_get_msr :: "u32 \<Rightarrow> bool \<Rightarrow> bool \<Rightarrow> cpu \<Rightarrow> (u32 \<times> u32) option" where
  "hal_get_msr msr lo hi c =
     (if \<not> lo \<or> \<not> hi then None else Some (ucast (msrs c msr), ucast (drop_bit 32 (msrs c msr))))"

definition hal_set_msr :: "u32 \<Rightarrow> u32 \<Rightarrow> u32 \<Rightarrow> cpu \<Rightarrow> cpu" where
  "hal_set_msr msr lo hi c = c\<lparr>msrs := (msrs c)(msr := ucast lo OR push_bit 32 (ucast hi))\<rparr>"

text \<open>
  The I/O APIC: a select register (word 0) and a window (word 4) on the register selected.
\<close>

record ioapic =
  fApic :: nat
  io_select :: u32
  io_regs :: "u32 \<Rightarrow> u32"

definition APICController_Read :: "bool \<Rightarrow> u32 \<Rightarrow> ioapic \<Rightarrow> fault + (u32 \<times> ioapic)" where
  "APICController_Read dbg reg a =
     bindF (must_pass dbg (fApic a \<noteq> 0)) (\<lambda>_.
       if fApic a = 0 then Inl NullDeref
       else let a1 = a\<lparr>io_select := reg AND 0xFF\<rparr> in Inr (io_regs a1 (io_select a1), a1))"

definition APICController_Write :: "bool \<Rightarrow> u32 \<Rightarrow> u32 \<Rightarrow> ioapic \<Rightarrow> fault + ioapic" where
  "APICController_Write dbg reg val a =
     bindF (must_pass dbg (fApic a \<noteq> 0)) (\<lambda>_.
       if fApic a = 0 then Inl NullDeref
       else let a1 = a\<lparr>io_select := reg AND 0xFF\<rparr> in
            Inr (a1\<lparr>io_regs := (io_regs a1)(io_select a1 := val)\<rparr>))"

subsection \<open>Lemmas\<close>

text \<open>What the processor reads from a gate.\<close>

definition gate_target :: "InterruptDescriptorAMD64 \<Rightarrow> u64" where
  "gate_target g = push_bit 32 (ucast (OffsetHigh g)) OR push_bit 16 (ucast (OffsetMid g)) OR ucast (OffsetLow g)"

lemma gate_of_mask:
  "gate_of h =
     \<lparr>OffsetLow = ucast (h AND mask 16), Selector = kIDTSelector, Ist = 0, TypeAttributes = kInterruptGate,
      OffsetMid = ucast (drop_bit 16 h AND mask 16), OffsetHigh = ucast (drop_bit 32 h AND mask 32), Zero = 0\<rparr>"
  by (simp add: gate_of_def mask_eq_exp_minus_1)

lemma gate_target_of: "gate_target (gate_of h) = h"
proof (rule bit_word_eqI)
  fix n
  assume "n < LENGTH(64)"
  then consider "n < 16" | "16 \<le> n" "n < 32" | "32 \<le> n" "n < 64" by fastforce
  then show "bit (gate_target (gate_of h)) n = bit h n"
    unfolding gate_target_def gate_of_mask
    by cases (auto simp: bit_simps simp del: take_bit_eq_mask)
qed

lemma idt_loop_nth:
  "i < length tab \<Longrightarrow> idt_loop m p k n tab ! i =
     (if k \<le> i \<and> i < k + n then gate_of (load64 (p + 8 * i) m) else tab ! i)"
  "length (idt_loop m p k n tab) = length tab"
  by (induction m p k n tab rule: idt_loop.induct) (auto simp: nth_list_update not_less_eq_eq)

lemma msr_low: "ucast (ucast lo OR push_bit 32 (ucast hi) :: u64) = (lo :: u32)"
  by (rule bit_word_eqI) (auto simp: bit_simps)

lemma msr_high: "ucast (drop_bit 32 (ucast (lo :: u32) OR push_bit 32 (ucast hi) :: u64)) = (hi :: u32)"
proof (rule bit_word_eqI)
  fix n
  assume "n < LENGTH(32)"
  moreover have "\<not> bit lo (32 + n)" using bit_imp_le_length [of lo "32 + n"] by auto
  ultimately show "bit (ucast (drop_bit 32 (ucast lo OR push_bit 32 (ucast hi) :: u64)) :: u32) n = bit hi n"
    by (simp add: bit_simps)
qed

lemma irq32_unchanged: "(ucast ((ucast (v :: u8) :: u32) AND NOT (push_bit 24 1)) :: u8) = v"
proof (rule bit_word_eqI)
  fix n
  assume "n < LENGTH(8)"
  moreover from this have "\<not> bit (push_bit 24 (1 :: u32)) n"
    unfolding bit_push_bit_iff by simp
  ultimately show "bit (ucast ((ucast v :: u32) AND NOT (push_bit 24 1)) :: u8) n = bit v n"
    unfolding bit_ucast_iff bit_and_iff bit_not_iff by simp
qed

lemmas bit_facts = msr_high [simplified] irq32_unchanged [simplified] msr_low

lemma IDTLoader_Load_fields:
  assumes "IDTLoader_Load m table idt c = (idt', c')"
  shows "kInterruptVectorTable c' = idt_loop m (unat (Base idt)) 0 256 (kInterruptVectorTable c)"
    and "idtr c' = idt'" and "idt' = \<lparr>Limit = 4096, Base = table\<rparr>" and "interrupts_on c'"
  using assms unfolding IDTLoader_Load_def Let_def kKernelIdtSize_def sizeof_InterruptDescriptorAMD64_def
  by auto

subsection \<open>Properties\<close>

text \<open>
  C39. After the interrupt descriptor table is loaded, from any 256 handlers: every gate is a present
  interrupt gate of the kernel's code segment whose three offset fields recombine to exactly the
  handler's address; the register covers the table (one byte past it), interrupts are on.
\<close>

theorem idt_gates_well_formed:
  assumes "length (kInterruptVectorTable c) = 256" and "IDTLoader_Load m table idt c = (idt', c')"
  shows "length (kInterruptVectorTable c') = 256 \<and>
    (\<forall>i < 256. let g = kInterruptVectorTable c' ! i in
       gate_target g = load64 (unat (Base idt) + 8 * i) m \<and> Selector g = 8 \<and> TypeAttributes g = 0x8E \<and>
       Ist g = 0 \<and> Zero g = 0) \<and>
    idtr c' = idt' \<and> idt' = \<lparr>Limit = 4096, Base = table\<rparr> \<and> interrupts_on c'"
proof -
  note load = IDTLoader_Load_fields [OF assms(2)]
  have gate: "kInterruptVectorTable c' ! i = gate_of (load64 (unat (Base idt) + 8 * i) m)" if "i < 256" for i
    unfolding load(1)
    using that assms(1) idt_loop_nth(1) [of i "kInterruptVectorTable c" m "unat (Base idt)" 0 256] by simp
  have "length (kInterruptVectorTable c') = 256"
    unfolding load(1) idt_loop_nth(2) by (rule assms(1))
  then show ?thesis
    using load(2-4) by (simp add: gate gate_target_of Let_def)
      (simp add: gate_of_def kIDTSelector_def kInterruptGate_def)
qed

theorem idt_gates_well_formed_witness:
  "gate_target (kInterruptVectorTable (snd (IDTLoader_Load (store64 40 0xFFFF800000123456 (\<lambda>_. 0)) 0x1000 \<lparr>Limit = 0, Base = 0\<rparr>
     (cpu_boot \<lparr>answer = (\<lambda>_ _. 0), history = []\<rparr>))) ! 5) = 0xFFFF800000123456"
proof -
  let ?c = "cpu_boot \<lparr>answer = (\<lambda>_ _. 0), history = []\<rparr>"
  let ?r = "\<lparr>Limit = 0, Base = 0\<rparr> :: Register64"
  obtain r c' where rc: "IDTLoader_Load (store64 40 0xFFFF800000123456 (\<lambda>_. 0)) 0x1000 ?r ?c = (r, c')" by fastforce
  have "length (kInterruptVectorTable ?c) = 256" by (simp add: cpu_boot_def kKernelIdtSize_def)
  from idt_gates_well_formed [OF this rc]
  have "\<forall>i < 256. gate_target (kInterruptVectorTable c' ! i) = load64 (8 * i) (store64 40 0xFFFF800000123456 (\<lambda>_. 0))"
    by (simp add: Let_def)
  from this [rule_format, of 5] rc show ?thesis by simp
qed

text \<open>
  The timer set-up: it programs channel 0 with the divisor 1193, which is 1000 interrupts a second,
  low byte first, and leaves the timer's interrupt masked as it was. The mask is cleared for line 32, so the second
  controller's mask is read and written back unchanged.
\<close>

theorem pit_set_up_leaves_mask:
  "\<exists>v. hal_enable_pit 1000 b =
     b\<lparr>history := history b @ [Out 0x43 0x36, Out 0x40 0xA9, Out 0x40 0x04, In 0xA1 (ucast (v :: u8)), Out 0xA1 (ucast v)]\<rparr> \<and>
   hal_enable_pit 0 b = hal_enable_pit 1000 b \<and> unat (kPITFrequency div 1000) = 1193"
proof -
  let ?b = "bus_out8 0x40 4 (bus_out8 0x40 0xA9 (bus_out8 0x43 0x36 b))"
  have eq: "hal_enable_pit 1000 b = hal_clear_irq_mask 32 ?b" "hal_enable_pit 0 b = hal_enable_pit 1000 b"
    by (simp_all add: hal_enable_pit_def kPITFrequency_def kPITDefaultTicks_def Let_def)
  obtain v b1 where v: "bus_in8 0xA1 ?b = (v, b1)" by (cases "bus_in8 0xA1 ?b")
  then have "b1 = ?b\<lparr>history := history ?b @ [In 0xA1 (ucast v)]\<rparr>"
    by (auto simp: bus_in8_def port_in_def)
  with v eq have "hal_enable_pit 1000 b =
     b\<lparr>history := history b @ [Out 0x43 0x36, Out 0x40 0xA9, Out 0x40 0x04, In 0xA1 (ucast v), Out 0xA1 (ucast v)]\<rparr>"
    by (simp add: hal_clear_irq_mask_def irq_port_def bit_facts bus_out8_def port_out_def)
  with eq(2) show ?thesis by (auto simp: kPITFrequency_def)
qed

text \<open>
  A model specific register gives back the two halves last written to it, and an I/O APIC register
  the value last written to a register with the same low eight bits; other registers are unaffected.
\<close>

theorem cpu_registers_read_back:
  assumes "fApic a \<noteq> 0" and "APICController_Write dbg r v a = Inr a'"
  shows "hal_get_msr k True True (hal_set_msr n lo hi c) =
      (if k = n then Some (lo, hi) else hal_get_msr k True True c) \<and>
    (\<exists>a''. APICController_Read dbg r' a' =
      Inr (if r AND 0xFF = r' AND 0xFF then v else io_regs a (r' AND 0xFF), a''))"
  using assms by (auto simp: hal_get_msr_def hal_set_msr_def bit_facts APICController_Write_def
      APICController_Read_def)

theorem cpu_registers_read_back_witness:
  "\<exists>a' a''. APICController_Write True 0x110 7 \<lparr>fApic = 1, io_select = 0, io_regs = (\<lambda>_. 0)\<rparr> = Inr a' \<and>
     APICController_Read True 0x10 a' = Inr (7, a'')"
  using cpu_registers_read_back [of "\<lparr>fApic = 1, io_select = 0, io_regs = (\<lambda>_. 0)\<rparr>" True "0x110" 7 _ 0 0 0 0 undefined "0x10"]
  by (simp add: APICController_Write_def)

end
