(* ===== verification/Acpi.thy ===== *)
theory Acpi
  imports RtUtils
begin

text \<open>
  The ACPI tables: \<^verbatim>\<open>src/ACPIFactoryInterface.cc\<close>, the power functions of
  \<^verbatim>\<open>HALKit/AMD64/HalACPIFactoryInterface.cc\<close> and the records of \<^verbatim>\<open>Mod/ACPI\<close>.

  The tables are the firmware's, in memory; the records are packed, so a field is at the sum of the
  sizes before it. \<^verbatim>\<open>ErrorOr<voidPtr>\<close> is a code or an address; \<open>leak\<close> takes the value
  out and goes through a null reference when there is none.
\<close>

subsection \<open>Records\<close>

definition sizeof_SDT :: nat where
  "sizeof_SDT = 4 + 4 + 1 + 1 + 6 + 8 + 4 + 4 + 4"

definition SDT_Length :: "nat \<Rightarrow> mem \<Rightarrow> u32" where "SDT_Length t m = load32 (t + 4) m"
definition SDT_Revision :: "nat \<Rightarrow> mem \<Rightarrow> u8" where "SDT_Revision t m = m (t + 8)"
definition RSDP_RsdtAddress :: "nat \<Rightarrow> mem \<Rightarrow> u32" where "RSDP_RsdtAddress t m = load32 (t + 36) m"
definition RSDT_AddressArr :: "nat \<Rightarrow> nat \<Rightarrow> mem \<Rightarrow> u32" where "RSDT_AddressArr t i m = load32 (t + 36 + 4 * i) m"

record ACPIFactoryInterface =
  fRsdp :: nat
  fEntries :: u64

definition ACPIFactoryInterface_new :: "nat \<Rightarrow> ACPIFactoryInterface" where
  "ACPIFactoryInterface_new rsp_ptr = \<lparr>fRsdp = rsp_ptr, fEntries = 0\<rparr>"

type_synonym 'a ErrorOr = "int + 'a"

definition leak :: "'a ErrorOr \<Rightarrow> fault + 'a" where
  "leak e = (case e of Inl _ \<Rightarrow> Inl NullDeref | Inr v \<Rightarrow> Inr v)"

subsection \<open>Find\<close>

text \<open>The inner loop: four characters are compared, up to the first that differs.\<close>

fun signature_loop :: "mem \<Rightarrow> nat \<Rightarrow> nat \<Rightarrow> nat \<Rightarrow> nat \<Rightarrow> bool" where
  "signature_loop m sdt sig i 0 = False"
| "signature_loop m sdt sig i (Suc left) =
     (if m (sdt + i) \<noteq> m (sig + i) then False
      else if i = 3 then True
      else signature_loop m sdt sig (Suc i) left)"

fun find_loop :: "mem \<Rightarrow> nat \<Rightarrow> nat \<Rightarrow> nat \<Rightarrow> nat \<Rightarrow> nat ErrorOr" where
  "find_loop m xsdt sig idx 0 = Inl (- 1)"
| "find_loop m xsdt sig idx (Suc left) =
     (let sdt = unat (RSDT_AddressArr xsdt idx m) in
      if signature_loop m sdt sig 0 4 then Inr sdt else find_loop m xsdt sig (Suc idx) left)"

text \<open>The length less the header is unsigned; the number of entries is it divided by eight.\<close>

definition entry_count :: "nat \<Rightarrow> mem \<Rightarrow> u64" where
  "entry_count xsdt m = (ucast (SDT_Length xsdt m) - of_nat sizeof_SDT) div 8"

definition Find :: "bool \<Rightarrow> nat \<Rightarrow> mem \<Rightarrow> ACPIFactoryInterface \<Rightarrow> fault + (nat ErrorOr \<times> ACPIFactoryInterface)" where
  "Find dbg sig m this =
     bindF (must_pass dbg (fRsdp this \<noteq> 0)) (\<lambda>_.
       if sig = 0 then Inr (Inl (- 1), this)
       else if m sig = 0 then Inr (Inl (- 1), this)
       else if fRsdp this = 0 then Inl NullDeref
       else if SDT_Revision (fRsdp this) m \<le> 1 then Inr (Inl (- 1), this)
       else let xsdt = unat (RSDP_RsdtAddress (fRsdp this) m); num = entry_count xsdt m in
         if num <s 1 then ke_panic RUNTIME_CHECK_ACPI
         else Inr (find_loop m xsdt sig 0 (unat num), this\<lparr>fEntries := num\<rparr>))"

definition ACPI_at :: "bool \<Rightarrow> nat \<Rightarrow> mem \<Rightarrow> ACPIFactoryInterface \<Rightarrow> fault + (nat ErrorOr \<times> ACPIFactoryInterface)" where
  "ACPI_at dbg sig m this = Find dbg sig m this"

subsection \<open>Checksum\<close>

fun checksum_loop :: "mem \<Rightarrow> nat \<Rightarrow> nat \<Rightarrow> nat \<Rightarrow> u8 \<Rightarrow> u8" where
  "checksum_loop m checksum idx 0 chr = chr"
| "checksum_loop m checksum idx (Suc left) chr = checksum_loop m checksum (Suc idx) left (chr + m (checksum + idx))"

definition Checksum :: "mem \<Rightarrow> nat \<Rightarrow> int \<Rightarrow> bool" where
  "Checksum m checksum len = (if len = 0 then True else checksum_loop m checksum 0 (nat len) 0 = 0)"

subsection \<open>Power\<close>

text \<open>
  \<^verbatim>\<open>Shutdown\<close> is a loop of \<^verbatim>\<open>cli; hlt\<close> that never ends: its steps, one after the other.
\<close>

datatype power_step = Cli | Hlt

fun Shutdown :: "nat \<Rightarrow> power_step list \<Rightarrow> fault + power_step list" where
  "Shutdown 0 log = Inl OutOfFuel"
| "Shutdown (Suc fuel) log = Shutdown fuel (log @ [Cli, Hlt])"

subsection \<open>Lemmas\<close>

lemma signature_loop_iff: "signature_loop m sdt sig 0 4 \<longleftrightarrow> read_bytes sdt 4 m = read_bytes sig 4 m"
proof -
  have "signature_loop m sdt sig 0 4 \<longleftrightarrow>
      m sdt = m sig \<and> m (sdt + 1) = m (sig + 1) \<and> m (sdt + 2) = m (sig + 2) \<and> m (sdt + 3) = m (sig + 3)"
    by (simp add: numeral_eq_Suc)
  also have "\<dots> \<longleftrightarrow> (\<forall>i < 4. m (sdt + i) = m (sig + i))"
    by (auto simp: less_Suc_eq numeral_eq_Suc)
  finally show ?thesis by (simp add: read_bytes_eq_iff)
qed

lemma find_loop_first:
  "find_loop m xsdt sig idx left =
     (case find (\<lambda>i. read_bytes (unat (RSDT_AddressArr xsdt i m)) 4 m = read_bytes sig 4 m) [idx..<idx + left] of
        None \<Rightarrow> Inl (- 1)
      | Some i \<Rightarrow> Inr (unat (RSDT_AddressArr xsdt i m)))"
  by (induction m xsdt sig idx left rule: find_loop.induct)
    (auto simp: Let_def signature_loop_iff upt_conv_Cons simp del: upt_Suc)

lemma checksum_loop_sum: "checksum_loop m p idx left chr = chr + sum_list (map m [p + idx..<p + idx + left])"
  by (induction m p idx left chr rule: checksum_loop.induct) (auto simp: upt_conv_Cons simp del: upt_Suc)

lemma sum_list_words: "sum_list (xs :: u8 list) = of_nat (sum_list (map unat xs))"
  by (induction xs) auto

lemma entry_count_unat:
  "unat (entry_count xsdt m) =
     (if 36 \<le> unat (SDT_Length xsdt m) then (unat (SDT_Length xsdt m) - 36) div 8
      else (2 ^ 64 + unat (SDT_Length xsdt m) - 36) div 8)"
proof -
  let ?n = "unat (SDT_Length xsdt m)" and ?w = "ucast (SDT_Length xsdt m) :: u64"
  have n: "?n < 2 ^ 32" using unsigned_less [of "SDT_Length xsdt m", where ?'a = nat] by simp
  have w: "unat ?w = ?n" using n by (simp add: unsigned_ucast_eq take_bit_nat_eq_self)
  show ?thesis
  proof (cases "36 \<le> ?n")
    case True
    then have "(36 :: u64) \<le> ?w" using w by (simp add: word_le_nat_alt)
    then have "unat (?w - 36) = ?n - 36" using w by (simp add: unat_sub)
    with True show ?thesis by (simp add: entry_count_def sizeof_SDT_def unat_div)
  next
    case False
    then have "unat (?w - 36) = 2 ^ 64 + ?n - 36"
      using w by (simp add: unat_sub_if_size word_size word_le_nat_alt)
    with False show ?thesis by (simp add: entry_count_def sizeof_SDT_def unat_div)
  qed
qed

lemma entry_count_small: "unat (entry_count xsdt m) < 2 ^ 62"
  using unsigned_less [of "SDT_Length xsdt m", where ?'a = nat] by (auto simp: entry_count_unat)

lemma entry_count_sless: "entry_count xsdt m <s 1 \<longleftrightarrow> unat (entry_count xsdt m) = 0"
proof -
  define w where "w = entry_count xsdt m"
  have u: "uint w = int (unat w)" by (rule uint_nat)
  have "unat w < 2 ^ 62" using entry_count_small by (simp add: w_def)
  then have small: "int (unat w) < int (2 ^ 62)" by (simp only: of_nat_less_iff)
  have "- (2 ^ 63) \<le> uint w" by (rule order.trans [OF _ unsigned_greater_eq]) simp
  moreover have "uint w < 2 ^ 63" by (rule order.strict_trans [where b = "2 ^ 62"]) (use u small in simp_all)
  ultimately have "signed_take_bit 63 (uint w) = uint w" by (rule signed_take_bit_int_eq_self)
  then have "sint w = uint w" by (simp add: sint_uint)
  then have "w <s 1 \<longleftrightarrow> uint w < 1" by (simp add: word_sless_alt)
  also have "\<dots> \<longleftrightarrow> unat w = 0" using u by linarith
  finally show ?thesis by (simp add: w_def)
qed

text \<open>A description pointer at 0x10 to a table at 0x100 of a given length, for the witnesses.\<close>

definition acpi_mem :: "u32 \<Rightarrow> mem" where
  "acpi_mem len = (store32 0x104 len (store32 52 0x100 (\<lambda>_. 0)))(24 := 2, 0x500 := 0x41)"

lemma acpi_mem_fields:
  "SDT_Revision 16 (acpi_mem len) = 2" "RSDP_RsdtAddress 16 (acpi_mem len) = 0x100"
  "SDT_Length 0x100 (acpi_mem len) = len" "acpi_mem len 0x500 = 0x41"
  using load32_store8_other [of 24 _ 2] load32_store8_other [of "0x500" _ "0x41"]
  by (simp_all add: SDT_Revision_def RSDP_RsdtAddress_def SDT_Length_def acpi_mem_def
      load32_store32_other disjoint_ext_def store8_other flip: store8_def)

subsection \<open>Properties\<close>

text \<open>
  The table search, on a pointer of revision 2 or more and a signature that is not empty: with
  \<open>n\<close> the length in the table's header, the answer is the first of the \<open>(n - 36) div 8\<close> entries whose four
  characters are the signature's, or -1 when there is none. Entries have four bytes, so the second half of
  the table is never looked at. A table of 36 to 43 bytes panics; one that claims fewer than its header
  is searched over more than two to the sixty-first entries, the check against underflows notwithstanding.
\<close>

theorem Find_spec:
  assumes "fRsdp a \<noteq> 0" and "sig \<noteq> 0" and "m sig \<noteq> 0" and "1 < SDT_Revision (fRsdp a) m"
    and "x = unat (RSDP_RsdtAddress (fRsdp a) m)" and "n = unat (SDT_Length x m)"
  shows "Find dbg sig m a =
    (if 36 \<le> n \<and> n < 44 then Inl (Panic 1118)
     else Inr (case find (\<lambda>i. read_bytes (unat (RSDT_AddressArr x i m)) 4 m = read_bytes sig 4 m)
                      [0..<(if 36 \<le> n then (n - 36) div 8 else (2 ^ 64 + n - 36) div 8)] of
                 None \<Rightarrow> Inl (- 1)
               | Some i \<Rightarrow> Inr (unat (RSDT_AddressArr x i m)),
               a\<lparr>fEntries := entry_count x m\<rparr>))"
proof -
  have count: "unat (entry_count x m) = (if 36 \<le> n then (n - 36) div 8 else (2 ^ 64 + n - 36) div 8)"
    using entry_count_unat [of x m] assms(6) by simp
  have "entry_count x m <s 1 \<longleftrightarrow> 36 \<le> n \<and> n < 44"
    unfolding entry_count_sless count by (auto simp: div_eq_0_iff)
  moreover have "(SDT_Revision (fRsdp a) m \<le> 1) = False" using assms(4) by (simp add: not_le)
  ultimately show ?thesis
    using assms(1-3)
    by (simp add: Find_def Let_def find_loop_first count flip: assms(5)) (simp add: ke_panic_def)
qed

theorem Find_spec_witness:
  "Find True 0x500 (acpi_mem 40) \<lparr>fRsdp = 16, fEntries = 0\<rparr> = Inl (Panic 1118)"
  using Find_spec [of "\<lparr>fRsdp = 16, fEntries = 0\<rparr>" "0x500" "acpi_mem 40" "0x100" 40 True]
  by (simp add: acpi_mem_fields)

text \<open>
  The checksum test is the usual one: it succeeds exactly when the bytes add up to a multiple of 256.
  \<^verbatim>\<open>Find\<close> never makes it.
\<close>

theorem Checksum_spec:
  "Checksum m p len \<longleftrightarrow> (\<Sum>i < nat len. unat (m (p + i))) mod 256 = 0"
proof -
  have "checksum_loop m p 0 (nat len) 0 = (of_nat (\<Sum>i < nat len. unat (m (p + i))) :: u8)"
    by (simp add: checksum_loop_sum sum_list_words sum_list_sum_nth atLeast0LessThan comp_def del: of_nat_sum)
  moreover have "(of_nat k :: u8) = 0 \<longleftrightarrow> k mod 256 = 0" for k
    using unat_of_nat8_mod [of k] by (metis unsigned_0 unsigned_eq_0_iff)
  ultimately show ?thesis by (simp add: Checksum_def del: of_nat_sum)
qed

lemma Shutdown_never_returns: "Shutdown fuel log = Inl OutOfFuel"
  by (induction fuel arbitrary: log) auto

end
