(* ===== verification/Timers.thy ===== *)
theory Timers
  imports Acpi
begin

text \<open>
  The timers: \<^verbatim>\<open>KernelKit/Timer.h\<close>, the software timer of \<^verbatim>\<open>src/SoftwareTimer.cc\<close>
  and the hardware timer (HPET) of \<^verbatim>\<open>HALKit/AMD64/HalTimerAMD64.cc\<close>.

  Signed 64-bit values are integers; an addition that can overflow wraps around (\<open>wrap64\<close>). The HPET's
  registers are hardware: a read is answered by a function of the accesses before it.
\<close>

definition wrap64 :: "int \<Rightarrow> int" where
  "wrap64 x = (x + 2 ^ 63) mod 2 ^ 64 - 2 ^ 63"

definition Milliseconds :: "int \<Rightarrow> int" where
  "Milliseconds time = (if time < 0 then 0 else wrap64 (1000 * 1000 * time))"

definition Seconds :: "int \<Rightarrow> int" where
  "Seconds time = (if time < 0 then 0 else wrap64 (1000 * Milliseconds time))"

text \<open>\<^verbatim>\<open>TimerInterface::Wait\<close>.\<close>

definition TimerInterface_Wait :: bool where
  "TimerInterface_Wait = False"

subsection \<open>The software timer\<close>

text \<open>The counter is a cell on the heap, there when the allocation succeeded.\<close>

record SoftwareTimer =
  fDigitalTimer :: "int option"
  fWaitFor :: int

definition SoftwareTimer_new :: "bool \<Rightarrow> bool \<Rightarrow> int \<Rightarrow> fault + SoftwareTimer" where
  "SoftwareTimer_new dbg allocated seconds =
     bindF (must_pass dbg allocated) (\<lambda>_.
       Inr \<lparr>fDigitalTimer = (if allocated then Some 0 else None), fWaitFor = seconds\<rparr>)"

definition SoftwareTimer_delete :: "SoftwareTimer \<Rightarrow> SoftwareTimer" where
  "SoftwareTimer_delete t = t\<lparr>fDigitalTimer := None, fWaitFor := 0\<rparr>"

function software_loop :: "int \<Rightarrow> int \<Rightarrow> int" where
  "software_loop w t = (if t < wrap64 (t + w) then software_loop w (t + 1) else t)"
  by pat_completeness auto
termination
proof (relation "measure (\<lambda>(w, t). nat (2 ^ 63 - t))")
  fix w t :: int
  assume less: "t < wrap64 (t + w)"
  have "(t + w + 2 ^ 63) mod 2 ^ 64 < (2 :: int) ^ 64" by (rule pos_mod_bound) simp
  then have "wrap64 (t + w) < 2 ^ 63" by (simp add: wrap64_def)
  with less show "((w, t + 1), (w, t)) \<in> measure (\<lambda>(w, t). nat (2 ^ 63 - t))" by simp
qed simp

declare software_loop.simps [simp del]

definition SoftwareTimer_Wait :: "SoftwareTimer \<Rightarrow> fault + (bool \<times> SoftwareTimer)" where
  "SoftwareTimer_Wait s =
     (if fWaitFor s < 1 then Inr (False, s)
      else case fDigitalTimer s of
        None \<Rightarrow> Inl NullDeref
      | Some t \<Rightarrow> Inr (True, s\<lparr>fDigitalTimer := Some (software_loop (fWaitFor s) t)\<rparr>))"

subsection \<open>The hardware timer\<close>

datatype mm_event = MRead nat u64 | MWrite nat u64

record mmio =
  mm_answer :: "mm_event list \<Rightarrow> nat \<Rightarrow> u64"
  mm_log :: "mm_event list"

definition mm_read :: "nat \<Rightarrow> mmio \<Rightarrow> u64 \<times> mmio" where
  "mm_read a d = (mm_answer d (mm_log d) a, d\<lparr>mm_log := mm_log d @ [MRead a (mm_answer d (mm_log d) a)]\<rparr>)"

definition mm_write :: "nat \<Rightarrow> u64 \<Rightarrow> mmio \<Rightarrow> mmio" where
  "mm_write a v d = d\<lparr>mm_log := mm_log d @ [MWrite a v]\<rparr>"

definition mm_or :: "nat \<Rightarrow> u64 \<Rightarrow> mmio \<Rightarrow> mmio" where
  "mm_or a v d = (case mm_read a d of (x, d1) \<Rightarrow> mm_write a (x OR v) d1)"

definition cHPETCounterRegValue :: nat where "cHPETCounterRegValue = 0x00"
definition cHPETConfigRegValue :: nat where "cHPETConfigRegValue = 0x20"

record HardwareTimer =
  hpet_regs :: nat
  hw_fWaitFor :: int

text \<open>The address in the table follows the header, a byte, a byte of bit fields, two bytes and four of the record.\<close>

definition HPET_address :: "nat \<Rightarrow> mem \<Rightarrow> u64" where
  "HPET_address t m = load64 (t + sizeof_SDT + 8) m"

text \<open>\<open>sig\<close> is the address of the string HPET, \<open>vendor\<close> the pointer of the handover header.\<close>

definition HardwareTimer_new :: "bool \<Rightarrow> nat \<Rightarrow> nat \<Rightarrow> int \<Rightarrow> mem \<Rightarrow> fault + HardwareTimer" where
  "HardwareTimer_new dbg vendor sig ms m =
     bindF (Find dbg sig m (ACPIFactoryInterface_new vendor)) (\<lambda>(r, power).
     bindF (leak r) (\<lambda>hpet.
     bindF (must_pass dbg (hpet \<noteq> 0)) (\<lambda>_.
       if hpet = 0 then Inl NullDeref
       else Inr \<lparr>hpet_regs = unat (HPET_address hpet m), hw_fWaitFor = ms\<rparr>)))"

definition HardwareTimer_delete :: "HardwareTimer \<Rightarrow> HardwareTimer" where
  "HardwareTimer_delete t = t\<lparr>hpet_regs := 0, hw_fWaitFor := 0\<rparr>"

fun hardware_loop :: "nat \<Rightarrow> nat \<Rightarrow> u64 \<Rightarrow> mmio \<Rightarrow> fault + mmio" where
  "hardware_loop 0 a ticks d = Inl OutOfFuel"
| "hardware_loop (Suc fuel) a ticks d =
     (case mm_read a d of (v, d1) \<Rightarrow> if v < ticks then hardware_loop fuel a ticks d1 else Inr d1)"

text \<open>The registers are indexed as an array of 64-bit words.\<close>

definition HardwareTimer_Wait :: "nat \<Rightarrow> HardwareTimer \<Rightarrow> mmio \<Rightarrow> fault + (bool \<times> mmio)" where
  "HardwareTimer_Wait fuel t d =
     (if hw_fWaitFor t < 1 then Inr (False, d)
      else
        let config = hpet_regs t + 8 * cHPETConfigRegValue;
            counter = hpet_regs t + 8 * cHPETCounterRegValue;
            (c, d1) = mm_read config d;
            d2 = (if c AND 1 = 0 then mm_or config 8 (mm_or config 1 d1) else d1);
            (cap, d3) = mm_read (hpet_regs t) d2;
            period = drop_bit 32 cap AND 0xFFFFFFFF
        in if period = 0 then Inl DivByZero
           else let ticks = of_int (hw_fWaitFor t) div period; (prev, d4) = mm_read counter d3
                in bindF (hardware_loop fuel counter ticks d4) (\<lambda>d5. Inr (True, d5)))"

subsection \<open>Lemmas\<close>

lemma wrap64_id: "- (2 ^ 63) \<le> x \<Longrightarrow> x < 2 ^ 63 \<Longrightarrow> wrap64 x = x"
  by (simp add: wrap64_def mod_pos_pos_trivial)

lemma software_loop_runs_to:
  assumes "1 \<le> w" and "w < 2 ^ 63" and "- (2 ^ 63) \<le> t" and "t \<le> 2 ^ 63 - w"
  shows "software_loop w t = 2 ^ 63 - w"
  using assms(3,4)
proof (induction "nat (2 ^ 63 - w - t)" arbitrary: t)
  case 0
  then have t: "t = 2 ^ 63 - w" by simp
  then have "wrap64 (t + w) = - (2 ^ 63)" by (simp add: wrap64_def)
  with t assms(2) show ?case by (subst software_loop.simps) simp
next
  case (Suc k)
  then have "t + w < 2 ^ 63" and k: "k = nat (2 ^ 63 - w - (t + 1))" by linarith+
  then have "wrap64 (t + w) = t + w" using Suc.prems assms(1) by (intro wrap64_id) simp_all
  then have "software_loop w t = software_loop w (t + 1)"
    using assms(1) by (subst software_loop.simps) simp
  also have "\<dots> = 2 ^ 63 - w" using Suc.prems \<open>t + w < 2 ^ 63\<close> by (intro Suc.hyps(1) [OF k]) simp_all
  finally show ?case .
qed

lemma mm_read_const [simp]:
  "(\<And>h. mm_answer d h a = v) \<Longrightarrow> mm_read a d = (v, d\<lparr>mm_log := mm_log d @ [MRead a v]\<rparr>)"
  by (simp add: mm_read_def)

lemma mm_answer_frames [simp]:
  "mm_answer (snd (mm_read a d)) = mm_answer d" "mm_answer (mm_write a v d) = mm_answer d"
  "mm_answer (mm_or a v d) = mm_answer d"
  by (simp_all add: mm_read_def mm_write_def mm_or_def)

lemma period_mask: "drop_bit 32 (cap :: u64) AND 0xFFFFFFFF = drop_bit 32 cap"
proof -
  have "drop_bit 32 cap AND mask 32 = drop_bit 32 cap"
    by (rule bit_word_eqI) (auto simp: bit_simps dest: bit_imp_le_length)
  then show ?thesis by (simp add: mask_eq_exp_minus_1)
qed

lemma ticks_below_cap:
  assumes "drop_bit 32 (cap :: u64) \<noteq> 0" and "1 \<le> w" and "w < 2 ^ 32"
  shows "\<not> cap < of_int w div p"
proof -
  have "unat cap div 2 ^ 32 \<noteq> 0"
    using assms(1) by (metis unat_drop_bit_eq drop_bit_eq_div unsigned_eq_0_iff)
  then have cap: "2 ^ 32 \<le> unat cap" by (simp add: div_eq_0_iff)
  have "of_int w = (of_nat (nat w) :: u64)" using assms(2) by simp
  moreover have "nat w < 2 ^ 64" using assms(3) by simp
  ultimately have "unat (of_int w :: u64) = nat w" by (simp only: unat_of_nat64_less)
  then have "unat (of_int w div p :: u64) < 2 ^ 32"
    using assms(3) by (simp add: unat_div) (use div_le_dividend [of "nat w" "unat p"] in linarith)
  with cap show ?thesis by (simp add: word_less_nat_alt)
qed

subsection \<open>Properties\<close>

text \<open>
  The software timer: waiting for \<open>w\<close> counts up from where the counter is to \<open>2 ^ 63 - w\<close>, the first
  value that the wait overflows, so a first wait takes \<open>2 ^ 63 - w\<close> steps, fewer the longer it is asked to wait; and
  every later wait of the same timer returns at once with its counter where it was.
\<close>

theorem software_wait_counts_to_overflow:
  assumes "1 \<le> w" and "w < 2 ^ 63" and "0 \<le> t" and "t \<le> 2 ^ 63 - w"
  shows "SoftwareTimer_Wait \<lparr>fDigitalTimer = Some t, fWaitFor = w\<rparr> =
      Inr (True, \<lparr>fDigitalTimer = Some (2 ^ 63 - w), fWaitFor = w\<rparr>) \<and>
    SoftwareTimer_Wait \<lparr>fDigitalTimer = Some (2 ^ 63 - w), fWaitFor = w\<rparr> =
      Inr (True, \<lparr>fDigitalTimer = Some (2 ^ 63 - w), fWaitFor = w\<rparr>)"
  using assms software_loop_runs_to [of w t] software_loop_runs_to [of w "2 ^ 63 - w"]
  by (simp add: SoftwareTimer_Wait_def)

theorem software_wait_counts_to_overflow_witness:
  "SoftwareTimer_Wait \<lparr>fDigitalTimer = Some 0, fWaitFor = Milliseconds 10\<rparr> =
     Inr (True, \<lparr>fDigitalTimer = Some (2 ^ 63 - 10000000), fWaitFor = 10000000\<rparr>)"
proof -
  have "Milliseconds 10 = 10000000" by (simp add: Milliseconds_def wrap64_def)
  then show ?thesis
    using software_wait_counts_to_overflow [of 10000000 0] by simp
qed

text \<open>
  The hardware timer does not wait: on every timer block whose first register, the capabilities, keeps its value
  with a period that is not zero, a wait of less than \<open>2 ^ 32\<close> nanoseconds tests that register once and returns yes. The
  registers are addressed in words of eight bytes, and the one taken for the counter is the capabilities register,
  which is already larger than the ticks asked for.
\<close>

theorem hardware_wait_returns_at_once:
  assumes "\<And>h. mm_answer d h (hpet_regs t) = cap" and "drop_bit 32 cap \<noteq> 0"
    and "1 \<le> hw_fWaitFor t" and "hw_fWaitFor t < 2 ^ 32"
  shows "\<exists>d'. \<forall>fuel \<ge> 1. HardwareTimer_Wait fuel t d = Inr (True, d')"
proof -
  let ?a = "hpet_regs t" and ?c = "hpet_regs t + 256"
  define d2 where "d2 = (case mm_read ?c d of (c, d1) \<Rightarrow> if c AND 1 = 0 then mm_or ?c 8 (mm_or ?c 1 d1) else d1)"
  have "mm_answer d2 = mm_answer d"
    by (auto simp: d2_def mm_read_def mm_write_def mm_or_def)
  then have const: "\<And>h. mm_answer (d2\<lparr>mm_log := l\<rparr>) h ?a = cap" for l using assms(1) by simp
  then have read: "mm_read ?a (d2\<lparr>mm_log := l\<rparr>) = (cap, d2\<lparr>mm_log := l @ [MRead ?a cap]\<rparr>)" for l by simp
  let ?d3 = "d2\<lparr>mm_log := mm_log d2 @ [MRead ?a cap, MRead ?a cap, MRead ?a cap]\<rparr>"
  have "HardwareTimer_Wait (Suc f) t d = Inr (True, ?d3)" for f
    using assms(2,3) read [of "mm_log d2"] read [of "mm_log d2 @ [MRead ?a cap]"]
      read [of "mm_log d2 @ [MRead ?a cap, MRead ?a cap]"] ticks_below_cap [OF assms(2-4), of "drop_bit 32 cap"]
    by (simp add: HardwareTimer_Wait_def Let_def cHPETConfigRegValue_def cHPETCounterRegValue_def period_mask
        case_prod_beta d2_def [symmetric, unfolded case_prod_beta])
  then show ?thesis by (metis One_nat_def Suc_le_D)
qed

theorem hardware_wait_returns_at_once_witness:
  "\<exists>d'. HardwareTimer_Wait 1 \<lparr>hpet_regs = 0xFED00000, hw_fWaitFor = 10000000\<rparr>
     \<lparr>mm_answer = (\<lambda>_ _. 0x05F5E10080860201), mm_log = []\<rparr> = Inr (True, d')"
  using hardware_wait_returns_at_once [of "\<lparr>mm_answer = (\<lambda>_ _. 0x05F5E10080860201), mm_log = []\<rparr>"
      "\<lparr>hpet_regs = 0xFED00000, hw_fWaitFor = 10000000\<rparr>" "0x05F5E10080860201"]
  by auto

end
