(* ===== verification/SyncPrims.thy ===== *)
theory SyncPrims
  imports ProcSched Timers
begin

text \<open>
  Synchronisation: \<^verbatim>\<open>src/Semaphore.cc\<close>, the lock delegate of \<^verbatim>\<open>KernelKit/LockDelegate.h\<close>
  with the bit set of \<^verbatim>\<open>NewKit/Atom.h\<close>, and the check of the thread information block in
  \<^verbatim>\<open>src/ThreadLocalStorage.cc\<close>.
\<close>

subsection \<open>Semaphores\<close>

text \<open>
  The locking process of a semaphore is a C++ reference, bound once to a process: assigning to it copies into that
  process. \<open>fLockingProcess\<close> is the process it is bound to.
\<close>

record Semaphore =
  fLockingProcess :: UserProcess

definition Semaphore_IsLocked :: "Semaphore \<Rightarrow> bool" where
  "Semaphore_IsLocked sem = UserProcess_bool (fLockingProcess sem)"

definition Semaphore_Unlock :: "Semaphore \<Rightarrow> bool \<times> Semaphore" where
  "Semaphore_Unlock sem =
     (if UserProcess_bool (fLockingProcess sem) then (True, sem\<lparr>fLockingProcess := UserProcess_new\<rparr>)
      else (False, sem))"

definition Semaphore_Lock :: "UserProcess \<Rightarrow> Semaphore \<Rightarrow> bool \<times> Semaphore" where
  "Semaphore_Lock process sem =
     (if \<not> UserProcess_bool process \<or> UserProcess_bool (fLockingProcess sem) then (False, sem)
      else (True, sem\<lparr>fLockingProcess := process\<rparr>))"

text \<open>A timer is its virtual \<^verbatim>\<open>Wait\<close>, which may not return; \<open>None\<close> is the null pointer.\<close>

definition Semaphore_LockOrWait ::
  "UserProcess \<Rightarrow> ('t \<Rightarrow> fault + (bool \<times> 't)) option \<Rightarrow> 't \<Rightarrow> Semaphore \<Rightarrow> fault + (bool \<times> 't \<times> Semaphore)" where
  "Semaphore_LockOrWait process timer t sem =
     (case timer of
        None \<Rightarrow> Inr (False, t, sem)
      | Some wait \<Rightarrow>
          let sem1 = snd (Semaphore_Lock process sem) in
          bindF (wait t) (\<lambda>(waited, t1).
            let (locked, sem2) = Semaphore_Lock process sem1 in Inr (locked, t1, sem2)))"

fun Semaphore_WaitForProcess :: "nat \<Rightarrow> Semaphore \<Rightarrow> fault + unit" where
  "Semaphore_WaitForProcess 0 sem = Inl OutOfFuel"
| "Semaphore_WaitForProcess (Suc fuel) sem =
     (if UserProcess_bool (fLockingProcess sem) then Semaphore_WaitForProcess fuel sem else Inr ())"

subsection \<open>Lock delegates\<close>

text \<open>\<^verbatim>\<open>Atom<UInt>\<close>: reading masks, and \<^verbatim>\<open>|\<close> assigns. Its initial value is whatever was there.\<close>

record Atom =
  fArrayOfAtoms :: u32

definition Atom_at :: "Atom \<Rightarrow> u32 \<Rightarrow> u32" where
  "Atom_at a sz = fArrayOfAtoms a AND sz"

definition Atom_or :: "u32 \<Rightarrow> Atom \<Rightarrow> Atom" where
  "Atom_or sz a = a\<lparr>fArrayOfAtoms := fArrayOfAtoms a OR sz\<rparr>"

definition Atom_eq :: "Atom \<Rightarrow> u32 \<Rightarrow> bool" where
  "Atom_eq a idx \<longleftrightarrow> Atom_at a idx = idx"

definition Atom_ne :: "Atom \<Rightarrow> u32 \<Rightarrow> bool" where
  "Atom_ne a idx \<longleftrightarrow> Atom_at a idx = idx"

definition kLockDone :: u32 where "kLockDone = 200"
definition kLockTimedOut :: u32 where "kLockTimedOut = 201"

text \<open>\<open>expr n\<close> is the \<open>n\<close>-th reading of the condition.\<close>

fun lock_spin :: "nat \<Rightarrow> nat \<Rightarrow> (nat \<Rightarrow> bool) \<Rightarrow> Atom \<Rightarrow> nat \<times> Atom" where
  "lock_spin 0 spin expr st = (spin, st)"
| "lock_spin (Suc left) spin expr st =
     (if expr spin then (spin, Atom_or kLockDone st) else lock_spin left (Suc spin) expr st)"

definition LockDelegate_new :: "nat \<Rightarrow> (nat \<Rightarrow> bool) \<Rightarrow> Atom \<Rightarrow> Atom" where
  "LockDelegate_new N expr fLockStatus =
     (let (spin, st) = lock_spin N 0 expr fLockStatus in if N < spin then Atom_or kLockTimedOut st else st)"

definition LockDelegate_Done :: "Atom \<Rightarrow> bool" where
  "LockDelegate_Done st \<longleftrightarrow> Atom_at st kLockDone = kLockDone"

definition LockDelegate_HasTimedOut :: "Atom \<Rightarrow> bool" where
  "LockDelegate_HasTimedOut st \<longleftrightarrow> Atom_at st kLockTimedOut \<noteq> kLockTimedOut"

subsection \<open>The thread information block\<close>

text \<open>Packed: the three characters of the cookie, then the record.\<close>

definition kCookieMag0 :: u8 where "kCookieMag0 = 90"
definition kCookieMag1 :: u8 where "kCookieMag1 = 75"
definition kCookieMag2 :: u8 where "kCookieMag2 = 65"

definition tls_check_tib :: "mem \<Rightarrow> nat \<Rightarrow> bool" where
  "tls_check_tib m tib_ptr =
     (if tib_ptr = 0 \<or> load64 (tib_ptr + 3) m = 0 then False
      else m tib_ptr = kCookieMag0 \<and> m (tib_ptr + 1) = kCookieMag1 \<and> m (tib_ptr + 2) = kCookieMag2)"

definition tls_check_syscall_impl :: "mem \<Rightarrow> nat \<Rightarrow> bool" where
  "tls_check_syscall_impl m tib_ptr =
     (if tib_ptr = 0 then False else if \<not> tls_check_tib m tib_ptr then False else True)"

subsection \<open>Lemmas\<close>

lemma lock_spin_result:
  "fst (lock_spin n k expr st) \<le> k + n \<and>
   snd (lock_spin n k expr st) = (if \<exists>i. k \<le> i \<and> i < k + n \<and> expr i then Atom_or kLockDone st else st)"
proof (induction n arbitrary: k)
  case 0
  then show ?case by auto
next
  case (Suc n)
  have le: "\<And>i. k \<le> i \<longleftrightarrow> i = k \<or> Suc k \<le> i" by auto
  have split: "(\<exists>i. k \<le> i \<and> i < k + Suc n \<and> expr i) \<longleftrightarrow> expr k \<or> (\<exists>i. Suc k \<le> i \<and> i < Suc k + n \<and> expr i)"
    by (simp only: le) auto
  show ?case
    unfolding split using Suc.IH [of "Suc k"] by auto
qed

lemma Atom_at_or: "Atom_at (Atom_or b a) c = (Atom_at a c) OR (b AND c)"
  by (simp add: Atom_at_def Atom_or_def bit.conj_disj_distrib2)

subsection \<open>Properties\<close>

text \<open>
  A semaphore excludes: while it is locked, \<^verbatim>\<open>Lock\<close> refuses everyone and changes nothing;
  unlocking a locked one frees it for the next running process. But \<^verbatim>\<open>LockOrWait\<close> never
  answers yes, with any timer and for any process, whether it was free before or not: it locks before it
  waits, and answers with a second attempt. When it was free the process holds the lock all the same.
\<close>

theorem semaphore_lock_or_wait_never_succeeds:
  "(case Semaphore_LockOrWait p timer t sem of
      Inl e \<Rightarrow> True
    | Inr (ok, t', sem') \<Rightarrow> \<not> ok \<and> sem' = (if timer = None then sem else snd (Semaphore_Lock p sem))) \<and>
   (Semaphore_IsLocked sem \<longrightarrow> Semaphore_Lock p sem = (False, sem) \<and>
      (\<forall>q. UserProcess_bool q \<longrightarrow>
        Semaphore_Lock q (snd (Semaphore_Unlock sem)) = (True, sem\<lparr>fLockingProcess := q\<rparr>)))"
  by (auto simp: Semaphore_LockOrWait_def Semaphore_Lock_def Semaphore_Unlock_def Semaphore_IsLocked_def
      UserProcess_bool_def UserProcess_new_def bindF_def Let_def split: option.splits sum.splits prod.splits)

theorem semaphore_lock_or_wait_never_succeeds_witness:
  "Semaphore_LockOrWait (UserProcess_new\<lparr>Status := kRunning\<rparr>) (Some SoftwareTimer_Wait)
       \<lparr>fDigitalTimer = Some 0, fWaitFor = 0\<rparr> \<lparr>fLockingProcess = UserProcess_new\<rparr> =
     Inr (False, \<lparr>fDigitalTimer = Some 0, fWaitFor = 0\<rparr>, \<lparr>fLockingProcess = UserProcess_new\<lparr>Status := kRunning\<rparr>\<rparr>)"
proof -
  let ?p = "UserProcess_new\<lparr>Status := kRunning\<rparr>" and ?t = "\<lparr>fDigitalTimer = Some 0, fWaitFor = 0\<rparr>"
    and ?s = "\<lparr>fLockingProcess = UserProcess_new\<rparr>"
  have "Semaphore_LockOrWait ?p (Some SoftwareTimer_Wait) ?t ?s =
      Inr (fst (Semaphore_Lock ?p (snd (Semaphore_Lock ?p ?s))), ?t, snd (Semaphore_Lock ?p (snd (Semaphore_Lock ?p ?s))))"
    by (simp add: Semaphore_LockOrWait_def SoftwareTimer_Wait_def case_prod_beta Let_def)
  with semaphore_lock_or_wait_never_succeeds [where p = ?p and timer = "Some SoftwareTimer_Wait" and t = ?t and sem = ?s]
  show ?thesis
    by (simp add: Semaphore_Lock_def UserProcess_bool_def UserProcess_new_def)
qed

text \<open>
  A lock delegate on a status that starts at zero is done exactly when the condition held at one of
  its \<open>N\<close> readings, and says that it has timed out in either case: the flag for it is never set, and the test is
  the wrong way round.
\<close>

theorem lock_delegate_spec:
  assumes "st = LockDelegate_new N expr \<lparr>fArrayOfAtoms = 0\<rparr>"
  shows "(LockDelegate_Done st \<longleftrightarrow> (\<exists>i < N. expr i)) \<and> LockDelegate_HasTimedOut st"
proof -
  have "st = (if \<exists>i < N. expr i then Atom_or kLockDone \<lparr>fArrayOfAtoms = 0\<rparr> else \<lparr>fArrayOfAtoms = 0\<rparr>)"
    using lock_spin_result [of N 0 expr "\<lparr>fArrayOfAtoms = 0\<rparr>"]
    by (simp add: assms LockDelegate_new_def case_prod_beta Let_def)
  then show ?thesis
    by (simp add: LockDelegate_Done_def LockDelegate_HasTimedOut_def Atom_at_or kLockDone_def kLockTimedOut_def)
      (simp add: Atom_at_def)
qed

theorem lock_delegate_spec_witness:
  "LockDelegate_Done (LockDelegate_new 4 (\<lambda>n. n = 3) \<lparr>fArrayOfAtoms = 0\<rparr>) \<and>
   LockDelegate_HasTimedOut (LockDelegate_new 4 (\<lambda>n. n = 3) \<lparr>fArrayOfAtoms = 0\<rparr>)"
  using lock_delegate_spec [OF refl, of 4 "\<lambda>n. n = 3"] by auto

lemma tls_check_spec:
  "tls_check_syscall_impl m p \<longleftrightarrow> p \<noteq> 0 \<and> load64 (p + 3) m \<noteq> 0 \<and> read_bytes p 3 m = [90, 75, 65]"
  by (auto simp: tls_check_syscall_impl_def tls_check_tib_def kCookieMag0_def kCookieMag1_def kCookieMag2_def
      read_bytes_def numeral_3_eq_3)

end
