(* ===== verification/Smp.thy ===== *)
theory Smp
  imports HwThreads Timers
begin

text \<open>
  Starting the other processors: \<^verbatim>\<open>mp_get_cores\<close> of
  \<^verbatim>\<open>HALKit/AMD64/HalApplicationProcessor.cc\<close>, which walks the MADT that \<open>Acpi\<close> finds, with the
  interrupt commands it sends and the hardware timer of \<open>Timers\<close> between them.

  The record of the MADT is not packed past the header: its list starts at byte 48 and its entries take 24 bytes,
  with the type first and the union at byte 8 (the layout of the AMD64 ABI). The interrupt command registers are
  hardware: what is written to them is logged, and the wait for delivery is taken to end.
\<close>

subsection \<open>State\<close>

record smp =
  hwt :: hw
  kSMPAware :: bool
  kSMPCount :: nat
  kSMPInterrupt :: nat
  kApicBaseAddress :: u64
  kAPICLocales :: "u64 list"
  kRawMADT :: nat
  icr_log :: "(u32 \<times> u32) list"
  hpet :: mmio

text \<open>What the boot loader and the assembly parts provide.\<close>

record smp_conf =
  smp_debug :: bool
  f_MultiProcessingEnabled :: bool
  f_VendorPtr :: nat
  apic_signature :: nat
  hpet_signature :: nat
  hal_ap_blob_start :: nat
  hal_ap_blob_end :: nat

definition kMemoryAPStart :: nat where
  "kMemoryAPStart = 0x7C000"

abbreviation kAPIC_ICR_Low :: u32 where "kAPIC_ICR_Low \<equiv> 0x300"
abbreviation kAPIC_ICR_High :: u32 where "kAPIC_ICR_High \<equiv> 0x310"

definition MADT_Address :: "nat \<Rightarrow> mem \<Rightarrow> u32" where
  "MADT_Address madt m = load32 (madt + sizeof_SDT) m"

definition madt_entry :: "nat \<Rightarrow> nat \<Rightarrow> nat" where
  "madt_entry madt i = madt + 48 + 24 * i"

definition entry_Type :: "nat \<Rightarrow> nat \<Rightarrow> mem \<Rightarrow> u8" where
  "entry_Type madt i m = m (madt_entry madt i)"

definition LAPIC_ProcessorID :: "nat \<Rightarrow> nat \<Rightarrow> mem \<Rightarrow> u8" where
  "LAPIC_ProcessorID madt i m = m (madt_entry madt i + 8)"

subsection \<open>Interrupt commands\<close>

definition ke_dma_write :: "u32 \<Rightarrow> u32 \<Rightarrow> u32 \<Rightarrow> smp \<Rightarrow> smp" where
  "ke_dma_write base reg val s = s\<lparr>icr_log := icr_log s @ [(base + reg, val)]\<rparr>"

definition hal_send_start_ipi :: "u32 \<Rightarrow> u32 \<Rightarrow> smp \<Rightarrow> smp" where
  "hal_send_start_ipi target apic_id s =
     ke_dma_write target kAPIC_ICR_Low (0x00000500 OR 0x00004000 OR 0)
       (ke_dma_write target kAPIC_ICR_High (push_bit 24 apic_id) s)"

definition hal_send_sipi_to :: "u32 \<Rightarrow> u32 \<Rightarrow> u8 \<Rightarrow> smp \<Rightarrow> smp" where
  "hal_send_sipi_to target apic_id vector s =
     (let s1 = ke_dma_write target kAPIC_ICR_Low (0x00000600 OR 0x00004000 OR 0 OR ucast vector)
                 (ke_dma_write target kAPIC_ICR_High (push_bit 24 apic_id) s)
      in s1\<lparr>hwt := hal_send_sipi apic_id vector (hwt s1)\<rparr>)"

definition mp_is_smp :: "smp \<Rightarrow> bool" where
  "mp_is_smp s = kSMPAware s"

subsection \<open>The walk\<close>

text \<open>
  An entry of type 0: the processor is taken from the entry with the number of processors found so far, not from the
  entry the walk is at. The table of identifiers has 32 places.
\<close>

definition start_processor :: "smp_conf \<Rightarrow> nat \<Rightarrow> nat \<Rightarrow> mem \<Rightarrow> smp \<Rightarrow> fault + smp" where
  "start_processor c fuel madt m s =
     (let pid = LAPIC_ProcessorID madt (kSMPCount s) m in
      if pid < 1 then Inr s
      else if kSMPCount s \<ge> length (kAPICLocales s) then Inl OutOfBounds
      else
        let s1 = s\<lparr>kAPICLocales := (kAPICLocales s)[kSMPCount s := ucast pid],
                   hwt := (if kSMPCount s = 0 then (hwt s)\<lparr>kAPICLocales0 := ucast pid\<rparr> else hwt s)\<rparr>;
            s2 = hal_send_start_ipi (ucast (kApicBaseAddress s1)) (ucast (kAPICLocales s1 ! kSMPCount s)) s1 in
        bindF (HardwareTimer_new (smp_debug c) (f_VendorPtr c) (hpet_signature c) (Milliseconds 10) m) (\<lambda>t.
        bindF (HardwareTimer_Wait fuel t (hpet s2)) (\<lambda>(waited, d).
          let s3 = hal_send_sipi_to (ucast (kApicBaseAddress s2)) (ucast (kAPICLocales s2 ! kSMPCount s))
                     (of_nat (kMemoryAPStart div 2 ^ 12)) (s2\<lparr>hpet := d\<rparr>)
          in Inr (s3\<lparr>kSMPCount := kSMPCount s3 + 1\<rparr>))))"

fun madt_walk :: "nat \<Rightarrow> smp_conf \<Rightarrow> nat \<Rightarrow> nat \<Rightarrow> nat \<Rightarrow> mem \<Rightarrow> smp \<Rightarrow> fault + smp" where
  "madt_walk 0 c wfuel madt idx m s = Inl OutOfFuel"
| "madt_walk (Suc fuel) c wfuel madt idx m s =
     (if entry_Type madt idx m > 9 \<or> kSMPCount s > kSchedProcessLimitPerTeam then Inr s
      else bindF (if entry_Type madt idx m = 0 then start_processor c wfuel madt m s else Inr s)
             (madt_walk fuel c wfuel madt (Suc idx) m))"

definition mp_get_cores :: "nat \<Rightarrow> nat \<Rightarrow> smp_conf \<Rightarrow> nat \<Rightarrow> mem \<Rightarrow> smp \<Rightarrow> fault + (mem \<times> smp)" where
  "mp_get_cores fuel wfuel c vendor_ptr m s =
     (if vendor_ptr = 0 then Inr (m, s)
      else if \<not> f_MultiProcessingEnabled c then Inr (m, s\<lparr>kSMPAware := False\<rparr>)
      else
        bindF (Find (smp_debug c) (apic_signature c) m (ACPIFactoryInterface_new vendor_ptr)) (\<lambda>(r, pw).
        bindF (leak r) (\<lambda>madt.
          let s1 = s\<lparr>kRawMADT := madt, kSMPAware := False\<rparr> in
          if madt = 0 then Inr (m, s1)
          else
            let s2 = s1\<lparr>kSMPInterrupt := 0, kSMPCount := 0, kApicBaseAddress := ucast (MADT_Address madt m)\<rparr>;
                m1 = snd (rt_copy_memory (hal_ap_blob_start c) kMemoryAPStart
                            (hal_ap_blob_end c - hal_ap_blob_start c) m)
            in bindF (madt_walk fuel c wfuel madt 0 m1 s2) (\<lambda>s3. Inr (m1, s3\<lparr>kSMPAware := True\<rparr>)))))"

subsection \<open>Lemmas\<close>

lemma start_processor_boot:
  "LAPIC_ProcessorID madt (kSMPCount s) m = 0 \<Longrightarrow> start_processor c fuel madt m s = Inr s"
  by (simp add: start_processor_def)

lemma madt_walk_stuck:
  assumes "LAPIC_ProcessorID madt (kSMPCount s) m = 0" and "kSMPCount s \<le> 32"
    and "entry_Type madt (idx + n) m > 9" and "\<forall>i < n. entry_Type madt (idx + i) m \<le> 9" and "n < fuel"
  shows "madt_walk fuel c wfuel madt idx m s = Inr s"
  using assms(3-5)
proof (induction n arbitrary: idx fuel)
  case 0
  then show ?case by (cases fuel) auto
next
  case (Suc n)
  then obtain f where f: "fuel = Suc f" by (cases fuel) auto
  have "\<not> entry_Type madt idx m > 9" using Suc.prems(2) by (auto simp: not_less dest: spec [of _ 0])
  moreover have "madt_walk f c wfuel madt (Suc idx) m s = Inr s"
    using Suc.prems f by (intro Suc.IH) auto
  ultimately show ?case
    using assms(2) start_processor_boot [OF assms(1)] by (simp add: f kSchedProcessLimitPerTeam_def)
qed

text \<open>A table with one entry, of the boot processor, for the witnesses: pointer at 0x10, root table at 0x100, MADT at 0x200.\<close>

definition boot_madt :: "mem" where
  "boot_madt = (store32 0x124 0x200 (acpi_mem 44))
     (0x500 := 65, 0x501 := 80, 0x502 := 73, 0x503 := 67, 0x200 := 65, 0x201 := 80, 0x202 := 73, 0x203 := 67,
      0x230 := 0, 0x248 := 10)"

definition boot_smp :: smp where
  "boot_smp = \<lparr>hwt = hw_boot, kSMPAware = False, kSMPCount = 0, kSMPInterrupt = 0, kApicBaseAddress = 0,
     kAPICLocales = replicate 32 0, kRawMADT = 0, icr_log = [], hpet = \<lparr>mm_answer = (\<lambda>_ _. 0), mm_log = []\<rparr>\<rparr>"

definition boot_smp_conf :: smp_conf where
  "boot_smp_conf = \<lparr>smp_debug = True, f_MultiProcessingEnabled = True, f_VendorPtr = 0x10, apic_signature = 0x500,
     hpet_signature = 0x510, hal_ap_blob_start = 0, hal_ap_blob_end = 0\<rparr>"

lemma boot_madt_words:
  "SDT_Revision 16 boot_madt = 2" "RSDP_RsdtAddress 16 boot_madt = 0x100"
  "SDT_Length 0x100 boot_madt = 44" "RSDT_AddressArr 0x100 0 boot_madt = 0x200"
  by (simp_all add: SDT_Revision_def RSDP_RsdtAddress_def SDT_Length_def RSDT_AddressArr_def boot_madt_def acpi_mem_def
      load32_store32_other load32_store8_other store8_other store32_outside disjoint_ext_def flip: store8_def)

lemma boot_madt_bytes:
  "read_bytes 0x200 4 boot_madt = [65, 80, 73, 67]" "read_bytes 0x500 4 boot_madt = [65, 80, 73, 67]"
  "boot_madt 0x230 = 0" "boot_madt 0x238 = 0" "boot_madt 0x248 = 10"
  by (simp_all add: boot_madt_def acpi_mem_def read_bytes_def upt_rec store32_outside)

lemma boot_madt_found:
  "Find True 0x500 boot_madt (ACPIFactoryInterface_new 16) =
     Inr (Inr 0x200, \<lparr>fRsdp = 16, fEntries = entry_count 0x100 boot_madt\<rparr>)"
proof -
  have "boot_madt 0x500 = 65" using boot_madt_bytes(2) by (simp add: read_bytes_def upt_rec)
  then show ?thesis
    using Find_spec [where a = "ACPIFactoryInterface_new 16" and sig = "0x500" and m = boot_madt and x = "0x100" and n = 44
        and dbg = True]
    by (simp add: boot_madt_words boot_madt_bytes ACPIFactoryInterface_new_def)
qed

lemma copy_nothing: "snd (rt_copy_memory src dst 0 m) = m(dst := 0)"
  by (simp add: rt_copy_memory_def)

subsection \<open>Properties\<close>

text \<open>
  No processor is started when the first entry's processor number is 0, as the boot processor's is: whatever the
  rest of the table, up to the first entry with a type above 9, the walk ends with none found and no interrupt
  command sent, and the kernel still takes itself for a multiprocessor.
\<close>

theorem no_processor_started_after_boot_entry:
  assumes "vendor \<noteq> 0" and "f_MultiProcessingEnabled c"
    and "Find (smp_debug c) (apic_signature c) m (ACPIFactoryInterface_new vendor) = Inr (Inr madt, pw)"
    and "madt \<noteq> 0"
    and "m1 = snd (rt_copy_memory (hal_ap_blob_start c) 0x7C000 (hal_ap_blob_end c - hal_ap_blob_start c) m)"
    and "LAPIC_ProcessorID madt 0 m1 = 0"
    and "entry_Type madt n m1 > 9" and "\<forall>i < n. entry_Type madt i m1 \<le> 9" and "n < fuel"
  shows "\<exists>s'. mp_get_cores fuel wfuel c vendor m s = Inr (m1, s') \<and> kSMPCount s' = 0 \<and>
    icr_log s' = icr_log s \<and> ipi_log (hwt s') = ipi_log (hwt s) \<and> mp_is_smp s'"
  using assms(1,2,4) madt_walk_stuck [of madt _ m1 0 n fuel c wfuel] assms(6-9)
  by (simp add: mp_get_cores_def assms(3) leak_def Let_def kMemoryAPStart_def mp_is_smp_def flip: assms(5))

theorem no_processor_started_after_boot_entry_witness:
  "\<exists>m' s'. mp_get_cores 2 1 boot_smp_conf 16 boot_madt boot_smp = Inr (m', s') \<and> kSMPCount s' = 0 \<and>
     icr_log s' = [] \<and> mp_is_smp s'"
proof -
  have find: "Find (smp_debug boot_smp_conf) (apic_signature boot_smp_conf) boot_madt (ACPIFactoryInterface_new 16) =
      Inr (Inr 0x200, \<lparr>fRsdp = 16, fEntries = entry_count 0x100 boot_madt\<rparr>)"
    by (simp add: boot_smp_conf_def boot_madt_found)
  show ?thesis
    using no_processor_started_after_boot_entry [where n = 1 and fuel = 2 and wfuel = 1 and s = boot_smp, OF _ _ find _ refl]
    by (auto simp: boot_smp_conf_def boot_smp_def copy_nothing LAPIC_ProcessorID_def entry_Type_def madt_entry_def
        boot_madt_bytes)
qed

end
