(* ===== verification/Pci.thy ===== *)
theory Pci
  imports Ports
begin

text \<open>
  The PCI bus: configuration space access and the device of \<^verbatim>\<open>HALKit/AMD64/PCI/Device.cc\<close>, the
  search for devices of a class in \<^verbatim>\<open>Iterator.cc\<close>, and the DMA windows of \<^verbatim>\<open>DMA.cc\<close>.
\<close>

subsection \<open>Configuration space\<close>

abbreviation ConfigAddress :: u16 where "ConfigAddress \<equiv> 0xCF8"
abbreviation ConfigData :: u16 where "ConfigData \<equiv> 0xCFC"

definition PciConfigKind_Invalid :: u16 where
  "PciConfigKind_Invalid = 0xFFF"

definition config_target :: "u32 \<Rightarrow> u16 \<Rightarrow> u16 \<Rightarrow> u16 \<Rightarrow> u32" where
  "config_target low bs dev fun =
     0x80000000 OR push_bit 16 (ucast bs) OR push_bit 11 (ucast dev) OR push_bit 8 (ucast fun) OR low"

definition OPENNE_PCIReadRaw :: "u32 \<Rightarrow> u16 \<Rightarrow> u16 \<Rightarrow> u16 \<Rightarrow> iobus \<Rightarrow> u32 \<times> iobus" where
  "OPENNE_PCIReadRaw bar bs dev fun b =
     bus_in32 ConfigData (bus_out32 ConfigAddress (config_target (bar AND 0xFC) bs dev fun) b)"

definition OPENNE_PCISetCfgTarget :: "u32 \<Rightarrow> u16 \<Rightarrow> u16 \<Rightarrow> u16 \<Rightarrow> iobus \<Rightarrow> iobus" where
  "OPENNE_PCISetCfgTarget bar bs dev fun b =
     bus_out32 ConfigAddress (config_target (bar AND NOT 3) bs dev fun) b"

subsection \<open>A device\<close>

record PciDevice =
  fBus :: u16
  fDevice :: u16
  fFunction :: u16
  fBar :: u32

definition PciDevice_new :: "u16 \<Rightarrow> u16 \<Rightarrow> u16 \<Rightarrow> u32 \<Rightarrow> PciDevice" where
  "PciDevice_new bs device func bar = \<lparr>fBus = bs, fDevice = device, fFunction = func, fBar = bar\<rparr>"

definition PciDevice_Read :: "u32 \<Rightarrow> nat \<Rightarrow> PciDevice \<Rightarrow> iobus \<Rightarrow> u32 \<times> iobus" where
  "PciDevice_Read bar sz d b =
     (let b1 = OPENNE_PCISetCfgTarget bar (fBus d) (fDevice d) (fFunction d) b;
          port = ConfigData + ucast (bar AND 3) in
      if sz = 4 then bus_in32 port b1
      else if sz = 2 then (case bus_in16 port b1 of (v, b2) \<Rightarrow> (ucast v, b2))
      else if sz = 1 then (case bus_in8 port b1 of (v, b2) \<Rightarrow> (ucast v, b2))
      else (0xFFFF, b1))"

text \<open>Writing takes the port's offset from the device's own base address, not from the argument.\<close>

definition PciDevice_Write :: "u32 \<Rightarrow> u64 \<Rightarrow> nat \<Rightarrow> PciDevice \<Rightarrow> iobus \<Rightarrow> iobus" where
  "PciDevice_Write bar data sz d b =
     (let b1 = OPENNE_PCISetCfgTarget bar (fBus d) (fDevice d) (fFunction d) b;
          port = ConfigData + ucast (fBar d AND 3);
          b2 = (if sz = 4 then bus_out32 port (ucast data) b1 else b1);
          b3 = (if sz = 2 then bus_out16 port (ucast data) b2 else b2)
      in if sz = 1 then bus_out8 port (ucast data) b3 else b3)"

abbreviation read_raw :: "u32 \<Rightarrow> PciDevice \<Rightarrow> iobus \<Rightarrow> u32 \<times> iobus" where
  "read_raw bar d \<equiv> OPENNE_PCIReadRaw bar (fBus d) (fDevice d) (fFunction d)"

definition PciDevice_DeviceId :: "PciDevice \<Rightarrow> iobus \<Rightarrow> u16 \<times> iobus" where
  "PciDevice_DeviceId d b = (case read_raw (drop_bit 16 0) d b of (v, b1) \<Rightarrow> (ucast v, b1))"

definition PciDevice_VendorId :: "PciDevice \<Rightarrow> iobus \<Rightarrow> u16 \<times> iobus" where
  "PciDevice_VendorId d b = (case read_raw 0 d b of (v, b1) \<Rightarrow> (ucast (drop_bit 16 v), b1))"

definition PciDevice_InterfaceId :: "PciDevice \<Rightarrow> iobus \<Rightarrow> u16 \<times> iobus" where
  "PciDevice_InterfaceId d b = (case read_raw 0 d b of (v, b1) \<Rightarrow> (ucast (drop_bit 16 v), b1))"

definition PciDevice_Class :: "PciDevice \<Rightarrow> iobus \<Rightarrow> u8 \<times> iobus" where
  "PciDevice_Class d b = (case read_raw 0x08 d b of (v, b1) \<Rightarrow> (ucast (drop_bit 24 v), b1))"

definition PciDevice_Subclass :: "PciDevice \<Rightarrow> iobus \<Rightarrow> u8 \<times> iobus" where
  "PciDevice_Subclass d b = (case read_raw 0x08 d b of (v, b1) \<Rightarrow> (ucast (drop_bit 16 v), b1))"

definition PciDevice_ProgIf :: "PciDevice \<Rightarrow> iobus \<Rightarrow> u8 \<times> iobus" where
  "PciDevice_ProgIf d b = (case read_raw 0x08 d b of (v, b1) \<Rightarrow> (ucast (drop_bit 8 v), b1))"

definition PciDevice_HeaderType :: "PciDevice \<Rightarrow> iobus \<Rightarrow> u8 \<times> iobus" where
  "PciDevice_HeaderType d b = (case read_raw 0xC d b of (v, b1) \<Rightarrow> (ucast (drop_bit 16 v), b1))"

definition PciDevice_Bar :: "u32 \<Rightarrow> PciDevice \<Rightarrow> iobus \<Rightarrow> u64 \<times> iobus" where
  "PciDevice_Bar bar_in d b = (case read_raw bar_in d b of (v, b1) \<Rightarrow> (ucast v, b1))"

text \<open>The value to write is put in a truth value first, so what is written is 1.\<close>

definition PciDevice_EnableMmio :: "u32 \<Rightarrow> PciDevice \<Rightarrow> iobus \<Rightarrow> iobus" where
  "PciDevice_EnableMmio bar_in d b =
     (case PciDevice_Read bar_in 2 d b of (v, b1) \<Rightarrow>
        let enable = (v OR push_bit 1 1 \<noteq> 0) in PciDevice_Write bar_in (of_bool enable) 2 d b1)"

definition PciDevice_BecomeBusMaster :: "u32 \<Rightarrow> PciDevice \<Rightarrow> iobus \<Rightarrow> iobus" where
  "PciDevice_BecomeBusMaster bar_in d b =
     (case PciDevice_Read bar_in 2 d b of (v, b1) \<Rightarrow>
        let enable = (v OR push_bit 2 1 \<noteq> 0) in PciDevice_Write bar_in (of_bool enable) 2 d b1)"

definition PciDevice_Vendor :: "PciDevice \<Rightarrow> iobus \<Rightarrow> u16 \<times> PciDevice \<times> iobus" where
  "PciDevice_Vendor d b =
     (case PciDevice_VendorId d b of (vendor, b1) \<Rightarrow>
        if vendor \<noteq> PciConfigKind_Invalid then
          (case PciDevice_Read 0 2 d b1 of (v, b2) \<Rightarrow> (ucast v, d\<lparr>fDevice := ucast v\<rparr>, b2))
        else (fDevice d, d, b1))"

definition PciDevice_bool :: "PciDevice \<Rightarrow> iobus \<Rightarrow> bool \<times> iobus" where
  "PciDevice_bool d b = (case PciDevice_VendorId d b of (v, b1) \<Rightarrow> (v \<noteq> PciConfigKind_Invalid, b1))"

subsection \<open>Looking for devices\<close>

abbreviation "MassStorageController \<equiv> (1 :: u8)"

definition OPENNE_BUS_COUNT :: nat where "OPENNE_BUS_COUNT = 256"
definition OPENNE_DEVICE_COUNT :: nat where "OPENNE_DEVICE_COUNT = 33"
definition OPENNE_FUNCTION_COUNT :: nat where "OPENNE_FUNCTION_COUNT = 8"

text \<open>The body of the three loops, and the loops: the order of the addresses they go through.\<close>

definition probe :: "u8 \<Rightarrow> nat \<times> nat \<times> nat \<Rightarrow> PciDevice list \<times> iobus \<Rightarrow> PciDevice list \<times> iobus" where
  "probe kind = (\<lambda>(bs, device, fun) (fDevices, b).
     let dev = PciDevice_new (of_nat bs) (of_nat device) (of_nat fun) 0 in
     case PciDevice_Class dev b of (cls, b1) \<Rightarrow>
       (if cls = kind then fDevices[bs := dev] else fDevices, b1))"

definition probe_order :: "(nat \<times> nat \<times> nat) list" where
  "probe_order =
     [(bs, device, fun). bs \<leftarrow> [0..<OPENNE_BUS_COUNT], device \<leftarrow> [0..<OPENNE_DEVICE_COUNT], fun \<leftarrow> [0..<OPENNE_FUNCTION_COUNT]]"

text \<open>The devices of the array are not initialised before: they are a parameter.\<close>

definition PciIterator_new :: "u8 \<Rightarrow> PciDevice list \<Rightarrow> iobus \<Rightarrow> PciDevice list \<times> iobus" where
  "PciIterator_new kind before b = fold (probe kind) probe_order (before, b)"

definition PciIterator_at :: "PciDevice list \<Rightarrow> nat \<Rightarrow> fault + PciDevice" where
  "PciIterator_at fDevices i = (if i < length fDevices then Inr (fDevices ! i) else Inl OutOfBounds)"

subsection \<open>DMA windows\<close>

datatype DmaKind = DmaPCI | DmaISA | DmaInvalid

record DMAWrapper =
  fAddress :: nat
  fKind :: DmaKind

definition DMAWrapper_new :: "nat \<Rightarrow> DmaKind \<Rightarrow> DMAWrapper" where
  "DMAWrapper_new ptr kind = \<lparr>fAddress = ptr, fKind = kind\<rparr>"

definition DMAWrapper_bool :: "DMAWrapper \<Rightarrow> bool" where
  "DMAWrapper_bool d \<longleftrightarrow> fAddress d \<noteq> 0"

definition DMAWrapper_not :: "DMAWrapper \<Rightarrow> bool" where
  "DMAWrapper_not d \<longleftrightarrow> fAddress d = 0"

definition DMAWrapper_Check :: "nat \<Rightarrow> DMAWrapper \<Rightarrow> bool" where
  "DMAWrapper_Check offset d =
     (if fAddress d = 0 then False else if offset = 0 then True else fAddress d \<ge> offset)"

definition DMAWrapper_Write :: "u64 \<Rightarrow> nat \<Rightarrow> DMAWrapper \<Rightarrow> mem \<Rightarrow> bool \<times> mem" where
  "DMAWrapper_Write bits offset d m =
     (if fAddress d = 0 then (False, m) else (True, store64 (fAddress d + offset) bits m))"

definition DMAWrapper_Read :: "nat \<Rightarrow> DMAWrapper \<Rightarrow> mem \<Rightarrow> u64" where
  "DMAWrapper_Read offset d m = (if fAddress d = 0 then 0 else load64 (fAddress d + offset) m)"

definition DMAWrapper_at :: "nat \<Rightarrow> DMAWrapper \<Rightarrow> mem \<Rightarrow> u64" where
  "DMAWrapper_at offset d m = DMAWrapper_Read offset d m"

definition DMAWrapper_assign :: "nat \<Rightarrow> DMAWrapper \<Rightarrow> DMAWrapper" where
  "DMAWrapper_assign ptr d = d\<lparr>fAddress := ptr\<rparr>"

definition DMAWrapper_Get :: "nat \<Rightarrow> DMAWrapper \<Rightarrow> nat" where
  "DMAWrapper_Get off d = fAddress d + off"

text \<open>\<^verbatim>\<open>IOBuf\<close> is its data pointer, which has to be valid in a debug build; \<open>None\<close> is an empty owner.\<close>

definition IOBuf_new :: "bool \<Rightarrow> nat \<Rightarrow> fault + nat" where
  "IOBuf_new dbg dma_addr = bindF (must_pass dbg (dma_addr \<noteq> 0)) (\<lambda>_. Inr dma_addr)"

definition DMAFactory_Construct :: "bool \<Rightarrow> DMAWrapper option \<Rightarrow> fault + nat option" where
  "DMAFactory_Construct dbg dma =
     (case dma of None \<Rightarrow> Inr None | Some d \<Rightarrow> bindF (IOBuf_new dbg (fAddress d)) (\<lambda>p. Inr (Some p)))"

subsection \<open>Lemmas\<close>

text \<open>
  What the configuration mechanism is documented to do: a read of the data port right after an address was
  written gives the register at that address.
\<close>

definition config_space :: "(u32 \<Rightarrow> u32) \<Rightarrow> iobus \<Rightarrow> bool" where
  "config_space cfg b \<longleftrightarrow> (\<forall>h a. answer b (h @ [Out ConfigAddress a]) ConfigData = cfg a)"

lemma read_raw_config:
  assumes "config_space cfg b"
  shows "fst (OPENNE_PCIReadRaw bar bs dev fun b) = cfg (config_target (bar AND 0xFC) bs dev fun)"
    and "config_space cfg (snd (OPENNE_PCIReadRaw bar bs dev fun b))"
  using assms by (simp_all add: OPENNE_PCIReadRaw_def config_space_def bus_in32_def port_in_def)

definition class_at :: "(u32 \<Rightarrow> u32) \<Rightarrow> nat \<times> nat \<times> nat \<Rightarrow> u8" where
  "class_at cfg = (\<lambda>(bs, device, fun).
     ucast (drop_bit 24 (cfg (config_target 8 (of_nat bs) (of_nat device) (of_nat fun)))))"

lemma probe_config:
  assumes "config_space cfg b"
  shows "\<exists>b'. probe kind t (ds, b) = (if class_at cfg t = kind then ds[fst t := PciDevice_new (of_nat (fst t))
      (of_nat (fst (snd t))) (of_nat (snd (snd t))) 0] else ds, b') \<and> config_space cfg b'"
  using read_raw_config [OF assms, of 8]
  by (auto simp: probe_def PciDevice_Class_def PciDevice_new_def class_at_def case_prod_beta Let_def)

definition device_of :: "nat \<times> nat \<times> nat \<Rightarrow> PciDevice" where
  "device_of = (\<lambda>(bs, device, fun). PciDevice_new (of_nat bs) (of_nat device) (of_nat fun) 0)"

lemma fold_probe:
  assumes "config_space cfg b" and "i < length ds"
  shows "fst (fold (probe kind) ts (ds, b)) ! i =
      (case filter (\<lambda>t. fst t = i \<and> class_at cfg t = kind) ts of [] \<Rightarrow> ds ! i | xs \<Rightarrow> device_of (last xs))"
  using assms
proof (induction ts arbitrary: ds b)
  case Nil
  then show ?case by simp
next
  case (Cons t ts)
  let ?ds = "if class_at cfg t = kind then ds[fst t := device_of t] else ds"
  obtain b' where b': "probe kind t (ds, b) = (?ds, b')" "config_space cfg b'"
    using probe_config [OF Cons.prems(1), of kind t ds] by (auto simp: device_of_def case_prod_beta)
  with Cons.IH [OF b'(2), of ?ds] Cons.prems(2) show ?case
    by (auto split: list.splits)
qed

lemma even_bus_alias:
  "even i \<Longrightarrow> i < 2 ^ 16 \<Longrightarrow>
   config_target low (of_nat i) 32 fun = config_target low (of_nat (Suc i)) 0 fun"
proof -
  assume i: "even i" "i < 2 ^ 16"
  then have "Suc i < 2 ^ 16" by (cases "Suc i = 2 ^ 16") auto
  with i(2) have w: "ucast (of_nat i :: u16) = (of_nat i :: u32)"
    "ucast (of_nat (Suc i) :: u16) = (of_nat (Suc i) :: u32)"
    by (simp_all add: unsigned_of_nat take_bit_nat_eq_self del: of_nat_Suc)
  have "i OR 1 = Suc i" using i(1) by (simp add: or_one_eq del: One_nat_def)
  then have "(of_nat (Suc i) :: u32) = of_nat i OR 1" by (metis of_nat_or_eq of_nat_1)
  then show ?thesis
    unfolding config_target_def w by (simp add: or.left_commute or.assoc push_bit_or)
qed

subsection \<open>Properties\<close>

text \<open>
  The search, on a bus that answers from its configuration space: the entry for each bus is the last device and function
  of the wanted class among the 33 devices and 8 functions probed, and stays uninitialised when there is
  none. There are 32 devices on a bus; the 33rd of an even bus is the first of the next one.
\<close>

theorem device_search_spec:
  assumes "config_space cfg b" and "length before = 256" and "i < 256"
  shows "fst (PciIterator_new kind before b) ! i =
      (case filter (\<lambda>t. fst t = i \<and> class_at cfg t = kind) probe_order of
         [] \<Rightarrow> before ! i
       | xs \<Rightarrow> device_of (last xs)) \<and>
    (even i \<longrightarrow> class_at cfg (i, 32, f) = class_at cfg (Suc i, 0, f))"
  using fold_probe [OF assms(1), of i before kind probe_order] assms(2,3) even_bus_alias [of i 8 "of_nat f"]
  by (simp add: PciIterator_new_def class_at_def)

theorem device_search_spec_witness:
  "fst (PciIterator_new 1 (replicate 256 (PciDevice_new 7 7 7 7)) \<lparr>answer = (\<lambda>_ _. 0), history = []\<rparr>) ! 3 =
     PciDevice_new 7 7 7 7"
proof -
  have "config_space (\<lambda>_. 0) \<lparr>answer = (\<lambda>_ _. 0), history = []\<rparr>" by (simp add: config_space_def)
  then show ?thesis
    using device_search_spec [of "\<lambda>_. 0" "\<lparr>answer = (\<lambda>_ _. 0), history = []\<rparr>"
        "replicate 256 (PciDevice_new 7 7 7 7)" 3 1]
    by (simp add: class_at_def case_prod_beta)
qed

text \<open>
  Switching a device on: \<^verbatim>\<open>EnableMmio\<close> and \<^verbatim>\<open>BecomeBusMaster\<close> read the register they
  are given and write 1 to it, whatever they read; neither sets the bit it is named after, and they do the same.
\<close>

theorem enabling_writes_one:
  "\<exists>v :: u16. PciDevice_EnableMmio bar d b =
     b\<lparr>history := history b @
        (let t = config_target (bar AND NOT 3) (fBus d) (fDevice d) (fFunction d) in
         [Out 0xCF8 t, In (0xCFC + ucast (bar AND 3)) (ucast v), Out 0xCF8 t, Out (0xCFC + ucast (fBar d AND 3)) 1])\<rparr> \<and>
   PciDevice_BecomeBusMaster bar d b = PciDevice_EnableMmio bar d b"
  by (auto simp: PciDevice_EnableMmio_def PciDevice_BecomeBusMaster_def PciDevice_Read_def PciDevice_Write_def
      OPENNE_PCISetCfgTarget_def bus_in16_def port_in_def bus_out32_def bus_out16_def port_out_def Let_def or_eq_0_iff)

text \<open>
  A slot with nothing in it, which reads as all ones, is taken for a device, and the two halves of the first
  register are the wrong way round: \<^verbatim>\<open>VendorId\<close> is the upper one.
\<close>

theorem empty_slot_is_a_device:
  assumes "config_space cfg b" and "cfg (config_target 0 (fBus d) (fDevice d) (fFunction d)) = v"
  shows "fst (PciDevice_VendorId d b) = ucast (drop_bit 16 v) \<and> fst (PciDevice_DeviceId d b) = ucast v \<and>
    (v = 0xFFFFFFFF \<longrightarrow> fst (PciDevice_bool d b))"
  using read_raw_config(1) [OF assms(1), of 0] assms(2)
  by (auto simp: PciDevice_VendorId_def PciDevice_DeviceId_def PciDevice_bool_def PciConfigKind_Invalid_def case_prod_beta)

theorem empty_slot_is_a_device_witness:
  "fst (PciDevice_bool (PciDevice_new 0 0 0 0) \<lparr>answer = (\<lambda>_ _. 0xFFFFFFFF), history = []\<rparr>)"
  using empty_slot_is_a_device [of "\<lambda>_. 0xFFFFFFFF" "\<lparr>answer = (\<lambda>_ _. 0xFFFFFFFF), history = []\<rparr>" "PciDevice_new 0 0 0 0"]
  by (simp add: config_space_def)

lemma DMAWrapper_read_write:
  "DMAWrapper_bool d \<Longrightarrow> DMAWrapper_Write v off d m = (True, m') \<Longrightarrow> DMAWrapper_Read off d m' = v"
  by (auto simp: DMAWrapper_bool_def DMAWrapper_Write_def DMAWrapper_Read_def)

end
