(* ===== verification/BootLib.thy ===== *)
theory BootLib
  imports DebugOut "HOL-Library.Signed_Division"
begin

text \<open>
  The boot loader's own library: the C functions of \<^verbatim>\<open>Boot/src/BootSupport.cc\<close> (what
  \<^verbatim>\<open>CopyMem\<close>, \<^verbatim>\<open>SetMem\<close>, \<^verbatim>\<open>StrLen\<close> and \<^verbatim>\<open>StrCmp\<close> of
  \<^verbatim>\<open>BootKit/Support.h\<close> stand for in the stand-alone build), the number parser of
  \<^verbatim>\<open>BootKit/Support.h\<close>, the wide strings of \<^verbatim>\<open>BootString.cc\<close> and the text writer of
  \<^verbatim>\<open>BootTextWriter.cc\<close>.

  The loader is built by a compiler whose \<^verbatim>\<open>long\<close> has 32 bits (\<^verbatim>\<open>amd64-desktop.make\<close>);
  \<^verbatim>\<open>Long\<close> has 64. A wide string is a function from indices to 16-bit characters. Scans that
  end only at a character of memory are partial: \<open>None\<close> is a scan that never ends.
\<close>

subsection \<open>The C functions (BootSupport.cc)\<close>

text \<open>Both loops store an \<^verbatim>\<open>int\<close> for each index below the length.\<close>

fun boot_memset_loop :: "nat \<Rightarrow> u32 \<Rightarrow> nat \<Rightarrow> nat \<Rightarrow> mem \<Rightarrow> mem" where
  "boot_memset_loop dst byte i 0 m = m"
| "boot_memset_loop dst byte i (Suc left) m =
     boot_memset_loop dst byte (Suc i) left (store32 (dst + 4 * i) byte m)"

definition boot_memset :: "nat \<Rightarrow> u32 \<Rightarrow> nat \<Rightarrow> mem \<Rightarrow> nat \<times> mem" where
  "boot_memset dst byte len m = (dst, boot_memset_loop dst byte 0 len m)"

fun boot_memcpy_loop :: "nat \<Rightarrow> nat \<Rightarrow> nat \<Rightarrow> nat \<Rightarrow> mem \<Rightarrow> mem" where
  "boot_memcpy_loop dst src i 0 m = m"
| "boot_memcpy_loop dst src i (Suc left) m =
     boot_memcpy_loop dst src (Suc i) left (store32 (dst + 4 * i) (load32 (src + 4 * i) m) m)"

definition boot_memcpy :: "nat \<Rightarrow> nat \<Rightarrow> nat \<Rightarrow> mem \<Rightarrow> nat \<times> mem" where
  "boot_memcpy dst src len m = (dst, boot_memcpy_loop dst src 0 len m)"

partial_function (option) boot_strlen_loop :: "mem \<Rightarrow> nat \<Rightarrow> nat \<Rightarrow> nat option" where
  "boot_strlen_loop m what len =
     (if m (what + len) \<noteq> 0 then boot_strlen_loop m what (Suc len) else Some len)"

declare boot_strlen_loop.simps [simp del]

definition boot_strlen :: "mem \<Rightarrow> nat \<Rightarrow> nat option" where
  "boot_strlen m what = boot_strlen_loop m what 0"

partial_function (option) boot_strcmp_loop :: "mem \<Rightarrow> nat \<Rightarrow> nat \<Rightarrow> nat \<Rightarrow> u32 option" where
  "boot_strcmp_loop m left right len =
     (if m (left + len) = m (right + len)
      then if m (left + len) = 0 then Some 0 else boot_strcmp_loop m left right (Suc len)
      else Some (of_nat len))"

declare boot_strcmp_loop.simps [simp del]

definition boot_strcmp :: "mem \<Rightarrow> nat \<Rightarrow> nat \<Rightarrow> u32 option" where
  "boot_strcmp m left right =
     (if left = 0 \<or> m left = 0 then Some 0 else boot_strcmp_loop m left right 0)"

subsection \<open>Parsing numbers (Support.h)\<close>

definition IsSpace :: "int \<Rightarrow> bool" where
  "IsSpace c \<longleftrightarrow> c = 32"

fun StringNCompare_loop :: "mem \<Rightarrow> nat \<Rightarrow> nat \<Rightarrow> nat \<Rightarrow> nat \<Rightarrow> u32 \<Rightarrow> u32" where
  "StringNCompare_loop m destination source i 0 err = err"
| "StringNCompare_loop m destination source i (Suc left) err =
     StringNCompare_loop m destination source (Suc i) left
       (if m (source + i) \<noteq> m (destination + i) then err + 1 else err)"

definition StringNCompare :: "mem \<Rightarrow> nat \<Rightarrow> nat \<Rightarrow> u32 \<Rightarrow> u32" where
  "StringNCompare m destination source len =
     StringNCompare_loop m destination source 0 (nat (sint len)) 0"

abbreviation kLongMax :: int where "kLongMax \<equiv> 2 ^ 31 - 1"
abbreviation kLongMin :: int where "kLongMin \<equiv> - (2 ^ 31)"

text \<open>A character is signed; \<open>None\<close> is the character that is below the letters and above the digits.\<close>

definition digit_of :: "u8 \<Rightarrow> int option" where
  "digit_of ch =
     (if 65 \<le> sint ch then Some (((sint ch - 65) AND NOT 32) + 10)
      else if sint ch \<le> 57 then Some (sint ch - 48)
      else None)"

partial_function (option) skip_spaces :: "mem \<Rightarrow> nat \<Rightarrow> nat option" where
  "skip_spaces m p = (if IsSpace (sint (m p)) then skip_spaces m (Suc p) else Some p)"

declare skip_spaces.simps [simp del]

text \<open>The prefix after the sign: the new position, the end pointer, and the base.\<close>

definition number_prefix :: "mem \<Rightarrow> int \<Rightarrow> nat \<Rightarrow> nat \<Rightarrow> nat \<times> nat \<times> int" where
  "number_prefix m base p endp =
     (if m p = 48
      then let q = Suc p in
        if base = 16 \<and> (m q = 88 \<or> m q = 120) then (Suc q, q, base)
        else if base = 2 \<and> (m q = 66 \<or> m q = 98) then (Suc q, q, base)
        else if base = 0
             then if m q = 88 \<or> m q = 120 then (Suc q, q, 16)
                  else if m q = 66 \<or> m q = 98 then (Suc q, q, 2)
                  else (q, q, 8)
             else (q, q, base)
      else if base = 0 then (p, endp, 10)
      else (p, endp, base))"

partial_function (option) digits_loop ::
  "mem \<Rightarrow> bool \<Rightarrow> int \<Rightarrow> u32 \<Rightarrow> int \<Rightarrow> nat \<Rightarrow> nat \<Rightarrow> bool \<Rightarrow> u32 \<Rightarrow> (nat \<times> bool \<times> u32) option" where
  "digits_loop m want_end base cutoff cutlim p endp overflow n =
     (case digit_of (m p) of
        None \<Rightarrow> Some (endp, overflow, n)
      | Some c \<Rightarrow>
         if c < 0 \<or> base \<le> c then Some (endp, overflow, n)
         else let p1 = Suc p in
           if overflow
           then if want_end then digits_loop m want_end base cutoff cutlim p1 p1 overflow n
                else Some (p1, overflow, n)
           else if cutoff < n \<or> n = cutoff \<and> cutlim < c
           then digits_loop m want_end base cutoff cutlim p1 p1 True n
           else digits_loop m want_end base cutoff cutlim p1 p1 overflow (n * of_int base + of_int c))"

declare digits_loop.simps [simp del]

text \<open>\<open>want_end\<close>: the caller gives a place for the end pointer. The result has the end pointer too.\<close>

definition StringToLong :: "mem \<Rightarrow> nat \<Rightarrow> bool \<Rightarrow> int \<Rightarrow> (u32 \<times> nat option) option" where
  "StringToLong m nptr want_end base =
     (if base < 0 \<or> base = 1 \<or> 36 < base then Some (0, None)
      else case skip_spaces m nptr of
        None \<Rightarrow> None
      | Some p \<Rightarrow>
         (let is_neg = (m p = 45);
              p1 = (if m p = 43 then Suc p else if m p = 45 then Suc p else p)
          in case number_prefix m base p1 nptr of (p2, endp, b) \<Rightarrow>
            (let cutoff = (if is_neg then - (of_int (kLongMin sdiv b)) else of_int (kLongMax sdiv b));
                 cutlim = (if is_neg then - (kLongMin smod b) else kLongMax smod b)
             in case digits_loop m want_end b cutoff cutlim p2 endp False 0 of
                  None \<Rightarrow> None
                | Some (endp', overflow, n) \<Rightarrow>
                    Some (if overflow then (if is_neg then of_int kLongMin else of_int kLongMax)
                          else if is_neg then - n else n,
                          if want_end then Some endp' else None))))"

subsection \<open>Wide strings (BootString.cc)\<close>

text \<open>A null argument is \<open>None\<close>.\<close>

fun BCopyMem_loop :: "(nat \<Rightarrow> u16) \<Rightarrow> nat \<Rightarrow> nat \<Rightarrow> (nat \<Rightarrow> u16) \<Rightarrow> (nat \<Rightarrow> u16)" where
  "BCopyMem_loop src index 0 dest = dest"
| "BCopyMem_loop src index (Suc left) dest =
     BCopyMem_loop src (Suc index) left (dest(index := src index))"

definition BCopyMem ::
  "(nat \<Rightarrow> u16) option \<Rightarrow> (nat \<Rightarrow> u16) option \<Rightarrow> nat \<Rightarrow> nat \<times> (nat \<Rightarrow> u16) option" where
  "BCopyMem dest src len =
     (case (dest, src) of
        (Some d, Some s) \<Rightarrow> (len, Some (BCopyMem_loop s 0 len d))
      | _ \<Rightarrow> (0, dest))"

partial_function (option) BStrLen_loop :: "(nat \<Rightarrow> u16) \<Rightarrow> nat \<Rightarrow> nat option" where
  "BStrLen_loop str cnt = (if str cnt \<noteq> 0 then BStrLen_loop str (Suc cnt) else Some cnt)"

declare BStrLen_loop.simps [simp del]

definition BStrLen :: "(nat \<Rightarrow> u16) option \<Rightarrow> nat option" where
  "BStrLen ptr = (case ptr of None \<Rightarrow> Some 0 | Some str \<Rightarrow> BStrLen_loop str 0)"

text \<open>The fill stops at a terminator or after one character more than asked for.\<close>

function BSetMem_loop :: "('c::zero) \<Rightarrow> nat \<Rightarrow> nat \<Rightarrow> (nat \<Rightarrow> 'c) \<Rightarrow> nat \<times> (nat \<Rightarrow> 'c)" where
  "BSetMem_loop byte len cnt src =
     (if src cnt = 0 then (cnt, src)
      else if len < cnt then (cnt, src)
      else BSetMem_loop byte len (Suc cnt) (src(cnt := byte)))"
  by pat_completeness auto
termination
  by (relation "measure (\<lambda>(byte, len, cnt, src). Suc len - cnt)") auto

declare BSetMem_loop.simps [simp del]

definition BSetMem16 :: "(nat \<Rightarrow> u16) option \<Rightarrow> u16 \<Rightarrow> nat \<Rightarrow> nat \<times> (nat \<Rightarrow> u16) option" where
  "BSetMem16 src byte len =
     (case src of None \<Rightarrow> (0, None)
      | Some s \<Rightarrow> (case BSetMem_loop byte len 0 s of (cnt, s') \<Rightarrow> (cnt, Some s')))"

definition BSetMem8 :: "(nat \<Rightarrow> u8) option \<Rightarrow> u8 \<Rightarrow> nat \<Rightarrow> nat \<times> (nat \<Rightarrow> u8) option" where
  "BSetMem8 src byte len =
     (case src of None \<Rightarrow> (0, None)
      | Some s \<Rightarrow> (case BSetMem_loop byte len 0 s of (cnt, s') \<Rightarrow> (cnt, Some s')))"

subsection \<open>The text writer (BootTextWriter.cc)\<close>

text \<open>
  The firmware's console gets strings of one character; the writer's effect is the list of the
  characters it sends. Outside a debug build nothing is written. The three overloads for strings
  differ in the type of a character alone: \<open>str\<close> gives the characters as the console gets them.
\<close>

partial_function (option) text_loop :: "(nat \<Rightarrow> u16) \<Rightarrow> nat \<Rightarrow> u16 list \<Rightarrow> u16 list option" where
  "text_loop str i out =
     (if str i = 0 then Some out
      else text_loop str (Suc i) (out @ (if str i = 13 then [13, 10] else [str i])))"

declare text_loop.simps [simp del]

definition BTextWriter_Write_wide :: "bool \<Rightarrow> (nat \<Rightarrow> u16) option \<Rightarrow> u16 list \<Rightarrow> u16 list option" where
  "BTextWriter_Write_wide dbg str out =
     (if \<not> dbg then Some out
      else case str of None \<Rightarrow> Some out | Some s \<Rightarrow> if s 0 = 0 then Some out else text_loop s 0 out)"

definition BTextWriter_Write_char :: "bool \<Rightarrow> (nat \<Rightarrow> u8) option \<Rightarrow> u16 list \<Rightarrow> u16 list option" where
  "BTextWriter_Write_char dbg str out =
     (if \<not> dbg then Some out
      else case str of None \<Rightarrow> Some out
        | Some s \<Rightarrow> if s 0 = 0 then Some out else text_loop (\<lambda>i. scast (s i)) 0 out)"

definition BTextWriter_Write_uchar :: "bool \<Rightarrow> (nat \<Rightarrow> u8) option \<Rightarrow> u16 list \<Rightarrow> u16 list option" where
  "BTextWriter_Write_uchar dbg str out =
     (if \<not> dbg then Some out
      else case str of None \<Rightarrow> Some out
        | Some s \<Rightarrow> if s 0 = 0 then Some out else text_loop (\<lambda>i. ucast (s i)) 0 out)"

definition WriteCharacter :: "bool \<Rightarrow> u16 \<Rightarrow> u16 list \<Rightarrow> u16 list" where
  "WriteCharacter dbg c out = (if dbg then out @ [c] else out)"

definition cNumbers :: "u8 list" where
  "cNumbers = [48, 49, 50, 51, 52, 53, 54, 55, 56, 57, 65, 66, 67, 68, 69, 70, 0]"

text \<open>
  As in the kernel's debug output, the absolute value is taken at 64 bits, so the smallest number
  stays negative; the recursion takes the quotient back as a signed number.
\<close>

function hex_write :: "bool \<Rightarrow> int \<Rightarrow> u16 list \<Rightarrow> u16 list" where
  "hex_write dbg x out =
     (if \<not> dbg then out
      else let y = tquot (long_abs x) 16; h = trem (long_abs x) 16;
               out1 = (if y \<noteq> 0 then hex_write dbg y out else out)
      in if above h 16 then WriteCharacter dbg 63 out1
         else WriteCharacter dbg (scast (cNumbers ! nat h)) out1)"
  by pat_completeness auto
termination
  by (relation "measure (\<lambda>(dbg, x, out). nat \<bar>x\<bar>)") (auto simp: tquot_measure)

declare hex_write.simps [simp del]

definition BTextWriter_Write_long :: "bool \<Rightarrow> int \<Rightarrow> u16 list \<Rightarrow> u16 list option" where
  "BTextWriter_Write_long dbg x out =
     (if \<not> dbg then Some out
      else BTextWriter_Write_char dbg (Some (\<lambda>i. if i = 0 then 104 else 0)) (hex_write dbg x out))"

subsection \<open>The C functions on memory\<close>

lemma boot_memcpy_loop_frame:
  "j < dst + 4 * i \<or> dst + 4 * (i + left) \<le> j \<Longrightarrow> boot_memcpy_loop dst src i left m j = m j"
  by (induction dst src i left m rule: boot_memcpy_loop.induct)
    (auto simp: store32_def write_bytes_def)

lemma store_load32: "store32 a (load32 b m) m j = (if a \<le> j \<and> j < a + 4 then m (b + (j - a)) else m j)"
proof -
  have "enc32 (dec32 bs) = bs" if "length bs = 4" for bs
    using that le_nat_less [of bs] le_bytes_le_nat [of bs]
    by (simp add: enc32_def dec32_def unat_of_nat take_bit_nat_eq_self)
  then have "enc32 (load32 b m) = read_bytes b 4 m" by (simp add: load32_def)
  then show ?thesis by (auto simp: store32_def write_bytes_def read_bytes_nth)
qed

lemma boot_memcpy_loop_copies:
  assumes "disjoint_ext (src + 4 * i) (4 * left) (dst + 4 * i) (4 * left)" and "j < 4 * left"
  shows "boot_memcpy_loop dst src i left m (dst + 4 * i + j) = m (src + 4 * i + j)"
  using assms
proof (induction dst src i left m arbitrary: j rule: boot_memcpy_loop.induct)
  case (1 dst src i m)
  then show ?case by simp
next
  case (2 dst src i left m)
  show ?case
  proof (cases "j < 4")
    case True
    then show ?thesis using boot_memcpy_loop_frame [of "dst + 4 * i + j" dst "Suc i" left]
      by (simp add: store_load32)
  next
    case False
    have "disjoint_ext (src + 4 * Suc i) (4 * left) (dst + 4 * Suc i) (4 * left)" "j - 4 < 4 * left"
      using 2 False by (auto simp: disjoint_ext_def)
    from "2.IH" [OF this] have
      "boot_memcpy_loop dst src i (Suc left) m (dst + 4 * Suc i + (j - 4)) =
       store32 (dst + 4 * i) (load32 (src + 4 * i) m) m (src + 4 * Suc i + (j - 4))" by simp
    moreover have "dst + 4 * Suc i + (j - 4) = dst + 4 * i + j" "src + 4 * Suc i + (j - 4) = src + 4 * i + j"
      using False by simp_all
    moreover have "store32 (dst + 4 * i) (load32 (src + 4 * i) m) m (src + 4 * i + j) = m (src + 4 * i + j)"
      using False "2.prems" by (auto simp: store_load32 disjoint_ext_def)
    ultimately show ?thesis by (simp only:)
  qed
qed

lemma boot_memcpy_bytes:
  assumes "disjoint_ext src (4 * len) dst (4 * len)"
  shows "snd (boot_memcpy dst src len m) j = (if dst \<le> j \<and> j < dst + 4 * len then m (src + (j - dst)) else m j)"
proof (cases "dst \<le> j \<and> j < dst + 4 * len")
  case True
  then have "j - dst < 4 * len" by auto
  with True show ?thesis using boot_memcpy_loop_copies [of src 0 len dst "j - dst" m] assms
    by (simp add: boot_memcpy_def)
next
  case False
  then show ?thesis using boot_memcpy_loop_frame [of j dst 0 len src m] by (auto simp: boot_memcpy_def)
qed

subsection \<open>Comparing strings\<close>

text \<open>\<open>at_mem m p xs\<close>: the bytes \<open>xs\<close> lie in memory from \<open>p\<close> on.\<close>

fun at_mem :: "mem \<Rightarrow> nat \<Rightarrow> u8 list \<Rightarrow> bool" where
  "at_mem m p [] = True"
| "at_mem m p (x # xs) = (m p = x \<and> at_mem m (Suc p) xs)"

lemma at_mem_append: "at_mem m p (xs @ ys) \<longleftrightarrow> at_mem m p xs \<and> at_mem m (p + length xs) ys"
  by (induction xs arbitrary: p) auto

fun common_prefix :: "'a list \<Rightarrow> 'a list \<Rightarrow> nat" where
  "common_prefix (x # xs) (y # ys) = (if x = y then Suc (common_prefix xs ys) else 0)"
| "common_prefix _ _ = 0"

lemma boot_strcmp_loop_spec:
  "at_mem m (l + n) (xs @ [0]) \<Longrightarrow> at_mem m (r + n) (ys @ [0]) \<Longrightarrow> 0 \<notin> set xs \<Longrightarrow> 0 \<notin> set ys \<Longrightarrow>
   boot_strcmp_loop m l r n = Some (if xs = ys then 0 else of_nat (n + common_prefix xs ys))"
proof (induction xs ys arbitrary: n rule: common_prefix.induct [case_names both left_nil right_nil])
  case (both x xs y ys)
  show ?case
  proof (cases "x = y")
    case True
    then show ?thesis using both by (subst boot_strcmp_loop.simps) auto
  next
    case False
    then show ?thesis using both.prems by (subst boot_strcmp_loop.simps) auto
  qed
next
  case (left_nil ys)
  then show ?case by (cases ys) (subst boot_strcmp_loop.simps, auto)+
next
  case (right_nil xs)
  then show ?case by (cases xs) (subst boot_strcmp_loop.simps, auto)+
qed

lemma common_prefix_0: "common_prefix xs ys = 0 \<longleftrightarrow> xs = [] \<or> ys = [] \<or> hd xs \<noteq> hd ys"
  by (cases "(xs, ys)" rule: common_prefix.cases) auto

lemma common_prefix_le: "common_prefix xs ys \<le> length xs"
  by (induction xs ys rule: common_prefix.induct) auto

lemma boot_strcmp_spec:
  assumes "l \<noteq> 0" "at_mem m l (xs @ [0])" "at_mem m r (ys @ [0])" "0 \<notin> set xs" "0 \<notin> set ys"
  shows "boot_strcmp m l r = Some (if xs = [] \<or> xs = ys then 0 else of_nat (common_prefix xs ys))"
proof (cases xs)
  case Nil
  then show ?thesis using assms by (simp add: boot_strcmp_def)
next
  case (Cons x xs')
  then show ?thesis using assms boot_strcmp_loop_spec [of m l 0 xs r ys] by (simp add: boot_strcmp_def)
qed

text \<open>So the answer is zero for strings that are equal, and for all that differ in their first character.\<close>

lemma boot_strcmp_zero_iff:
  assumes "l \<noteq> 0" "at_mem m l (xs @ [0])" "at_mem m r (ys @ [0])" "0 \<notin> set xs" "0 \<notin> set ys"
    and "length xs < 2 ^ 32"
  shows "boot_strcmp m l r = Some 0 \<longleftrightarrow> xs = ys \<or> xs = [] \<or> ys = [] \<or> hd xs \<noteq> hd ys"
proof -
  have "common_prefix xs ys < 2 ^ LENGTH(32)" using common_prefix_le [of xs ys] assms(6) by simp
  then have "unat (of_nat (common_prefix xs ys) :: u32) = common_prefix xs ys"
    by (rule unat_of_nat_eq_len)
  then have "(of_nat (common_prefix xs ys) :: u32) = 0 \<longleftrightarrow> common_prefix xs ys = 0"
    by (metis unat_eq_0)
  then show ?thesis by (auto simp: boot_strcmp_spec [OF assms(1-5)] common_prefix_0)
qed

subsection \<open>Parsing\<close>

definition is_digit :: "int \<Rightarrow> u8 \<Rightarrow> bool" where
  "is_digit base ch \<longleftrightarrow> (case digit_of ch of None \<Rightarrow> False | Some c \<Rightarrow> 0 \<le> c \<and> c < base)"

definition digits_val :: "int \<Rightarrow> int \<Rightarrow> u8 list \<Rightarrow> int" where
  "digits_val base n ds = foldl (\<lambda>n ch. n * base + the (digit_of ch)) n ds"

lemma digits_val_simps [simp]:
  "digits_val base n [] = n"
  "digits_val base n (d # ds) = digits_val base (n * base + the (digit_of d)) ds"
  by (simp_all add: digits_val_def)

lemma digits_val_ge: "list_all (is_digit base) ds \<Longrightarrow> 1 \<le> base \<Longrightarrow> 0 \<le> n \<Longrightarrow> n \<le> digits_val base n ds"
proof (induction ds arbitrary: n)
  case (Cons d ds)
  then have c: "0 \<le> the (digit_of d)" by (auto simp: is_digit_def split: option.splits)
  have "n * 1 \<le> n * base" using Cons.prems by (intro mult_left_mono) auto
  with c have "n \<le> n * base + the (digit_of d)" by simp
  moreover have "n * base + the (digit_of d) \<le> digits_val base (n * base + the (digit_of d)) ds"
    using Cons calculation by simp
  ultimately show ?case by simp
qed simp

lemma digits_loop_stop:
  "\<not> is_digit base (m p) \<Longrightarrow> digits_loop m w base cutoff cutlim p endp ov n = Some (endp, ov, n)"
  by (subst digits_loop.simps) (auto simp: is_digit_def split: option.splits)

lemma digits_loop_overflowed:
  "at_mem m p (ds @ [stop]) \<Longrightarrow> list_all (is_digit base) ds \<Longrightarrow> \<not> is_digit base stop \<Longrightarrow>
   (w \<longrightarrow> endp = p) \<Longrightarrow>
   \<exists>e n'. digits_loop m w base cutoff cutlim p endp True n = Some (e, True, n') \<and> (w \<longrightarrow> e = p + length ds)"
proof (induction ds arbitrary: p endp)
  case Nil
  then show ?case by (simp add: digits_loop_stop)
next
  case (Cons d ds)
  then obtain c where c: "digit_of d = Some c" "0 \<le> c" "c < base"
    by (auto simp: is_digit_def split: option.splits)
  show ?case
  proof (cases w)
    case True
    with Cons.prems have "at_mem m (Suc p) (ds @ [stop])" "list_all (is_digit base) ds" by simp_all
    from Cons.IH [OF this Cons.prems(3), of "Suc p"] True Cons.prems(1) c show ?thesis
      by (subst digits_loop.simps) auto
  next
    case False
    then show ?thesis using Cons.prems c by (subst digits_loop.simps) simp
  qed
qed

text \<open>The test against the two limits is the test against the largest value they stand for.\<close>

lemma limit_test:
  fixes n c base :: int
  assumes "0 \<le> c" "c < base" "0 \<le> cl" "cl < base"
  shows "cu < n \<or> n = cu \<and> cl < c \<longleftrightarrow> cu * base + cl < n * base + c"
proof (cases n cu rule: linorder_cases)
  case less
  then have "(n + 1) * base \<le> cu * base" using assms by (intro mult_right_mono) auto
  with less assms show ?thesis by (simp add: algebra_simps)
next
  case equal
  with assms show ?thesis by auto
next
  case greater
  then have "(cu + 1) * base \<le> n * base" using assms by (intro mult_right_mono) auto
  with greater assms show ?thesis by (simp add: algebra_simps)
qed

lemma digits_loop_run:
  assumes "2 \<le> base" "0 \<le> cl" "cl < base" "uint cu * base + cl < 2 ^ 32"
    and "at_mem m p (ds @ [stop])" "list_all (is_digit base) ds" "\<not> is_digit base stop"
    and "uint n \<le> uint cu * base + cl"
  shows "\<exists>e n' ov. digits_loop m w base cu cl p endp False n = Some (e, ov, n') \<and>
    (w \<longrightarrow> e = (if ds = [] then endp else p + length ds)) \<and>
    (ov \<longleftrightarrow> uint cu * base + cl < digits_val base (uint n) ds) \<and>
    (\<not> ov \<longrightarrow> uint n' = digits_val base (uint n) ds)"
  using assms(5-8)
proof (induction ds arbitrary: p endp n)
  case Nil
  then have "digits_loop m w base cu cl p endp False n = Some (endp, False, n)"
    by (simp add: digits_loop_stop)
  with Nil show ?case by auto
next
  case (Cons d ds)
  then obtain c where c: "digit_of d = Some c" "0 \<le> c" "c < base"
    by (auto simp: is_digit_def split: option.splits)
  have t: "cu < n \<or> n = cu \<and> cl < c \<longleftrightarrow> uint cu * base + cl < uint n * base + c"
    using limit_test [OF c(2,3) assms(2,3), of "uint cu" "uint n"] by (simp add: word_less_def word_uint_eq_iff)
  have mp: "m p = d" and at: "at_mem m (Suc p) (ds @ [stop])" and ds: "list_all (is_digit base) ds"
    using Cons.prems by simp_all
  show ?case
  proof (cases "uint cu * base + cl < uint n * base + c")
    case True
    have "0 \<le> uint n * base + c" using assms(1) c(2) by simp
    then have "uint n * base + c \<le> digits_val base (uint n * base + c) ds"
      using digits_val_ge [OF ds] assms(1) by simp
    with True have "uint cu * base + cl < digits_val base (uint n * base + c) ds" by simp
    moreover obtain e n' where "digits_loop m w base cu cl (Suc p) (Suc p) True n = Some (e, True, n')"
      "w \<longrightarrow> e = Suc p + length ds"
      using digits_loop_overflowed [OF at ds Cons.prems(3), of w "Suc p" cu cl n] by auto
    moreover have "digits_loop m w base cu cl p endp False n =
        digits_loop m w base cu cl (Suc p) (Suc p) True n"
      using True t mp c by (subst digits_loop.simps) simp
    ultimately show ?thesis using c by auto
  next
    case False
    let ?n = "n * of_int base + of_int c"
    have "uint ?n = uint (word_of_int (uint n * base + c) :: u32)" by simp
    then have "uint ?n = take_bit 32 (uint n * base + c)"
      by (simp only: uint_word_of_int_eq) simp
    moreover have "0 \<le> uint n * base + c" "uint n * base + c < 2 ^ 32"
      using False assms(1,4) c(2) by simp_all
    ultimately have n: "uint ?n = uint n * base + c"
      by (simp add: take_bit_int_eq_self)
    obtain e n' ov where "digits_loop m w base cu cl (Suc p) (Suc p) False ?n = Some (e, ov, n')"
      "w \<longrightarrow> e = (if ds = [] then Suc p else Suc p + length ds)"
      "ov \<longleftrightarrow> uint cu * base + cl < digits_val base (uint ?n) ds"
      "\<not> ov \<longrightarrow> uint n' = digits_val base (uint ?n) ds"
      using Cons.IH [OF at ds Cons.prems(3), of ?n "Suc p"] False n by auto
    then show ?thesis using False t mp c n by (subst digits_loop.simps) auto
  qed
qed

lemma sint_eq_numeral8 [simp]: "sint (x :: u8) = 32 \<longleftrightarrow> x = 32"
  using word_eq_iff_signed [where ?'a = int and v = x and w = 32] by simp

lemma skip_spaces_run:
  "at_mem m p (replicate k 32 @ x # rest) \<Longrightarrow> x \<noteq> 32 \<Longrightarrow> skip_spaces m p = Some (p + k)"
proof (induction k arbitrary: p)
  case 0
  then show ?case by (subst skip_spaces.simps) (simp add: IsSpace_def)
next
  case (Suc k)
  then show ?case by (subst skip_spaces.simps) (simp add: IsSpace_def)
qed

lemma no_digit [simp]: "\<not> is_digit base 32" "\<not> is_digit base 43" "\<not> is_digit base 45"
  by (simp_all add: is_digit_def digit_of_def)

lemma no_prefix_letter:
  "\<not> is_digit 16 88" "\<not> is_digit 16 120" "\<not> is_digit 2 66" "\<not> is_digit 2 98"
  by (simp_all add: is_digit_def digit_of_def)

lemma digit_zero: "digit_of 48 = Some 0"
  by (simp add: digit_of_def)

lemma number_prefix_digits:
  assumes "2 \<le> base" "at_mem m p (d # ds @ [stop])" "list_all (is_digit base) ds" "stop \<notin> {66, 88, 98, 120}"
  shows "number_prefix m base p e = (if d = 48 then (Suc p, Suc p, base) else (p, e, base))"
proof -
  have "\<not> (base = 16 \<and> (m (Suc p) = 88 \<or> m (Suc p) = 120))" "\<not> (base = 2 \<and> (m (Suc p) = 66 \<or> m (Suc p) = 98))"
    using assms no_prefix_letter by (cases ds; auto)+
  then show ?thesis using assms(1,2) by (auto simp: number_prefix_def Let_def)
qed

definition long_clamp :: "int \<Rightarrow> int" where
  "long_clamp v = max kLongMin (min kLongMax v)"

text \<open>The limit a sign gives: its two halves, and the value they stand for.\<close>

definition long_limit :: "bool \<Rightarrow> int" where
  "long_limit is_neg = (if is_neg then 2 ^ 31 else 2 ^ 31 - 1)"

lemma limits:
  assumes "2 \<le> b" "b \<le> 36"
  shows "(if is_neg then - (word_of_int (kLongMin sdiv b)) else word_of_int (kLongMax sdiv b)) =
      (word_of_int (long_limit is_neg div b) :: u32)"
    and "(if is_neg then - (kLongMin smod b) else kLongMax smod b) = long_limit is_neg mod b"
proof -
  have d: "kLongMin sdiv b = - (2 ^ 31 div b)" "kLongMax sdiv b = (2 ^ 31 - 1) div b"
    using assms by (simp_all add: signed_divide_int_def sgn_if)
  show "(if is_neg then - (word_of_int (kLongMin sdiv b)) else word_of_int (kLongMax sdiv b)) =
      (word_of_int (long_limit is_neg div b) :: u32)"
    unfolding d long_limit_def by simp
  have "kLongMin smod b = - (2 ^ 31 mod b)" "kLongMax smod b = (2 ^ 31 - 1) mod b"
    unfolding signed_modulo_int_def d using assms by (simp_all add: minus_div_mult_eq_mod [symmetric] abs_if)
  then show "(if is_neg then - (kLongMin smod b) else kLongMax smod b) = long_limit is_neg mod b"
    by (simp add: long_limit_def)
qed

lemma digits_loop_limit:
  assumes "2 \<le> b" "b \<le> 36" "at_mem m p (ds @ [stop])" "list_all (is_digit b) ds" "\<not> is_digit b stop"
  shows "\<exists>e n' ov. digits_loop m w b (word_of_int (long_limit neg div b)) (long_limit neg mod b) p endp False 0 =
      Some (e, ov, n') \<and> (w \<longrightarrow> e = (if ds = [] then endp else p + length ds)) \<and>
    (if ov then if neg then word_of_int kLongMin else word_of_int kLongMax else if neg then - n' else n') =
      word_of_int (long_clamp (if neg then - digits_val b 0 ds else digits_val b 0 ds))"
proof -
  let ?L = "long_limit neg" and ?v = "digits_val b 0 ds"
  have L: "0 \<le> ?L" "?L < 2 ^ 32" by (simp_all add: long_limit_def)
  have "?L div b \<le> ?L div 1" using L(1) assms(1) by (intro zdiv_mono2) auto
  then have u: "uint (word_of_int (?L div b) :: u32) = ?L div b"
    using L assms(1) by (simp add: uint_word_of_int_eq take_bit_int_eq_self pos_imp_zdiv_nonneg_iff)
  have sum: "uint (word_of_int (?L div b) :: u32) * b + ?L mod b = ?L" unfolding u by simp
  have v: "0 \<le> ?v" using digits_val_ge [OF assms(4), of 0] assms(1) by simp
  obtain e n' ov where run: "digits_loop m w b (word_of_int (?L div b)) (?L mod b) p endp False 0 = Some (e, ov, n')"
    "w \<longrightarrow> e = (if ds = [] then endp else p + length ds)" and ov: "ov \<longleftrightarrow> ?L < ?v"
    and n: "\<not> ov \<longrightarrow> uint n' = ?v"
    using digits_loop_run [of b "?L mod b" "word_of_int (?L div b)" m p ds stop 0 w endp]
      assms L unfolding sum by auto
  have "(if ov then if neg then word_of_int kLongMin else word_of_int kLongMax else if neg then - n' else n') =
      word_of_int (long_clamp (if neg then - ?v else ?v))"
  proof (cases ov)
    case True
    with ov v show ?thesis by (cases neg) (simp_all add: long_clamp_def long_limit_def max_def min_def)
  next
    case False
    then have "n' = word_of_int ?v" using n by (metis word_of_int_uint)
    with False ov v show ?thesis by (cases neg) (simp_all add: long_clamp_def long_limit_def max_def min_def)
  qed
  with run show ?thesis by blast
qed

lemma StringToLong_digits:
  assumes "2 \<le> base" "base \<le> 36" "list_all (is_digit base) ds" "ds \<noteq> []"
    and "\<not> is_digit base stop" "stop \<notin> {66, 88, 98, 120}" "sg \<in> {[], [43], [45]}"
    and "at_mem m nptr (replicate k 32 @ sg @ ds @ [stop])"
  shows "StringToLong m nptr w base =
    Some (word_of_int (long_clamp (if sg = [45] then - digits_val base 0 ds else digits_val base 0 ds)),
          if w then Some (nptr + k + length sg + length ds) else None)"
proof -
  obtain d ds' where ds: "ds = d # ds'" using assms(4) by (cases ds) auto
  have d: "d \<noteq> 32" "d \<noteq> 43" "d \<noteq> 45" using assms(3) ds by auto
  define p where "p = nptr + k"
  define p1 where "p1 = p + length sg"
  have at: "at_mem m p (sg @ ds @ [stop])" "at_mem m p1 (ds @ [stop])"
    using assms(8) by (simp_all add: at_mem_append p_def p1_def)
  obtain x xs where sgx: "sg @ ds @ [stop] = x # xs" "x \<noteq> 32"
    using assms(7) d ds by auto
  then have sp: "skip_spaces m nptr = Some p"
    using skip_spaces_run [of m nptr k x xs] assms(8) by (simp add: p_def)
  have neg: "m p = 45 \<longleftrightarrow> sg = [45]" and p1: "(if m p = 43 then Suc p else if m p = 45 then Suc p else p) = p1"
    using at(1) assms(7) d ds by (auto simp: p1_def)
  define p2 where "p2 = (if d = 48 then Suc p1 else p1)"
  define e0 where "e0 = (if d = 48 then Suc p1 else nptr)"
  define rest where "rest = (if d = 48 then ds' else ds)"
  have rest: "at_mem m p2 (rest @ [stop])" "list_all (is_digit base) rest"
    "digits_val base 0 ds = digits_val base 0 rest"
    "(if rest = [] then e0 else p2 + length rest) = nptr + k + length sg + length ds"
    using at(2) assms(3,4) ds digit_zero by (auto simp: p2_def e0_def rest_def p_def p1_def)
  have pre: "number_prefix m base p1 nptr = (p2, e0, base)"
    using number_prefix_digits [of base m p1 d ds' stop] at(2) assms(1,3,6) ds by (simp add: p2_def e0_def)
  obtain e n' ov where run: "digits_loop m w base (word_of_int (long_limit (sg = [45]) div base))
        (long_limit (sg = [45]) mod base) p2 e0 False 0 = Some (e, ov, n')"
      "w \<longrightarrow> e = nptr + k + length sg + length ds"
      "(if ov then if sg = [45] then word_of_int kLongMin else word_of_int kLongMax
        else if sg = [45] then - n' else n') =
       word_of_int (long_clamp (if sg = [45] then - digits_val base 0 ds else digits_val base 0 ds))"
    using digits_loop_limit [OF assms(1,2) rest(1,2) assms(5), of w "sg = [45]" e0] unfolding rest(3,4) by blast
  have "StringToLong m nptr w base = Some (if ov then if sg = [45] then word_of_int kLongMin
      else word_of_int kLongMax else if sg = [45] then - n' else n', if w then Some e else None)"
    using assms(1,2) run(1) unfolding StringToLong_def sp
    by (simp add: neg p1 pre limits [OF assms(1,2), of "sg = [45]"] Let_def split del: if_split)
  then show ?thesis using run(2) unfolding run(3) by (cases w) simp_all
qed

text \<open>
  C21. Parsing a number: spaces, a sign, and digits of a base between 2 and 36 up to a character that is
  none. The result is the value, cut to the range of \<^verbatim>\<open>long\<close>, and the end pointer is behind
  the last digit, also after an overflow.
\<close>

theorem StringToLong_spec:
  assumes "2 \<le> base" "base \<le> 36" "list_all (is_digit base) ds" "ds \<noteq> []"
    and "\<not> is_digit base stop" "stop \<notin> {66, 88, 98, 120}" "sg \<in> {[], [43], [45]}"
    and "at_mem m nptr (replicate k 32 @ sg @ ds @ [stop])"
  shows "StringToLong m nptr w base =
    Some (word_of_int (long_clamp (if sg = [45] then - digits_val base 0 ds else digits_val base 0 ds)),
          if w then Some (nptr + k + length sg + length ds) else None)"
  by (rule StringToLong_digits [OF assms])

text \<open>The string of a space, a minus sign, 4 and 2 is minus 42 in base 10.\<close>

theorem StringToLong_spec_witness:
  "StringToLong (\<lambda>a. if a = 1 then 32 else if a = 2 then 45 else if a = 3 then 52 else if a = 4 then 50 else 0) 1 True 10 =
    Some (- 42, Some 5)"
proof -
  have d: "digit_of 52 = Some 4" "digit_of 50 = Some 2" "\<not> is_digit 10 0"
    by (simp_all add: digit_of_def is_digit_def)
  show ?thesis
    using StringToLong_spec [of 10 "[52, 50]" 0 "[45]"
        "\<lambda>a. if a = 1 then 32 else if a = 2 then 45 else if a = 3 then 52 else if a = 4 then 50 else 0" 1 1 True] d
    by (simp add: is_digit_def long_clamp_def)
qed

subsection \<open>Printing\<close>

definition hex_char :: "nat \<Rightarrow> u8" where
  "hex_char d = cNumbers ! d"

lemma digits_less: "2 \<le> b \<Longrightarrow> list_all (\<lambda>d. d < b) (digits b n)"
proof (induction b n rule: digits.induct)
  case (1 b n)
  then show ?case by (subst digits.simps) (auto simp: list_all_iff)
qed

lemma digits_not_Nil: "digits b n \<noteq> []"
  by (subst digits.simps) simp

lemma hex_parts:
  "nat \<bar>tquot (long_abs x) 16\<bar> = nat \<bar>x\<bar> div 16" "trem (long_abs x) 16 = int (nat \<bar>x\<bar> mod 16)"
proof -
  have "\<bar>tquot (long_abs x) 16\<bar> = \<bar>x\<bar> div 16"
    by (auto simp: tquot_def long_abs_def LONG_MIN_def abs_mult sgn_if pos_imp_zdiv_nonneg_iff)
  then show "nat \<bar>tquot (long_abs x) 16\<bar> = nat \<bar>x\<bar> div 16" by (simp add: nat_div_distrib)
  have "trem (long_abs x) 16 = \<bar>x\<bar> mod 16"
    by (auto simp: trem_def long_abs_def LONG_MIN_def sgn_if)
  then show "trem (long_abs x) 16 = int (nat \<bar>x\<bar> mod 16)" by (simp add: zmod_int)
qed

lemma hex_write_digits:
  "hex_write True x out = out @ map (\<lambda>d. scast (hex_char d)) (digits 16 (nat \<bar>x\<bar>))"
proof (induction "nat \<bar>x\<bar>" arbitrary: x out rule: less_induct)
  case less
  let ?y = "tquot (long_abs x) 16" and ?n = "nat \<bar>x\<bar>"
  have no: "\<not> above (int (?n mod 16)) 16" by (simp add: above_def)
  have zero: "?y = 0 \<longleftrightarrow> ?n < 16" using hex_parts(1) [of x] by (auto simp: div_eq_0_iff)
  show ?case
  proof (cases "?y = 0")
    case True
    then show ?thesis using zero no
      by (subst hex_write.simps, subst digits.simps) (simp add: hex_parts WriteCharacter_def hex_char_def)
  next
    case False
    then have "nat \<bar>?y\<bar> < ?n" using zero by (simp add: hex_parts)
    from less.hyps [OF this, of out] show ?thesis using zero no False
      by (subst hex_write.simps, subst digits.simps) (simp add: hex_parts WriteCharacter_def hex_char_def)
  qed
qed

lemma write_h: "BTextWriter_Write_char True (Some (\<lambda>i. if i = 0 then 104 else 0)) out = Some (out @ [104])"
  unfolding BTextWriter_Write_char_def
  by (simp, subst text_loop.simps, subst text_loop.simps) simp

lemma BTextWriter_Write_long_digits:
  "BTextWriter_Write_long True x out =
     Some (out @ map (\<lambda>d. scast (hex_char d)) (digits 16 (nat \<bar>x\<bar>)) @ [104])"
  by (simp add: BTextWriter_Write_long_def write_h hex_write_digits)

lemma hex_chars_table:
  "list_all (\<lambda>d. digit_of (hex_char d) = Some (int d) \<and> ucast (scast (hex_char d) :: u16) = hex_char d) [0..<16]"
  by code_simp

lemma hex_chars_ok:
  "d < 16 \<Longrightarrow> digit_of (hex_char d) = Some (int d)"
  "d < 16 \<Longrightarrow> ucast (scast (hex_char d) :: u16) = hex_char d"
  using hex_chars_table by (auto simp: list_all_iff)

lemma hex_digits_val:
  "list_all (\<lambda>d. d < 16) ds \<Longrightarrow>
   digits_val 16 (int acc) (map hex_char ds) = int (foldl (\<lambda>acc d. 16 * acc + d) acc ds)"
proof (induction ds arbitrary: acc)
  case (Cons d ds)
  then have "digits_val 16 (int (16 * acc + d)) (map hex_char ds) =
      int (foldl (\<lambda>acc d. 16 * acc + d) (16 * acc + d) ds)" by (intro Cons.IH) simp
  with Cons.prems show ?case by (simp add: hex_chars_ok algebra_simps)
qed simp

text \<open>
  Printing and parsing back: the loader's writer prints a \<^verbatim>\<open>Long\<close> as hexadecimal digits and
  an h; its parser, in base 16, reads the absolute value of the number from what was printed, or the
  largest 32-bit \<^verbatim>\<open>long\<close> where it is smaller, and the end pointer is at the h. The sign is lost.
\<close>

theorem long_round_trip:
  assumes "BTextWriter_Write_long True x [] = Some out" "at_mem m p (map ucast out @ [0])"
  shows "StringToLong m p True 16 =
    Some (word_of_int (min kLongMax \<bar>x\<bar>), Some (p + length out - 1))"
proof -
  let ?ds = "digits 16 (nat \<bar>x\<bar>)"
  have small: "list_all (\<lambda>d. d < 16) ?ds" by (rule digits_less) simp
  have out: "out = map (\<lambda>d. scast (hex_char d)) ?ds @ [104]"
    using assms(1) BTextWriter_Write_long_digits [of x "[]"] by simp
  have "map (\<lambda>d. ucast (scast (hex_char d) :: u16)) ?ds = map hex_char ?ds"
    using small by (auto simp: list_all_iff hex_chars_ok)
  with assms(2) have at: "at_mem m p (replicate 0 32 @ [] @ map hex_char ?ds @ [104])"
    unfolding out by (simp add: at_mem_append comp_def)
  have digs: "list_all (is_digit 16) (map hex_char ?ds)"
    using small by (auto simp: list_all_iff is_digit_def hex_chars_ok)
  have stop: "\<not> is_digit 16 104" by (simp add: is_digit_def digit_of_def)
  have val: "digits_val 16 0 (map hex_char ?ds) = \<bar>x\<bar>"
    using hex_digits_val [OF small, of 0] foldl_digits [of 16 "nat \<bar>x\<bar>"] by simp
  have "max kLongMin (min kLongMax \<bar>x\<bar>) = min kLongMax \<bar>x\<bar>" by simp
  then show ?thesis
    using StringToLong_digits [of 16 "map hex_char ?ds" 104 "[]" m p 0 True] at digs stop digits_not_Nil
    by (simp add: val long_clamp_def out)
qed

text \<open>The loader prints 255 as FFh and reads that back.\<close>

theorem long_round_trip_witness:
  "StringToLong (\<lambda>a. if a = 8 \<or> a = 9 then 70 else if a = 10 then 104 else 0) 8 True 16 = Some (255, Some 10)"
proof -
  have d: "digits 16 255 = [15, 15]" by code_simp
  have h: "hex_char 15 = 70" by code_simp
  show ?thesis
    using long_round_trip [of 255 "[70, 70, 104]" "\<lambda>a. if a = 8 \<or> a = 9 then 70 else if a = 10 then 104 else 0" 8]
      BTextWriter_Write_long_digits [of 255 "[]"]
    by (simp add: d h)
qed

end
