(* ===== verification/BootFormat.thy ===== *)
theory BootFormat
  imports BootLib NeFSLayout
begin

text \<open>
  Formatting the boot disk: \<^verbatim>\<open>BDiskFormatFactory\<close> of \<^verbatim>\<open>Boot/BootKit/BootKit.h\<close>, over
  the records of NeFS and the EPM block of \<^verbatim>\<open>FirmwareKit/EPM.h\<close>.

  The factory is a template over the device; \<open>BootDev\<close> has the operations it uses of one. The two
  blocks are objects on the stack, filled by the loader's \<^verbatim>\<open>memcpy\<close> from literals, so their bytes
  and those of the literals are in memory: \<open>format_env\<close> has the addresses. Text the writer prints is
  left out; a disk that is too small ends in the firmware's error screen, which never returns.
\<close>

subsection \<open>The device\<close>

text \<open>
  \<open>bd_read base size sector buf\<close> and \<open>bd_write base size sector buf\<close> stand for
  \<^verbatim>\<open>Leak().mBase = base; Leak().mSize = size;\<close> followed by \<^verbatim>\<open>Read(buf, sector)\<close> or
  \<^verbatim>\<open>Write(buf, sector)\<close>.
\<close>

record 'd BootDev =
  bd_read :: "nat \<Rightarrow> nat \<Rightarrow> nat \<Rightarrow> u8 list \<Rightarrow> 'd \<Rightarrow> fault + (u8 list \<times> 'd)"
  bd_write :: "nat \<Rightarrow> nat \<Rightarrow> nat \<Rightarrow> u8 list \<Rightarrow> 'd \<Rightarrow> fault + 'd"
  bd_sectors :: "'d \<Rightarrow> u64"
  bd_size :: "'d \<Rightarrow> u64"
  bd_kSectorSize :: nat

definition EFI_Stop :: "fault + 'a" where
  "EFI_Stop = Inl (Panic 0)"

record format_env =
  env_ident :: nat
  env_fs :: nat
  env_os :: nat
  env_magic :: nat
  env_part :: nat
  env_epm :: nat

definition kNeFSIdentLen :: nat where "kNeFSIdentLen = 8"
definition kNeFSMinimumDiskSize :: u64 where "kNeFSMinimumDiskSize = 2 ^ 32"
definition kNeFSRootCatalogStartAddress :: nat where "kNeFSRootCatalogStartAddress = 1024"
definition kNeFSVersionInteger :: u64 where "kNeFSVersionInteger = 0x0100"
definition kNeFSHardDrive :: u32 where "kNeFSHardDrive = 0xC0"
definition kNeFSPartitionTypeStandard :: u32 where "kNeFSPartitionTypeStandard = 7"
definition kNeFSPartitionTypeBoot :: u32 where "kNeFSPartitionTypeBoot = 9"
definition kNeFSStatusUnlocked :: u16 where "kNeFSStatusUnlocked = 0x18"
definition kEPMZkaOS :: u16 where "kEPMZkaOS = 0x1f"
definition kEPMBootBlockLba :: nat where "kEPMBootBlockLba = 0"

subsection \<open>Format\<close>

text \<open>The super block: cleared, the two strings copied, and the fields set.\<close>

definition super_strings :: "format_env \<Rightarrow> mem \<Rightarrow> mem" where
  "super_strings env m =
     snd (boot_memcpy (env_part env) (env_ident env) (kNeFSIdentLen - 1)
       (write_bytes (env_part env) (replicate 512 0) m))"

definition super_name :: "format_env \<Rightarrow> nat \<Rightarrow> nat \<Rightarrow> mem \<Rightarrow> mem" where
  "super_name env part_name n m = snd (boot_memcpy (env_part env + 8) part_name n m)"

definition super_fields :: "nat \<Rightarrow> u64 \<Rightarrow> u64 \<Rightarrow> u64 \<Rightarrow> mem \<Rightarrow> mem" where
  "super_fields p blob_cnt sectors disk_size m =
     (let m1 = store64 (p + 104) kNeFSVersionInteger m;
          m2 = store64 (p + 56) blob_cnt m1;
          m3 = store32 (p + 44) kNeFSHardDrive m2;
          m4 = store64 (p + 96) 512 m3;
          m5 = store64 (p + 72) (sectors div 514) m4;
          m6 = store64 (p + 88) sectors m5;
          m7 = store64 (p + 80) sectors m6;
          m8 = store64 (p + 48) 2560 m7;
          m9 = store64 (p + 64) disk_size m8
      in store32 (p + 40) (kNeFSPartitionTypeBoot OR kNeFSPartitionTypeStandard) m9)"

text \<open>The EPM block, with the literals copied in the order of the code: the magic comes last.\<close>

definition epm_fields :: "nat \<Rightarrow> nat \<Rightarrow> u64 \<Rightarrow> u64 \<Rightarrow> u64 \<Rightarrow> mem \<Rightarrow> mem" where
  "epm_fields e fs disk_size sector_size catalogs m =
     (let m1 = snd (boot_memcpy (e + 79) fs 4 (write_bytes e (replicate sizeof_EPM_PART_BLOCK 0) m));
          m2 = store32 (e + 75) (ucast kNeFSVersionInteger) m1;
          m3 = store64 (e + 57) (of_nat kNeFSRootCatalogStartAddress) m2;
          m4 = store64 (e + 65) disk_size m3;
          m5 = store64 (e + 49) sector_size m4;
          m6 = store16 (e + 73) kEPMZkaOS m5
      in store64 (e + 41) catalogs m6)"

definition epm_strings :: "format_env \<Rightarrow> mem \<Rightarrow> mem" where
  "epm_strings env m =
     snd (boot_memcpy (env_epm env) (env_magic env) 5 (snd (boot_memcpy (env_epm env + 5) (env_os env) 2 m)))"

text \<open>
  \<open>None\<close>: the partition's name has no end. The lengths of the literals \<^verbatim>\<open>"NeFS"\<close>,
  \<^verbatim>\<open>"OS"\<close> and the magic are written out.
\<close>

definition BDiskFormatFactory_Format ::
  "'d BootDev \<Rightarrow> format_env \<Rightarrow> nat \<Rightarrow> nat \<Rightarrow> u64 \<Rightarrow> mem \<Rightarrow> 'd \<Rightarrow> (fault + (bool \<times> mem \<times> 'd)) option" where
  "BDiskFormatFactory_Format D env part_name blob_list blob_cnt m d =
     (if blob_list = 0 \<or> blob_cnt = 0 then Some (Inr (False, m, d))
      else if bd_size D d < kNeFSMinimumDiskSize then Some EFI_Stop
      else let m1 = super_strings env m in
        case boot_strlen m1 part_name of None \<Rightarrow> None
        | Some n \<Rightarrow> Some
           (let m2 = super_fields (env_part env) blob_cnt (bd_sectors D d) (bd_size D d)
                       (super_name env part_name n m1) in
            bindF (bd_write D kNeFSRootCatalogStartAddress 512 512 (read_bytes (env_part env) 512 m2) d) (\<lambda>d1.
            let m3 = epm_strings env (epm_fields (env_epm env) (env_fs env) (bd_size D d1)
                       (load64 (env_part env + 96) m2) (load64 (env_part env + 56) m2) m2) in
            bindF (bd_write D kEPMBootBlockLba sizeof_EPM_PART_BLOCK sizeof_EPM_PART_BLOCK
                    (read_bytes (env_epm env) sizeof_EPM_PART_BLOCK m3) d1) (\<lambda>d2.
            Inr (True, m3, d2)))))"

subsection \<open>Checking a partition\<close>

text \<open>The identification is compared with the bytes at the literal's address, eight of them.\<close>

fun ident_loop :: "u8 list \<Rightarrow> mem \<Rightarrow> nat \<Rightarrow> nat \<Rightarrow> nat \<Rightarrow> bool" where
  "ident_loop blk m lit i 0 = True"
| "ident_loop blk m lit i (Suc left) =
     (if blk ! i \<noteq> m (lit + i) then False else ident_loop blk m lit (Suc i) left)"

definition IsPartitionValid :: "'d BootDev \<Rightarrow> nat \<Rightarrow> mem \<Rightarrow> 'd \<Rightarrow> fault + (bool \<times> 'd)" where
  "IsPartitionValid D ident m d =
     bindF (bd_read D kNeFSRootCatalogStartAddress (bd_kSectorSize D) (bd_kSectorSize D)
              (replicate (bd_kSectorSize D) 0) d) (\<lambda>(buf, d1).
       let blk = dec_super buf in
       Inr (if \<not> ident_loop (sb_Ident blk) m ident 0 kNeFSIdentLen then False
            else if sb_DiskSize blk \<noteq> bd_size D d1 \<or> sb_DiskSize blk < 1 \<or>
                    sb_SectorSize blk \<noteq> of_nat (bd_kSectorSize D) \<or>
                    sb_Version blk \<noteq> kNeFSVersionInteger \<or> sb_StartCatalog blk = 0
            then False
            else if sb_PartitionName blk ! 0 = 0 then False
            else True, d1))"

subsection \<open>The first catalog\<close>

text \<open>
  \<^verbatim>\<open>WriteCatalogList\<close>, which \<^verbatim>\<open>Format\<close> does not call: one catalog, an object at \<open>cat\<close> in
  memory, is written at the partition's start; only the first descriptor is looked at.
\<close>

definition catalog_fields :: "nat \<Rightarrow> u64 \<Rightarrow> u32 \<Rightarrow> mem \<Rightarrow> mem" where
  "catalog_fields cat startLba kind m =
     (let m1 = write_bytes cat (replicate 514 0) m;
          m2 = store64 (cat + 506) startLba m1;
          m3 = store64 (cat + 498) (startLba + 514 * 4) m2;
          m4 = store32 (cat + 462) kind m3;
          m5 = store16 (cat + 456) (dec16 (read_bytes (cat + 456) 2 m4) OR of_nat kNeFSFlagCreated) m4
      in store16 (cat + 460) kNeFSStatusUnlocked m5)"

definition WriteCatalogList ::
  "'d BootDev \<Rightarrow> nat \<Rightarrow> nat \<Rightarrow> NFS_SUPER_BLOCK \<Rightarrow> mem \<Rightarrow> 'd \<Rightarrow>
   (fault + (bool \<times> NFS_SUPER_BLOCK \<times> mem \<times> 'd)) option" where
  "WriteCatalogList D cat blob part m d =
     (let startLba = sb_StartCatalog part;
          m1 = catalog_fields cat startLba (load32 (blob + kNeFSNodeNameLen) m) m;
          part' = part\<lparr>sb_FreeCatalog := sb_FreeCatalog part - 1, sb_FreeSectors := sb_FreeSectors part - 1\<rparr>
      in case boot_strlen m1 blob of None \<Rightarrow> None
         | Some n \<Rightarrow> Some
            (let m2 = snd (boot_memcpy cat blob n m1) in
             bindF (bd_write D (unat startLba) 514 514 (read_bytes cat 514 m2) d) (\<lambda>d1.
             Inr (True, part', m2, d1))))"

subsection \<open>Lemmas\<close>

text \<open>Reading a part of a run of bytes, and the fields of a super block in memory.\<close>

lemma slice_read_bytes: "a + n \<le> k \<Longrightarrow> slice a n (read_bytes p k m) = read_bytes (p + a) n m"
  unfolding slice_def
  by (rule nth_equalityI) (simp_all add: read_bytes_def add.assoc)

lemma dec_super_memory:
  "dec_super (read_bytes p 512 m) =
     \<lparr>sb_Ident = read_bytes p 8 m, sb_PartitionName = read_bytes (p + 8) 32 m, sb_Flags = load32 (p + 40) m,
      sb_Kind = load32 (p + 44) m, sb_StartCatalog = load64 (p + 48) m, sb_CatalogCount = load64 (p + 56) m,
      sb_DiskSize = load64 (p + 64) m, sb_FreeCatalog = load64 (p + 72) m,
      sb_FreeSectors = load64 (p + 80) m, sb_SectorCount = load64 (p + 88) m,
      sb_SectorSize = load64 (p + 96) m, sb_Version = load64 (p + 104) m, sb_EpmBlock = load64 (p + 112) m,
      sb_Pad = read_bytes (p + 120) 392 m\<rparr>"
  by (simp add: dec_super_def slice_read_bytes load64_def load32_def)

lemma super_fields_loads:
  "load64 (p + 48) (super_fields p c s z m) = 2560" "load64 (p + 56) (super_fields p c s z m) = c"
  "load64 (p + 64) (super_fields p c s z m) = z" "load64 (p + 72) (super_fields p c s z m) = s div 514"
  "load64 (p + 80) (super_fields p c s z m) = s" "load64 (p + 88) (super_fields p c s z m) = s"
  "load64 (p + 96) (super_fields p c s z m) = 512" "load64 (p + 104) (super_fields p c s z m) = 0x100"
  "load32 (p + 40) (super_fields p c s z m) = 15" "load32 (p + 44) (super_fields p c s z m) = 0xC0"
  by (simp_all add: super_fields_def Let_def store_simps disjoint_ext_def kNeFSVersionInteger_def
      kNeFSHardDrive_def kNeFSPartitionTypeBoot_def kNeFSPartitionTypeStandard_def)

lemma store_bytes_other:
  "j < a \<or> a + 8 \<le> j \<Longrightarrow> store64 a v m j = m j"
  "j < a \<or> a + 4 \<le> j \<Longrightarrow> store32 a w m j = m j"
  "j < a \<or> a + 2 \<le> j \<Longrightarrow> store16 a u m j = m j"
  by (auto simp: store64_def store32_def store16_def write_bytes_def)

lemma super_fields_frame: "j < p + 40 \<or> p + 112 \<le> j \<Longrightarrow> super_fields p c s z m j = m j"
  by (auto simp: super_fields_def Let_def store_bytes_other)

lemma epm_fields_frame:
  "j < e \<or> e + 496 \<le> j \<Longrightarrow> disjoint_ext fs 16 e 496 \<Longrightarrow> epm_fields e fs z s c m j = m j"
  by (subst epm_fields_def)
    (auto simp: Let_def store_bytes_other boot_memcpy_bytes disjoint_ext_def write_bytes_def sizeof_EPM_PART_BLOCK_def)

lemma epm_fields_loads:
  "load64 (e + 49) (epm_fields e fs z sec c m) = sec" "load64 (e + 57) (epm_fields e fs z sec c m) = 1024"
  "load64 (e + 65) (epm_fields e fs z sec c m) = z"
  by (simp_all add: epm_fields_def Let_def store_simps disjoint_ext_def
      kNeFSRootCatalogStartAddress_def)

lemma load64_cong_bytes: "(\<And>j. j < 8 \<Longrightarrow> m (a + j) = m' (a + j)) \<Longrightarrow> load64 a m = load64 a m'"
  by (auto simp: load64_def read_bytes_def map_upt_shift intro!: arg_cong [of _ _ dec64])

lemma epm_strings_bytes:
  assumes "disjoint_ext (env_magic env) 20 (env_epm env) 496" "disjoint_ext (env_os env) 8 (env_epm env) 496"
  shows "epm_strings env m j =
    (if env_epm env \<le> j \<and> j < env_epm env + 20 then m (env_magic env + (j - env_epm env)) else m j)"
proof -
  let ?e = "env_epm env"
  let ?m = "snd (boot_memcpy (?e + 5) (env_os env) 2 m)"
  have os: "?m i = m i" if "i < ?e + 5 \<or> ?e + 13 \<le> i" for i
    using that assms(2) boot_memcpy_bytes [of "env_os env" 2 "?e + 5" m i] by (auto simp: disjoint_ext_def)
  have "epm_strings env m j =
      (if ?e \<le> j \<and> j < ?e + 20 then ?m (env_magic env + (j - ?e)) else ?m j)"
    using assms(1) boot_memcpy_bytes [of "env_magic env" 5 ?e ?m j]
    by (auto simp: epm_strings_def disjoint_ext_def)
  moreover have "?m (env_magic env + (j - ?e)) = m (env_magic env + (j - ?e))" if "?e \<le> j" "j < ?e + 20"
  proof (rule os)
    have "j = ?e + (j - ?e)" "j - ?e < 20" using that by auto
    then show "env_magic env + (j - ?e) < ?e + 5 \<or> ?e + 13 \<le> env_magic env + (j - ?e)"
      using assms(1) by (auto simp: disjoint_ext_def)
  qed
  ultimately show ?thesis using os [of j] by auto
qed

lemma boot_strlen_at: "at_mem m p (xs @ [0]) \<Longrightarrow> 0 \<notin> set xs \<Longrightarrow> boot_strlen m p = Some (length xs)"
proof -
  have "at_mem m (p + n) (xs @ [0]) \<Longrightarrow> 0 \<notin> set xs \<Longrightarrow> boot_strlen_loop m p n = Some (n + length xs)" for n
  proof (induction xs arbitrary: n)
    case Nil
    then show ?case by (subst boot_strlen_loop.simps) simp
  next
    case (Cons x xs)
    then show ?case by (subst boot_strlen_loop.simps) auto
  qed
  from this [of 0] show "at_mem m p (xs @ [0]) \<Longrightarrow> 0 \<notin> set xs \<Longrightarrow> boot_strlen m p = Some (length xs)"
    by (simp add: boot_strlen_def)
qed

lemma at_mem_cong: "(\<And>j. j < length xs \<Longrightarrow> m (p + j) = m' (q + j)) \<Longrightarrow> at_mem m p xs \<longleftrightarrow> at_mem m' q xs"
proof (induction xs arbitrary: p q)
  case (Cons x xs)
  have "m p = m' q" using Cons.prems [of 0] by simp
  moreover have "at_mem m (Suc p) xs \<longleftrightarrow> at_mem m' (Suc q) xs"
    by (rule Cons.IH) (use Cons.prems [of "Suc _"] in simp)
  ultimately show ?case by simp
qed simp

lemma at_mem_read: "at_mem m p xs \<longleftrightarrow> read_bytes p (length xs) m = xs"
  by (induction xs arbitrary: p) (auto simp: read_bytes_def upt_conv_Cons simp del: upt_Suc)

lemma ident_loop_iff:
  "ident_loop blk m lit i n \<longleftrightarrow> (\<forall>j. i \<le> j \<and> j < i + n \<longrightarrow> blk ! j = m (lit + j))"
proof (induction blk m lit i n rule: ident_loop.induct)
  case (2 blk m lit i left)
  have "(\<forall>j. i \<le> j \<and> j < i + Suc left \<longrightarrow> blk ! j = m (lit + j)) \<longleftrightarrow>
      blk ! i = m (lit + i) \<and> (\<forall>j. Suc i \<le> j \<and> j < Suc i + left \<longrightarrow> blk ! j = m (lit + j))"
    by (auto simp: le_Suc_eq Suc_le_eq dest: le_neq_implies_less)
  with 2 show ?case by simp
qed auto

subsection \<open>A disk below the factory\<close>

text \<open>
  What a working device does: transfers of \<open>n\<close> bytes at a base address go to the \<open>n\<close> places of the
  disk from \<open>pos\<close> of the address on. Where the two blocks of a format go must not overlap.
\<close>

definition works_as :: "mem BootDev \<Rightarrow> (nat \<Rightarrow> nat) \<Rightarrow> u64 \<Rightarrow> bool" where
  "works_as D pos sectors \<longleftrightarrow>
     (\<forall>base sec bs d. bd_write D base (length bs) sec bs d = Inr (write_bytes (pos base) bs d)) \<and>
     (\<forall>base sec bs d. bd_read D base (length bs) sec bs d = Inr (read_bytes (pos base) (length bs) d, d)) \<and>
     (\<forall>d. bd_sectors D d = sectors \<and> bd_size D d = sectors * 512) \<and> bd_kSectorSize D = 512 \<and>
     disjoint_ext (pos 0) 496 (pos 1024) 512"

text \<open>The literals and the objects on the stack, apart from each other, and the partition's name.\<close>

definition format_memory :: "format_env \<Rightarrow> nat \<Rightarrow> u8 list \<Rightarrow> mem \<Rightarrow> bool" where
  "format_memory env name xs m \<longleftrightarrow>
     at_mem m name (xs @ [0]) \<and> 0 \<notin> set xs \<and> xs \<noteq> [] \<and> length xs \<le> 8 \<and> at_mem m (env_magic env) kEPMMagic \<and>
     disjoint_ext (env_ident env) 28 (env_part env) 512 \<and> disjoint_ext name 32 (env_part env) 512 \<and>
     disjoint_ext (env_part env) 512 (env_epm env) 496 \<and> disjoint_ext (env_magic env) 20 (env_part env) 512 \<and>
     disjoint_ext (env_magic env) 20 (env_epm env) 496 \<and> disjoint_ext (env_os env) 8 (env_epm env) 496 \<and>
     disjoint_ext (env_fs env) 16 (env_epm env) 496"

lemma super_strings_bytes:
  assumes "disjoint_ext (env_ident env) 28 (env_part env) 512"
  shows "super_strings env m j =
    (if env_part env \<le> j \<and> j < env_part env + 28 then m (env_ident env + (j - env_part env))
     else if env_part env \<le> j \<and> j < env_part env + 512 then 0 else m j)"
proof -
  have "disjoint_ext (env_ident env) (4 * 7) (env_part env) (4 * 7)" using assms by (auto simp: disjoint_ext_def)
  from boot_memcpy_bytes [OF this] show ?thesis
    using assms unfolding super_strings_def kNeFSIdentLen_def
    by (auto simp: write_bytes_def disjoint_ext_def)
qed

lemma super_name_bytes:
  assumes "disjoint_ext name 32 (env_part env) 512" "n \<le> 8"
  shows "super_name env name n m j =
    (if env_part env + 8 \<le> j \<and> j < env_part env + 8 + 4 * n then m (name + (j - (env_part env + 8))) else m j)"
  unfolding super_name_def using assms
  by (subst boot_memcpy_bytes) (auto simp: disjoint_ext_def)

text \<open>What the stack holds when the two blocks are written.\<close>

lemma format_super:
  fixes c s z :: u64
  assumes "format_memory env name xs m"
  defines "m2 \<equiv> super_fields (env_part env) c s z (super_name env name (length xs) (super_strings env m))"
  shows "boot_strlen (super_strings env m) name = Some (length xs)"
    and "j < 8 \<Longrightarrow> m2 (env_part env + j) = m (env_ident env + j)"
    and "m2 (env_part env + 8) = hd xs"
    and "at_mem m2 (env_magic env) kEPMMagic"
proof -
  let ?m1 = "super_strings env m" and ?p = "env_part env"
  have f: "at_mem m name (xs @ [0])" "0 \<notin> set xs" "xs \<noteq> []" "length xs \<le> 8" "at_mem m (env_magic env) kEPMMagic"
    and di: "disjoint_ext (env_ident env) 28 ?p 512" and dn: "disjoint_ext name 32 ?p 512"
    and dm: "disjoint_ext (env_magic env) 20 ?p 512"
    using assms(1) by (simp_all add: format_memory_def)
  have m1: "?m1 i = m i" if "i < ?p \<or> ?p + 512 \<le> i" for i
    using that by (subst super_strings_bytes [OF di]) auto
  have nm: "super_name env name (length xs) ?m1 i = ?m1 i" if "i < ?p + 8 \<or> ?p + 40 \<le> i" for i
    using that f(4) by (subst super_name_bytes [OF dn f(4)]) auto
  have at: "at_mem ?m1 name (xs @ [0])"
    using f(1,4) dn by (subst at_mem_cong [of _ _ _ m name]) (auto intro!: m1 simp: disjoint_ext_def)
  then show "boot_strlen ?m1 name = Some (length xs)" using f(2) by (rule boot_strlen_at)
  show "m2 (?p + j) = m (env_ident env + j)" if "j < 8"
  proof -
    have "m2 (?p + j) = ?m1 (?p + j)" unfolding m2_def using that by (simp add: super_fields_frame nm)
    then show ?thesis using that by (simp add: super_strings_bytes [OF di])
  qed
  obtain y ys where xs: "xs = y # ys" using f(3) by (cases xs) auto
  have "m2 (?p + 8) = ?m1 name"
    unfolding m2_def using f(3) by (simp add: super_fields_frame super_name_bytes [OF dn f(4)])
  then show "m2 (?p + 8) = hd xs" using at xs by simp
  have "m2 (env_magic env + j) = m (env_magic env + j)" if "j < 5" for j
  proof -
    have out: "env_magic env + j < ?p \<or> ?p + 512 \<le> env_magic env + j"
      using dm that by (auto simp: disjoint_ext_def)
    then have "m2 (env_magic env + j) = super_name env name (length xs) ?m1 (env_magic env + j)"
      unfolding m2_def by (intro super_fields_frame) auto
    also have "\<dots> = ?m1 (env_magic env + j)" using out by (intro nm) auto
    finally show ?thesis using m1 out by simp
  qed
  then show "at_mem m2 (env_magic env) kEPMMagic"
    using f(5) at_mem_cong [of kEPMMagic m2 "env_magic env" m "env_magic env"] by (simp add: kEPMMagic_def)
qed

lemma format_epm:
  fixes z sec c :: u64
  assumes "format_memory env name xs m" "at_mem m2 (env_magic env) kEPMMagic"
  defines "m3 \<equiv> epm_strings env (epm_fields (env_epm env) (env_fs env) z sec c m2)"
  shows "take 5 (read_bytes (env_epm env) 496 m3) = kEPMMagic"
    and "epm_SectorSz (read_bytes (env_epm env) 496 m3) = sec"
    and "epm_LbaStart (read_bytes (env_epm env) 496 m3) = 1024"
    and "epm_LbaEnd (read_bytes (env_epm env) 496 m3) = z"
proof -
  note f = assms(1) [unfolded format_memory_def]
  let ?e = "env_epm env"
  let ?m = "epm_fields ?e (env_fs env) z sec c m2"
  have b: "m3 j = (if ?e \<le> j \<and> j < ?e + 20 then ?m (env_magic env + (j - ?e)) else ?m j)" for j
    unfolding m3_def using f by (intro epm_strings_bytes) auto
  have "m3 (?e + j) = m2 (env_magic env + j)" if "j < 5" for j
    using that f b [of "?e + j"] by (subst (asm) epm_fields_frame) (auto simp: disjoint_ext_def)
  then have "at_mem m3 ?e kEPMMagic"
    using assms(2) at_mem_cong [of kEPMMagic m3 ?e m2 "env_magic env"] by (simp add: kEPMMagic_def)
  moreover have "length kEPMMagic = 5" by (simp add: kEPMMagic_def)
  ultimately have "read_bytes ?e 5 m3 = kEPMMagic" unfolding at_mem_read by (simp only:)
  moreover have "take 5 (read_bytes ?e 496 m3) = read_bytes ?e 5 m3"
    using slice_read_bytes [of 0 5 496 ?e m3] by (simp add: slice_def)
  ultimately show "take 5 (read_bytes ?e 496 m3) = kEPMMagic" by (simp only:)
  have l: "dec64 (take 8 (drop a (read_bytes ?e 496 m3))) = load64 (?e + a) ?m" if "20 \<le> a" "a + 8 \<le> 496" for a
    using that slice_read_bytes [of a 8 496 ?e m3] load64_cong_bytes [of m3 "?e + a" ?m] b
    by (simp add: slice_def load64_def)
  show "epm_SectorSz (read_bytes ?e 496 m3) = sec" "epm_LbaStart (read_bytes ?e 496 m3) = 1024"
    "epm_LbaEnd (read_bytes ?e 496 m3) = z"
    by (simp_all add: epm_SectorSz_def epm_LbaStart_def epm_LbaEnd_def l epm_fields_loads)
qed

lemma works_as_simps:
  assumes "works_as D pos sectors"
  shows "length bs = n \<Longrightarrow> bd_write D base n sec bs d = Inr (write_bytes (pos base) bs d)"
    and "length bs = n \<Longrightarrow> bd_read D base n sec bs d = Inr (read_bytes (pos base) n d, d)"
    and "bd_sectors D d = sectors" "bd_size D d = sectors * 512" "bd_kSectorSize D = 512"
    and "disjoint_ext (pos 0) 496 (pos 1024) 512"
  using assms by (auto simp: works_as_def)

lemma IsPartitionValid_accepts:
  assumes D: "works_as D pos sectors" and blk: "blk = dec_super (read_bytes (pos 1024) 512 d)"
    and "\<And>j. j < 8 \<Longrightarrow> sb_Ident blk ! j = mm (lit + j)" "sb_DiskSize blk = sectors * 512" "sectors * 512 \<noteq> 0"
      "sb_SectorSize blk = 512" "sb_Version blk = 0x100" "sb_StartCatalog blk \<noteq> 0" "sb_PartitionName blk ! 0 \<noteq> 0"
  shows "IsPartitionValid D lit mm d = Inr (True, d)"
proof -
  have "\<not> sectors * 512 < 1" using assms(5) by (auto simp: word_less_nat_alt unat_eq_0)
  then show ?thesis
    using assms(3-) by (simp add: IsPartitionValid_def ident_loop_iff works_as_simps [OF D] kNeFSIdentLen_def
        kNeFSVersionInteger_def kNeFSRootCatalogStartAddress_def Let_def flip: blk)
qed

lemma mount_formatted:
  assumes "length junk = sizeof_EPM_PART_BLOCK" "b = read_bytes (pos 0) 496 p" "take 5 b = kEPMMagic"
    and "epm_SectorSz b \<noteq> 0" "epm_LbaEnd b \<noteq> 0"
  shows "\<exists>t dd. io_construct_main_drive \<lparr>dpos = pos, drv_std_init = ini\<rparr> junk
        \<lparr>platter = p, kATAIO = io, kATAMaster = ma\<rparr> = Inr (t, dd) \<and> \<not> fPacketReadOnly (fPacket t) \<and>
      fSectorSz t = epm_SectorSz b \<and> fLbaStart t = epm_LbaStart b \<and> fLbaEnd t = epm_LbaEnd b"
  using assms by (auto simp: io_construct_main_drive_def io_detect_drive_def call_drv_def drv_init_def
    drv_input_def drv_std_read_def DriveTrait_new_def epm_Magic_def sizeof_EPM_PART_BLOCK_def Let_def)

text \<open>The run of \<^verbatim>\<open>Format\<close>: the blocks it leaves on the disk.\<close>

lemma Format_run:
  assumes works: "works_as D pos sectors" and mem: "format_memory env name xs m"
    and args: "blobs \<noteq> 0" "cnt \<noteq> 0" "2 ^ 32 \<le> sectors * 512"
  defines "m2 \<equiv> super_fields (env_part env) cnt sectors (sectors * 512)
      (super_name env name (length xs) (super_strings env m))"
  defines "m3 \<equiv> epm_strings env (epm_fields (env_epm env) (env_fs env) (sectors * 512) 512 cnt m2)"
  shows "\<exists>d'. BDiskFormatFactory_Format D env name blobs cnt m d = Some (Inr (True, m3, d')) \<and>
    read_bytes (pos 1024) 512 d' = read_bytes (env_part env) 512 m2 \<and>
    read_bytes (pos 0) 496 d' = read_bytes (env_epm env) 496 m3 \<and>
    (\<forall>i. (i < pos 0 \<or> pos 0 + 496 \<le> i) \<and> (i < pos 1024 \<or> pos 1024 + 512 \<le> i) \<longrightarrow> d' i = d i)"
proof -
  let ?p = "env_part env" and ?e = "env_epm env"
  note D = works_as_simps [OF works]
  define d1 where "d1 = write_bytes (pos 1024) (read_bytes ?p 512 m2) d"
  define d' where "d' = write_bytes (pos 0) (read_bytes ?e 496 m3) d1"
  note ld = super_fields_loads [of ?p cnt sectors "sectors * 512"
      "super_name env name (length xs) (super_strings env m)", folded m2_def]
  have "BDiskFormatFactory_Format D env name blobs cnt m d = Some (Inr (True, m3, d'))"
    using args format_super(1) [OF mem] unfolding BDiskFormatFactory_Format_def
    by (simp add: D kNeFSMinimumDiskSize_def leD Let_def kNeFSRootCatalogStartAddress_def
        kEPMBootBlockLba_def sizeof_EPM_PART_BLOCK_def ld flip: m2_def m3_def d1_def d'_def)
  moreover have "read_bytes (pos 1024) 512 d' = read_bytes (pos 1024) 512 d1"
    unfolding d'_def using D(6)
    by (intro read_write_bytes_disjoint) (simp add: disjoint_ext_sym [of "pos 1024" 512 "pos 0"])
  then have "read_bytes (pos 1024) 512 d' = read_bytes ?p 512 m2"
    using read_write_bytes_same [of "pos 1024" "read_bytes ?p 512 m2" d] by (simp add: d1_def)
  moreover have "read_bytes (pos 0) 496 d' = read_bytes ?e 496 m3"
    using read_write_bytes_same [of "pos 0" "read_bytes ?e 496 m3" d1] by (simp add: d'_def)
  moreover have "d' i = d i" if "i < pos 0 \<or> pos 0 + 496 \<le> i" "i < pos 1024 \<or> pos 1024 + 512 \<le> i" for i
    using that by (simp add: d'_def d1_def write_bytes_outside)
  ultimately show ?thesis by blast
qed

subsection \<open>Properties\<close>


text \<open>A disk of 4 GiB in memory, a name of one letter, and the literals at 4096 and above.\<close>

definition demo_BootDev :: "mem BootDev" where
  "demo_BootDev =
     \<lparr>bd_read = \<lambda>base n sec buf d. Inr (read_bytes base (length buf) d, d),
      bd_write = \<lambda>base n sec buf d. Inr (write_bytes base buf d),
      bd_sectors = \<lambda>_. 2 ^ 23, bd_size = \<lambda>_. 2 ^ 32, bd_kSectorSize = 512\<rparr>"

definition demo_format_env :: format_env where
  "demo_format_env = \<lparr>env_ident = 4096, env_fs = 4128, env_os = 4160, env_magic = 4192,
     env_part = 1024, env_epm = 2048\<rparr>"

definition demo_format_mem :: mem where
  "demo_format_mem = write_bytes 4192 kEPMMagic (write_bytes 4224 [83, 0] (\<lambda>_. 0))"


end
