(* ===== verification/BootATA.thy ===== *)
theory BootATA
  imports AtaPio BootFormat
begin

text \<open>
  The boot loader's ATA driver, \<^verbatim>\<open>Boot/src/HEL/AMD64/BootATA.cc\<close> with the device class of
  \<^verbatim>\<open>BootKit/HW/ATA.h\<close>, on the ports and the device of \<open>AtaPio\<close>; and the device as the one the
  disk format factory is used with.
\<close>

subsection \<open>State\<close>

text \<open>The ports with \<^verbatim>\<open>kATADetected\<close>, the identification (words here), and the device's trait.\<close>

record ATATrait =
  mBase :: nat
  mSize :: nat
  mBus :: u16
  mMaster :: u8
  mErr :: bool

record boot_ata =
  ba_bus :: ata_bus
  ba_kATAData :: "u16 list"
  ba_trait :: ATATrait

definition ATATrait_new :: ATATrait where
  "ATATrait_new = \<lparr>mBase = 1024, mSize = 1024, mBus = ATA_PRIMARY_IO, mMaster = 0, mErr = False\<rparr>"

definition ATATrait_bool :: "ATATrait \<Rightarrow> bool" where
  "ATATrait_bool t \<longleftrightarrow> \<not> mErr t"

definition ATA_SECTOR_SZ :: nat where "ATA_SECTOR_SZ = 512"

subsection \<open>The driver\<close>

definition boot_ata_wait_io :: "nat \<Rightarrow> u16 \<Rightarrow> ata_bus \<Rightarrow> fault + (bool \<times> ata_bus)" where
  "boot_ata_wait_io fuel IO s =
     (let s1 = ((\<lambda>t. snd (rt_in8 (IO + ATA_REG_STATUS) t)) ^^ 400) s
      in bindF (wait_busy fuel IO s1) (wait_ready fuel IO))"

definition boot_wait :: "nat \<Rightarrow> u16 \<Rightarrow> ata_bus \<Rightarrow> fault + ata_bus" where
  "boot_wait fuel IO s = bindF (boot_ata_wait_io fuel IO s) (\<lambda>(ok, s1). Inr s1)"

definition boot_ata_select :: "u16 \<Rightarrow> ata_bus \<Rightarrow> ata_bus" where
  "boot_ata_select Bus s =
     (if Bus = ATA_PRIMARY_IO then rt_out8 (Bus + ATA_REG_HDDEVSEL) ATA_PRIMARY_SEL s
      else rt_out8 (Bus + ATA_REG_HDDEVSEL) ATA_SECONDARY_SEL s)"

definition boot_ata_detected :: "ata_bus \<Rightarrow> bool" where
  "boot_ata_detected s = kATADetected s"

fun boot_identify_loop :: "u16 \<Rightarrow> nat \<Rightarrow> nat \<Rightarrow> u16 list \<Rightarrow> ata_bus \<Rightarrow> u16 list \<times> ata_bus" where
  "boot_identify_loop IO indexData 0 data s = (data, s)"
| "boot_identify_loop IO indexData (Suc left) data s =
     (case rt_in16 (IO + ATA_REG_DATA) s of (v, s1) \<Rightarrow>
        boot_identify_loop IO (Suc indexData) left (data[indexData := v]) s1)"

text \<open>The two output parameters are fields of the trait; they are set when the drive is identified.\<close>

definition boot_ata_init :: "nat \<Rightarrow> u16 \<Rightarrow> boot_ata \<Rightarrow> fault + (bool \<times> boot_ata)" where
  "boot_ata_init fuel Bus b =
     (if boot_ata_detected (ba_bus b) then Inr (True, b)
      else let s1 = rt_out8 (Bus + ATA_REG_NEIN) 1 (boot_ata_select Bus (ba_bus b)) in
        bindF (init_retry fuel Bus s1) (\<lambda>(ok, s2).
          if \<not> ok then Inr (False, b\<lparr>ba_bus := s2\<rparr>)
          else bindF (boot_wait fuel Bus (rt_out8 (Bus + ATA_REG_COMMAND) ATA_CMD_IDENTIFY s2)) (\<lambda>s3.
            case boot_identify_loop Bus 0 kATADataLen (ba_kATAData b) s3 of (data, s4) \<Rightarrow>
              Inr (True, \<lparr>ba_bus = s4, ba_kATAData = data,
                ba_trait = (ba_trait b)\<lparr>
                  mBus := (if Bus = ATA_PRIMARY_IO then ATA_PRIMARY_IO else ATA_SECONDARY_IO),
                  mMaster := (if Bus = ATA_PRIMARY_IO then ATA_MASTER else ATA_SLAVE)\<rparr>\<rparr>))))"

definition boot_setup ::
  "u64 \<Rightarrow> u16 \<Rightarrow> u8 \<Rightarrow> nat \<Rightarrow> nat \<Rightarrow> u8 \<Rightarrow> ata_bus \<Rightarrow> ata_bus" where
  "boot_setup Lba IO Master SectorSz sz cmd s =
     (let L = Lba div of_nat SectorSz;
          Command = (if Master = 0 then 0xE0 else 0xF0);
          s1 = rt_out8 (IO + ATA_REG_HDDEVSEL) (Command OR ucast (drop_bit 24 L AND 0x0F)) (boot_ata_select IO s);
          s2 = rt_out8 (IO + ATA_REG_SEC_COUNT0) (ucast ((of_nat sz + of_nat SectorSz :: u64) div of_nat SectorSz)) s1;
          s3 = rt_out8 (IO + ATA_REG_LBA0) (ucast (L AND 0xFF)) s2;
          s4 = rt_out8 (IO + ATA_REG_LBA1) (ucast (drop_bit 8 L)) s3;
          s5 = rt_out8 (IO + ATA_REG_LBA2) (ucast (drop_bit 16 L)) s4;
          s6 = rt_out8 (IO + ATA_REG_LBA3) (ucast (drop_bit 24 L)) s5
      in rt_out8 (IO + ATA_REG_COMMAND) cmd s6)"

fun boot_read_loop :: "nat \<Rightarrow> u16 \<Rightarrow> nat \<Rightarrow> u8 list \<Rightarrow> ata_bus \<Rightarrow> fault + (u8 list \<times> ata_bus)" where
  "boot_read_loop fuel IO 0 acc s = Inr (acc, s)"
| "boot_read_loop fuel IO (Suc left) acc s =
     bindF (boot_wait fuel IO s) (\<lambda>s1.
     case rt_in16 (IO + ATA_REG_DATA) s1 of (v, s2) \<Rightarrow>
     bindF (boot_wait fuel IO s2) (\<lambda>s3. boot_read_loop fuel IO left (acc @ [ucast v]) s3))"

definition boot_ata_read ::
  "nat \<Rightarrow> u64 \<Rightarrow> u16 \<Rightarrow> u8 \<Rightarrow> nat \<Rightarrow> nat \<Rightarrow> ata_bus \<Rightarrow> fault + (u8 list \<times> ata_bus)" where
  "boot_ata_read fuel Lba IO Master SectorSz sz s =
     (if SectorSz = 0 then Inl DivByZero
      else bindF (boot_wait fuel IO s) (\<lambda>s1.
        bindF (boot_wait fuel IO (boot_setup Lba IO Master SectorSz sz ATA_CMD_READ_PIO s1))
          (boot_read_loop fuel IO sz [])))"

fun boot_write_loop :: "nat \<Rightarrow> u16 \<Rightarrow> u8 list \<Rightarrow> ata_bus \<Rightarrow> fault + ata_bus" where
  "boot_write_loop fuel IO [] s = Inr s"
| "boot_write_loop fuel IO (b # bs) s =
     bindF (boot_wait fuel IO s) (\<lambda>s1.
     bindF (boot_wait fuel IO (rt_out (IO + ATA_REG_DATA) (scast b) s1)) (boot_write_loop fuel IO bs))"

text \<open>The buffer is the size of the transfer.\<close>

definition boot_ata_write ::
  "nat \<Rightarrow> u64 \<Rightarrow> u16 \<Rightarrow> u8 \<Rightarrow> u8 list \<Rightarrow> nat \<Rightarrow> ata_bus \<Rightarrow> fault + ata_bus" where
  "boot_ata_write fuel Lba IO Master Buf SectorSz s =
     (if SectorSz = 0 then Inl DivByZero
      else bindF (boot_wait fuel IO s) (\<lambda>s1.
        bindF (boot_wait fuel IO (boot_setup Lba IO Master SectorSz (length Buf) ATA_CMD_WRITE_PIO s1)) (\<lambda>s3.
        bindF (boot_write_loop fuel IO Buf s3) (boot_wait fuel IO))))"

subsection \<open>The device class\<close>

text \<open>The second channel is tried when the first one fails.\<close>

definition BootDeviceATA_new :: "nat \<Rightarrow> boot_ata \<Rightarrow> fault + boot_ata" where
  "BootDeviceATA_new fuel b0 =
     (let b = b0\<lparr>ba_trait := ATATrait_new\<rparr> in
      bindF (boot_ata_init fuel ATA_PRIMARY_IO b) (\<lambda>(ok, b1).
      bindF (if ok then Inr (True, b1) else boot_ata_init fuel ATA_SECONDARY_IO b1) (\<lambda>(ok2, b2).
        Inr (if ok2 then b2\<lparr>ba_bus := (ba_bus b2)\<lparr>kATADetected := True\<rparr>\<rparr> else b2))))"

definition BootDeviceATA_bool :: "boot_ata \<Rightarrow> bool" where
  "BootDeviceATA_bool b = boot_ata_detected (ba_bus b)"

definition trait_err :: "bool \<Rightarrow> boot_ata \<Rightarrow> boot_ata" where
  "trait_err e b = b\<lparr>ba_trait := (ba_trait b)\<lparr>mErr := e\<rparr>\<rparr>"

text \<open>\<open>None\<close> is a null buffer.\<close>

definition BootDeviceATA_Read :: "nat \<Rightarrow> u8 list option \<Rightarrow> nat \<Rightarrow> boot_ata \<Rightarrow> fault + (u8 list option \<times> boot_ata)" where
  "BootDeviceATA_Read fuel Buf SectorSz b =
     (if \<not> boot_ata_detected (ba_bus b) then Inr (Buf, trait_err True b)
      else let b1 = trait_err False b; t = ba_trait b1 in
        if Buf = None \<or> SectorSz < 1 then Inr (Buf, b1)
        else bindF (boot_ata_read fuel (of_nat (mBase t)) (mBus t) (mMaster t) SectorSz (mSize t) (ba_bus b1))
               (\<lambda>(bytes, s). Inr (Some bytes, b1\<lparr>ba_bus := s\<rparr>)))"

definition BootDeviceATA_Write :: "nat \<Rightarrow> u8 list option \<Rightarrow> nat \<Rightarrow> boot_ata \<Rightarrow> fault + boot_ata" where
  "BootDeviceATA_Write fuel Buf SectorSz b =
     (if \<not> boot_ata_detected (ba_bus b) then Inr (trait_err True b)
      else let b1 = trait_err False b; t = ba_trait b1 in
        case Buf of None \<Rightarrow> Inr (trait_err True b1)
        | Some bytes \<Rightarrow>
            if SectorSz < 1 \<or> mSize t < 1 then Inr (trait_err True b1)
            else bindF (boot_ata_write fuel (of_nat (mBase t)) (mBus t) (mMaster t) (take (mSize t) bytes) SectorSz (ba_bus b1))
                   (\<lambda>s. Inr (b1\<lparr>ba_bus := s\<rparr>)))"

text \<open>The shift is one of \<^verbatim>\<open>int\<close>, so the result is signed before it is widened.\<close>

definition GetSectorsCount :: "boot_ata \<Rightarrow> u64" where
  "GetSectorsCount b =
     scast (push_bit 16 (ucast (ba_kATAData b ! 61) :: u32) OR ucast (ba_kATAData b ! 60))"

definition GetDiskSize :: "boot_ata \<Rightarrow> u64" where
  "GetDiskSize b = GetSectorsCount b * of_nat ATA_SECTOR_SZ"

text \<open>The device as the parameter of the factory.\<close>

definition ATA_BootDev :: "nat \<Rightarrow> boot_ata BootDev" where
  "ATA_BootDev fuel =
     \<lparr>bd_read = \<lambda>base n sec buf b.
        bindF (BootDeviceATA_Read fuel (Some buf) sec (b\<lparr>ba_trait := (ba_trait b)\<lparr>mBase := base, mSize := n\<rparr>\<rparr>))
          (\<lambda>(r, b1). Inr (the r, b1)),
      bd_write = \<lambda>base n sec buf b.
        BootDeviceATA_Write fuel (Some buf) sec (b\<lparr>ba_trait := (ba_trait b)\<lparr>mBase := base, mSize := n\<rparr>\<rparr>),
      bd_sectors = GetSectorsCount, bd_size = GetDiskSize, bd_kSectorSize = ATA_SECTOR_SZ\<rparr>"

text \<open>The recovery check of \<^verbatim>\<open>Boot/Mod/SysChk/Module.cc\<close>: a new device, and the partition's check.\<close>

definition kEfiOk :: u32 where "kEfiOk = 0"
definition kEfiFail :: u32 where "kEfiFail = - 1"

definition SysChk_ModuleMain :: "nat \<Rightarrow> nat \<Rightarrow> mem \<Rightarrow> boot_ata \<Rightarrow> fault + (u32 \<times> boot_ata)" where
  "SysChk_ModuleMain fuel ident m b =
     bindF (BootDeviceATA_new fuel b) (\<lambda>b1.
     bindF (IsPartitionValid (ATA_BootDev fuel) ident m b1) (\<lambda>(ok, b2).
       Inr (if ok then kEfiOk else kEfiFail, b2)))"

subsection \<open>The same driver twice\<close>

text \<open>The loops of the loader's driver are those of the kernel's, on the same ports.\<close>

lemma boot_wait_eq: "boot_wait = wait_io"
  by (intro ext) (simp add: boot_wait_def wait_io_def boot_ata_wait_io_def drv_std_wait_io_def)

lemma boot_read_loop_eq: "boot_read_loop fuel IO n acc = read_words fuel IO n acc"
  by (induction n arbitrary: acc) (auto simp: boot_wait_eq)

lemma boot_write_loop_eq: "boot_write_loop fuel IO bs = write_words fuel IO bs"
  by (induction bs) (auto simp: boot_wait_eq)

lemma boot_setup_eq:
  "boot_setup Lba IO Master sec sz cmd s =
   setup_transfer (Lba div of_nat sec) IO Master (of_nat sec) (of_nat sz) cmd (drv_std_select IO s)"
  unfolding boot_setup_def setup_transfer_def boot_ata_select_def drv_std_select_def Let_def by (rule refl)

lemma boot_ata_read_eq:
  "0 < sec \<Longrightarrow> boot_ata_read fuel Lba IO Master sec sz s =
     bindF (wait_io fuel IO s) (\<lambda>s1.
       bindF (wait_io fuel IO (setup_transfer (Lba div of_nat sec) IO Master (of_nat sec) (of_nat sz)
         ATA_CMD_READ_PIO (drv_std_select IO s1))) (read_words fuel IO sz []))"
  by (simp add: boot_ata_read_def boot_wait_eq boot_setup_eq boot_read_loop_eq)

lemma boot_ata_write_eq:
  "0 < sec \<Longrightarrow> boot_ata_write fuel Lba IO Master Buf sec s =
     bindF (wait_io fuel IO s) (\<lambda>s1.
       bindF (wait_io fuel IO (setup_transfer (Lba div of_nat sec) IO Master (of_nat sec) (of_nat (length Buf))
         ATA_CMD_WRITE_PIO (drv_std_select IO s1))) (\<lambda>s3.
       bindF (write_words fuel IO Buf s3) (wait_io fuel IO)))"
  by (simp add: boot_ata_write_def boot_wait_eq boot_setup_eq boot_write_loop_eq)

subsection \<open>Properties\<close>

text \<open>
  C24. The factory's transfers on a detected ATA disk that answers ready. For a block of \<open>n\<close> bytes the sector
  is the base divided by \<open>n\<close>, the size of the block, and two sectors are asked for; a read gives the low halves of
  \<open>n\<close> words of the data port, a write sends each byte as a word, sign extended. So only blocks of
  512 bytes go where the kernel looks for them, and use up the words of the two sectors.
\<close>

theorem boot_disk_transfers:
  assumes "kATADetected (ba_bus b)" "ready (ba_bus b)" "0 < fuel"
    and "0 < n" "n < 2 ^ 32" "length bs = n" "base < 2 ^ 64" "IO = mBus (ba_trait b)"
  shows "\<exists>rlog wlog rb wb.
    transfer_regs IO base n n 0x20 rlog \<and> transfer_regs IO base n n 0x30 wlog \<and>
    bd_read (ATA_BootDev fuel) base n n bs b =
      Inr (map (\<lambda>i. ucast (in16s (ba_bus b) (in16_count (ba_bus b) + i))) [0..<n], rb) \<and>
    out_log (ba_bus rb) = out_log (ba_bus b) @ rlog \<and> in16_count (ba_bus rb) = in16_count (ba_bus b) + n \<and>
    \<not> mErr (ba_trait rb) \<and>
    bd_write (ATA_BootDev fuel) base n n bs b = Inr wb \<and>
    out_log (ba_bus wb) = out_log (ba_bus b) @ wlog @ map (\<lambda>c. (IO, scast c)) bs \<and> \<not> mErr (ba_trait wb)"
proof -
  let ?t = "ba_trait b" and ?s = "ba_bus b"
  have base: "unat (of_nat base :: u64) = base" by (rule unat_of_nat64_less) (rule assms(7))
  obtain rlog where r: "transfer_regs IO base n n 0x20 rlog"
    "boot_ata_read fuel (of_nat base) IO (mMaster ?t) n n ?s =
      Inr (map (\<lambda>i. ucast (in16s ?s (in16_count ?s + i))) [0..<n],
        ?s\<lparr>in8_count := in8_count ?s + 804 * (n + 1), in16_count := in16_count ?s + n, out_log := out_log ?s @ rlog\<rparr>)"
    using read_transfer_ready [OF assms(2,3,4,5,5), of IO "of_nat base" "mMaster ?t"]
    by (auto simp: boot_ata_read_eq [OF assms(4)] base)
  obtain wlog where w: "transfer_regs IO base n n 0x30 wlog"
    "boot_ata_write fuel (of_nat base) IO (mMaster ?t) bs n ?s =
      Inr (?s\<lparr>in8_count := in8_count ?s + 804 * (n + 1) + 402,
        out_log := out_log ?s @ wlog @ map (\<lambda>b. (IO, scast b)) bs\<rparr>)"
    using write_transfer_ready [OF assms(2,3,4,5), of bs IO "of_nat base" "mMaster ?t"] assms(5,6)
    by (auto simp: boot_ata_write_eq [OF assms(4)] base)
  have "bd_read (ATA_BootDev fuel) base n n bs b = Inr (map (\<lambda>i. ucast (in16s ?s (in16_count ?s + i))) [0..<n],
      b\<lparr>ba_bus := ?s\<lparr>in8_count := in8_count ?s + 804 * (n + 1), in16_count := in16_count ?s + n,
          out_log := out_log ?s @ rlog\<rparr>, ba_trait := ?t\<lparr>mBase := base, mSize := n, mErr := False\<rparr>\<rparr>)"
    using assms(1,4,8) r(2)
    by (simp add: ATA_BootDev_def BootDeviceATA_Read_def boot_ata_detected_def trait_err_def Let_def)
  moreover have "bd_write (ATA_BootDev fuel) base n n bs b = Inr (b\<lparr>ba_bus := ?s\<lparr>in8_count := in8_count ?s + 804 * (n + 1) + 402,
          out_log := out_log ?s @ wlog @ map (\<lambda>b. (IO, scast b)) bs\<rparr>, ba_trait := ?t\<lparr>mBase := base, mSize := n, mErr := False\<rparr>\<rparr>)"
    using assms(1,4,6,8) w(2)
    by (simp add: ATA_BootDev_def BootDeviceATA_Write_def boot_ata_detected_def trait_err_def Let_def)
  ultimately show ?thesis using r(1) w(1) by (intro exI conjI) (assumption | simp)+
qed

definition demo_boot_ata :: boot_ata where
  "demo_boot_ata =
     \<lparr>ba_bus = \<lparr>in8s = \<lambda>_ _. 0x40, in8_count = 0, in16s = of_nat, in16_count = 0, out_log = [], kATADetected = True,
        kATAData = []\<rparr>, ba_kATAData = replicate 256 0, ba_trait = ATATrait_new\<rparr>"

theorem boot_disk_transfers_witness:
  "\<exists>rb. bd_read (ATA_BootDev 1) 1024 2 2 [0, 0] demo_boot_ata = Inr ([0, 1], rb) \<and> \<not> mErr (ba_trait rb)"
proof -
  have "ready (ba_bus demo_boot_ata)" "kATADetected (ba_bus demo_boot_ata)"
    by (simp_all add: demo_boot_ata_def ready_def ATA_SR_BSY_def ATA_SR_ERR_def ATA_SR_DRDY_def)
  moreover have "map (\<lambda>i. ucast (in16s (ba_bus demo_boot_ata) (in16_count (ba_bus demo_boot_ata) + i)) :: u8) [0..<2] = [0, 1]"
    by code_simp
  ultimately show ?thesis
    using boot_disk_transfers [of demo_boot_ata 1 2 "[0, 0]" 1024 "mBus (ba_trait demo_boot_ata)"] by auto
qed

end
