(* ===== verification/BootLoad.thy ===== *)
theory BootLoad
  imports BootFormat
begin

text \<open>
  Loading the kernel: the file reader of \<^verbatim>\<open>Boot/src/BootFileReader.cc\<close>, the header search of
  \<^verbatim>\<open>CFKit/Utils.h\<close> over the records of \<^verbatim>\<open>KernelKit/PE.h\<close> and \<^verbatim>\<open>KernelKit/MSDOS.h\<close>,
  and the PE loader of \<^verbatim>\<open>Boot/src/BootThread.cc\<close>.

  The image, the loaded sections and the literals the names are compared with are in one memory.
  Fields of the headers are read at the offsets of the structures. The firmware's services are
  parameters. The text that is printed is left out.
\<close>

subsection \<open>Headers (PE.h, MSDOS.h, Utils.h)\<close>

definition kPeSignature :: u32 where "kPeSignature = 0x00004550"
definition kPeMachineAMD64 :: u16 where "kPeMachineAMD64 = 0x8664"
definition kZKASubsystem :: u16 where "kZKASubsystem = 17"
definition kHandoverMagic :: u64 where "kHandoverMagic = 0xBADCC"
definition kTypeKernel :: u32 where "kTypeKernel = 100"

text \<open>The DOS header has 128 bytes, the new field last; the PE headers follow it at once.\<close>

definition sizeof_DosHeader :: nat where "sizeof_DosHeader = 128"

definition ldr_find_exec_header :: "mem \<Rightarrow> nat \<Rightarrow> nat option" where
  "ldr_find_exec_header m ptrDos =
     (if ptrDos = 0 then None
      else if m ptrDos \<noteq> 77 then None
      else if m (ptrDos + 1) \<noteq> 90 then None
      else Some (ptrDos + sizeof_DosHeader))"

definition ldr_find_opt_exec_header :: "mem \<Rightarrow> nat \<Rightarrow> nat option" where
  "ldr_find_opt_exec_header m ptrDos =
     (if ptrDos = 0 then None
      else case ldr_find_exec_header m ptrDos of
        None \<Rightarrow> None
      | Some exec \<Rightarrow> Some (exec + 24))"

definition exec_mSignature :: "nat \<Rightarrow> mem \<Rightarrow> u32" where "exec_mSignature h m = load32 h m"
definition exec_mMachine :: "nat \<Rightarrow> mem \<Rightarrow> u16" where "exec_mMachine h m = load16 (h + 4) m"
definition exec_mNumberOfSections :: "nat \<Rightarrow> mem \<Rightarrow> u16" where "exec_mNumberOfSections h m = load16 (h + 6) m"
definition exec_mSizeOfOptionalHeader :: "nat \<Rightarrow> mem \<Rightarrow> u16" where
  "exec_mSizeOfOptionalHeader h m = load16 (h + 20) m"

definition opt_mAddressOfEntryPoint :: "nat \<Rightarrow> mem \<Rightarrow> u32" where "opt_mAddressOfEntryPoint h m = load32 (h + 16) m"
definition opt_mBaseOfData :: "nat \<Rightarrow> mem \<Rightarrow> u32" where "opt_mBaseOfData h m = load32 (h + 24) m"
definition opt_mImageBase :: "nat \<Rightarrow> mem \<Rightarrow> u32" where "opt_mImageBase h m = load32 (h + 28) m"
definition opt_mSizeOfImage :: "nat \<Rightarrow> mem \<Rightarrow> u32" where "opt_mSizeOfImage h m = load32 (h + 56) m"
definition opt_mSubsystem :: "nat \<Rightarrow> mem \<Rightarrow> u16" where "opt_mSubsystem h m = load16 (h + 68) m"

definition sizeof_SECTION :: nat where "sizeof_SECTION = 40"
definition sect_mVirtualAddress :: "nat \<Rightarrow> mem \<Rightarrow> u32" where "sect_mVirtualAddress s m = load32 (s + 12) m"
definition sect_mSizeOfRawData :: "nat \<Rightarrow> mem \<Rightarrow> u32" where "sect_mSizeOfRawData s m = load32 (s + 16) m"
definition sect_mPointerToRawData :: "nat \<Rightarrow> mem \<Rightarrow> u32" where "sect_mPointerToRawData s m = load32 (s + 20) m"

subsection \<open>The loader (BootThread.cc)\<close>

record BootThread =
  fStartAddress :: nat
  fBlob :: nat
  fStack :: nat

text \<open>The literals \<^verbatim>\<open>".text"\<close> and \<^verbatim>\<open>".ldr"\<close>, and the stack the loader allocates at its end.\<close>

record loader_env =
  lit_text :: nat
  lit_ldr :: nat
  new_stack :: nat

text \<open>
  The check of a handover section: it stops the machine when both the magic and the type are wrong,
  whatever the processor field says.
\<close>

definition handover_ok :: "nat \<Rightarrow> mem \<Rightarrow> bool" where
  "handover_ok h m \<longleftrightarrow> \<not> (load64 h m \<noteq> kHandoverMagic \<and> load32 (h + 8) m \<noteq> kTypeKernel)"

text \<open>
  One section: clear it, look at its name, copy it. \<open>None\<close> is a comparison of names that does not end.
\<close>

definition load_section ::
  "loader_env \<Rightarrow> nat \<Rightarrow> nat \<Rightarrow> nat \<Rightarrow> nat \<Rightarrow> nat \<Rightarrow> mem \<Rightarrow> (fault + (nat \<times> mem)) option" where
  "load_section env blob opt load sect start m =
     (let m1 = snd (boot_memset (load + unat (sect_mVirtualAddress sect m)) 0 (unat (sect_mSizeOfRawData sect m)) m);
          copy = (\<lambda>start'. Some (Inr (start',
            snd (boot_memcpy (load + unat (sect_mVirtualAddress sect m1))
              (blob + unat (sect_mPointerToRawData sect m1)) (unat (sect_mSizeOfRawData sect m1)) m1))))
      in case boot_strcmp m1 (lit_text env) sect of
           None \<Rightarrow> None
         | Some r \<Rightarrow>
             if r = 0 then copy (load + unat (opt_mAddressOfEntryPoint opt m1))
             else case boot_strcmp m1 (lit_ldr env) sect of
               None \<Rightarrow> None
             | Some r2 \<Rightarrow>
                 if r2 = 0 \<and> \<not> handover_ok (blob + unat (sect_mPointerToRawData sect m1)) m1
                 then Some EFI_Stop
                 else copy start)"

fun section_loop ::
  "loader_env \<Rightarrow> nat \<Rightarrow> nat \<Rightarrow> nat \<Rightarrow> nat \<Rightarrow> nat \<Rightarrow> nat \<Rightarrow> mem \<Rightarrow> (fault + (nat \<times> mem)) option" where
  "section_loop env blob opt load sect 0 start m = Some (Inr (start, m))"
| "section_loop env blob opt load sect (Suc left) start m =
     (case load_section env blob opt load sect start m of
        None \<Rightarrow> None
      | Some (Inl e) \<Rightarrow> Some (Inl e)
      | Some (Inr (start', m')) \<Rightarrow> section_loop env blob opt load (sect + sizeof_SECTION) left start' m')"

text \<open>
  The constructor. A blob that starts with the PEF magic or with anything else than a DOS header gets
  a stack and no start address. \<open>alloc\<close> is the firmware's \<^verbatim>\<open>AllocatePages\<close>: from the number of pages and the
  address asked for to the address it leaves; its status is not looked at.
\<close>

definition BootThread_new ::
  "loader_env \<Rightarrow> (nat \<Rightarrow> nat \<Rightarrow> nat) \<Rightarrow> nat \<Rightarrow> mem \<Rightarrow> (fault + (BootThread \<times> mem)) option" where
  "BootThread_new env alloc blob m =
     (let t = \<lparr>fStartAddress = 0, fBlob = blob, fStack = 0\<rparr> in
      if blob = 0 then Some (Inr (t, m))
      else if m blob = 77 \<and> m (blob + 1) = 90 then
        (case (ldr_find_exec_header m blob, ldr_find_opt_exec_header m blob) of
           (Some h, Some opt) \<Rightarrow>
             if exec_mMachine h m \<noteq> kPeMachineAMD64 \<or> exec_mSignature h m \<noteq> kPeSignature then Some (Inr (t, m))
             else if opt_mSubsystem opt m \<noteq> kZKASubsystem then Some (Inr (t, m))
             else let numSecs = unat (exec_mNumberOfSections h m);
                      load = alloc (unat (opt_mSizeOfImage opt m) div 512)
                        (unat (opt_mImageBase opt m) + unat (opt_mBaseOfData opt m))
               in (case section_loop env blob opt load (opt + unat (exec_mSizeOfOptionalHeader h m)) numSecs 0 m of
                     None \<Rightarrow> None
                   | Some (Inl e) \<Rightarrow> Some (Inl e)
                   | Some (Inr (start, m')) \<Rightarrow> Some (Inr (t\<lparr>fStartAddress := start, fStack := new_stack env\<rparr>, m')))
         | _ \<Rightarrow> Some (Inr (t, m)))
      else Some (Inr (t\<lparr>fStack := new_stack env\<rparr>, m)))"

text \<open>
  Starting: \<open>run\<close> is the loaded program, called with its address; with a stack of its own the call
  goes through assembly and the answer is always ok.
\<close>

definition BootThread_Start :: "(nat \<Rightarrow> u32) \<Rightarrow> bool \<Rightarrow> BootThread \<Rightarrow> fault + (u32 \<times> BootThread)" where
  "BootThread_Start run own_stack t =
     (if fStartAddress t = 0 then EFI_Stop
      else if own_stack then Inr (0, t)
      else Inr (run (fStartAddress t), t\<lparr>fStack := 0\<rparr>))"

definition BootThread_IsValid :: "BootThread \<Rightarrow> bool" where
  "BootThread_IsValid t \<longleftrightarrow> fStartAddress t \<noteq> 0"

text \<open>The name is an array of 255 characters in the object, at \<open>blob_name\<close>.\<close>

definition BootThread_SetName :: "nat \<Rightarrow> nat \<Rightarrow> mem \<Rightarrow> mem option" where
  "BootThread_SetName blob_name name m =
     (case boot_strlen m name of None \<Rightarrow> None
      | Some n \<Rightarrow> Some (snd (boot_memcpy blob_name name n m)))"

subsection \<open>The file reader (BootFileReader.cc)\<close>

datatype reader_error =
    kOperationOkay
  | kNotSupported
  | kEmptyDirectory
  | kNoSuchEntry
  | kIsDirectory
  | kTooSmall
  | kCount

definition kPathLen :: nat where "kPathLen = 0x100"

record BFileReader =
  mPath :: "u16 list"
  mErrorCode :: reader_error
  mBlob :: nat
  mFile :: bool
  mRootFs :: bool
  mSizeFile :: nat

text \<open>
  What the firmware answers: whether the image's protocol, the file system's, the volume and the file
  are found. A failure of the first call is noted but does not return, and the protocol it did not
  give is used.
\<close>

record efi_open =
  has_image :: bool
  has_filesystem :: bool
  has_volume :: bool
  has_file :: bool

text \<open>The path is copied with its terminator into an array of 256 characters, without a check.\<close>

definition copy_path :: "u16 list option \<Rightarrow> fault + u16 list" where
  "copy_path path =
     (case path of None \<Rightarrow> Inr []
      | Some p \<Rightarrow> if length p < kPathLen then Inr p else Inl OutOfBounds)"

definition BFileReader_new :: "u16 list option \<Rightarrow> efi_open \<Rightarrow> fault + BFileReader" where
  "BFileReader_new path fw =
     bindF (copy_path path) (\<lambda>p.
     let r = \<lparr>mPath = p, mErrorCode = kOperationOkay, mBlob = 0, mFile = False, mRootFs = False, mSizeFile = 0\<rparr> in
      if \<not> has_image fw then Inl NullDeref
      else if \<not> has_filesystem fw then Inr (r\<lparr>mErrorCode := kNotSupported\<rparr>)
      else if \<not> has_volume fw then Inr (r\<lparr>mErrorCode := kNotSupported\<rparr>)
      else let r1 = r\<lparr>mRootFs := True\<rparr> in
        if \<not> has_file fw then Inr (r1\<lparr>mErrorCode := kNotSupported\<rparr>)
        else Inr (r1\<lparr>mFile := True\<rparr>))"

text \<open>
  Reading. \<open>rd n f\<close> is the firmware's \<^verbatim>\<open>Read\<close> of at most \<open>n\<close> bytes: whether it says the buffer is
  too small, the bytes it gives (their number is the new buffer size) and the file after. The loop
  keeps the buffer size a read leaves, and carries fuel.
\<close>

fun read_all_loop ::
  "(nat \<Rightarrow> 'f \<Rightarrow> bool \<times> u8 list \<times> 'f) \<Rightarrow> nat \<Rightarrow> nat \<Rightarrow> nat \<Rightarrow> nat \<Rightarrow> nat \<Rightarrow> nat \<Rightarrow> 'f \<Rightarrow> mem \<Rightarrow>
   fault + (nat \<times> 'f \<times> mem)" where
  "read_all_loop rd chunk blob 0 readUntil bufSize szCnt f m = Inl OutOfFuel"
| "read_all_loop rd chunk blob (Suc fuel) readUntil bufSize szCnt f m =
     (if szCnt < readUntil
      then case rd bufSize f of (too_small, bs, f') \<Rightarrow>
        read_all_loop rd chunk blob fuel readUntil (if too_small then chunk else length bs) (szCnt + length bs) f'
          (write_bytes (blob + szCnt) bs m)
      else Inr (szCnt, f, m))"

text \<open>
  \<open>info\<close> is the size the file's information gives, if it gives one; \<open>pool\<close> the memory the firmware
  allocates, if it does. A reader without a file is a null pointer.
\<close>

definition BFileReader_ReadAll ::
  "(nat \<Rightarrow> 'f \<Rightarrow> bool \<times> u8 list \<times> 'f) \<Rightarrow> nat \<Rightarrow> nat option \<Rightarrow> nat option \<Rightarrow> nat \<Rightarrow> nat \<Rightarrow> nat \<Rightarrow>
   BFileReader \<Rightarrow> 'f \<Rightarrow> mem \<Rightarrow> fault + (BFileReader \<times> 'f \<times> mem)" where
  "BFileReader_ReadAll rd fuel info pool readUntil chunkToRead out_address r f m =
     (if \<not> mFile r then Inl NullDeref
      else let until = (case info of Some n \<Rightarrow> n | None \<Rightarrow> readUntil) in
        if until = 0 then Inr (r\<lparr>mErrorCode := kNotSupported\<rparr>, f, m)
        else bindF (if mBlob r \<noteq> 0 then Inr r
                    else if out_address \<noteq> 0 then Inr (r\<lparr>mBlob := out_address\<rparr>)
                    else case pool of None \<Rightarrow> EFI_Stop | Some a \<Rightarrow> Inr (r\<lparr>mBlob := a\<rparr>)) (\<lambda>r1.
             bindF (read_all_loop rd chunkToRead (mBlob r1) fuel until chunkToRead 0 f m) (\<lambda>(cnt, f', m').
             Inr (r1\<lparr>mSizeFile := cnt, mErrorCode := kOperationOkay\<rparr>, f', m'))))"

definition BFileReader_delete :: "BFileReader \<Rightarrow> BFileReader" where
  "BFileReader_delete r = r\<lparr>mFile := False, mRootFs := False, mBlob := 0\<rparr>"

subsection \<open>Loading sections\<close>

lemma boot_memset_frame:
  "j < dst \<or> dst + 4 * len \<le> j \<Longrightarrow> snd (boot_memset dst byte len m) j = m j"
proof -
  have "j < dst + 4 * i \<or> dst + 4 * (i + left) \<le> j \<Longrightarrow> boot_memset_loop dst byte i left m j = m j" for i left m
    by (induction dst byte i left m rule: boot_memset_loop.induct) (auto simp: store_bytes_other)
  from this [of 0 len m] show "j < dst \<or> dst + 4 * len \<le> j \<Longrightarrow> snd (boot_memset dst byte len m) j = m j"
    by (simp add: boot_memset_def)
qed

text \<open>A section as its header says: the address, the size, where its data is in the image, the name.\<close>

type_synonym sect_info = "nat \<times> nat \<times> nat \<times> u8 list"

fun sects_at :: "mem \<Rightarrow> nat \<Rightarrow> sect_info list \<Rightarrow> bool" where
  "sects_at m s [] = True"
| "sects_at m s ((va, sz, ptr, nm) # ss) =
     (unat (sect_mVirtualAddress s m) = va \<and> unat (sect_mSizeOfRawData s m) = sz \<and>
      unat (sect_mPointerToRawData s m) = ptr \<and> at_mem m s (nm @ [0]) \<and> 0 \<notin> set nm \<and> length nm < 8 \<and>
      sects_at m (s + sizeof_SECTION) ss)"

definition text_name :: "u8 list" where "text_name = [46, 116, 101, 120, 116]"
definition ldr_name :: "u8 list" where "ldr_name = [46, 108, 100, 114]"

text \<open>What the comparison takes for the code section: the name itself, and all that do not start with a dot.\<close>

definition taken_for_code :: "u8 list \<Rightarrow> bool" where
  "taken_for_code nm \<longleftrightarrow> nm = text_name \<or> nm = [] \<or> hd nm \<noteq> 46"

text \<open>
  Where things lie: \<open>low\<close> bounds the headers, the data of the image and the literals from above and the
  places of the sections from below. The data read for a section is four times its size.
\<close>

definition section_ok :: "nat \<Rightarrow> nat \<Rightarrow> nat \<Rightarrow> mem \<Rightarrow> sect_info \<Rightarrow> bool" where
  "section_ok blob load low m = (\<lambda>(va, sz, ptr, nm).
     low \<le> load + va \<and> blob + ptr + 4 * sz \<le> low \<and>
     (nm = ldr_name \<longrightarrow> blob + ptr + 12 \<le> low \<and> handover_ok (blob + ptr) m))"

definition literals_ok :: "loader_env \<Rightarrow> nat \<Rightarrow> mem \<Rightarrow> bool" where
  "literals_ok env low m \<longleftrightarrow> lit_text env \<noteq> 0 \<and> lit_ldr env \<noteq> 0 \<and> lit_text env + 6 \<le> low \<and> lit_ldr env + 5 \<le> low \<and>
     at_mem m (lit_text env) (text_name @ [0]) \<and> at_mem m (lit_ldr env) (ldr_name @ [0])"

definition same_below :: "nat \<Rightarrow> mem \<Rightarrow> mem \<Rightarrow> bool" where
  "same_below low m m' \<longleftrightarrow> (\<forall>a < low. m' a = m a)"

lemma same_below_read: "same_below low m m' \<Longrightarrow> a + n \<le> low \<Longrightarrow> read_bytes a n m' = read_bytes a n m"
  by (simp add: same_below_def read_bytes_eq_iff)

lemma same_below_loads:
  "same_below low m m' \<Longrightarrow> a + 2 \<le> low \<Longrightarrow> load16 a m' = load16 a m"
  "same_below low m m' \<Longrightarrow> a + 4 \<le> low \<Longrightarrow> load32 a m' = load32 a m"
  "same_below low m m' \<Longrightarrow> a + 8 \<le> low \<Longrightarrow> load64 a m' = load64 a m"
  by (simp_all add: load16_def load32_def load64_def same_below_read)

lemma same_below_at_mem:
  "same_below low m m' \<Longrightarrow> a + length xs \<le> low \<Longrightarrow> at_mem m' a xs = at_mem m a xs"
  by (simp add: at_mem_read same_below_read)

lemma sects_at_cong:
  "same_below low m m' \<Longrightarrow> s + 40 * length ss \<le> low \<Longrightarrow> sects_at m' s ss = sects_at m s ss"
proof (induction m s ss rule: sects_at.induct)
  case (2 m s va sz ptr nm ss)
  then have "sects_at m' (s + sizeof_SECTION) ss = sects_at m (s + sizeof_SECTION) ss"
    by (simp add: sizeof_SECTION_def)
  then show ?case
    using 2 by (auto simp: sect_mVirtualAddress_def sect_mSizeOfRawData_def sect_mPointerToRawData_def
        same_below_loads same_below_at_mem simp del: at_mem.simps)
qed simp

lemma handover_ok_cong:
  "same_below low m m' \<Longrightarrow> h + 12 \<le> low \<Longrightarrow> handover_ok h m' = handover_ok h m"
  by (simp add: handover_ok_def same_below_loads)

lemma section_ok_cong: "same_below low m m' \<Longrightarrow> section_ok blob load low m' s = section_ok blob load low m s"
  by (auto simp: section_ok_def handover_ok_cong split: prod.splits)

lemma literals_ok_cong: "same_below low m m' \<Longrightarrow> literals_ok env low m' = literals_ok env low m"
  by (auto simp: literals_ok_def text_name_def ldr_name_def same_below_at_mem simp del: at_mem.simps)

lemma strcmp_text:
  assumes "literals_ok env low m" "at_mem m s (nm @ [0])" "0 \<notin> set nm"
  shows "\<exists>r. boot_strcmp m (lit_text env) s = Some r \<and> (r = 0 \<longleftrightarrow> taken_for_code nm)"
proof -
  have "boot_strcmp m (lit_text env) s = Some 0 \<longleftrightarrow> text_name = nm \<or> text_name = [] \<or> nm = [] \<or> hd text_name \<noteq> hd nm"
    using assms by (intro boot_strcmp_zero_iff) (auto simp: literals_ok_def text_name_def)
  moreover obtain r where "boot_strcmp m (lit_text env) s = Some r"
    using assms boot_strcmp_spec [of "lit_text env" m text_name s nm] by (auto simp: literals_ok_def text_name_def)
  ultimately show ?thesis by (auto simp: taken_for_code_def text_name_def)
qed

lemma strcmp_ldr:
  assumes "literals_ok env low m" "at_mem m s (nm @ [0])" "0 \<notin> set nm" "\<not> taken_for_code nm"
  shows "\<exists>r. boot_strcmp m (lit_ldr env) s = Some r \<and> (r = 0 \<longleftrightarrow> nm = ldr_name)"
proof -
  have "boot_strcmp m (lit_ldr env) s = Some 0 \<longleftrightarrow> ldr_name = nm \<or> ldr_name = [] \<or> nm = [] \<or> hd ldr_name \<noteq> hd nm"
    using assms by (intro boot_strcmp_zero_iff) (auto simp: literals_ok_def ldr_name_def)
  moreover obtain r where "boot_strcmp m (lit_ldr env) s = Some r"
    using assms boot_strcmp_spec [of "lit_ldr env" m ldr_name s nm] by (auto simp: literals_ok_def ldr_name_def)
  ultimately show ?thesis using assms(4) by (auto simp: taken_for_code_def ldr_name_def)
qed

lemma load_section_spec:
  assumes lits: "literals_ok env low m" and sect: "sects_at m sect [(va, sz, ptr, nm)]" "sect + 40 \<le> low"
    and ok: "section_ok blob load low m (va, sz, ptr, nm)" and opt: "opt + 20 \<le> low"
  shows "\<exists>m'. load_section env blob opt load sect start m =
      Some (Inr (if taken_for_code nm then load + unat (opt_mAddressOfEntryPoint opt m) else start, m')) \<and>
    (\<forall>a < load + va. m' a = m a) \<and> (\<forall>j < sz. m' (load + va + j) = m (blob + ptr + j))"
proof -
  define m1 where "m1 = snd (boot_memset (load + va) 0 sz m)"
  define m' where "m' = snd (boot_memcpy (load + va) (blob + ptr) sz m1)"
  have b: "low \<le> load + va" "blob + ptr + 4 * sz \<le> low" using ok by (auto simp: section_ok_def)
  have s1: "same_below low m m1" using b(1) by (simp add: same_below_def m1_def boot_memset_frame)
  have "sects_at m1 sect [(va, sz, ptr, nm)]" using sect sects_at_cong [OF s1, of sect "[(va, sz, ptr, nm)]"] by simp
  then have h: "unat (sect_mVirtualAddress sect m1) = va" "unat (sect_mSizeOfRawData sect m1) = sz"
    "unat (sect_mPointerToRawData sect m1) = ptr" "at_mem m1 sect (nm @ [0])" "0 \<notin> set nm" by auto
  have h0: "unat (sect_mVirtualAddress sect m) = va" "unat (sect_mSizeOfRawData sect m) = sz" using sect by auto
  have l1: "literals_ok env low m1" using lits literals_ok_cong [OF s1] by simp
  have e: "opt_mAddressOfEntryPoint opt m1 = opt_mAddressOfEntryPoint opt m"
    using same_below_loads(2) [OF s1] opt by (simp add: opt_mAddressOfEntryPoint_def)
  obtain r where r: "boot_strcmp m1 (lit_text env) sect = Some r" "r = 0 \<longleftrightarrow> taken_for_code nm"
    using strcmp_text [OF l1 h(4,5)] by blast
  have "load_section env blob opt load sect start m =
      Some (Inr (if taken_for_code nm then load + unat (opt_mAddressOfEntryPoint opt m) else start, m'))"
  proof (cases "taken_for_code nm")
    case True
    then show ?thesis using r by (simp add: load_section_def Let_def h0 h e flip: m1_def m'_def)
  next
    case False
    obtain r2 where r2: "boot_strcmp m1 (lit_ldr env) sect = Some r2" "r2 = 0 \<longleftrightarrow> nm = ldr_name"
      using strcmp_ldr [OF l1 h(4,5) False] by blast
    have "nm = ldr_name \<longrightarrow> handover_ok (blob + ptr) m1"
      using ok handover_ok_cong [OF s1] by (auto simp: section_ok_def)
    with False r r2 show ?thesis by (auto simp: load_section_def Let_def h0 h e simp flip: m1_def m'_def)
  qed
  moreover have bytes: "m' a = (if load + va \<le> a \<and> a < load + va + 4 * sz then m1 (blob + ptr + (a - (load + va))) else m1 a)" for a
    unfolding m'_def using b by (intro boot_memcpy_bytes) (auto simp: disjoint_ext_def)
  then have "\<forall>a < load + va. m' a = m a" by (simp add: m1_def boot_memset_frame)
  moreover have "m' (load + va + j) = m (blob + ptr + j)" if "j < sz" for j
    using that b s1 bytes [of "load + va + j"] by (simp add: same_below_def)
  ultimately show ?thesis by blast
qed

lemma section_loop_spec:
  assumes "literals_ok env low m" "sects_at m sect ss" "sect + 40 * length ss \<le> low"
    and "\<forall>s \<in> set ss. section_ok blob load low m s" "opt + 20 \<le> low"
    and "sorted_wrt (\<lambda>s t. fst s + fst (snd s) \<le> fst t) ss"
  shows "\<exists>m'. section_loop env blob opt load sect (length ss) start m =
      Some (Inr (if \<exists>s \<in> set ss. taken_for_code (snd (snd (snd s)))
                 then load + unat (opt_mAddressOfEntryPoint opt m) else start, m')) \<and>
    (\<forall>a. (\<forall>s \<in> set ss. a < load + fst s) \<longrightarrow> m' a = m a) \<and>
    (\<forall>(va, sz, ptr, nm) \<in> set ss. \<forall>j < sz. m' (load + va + j) = m (blob + ptr + j))"
  using assms
proof (induction ss arbitrary: m sect start)
  case (Cons s ss)
  obtain va sz ptr nm where s: "s = (va, sz, ptr, nm)" by (cases s)
  have ok: "section_ok blob load low m (va, sz, ptr, nm)" using Cons.prems(4) s by simp
  obtain m1 where m1: "load_section env blob opt load sect start m =
      Some (Inr (if taken_for_code nm then load + unat (opt_mAddressOfEntryPoint opt m) else start, m1))"
    "\<forall>a < load + va. m1 a = m a" "\<forall>j < sz. m1 (load + va + j) = m (blob + ptr + j)"
    using load_section_spec [OF Cons.prems(1) _ _ ok Cons.prems(5), of sect start] Cons.prems(2,3) s by auto
  have b: "low \<le> load + va" using ok by (simp add: section_ok_def)
  then have same: "same_below low m m1" using m1(2) by (simp add: same_below_def)
  have lits: "literals_ok env low m1" using Cons.prems(1) literals_ok_cong [OF same] by simp
  have e: "opt_mAddressOfEntryPoint opt m1 = opt_mAddressOfEntryPoint opt m"
    using same_below_loads(2) [OF same] Cons.prems(5) by (simp add: opt_mAddressOfEntryPoint_def)
  have "sects_at m1 (sect + sizeof_SECTION) ss" "sect + sizeof_SECTION + 40 * length ss \<le> low"
    using Cons.prems(2,3) s sects_at_cong [OF same, of "sect + sizeof_SECTION" ss] by (auto simp: sizeof_SECTION_def)
  moreover have "\<forall>s \<in> set ss. section_ok blob load low m1 s" using Cons.prems(4) section_ok_cong [OF same] by simp
  moreover have sorted: "\<forall>t \<in> set ss. va + sz \<le> fst t" "sorted_wrt (\<lambda>s t. fst s + fst (snd s) \<le> fst t) ss"
    using Cons.prems(6) s by simp_all
  ultimately obtain m' where m': "section_loop env blob opt load (sect + sizeof_SECTION) (length ss)
      (if taken_for_code nm then load + unat (opt_mAddressOfEntryPoint opt m) else start) m1 =
      Some (Inr (if \<exists>s \<in> set ss. taken_for_code (snd (snd (snd s)))
        then load + unat (opt_mAddressOfEntryPoint opt m)
        else if taken_for_code nm then load + unat (opt_mAddressOfEntryPoint opt m) else start, m'))"
    and fr: "\<forall>a. (\<forall>s \<in> set ss. a < load + fst s) \<longrightarrow> m' a = m1 a"
    and cp: "\<forall>(va, sz, ptr, nm) \<in> set ss. \<forall>j < sz. m' (load + va + j) = m1 (blob + ptr + j)"
    using Cons.IH [OF lits _ _ _ Cons.prems(5), where sect = "sect + sizeof_SECTION"
        and start = "if taken_for_code nm then load + unat (opt_mAddressOfEntryPoint opt m) else start"]
    unfolding e by blast
  have "m' (load + va + j) = m (blob + ptr + j)" if "j < sz" for j
  proof -
    have "\<forall>t \<in> set ss. load + va + j < load + fst t" using sorted(1) that by auto
    then have "m' (load + va + j) = m1 (load + va + j)" using fr by blast
    then show ?thesis using m1(3) that by simp
  qed
  moreover have "m1 (blob + ptr' + j) = m (blob + ptr' + j)" if "(va', sz', ptr', nm') \<in> set ss" "j < sz'" for va' sz' ptr' nm' j
    using Cons.prems(4) that same by (force simp: section_ok_def same_below_def)
  ultimately have "\<forall>(va, sz, ptr, nm) \<in> set (s # ss). \<forall>j < sz. m' (load + va + j) = m (blob + ptr + j)"
    using cp s by fastforce
  moreover have "\<forall>a. (\<forall>s \<in> set (s # ss). a < load + fst s) \<longrightarrow> m' a = m a" using fr m1(2) s by simp
  moreover have "section_loop env blob opt load sect (length (s # ss)) start m =
      Some (Inr (if \<exists>t \<in> set (s # ss). taken_for_code (snd (snd (snd t)))
        then load + unat (opt_mAddressOfEntryPoint opt m) else start, m'))"
    using m1(1) m' s by auto
  ultimately show ?case by blast
qed simp

subsection \<open>Reading a file\<close>

lemma write_bytes_append: "write_bytes (a + length xs) ys (write_bytes a xs m) = write_bytes a (xs @ ys) m"
  by (intro ext) (auto simp: write_bytes_def nth_append)

lemma read_all_loop_reads:
  assumes "\<And>n f. rd n f = (False, take n f, drop n f)" "0 < chunk" "length f < fuel"
  shows "read_all_loop rd chunk blob fuel (cnt + length f) chunk cnt f m =
    Inr (cnt + length f, [], write_bytes (blob + cnt) f m)"
  using assms(3)
proof (induction fuel arbitrary: f cnt m)
  case (Suc fuel)
  show ?case
  proof (cases "f = []")
    case True
    then show ?thesis by (simp add: write_bytes_Nil)
  next
    case False
    let ?bs = "take chunk f"
    have step: "read_all_loop rd chunk blob (Suc fuel) (cnt + length f) chunk cnt f m =
        read_all_loop rd chunk blob fuel (cnt + length f) (length ?bs) (cnt + length ?bs) (drop chunk f)
          (write_bytes (blob + cnt) ?bs m)"
      using False by (simp add: assms(1))
    have len: "cnt + length ?bs + length (drop chunk f) = cnt + length f" by simp
    have w: "write_bytes (blob + (cnt + length ?bs)) (drop chunk f) (write_bytes (blob + cnt) ?bs m) =
        write_bytes (blob + cnt) f m"
      using write_bytes_append [of "blob + cnt" ?bs "drop chunk f" m] by (simp add: add.assoc)
    show ?thesis
    proof (cases "chunk \<le> length f")
      case True
      then show ?thesis
        using Suc.IH [of "drop chunk f" "cnt + length ?bs" "write_bytes (blob + cnt) ?bs m"] Suc.prems assms(2) w
        unfolding step by (simp add: add.assoc)
    next
      case short: False
      then have "drop chunk f = []" "?bs = f" by simp_all
      then show ?thesis unfolding step using Suc.prems False by (cases fuel) simp_all
    qed
  qed
qed simp

text \<open>At the end of the file the buffer size becomes zero and stays so.\<close>

lemma read_all_loop_stuck:
  assumes "\<And>n f. rd n f = (False, take n f, drop n f)" "cnt + length f < until"
  shows "read_all_loop rd chunk blob fuel until buf cnt f m = Inl OutOfFuel"
  using assms(2) by (induction fuel arbitrary: f cnt buf m) (simp_all add: assms(1))

subsection \<open>Properties\<close>

text \<open>
  C25. Reading a file, on a firmware whose reads give as many of the remaining bytes as are asked for: when
  the size the file's information gives is the size of the file, the reader returns, with exactly
  the file's bytes in the memory it was given and their number as its size. When the information gives
  a larger size, the reader never returns.
\<close>

theorem read_all_reads_the_file:
  assumes "\<And>n f. rd n f = (False, take n f, drop n f)" "0 < chunk" "mFile r" "mBlob r = 0" "content \<noteq> []"
    and "length content < fuel" "length content < claimed"
  shows "BFileReader_ReadAll rd fuel (Some (length content)) (Some a) 0 chunk 0 r content m =
      Inr (r\<lparr>mBlob := a, mSizeFile := length content, mErrorCode := kOperationOkay\<rparr>, [], write_bytes a content m) \<and>
    (\<forall>fuel'. BFileReader_ReadAll rd fuel' (Some claimed) (Some a) 0 chunk 0 r content m = Inl OutOfFuel)"
proof
  show "BFileReader_ReadAll rd fuel (Some (length content)) (Some a) 0 chunk 0 r content m =
      Inr (r\<lparr>mBlob := a, mSizeFile := length content, mErrorCode := kOperationOkay\<rparr>, [], write_bytes a content m)"
    using read_all_loop_reads [OF assms(1,2,6), of a 0 m] assms(3-5) by (simp add: BFileReader_ReadAll_def)
  show "\<forall>fuel'. BFileReader_ReadAll rd fuel' (Some claimed) (Some a) 0 chunk 0 r content m = Inl OutOfFuel"
    using read_all_loop_stuck [of rd 0 content claimed, OF assms(1)] assms(3,4,7) by (simp add: BFileReader_ReadAll_def)
qed

theorem read_all_reads_the_file_witness:
  "\<exists>r f m. BFileReader_ReadAll (\<lambda>n f. (False, take n f, drop n f)) 4 (Some 3) (Some 100) 0 2 0
      \<lparr>mPath = [], mErrorCode = kOperationOkay, mBlob = 0, mFile = True, mRootFs = True, mSizeFile = 0\<rparr> [7, 8, 9]
      (\<lambda>_. 0) = Inr (r, f, m) \<and> mSizeFile r = 3"
proof -
  let ?r = "\<lparr>mPath = [], mErrorCode = kOperationOkay, mBlob = 0, mFile = True, mRootFs = True, mSizeFile = 0\<rparr>"
  have l: "length [7, 8, 9 :: u8] = 3" by simp
  have "BFileReader_ReadAll (\<lambda>n f. (False, take n f, drop n f)) 4 (Some 3) (Some 100) 0 2 0 ?r [7, 8, 9] (\<lambda>_. 0) =
      Inr (?r\<lparr>mBlob := 100, mSizeFile := 3, mErrorCode := kOperationOkay\<rparr>, [], write_bytes 100 [7, 8, 9] (\<lambda>_. 0))"
    using read_all_reads_the_file [of "\<lambda>n f. (False, take n f, drop n f)" 2 ?r "[7, 8, 9]" 4 4 100 "\<lambda>_. 0"]
    unfolding l by simp
  then show ?thesis by (metis BFileReader.select_convs(6) BFileReader.update_convs(6) BFileReader.update_convs(2)
      BFileReader.update_convs(3))
qed

text \<open>
  C20. Loading an image: headers, data and literals below the places of the sections, whose addresses
  ascend without overlap. Although every copy moves four times the size of a section, at the end each
  section holds its data and everything below the first one is unchanged. The start address is the
  entry point when some section is taken for code, and null, an invalid program, when none is.
\<close>

theorem pe_image_loaded:
  assumes "blob \<noteq> 0" "m blob = 77" "m (blob + 1) = 90"
    and "exec_mMachine (blob + 128) m = 0x8664" "exec_mSignature (blob + 128) m = 0x4550"
    and "opt_mSubsystem (blob + 152) m = 17" "unat (exec_mNumberOfSections (blob + 128) m) = length ss"
    and "load = alloc (unat (opt_mSizeOfImage (blob + 152) m) div 512)
      (unat (opt_mImageBase (blob + 152) m) + unat (opt_mBaseOfData (blob + 152) m))"
    and "sect = blob + 152 + unat (exec_mSizeOfOptionalHeader (blob + 128) m)" "sects_at m sect ss"
    and "literals_ok env low m" "sect + 40 * length ss \<le> low" "blob + 172 \<le> low"
    and "\<forall>s \<in> set ss. section_ok blob load low m s"
    and "sorted_wrt (\<lambda>s t. fst s + fst (snd s) \<le> fst t) ss"
  shows "\<exists>m'. BootThread_new env alloc blob m = Some (Inr (\<lparr>fStartAddress =
        (if \<exists>s \<in> set ss. taken_for_code (snd (snd (snd s)))
         then load + unat (opt_mAddressOfEntryPoint (blob + 152) m) else 0),
        fBlob = blob, fStack = new_stack env\<rparr>, m')) \<and>
    (\<forall>a < low. m' a = m a) \<and>
    (\<forall>(va, sz, ptr, nm) \<in> set ss. read_bytes (load + va) sz m' = read_bytes (blob + ptr) sz m)"
proof -
  obtain m' where m': "section_loop env blob (blob + 152) load sect (length ss) 0 m =
      Some (Inr (if \<exists>s \<in> set ss. taken_for_code (snd (snd (snd s)))
        then load + unat (opt_mAddressOfEntryPoint (blob + 152) m) else 0, m'))"
    and fr: "\<forall>a. (\<forall>s \<in> set ss. a < load + fst s) \<longrightarrow> m' a = m a"
    and cp: "\<forall>(va, sz, ptr, nm) \<in> set ss. \<forall>j < sz. m' (load + va + j) = m (blob + ptr + j)"
    using section_loop_spec [OF assms(11,10,12,14) _ assms(15), of "blob + 152" 0] assms(13) by auto
  have headers: "ldr_find_exec_header m blob = Some (blob + 128)" "ldr_find_opt_exec_header m blob = Some (blob + 152)"
    using assms(1-3) by (simp_all add: ldr_find_exec_header_def ldr_find_opt_exec_header_def sizeof_DosHeader_def)
  have "BootThread_new env alloc blob m = Some (Inr (\<lparr>fStartAddress =
        (if \<exists>s \<in> set ss. taken_for_code (snd (snd (snd s)))
         then load + unat (opt_mAddressOfEntryPoint (blob + 152) m) else 0),
        fBlob = blob, fStack = new_stack env\<rparr>, m'))"
    unfolding BootThread_new_def headers kPeMachineAMD64_def kPeSignature_def kZKASubsystem_def Let_def
      assms(4-7) assms(8) [symmetric] assms(9) [symmetric] option.case prod.case m'
    using assms(1-3) by (simp split del: if_split)
  moreover have "\<forall>a < low. m' a = m a" 
  proof (intro allI impI)
    fix a
    assume "a < low"
    have "a < load + fst s" if "s \<in> set ss" for s
      using bspec [OF assms(14) that] \<open>a < low\<close> by (cases s) (simp add: section_ok_def)
    then show "m' a = m a" using fr by blast
  qed
  moreover have "\<forall>(va, sz, ptr, nm) \<in> set ss. read_bytes (load + va) sz m' = read_bytes (blob + ptr) sz m"
    using cp by (auto simp: read_bytes_eq_iff)
  ultimately show ?thesis by blast
qed

text \<open>An image of one section, named as the code section is, with one byte of data.\<close>

definition demo_image :: mem where
  "demo_image = write_bytes 1000 [77, 90] (write_bytes 1128 (enc32 0x4550) (write_bytes 1132 (enc16 0x8664)
    (write_bytes 1134 (enc16 1) (write_bytes 1148 (enc16 72) (write_bytes 1168 (enc32 5) (write_bytes 1176 (enc32 0)
    (write_bytes 1180 (enc32 8192) (write_bytes 1208 (enc32 0) (write_bytes 1220 (enc16 17)
    (write_bytes 1224 (text_name @ [0]) (write_bytes 1236 (enc32 16) (write_bytes 1240 (enc32 1)
    (write_bytes 1244 (enc32 264) (write_bytes 1264 [9] (write_bytes 2000 (text_name @ [0])
    (write_bytes 2010 (ldr_name @ [0]) (\<lambda>_. 0)))))))))))))))))"

lemma read_write_same_len: "length bs = n \<Longrightarrow> read_bytes a n (write_bytes a bs m) = bs"
  using read_write_bytes_same by blast

lemma demo_image_reads:
  "read_bytes 1128 4 demo_image = enc32 0x4550" "read_bytes 1132 2 demo_image = enc16 0x8664"
  "read_bytes 1134 2 demo_image = enc16 1" "read_bytes 1148 2 demo_image = enc16 72"
  "read_bytes 1168 4 demo_image = enc32 5" "read_bytes 1176 4 demo_image = enc32 0"
  "read_bytes 1180 4 demo_image = enc32 8192" "read_bytes 1208 4 demo_image = enc32 0"
  "read_bytes 1220 2 demo_image = enc16 17" "read_bytes 1224 6 demo_image = text_name @ [0]"
  "read_bytes 1236 4 demo_image = enc32 16" "read_bytes 1240 4 demo_image = enc32 1"
  "read_bytes 1244 4 demo_image = enc32 264" "read_bytes 1264 1 demo_image = [9]"
  "read_bytes 2000 6 demo_image = text_name @ [0]" "read_bytes 2010 5 demo_image = ldr_name @ [0]"
  "demo_image 1000 = 77" "demo_image 1001 = 90"
proof -
  have l: "length text_name = 5" "length ldr_name = 4" by (simp_all add: text_name_def ldr_name_def)
  note facts = demo_image_def read_write_bytes_disjoint read_write_same_len disjoint_ext_def l
  show "read_bytes 1128 4 demo_image = enc32 0x4550" "read_bytes 1132 2 demo_image = enc16 0x8664"
    "read_bytes 1134 2 demo_image = enc16 1" "read_bytes 1148 2 demo_image = enc16 72"
    "read_bytes 1168 4 demo_image = enc32 5" "read_bytes 1176 4 demo_image = enc32 0"
    "read_bytes 1180 4 demo_image = enc32 8192" "read_bytes 1208 4 demo_image = enc32 0"
    "read_bytes 1220 2 demo_image = enc16 17" "read_bytes 1224 6 demo_image = text_name @ [0]"
    "read_bytes 1236 4 demo_image = enc32 16" "read_bytes 1240 4 demo_image = enc32 1"
    "read_bytes 1244 4 demo_image = enc32 264" "read_bytes 1264 1 demo_image = [9]"
    "read_bytes 2000 6 demo_image = text_name @ [0]" "read_bytes 2010 5 demo_image = ldr_name @ [0]"
    by (simp_all add: facts)
  show "demo_image 1000 = 77" "demo_image 1001 = 90" by (simp_all add: demo_image_def write_bytes_def)
qed

theorem pe_image_loaded_witness:
  "\<exists>m'. BootThread_new \<lparr>lit_text = 2000, lit_ldr = 2010, new_stack = 3000\<rparr> (\<lambda>_ a. a) 1000 demo_image =
      Some (Inr (\<lparr>fStartAddress = 8197, fBlob = 1000, fStack = 3000\<rparr>, m')) \<and> read_bytes 8208 1 m' = [9]"
proof -
  let ?env = "\<lparr>lit_text = 2000, lit_ldr = 2010, new_stack = 3000\<rparr>" and ?ss = "[(16, 1, 264, text_name)]"
  have l: "length text_name = 5" "length ldr_name = 4" "0 \<notin> set text_name" "taken_for_code text_name"
    "text_name \<noteq> ldr_name" by (simp_all add: text_name_def ldr_name_def taken_for_code_def)
  have s: "sects_at demo_image 1224 ?ss"
    by (simp add: sect_mVirtualAddress_def sect_mSizeOfRawData_def sect_mPointerToRawData_def load32_def
        demo_image_reads at_mem_read l del: at_mem.simps)
  have lits: "literals_ok ?env 4096 demo_image"
    by (simp add: literals_ok_def demo_image_reads at_mem_read l del: at_mem.simps)
  have ok: "\<forall>s \<in> set ?ss. section_ok 1000 8192 4096 demo_image s" by (simp add: section_ok_def l)
  show ?thesis
    using pe_image_loaded [where env = ?env and blob = 1000 and m = demo_image and ss = ?ss and load = 8192 and
        alloc = "\<lambda>_ a. a" and sect = 1224 and low = 4096, OF _ _ _ _ _ _ _ _ _ s lits _ _ ok]
    by (simp add: demo_image_reads exec_mMachine_def exec_mSignature_def opt_mSubsystem_def
        exec_mNumberOfSections_def opt_mSizeOfImage_def opt_mImageBase_def opt_mBaseOfData_def
        exec_mSizeOfOptionalHeader_def opt_mAddressOfEntryPoint_def load16_def load32_def l
        del: One_nat_def) blast
qed

end
