(* ===== verification/Ahci.thy ===== *)
theory Ahci
  imports Pci RtUtils
begin

text \<open>
  The AHCI driver (\<^verbatim>\<open>HALKit/AMD64/Storage/SATA.cc\<close>, \<^verbatim>\<open>Mod/AHCI/AHCI.h\<close>), the disk driver of the
  desktop build. The controller's registers and the structures it reads by DMA are memory; what the
  controller does to memory is a function of the number of times the driver has polled it, applied at
  every poll of a waiting loop. Command headers, command tables and FISes are laid out as in
  \<^verbatim>\<open>AHCI.h\<close>; what the driver prints is left out.
\<close>

subsection \<open>Layout\<close>

named_theorems hba_layout \<open>offsets of registers and fields\<close>

definition HbaMem_Cap :: "nat \<Rightarrow> nat" where [hba_layout]: "HbaMem_Cap h = h"
definition HbaMem_Is :: "nat \<Rightarrow> nat" where [hba_layout]: "HbaMem_Is h = h + 0x08"
definition HbaMem_Pi :: "nat \<Rightarrow> nat" where [hba_layout]: "HbaMem_Pi h = h + 0x0C"
definition HbaMem_Ports :: "nat \<Rightarrow> nat \<Rightarrow> nat" where [hba_layout]: "HbaMem_Ports h i = h + 0x100 + 0x80 * i"

definition HbaPort_Clb :: "nat \<Rightarrow> nat" where [hba_layout]: "HbaPort_Clb p = p"
definition HbaPort_Clbu :: "nat \<Rightarrow> nat" where [hba_layout]: "HbaPort_Clbu p = p + 0x04"
definition HbaPort_Fb :: "nat \<Rightarrow> nat" where [hba_layout]: "HbaPort_Fb p = p + 0x08"
definition HbaPort_Fbu :: "nat \<Rightarrow> nat" where [hba_layout]: "HbaPort_Fbu p = p + 0x0C"
definition HbaPort_Is :: "nat \<Rightarrow> nat" where [hba_layout]: "HbaPort_Is p = p + 0x10"
definition HbaPort_Cmd :: "nat \<Rightarrow> nat" where [hba_layout]: "HbaPort_Cmd p = p + 0x18"
definition HbaPort_Tfd :: "nat \<Rightarrow> nat" where [hba_layout]: "HbaPort_Tfd p = p + 0x20"
definition HbaPort_Sig :: "nat \<Rightarrow> nat" where [hba_layout]: "HbaPort_Sig p = p + 0x24"
definition HbaPort_Ssts :: "nat \<Rightarrow> nat" where [hba_layout]: "HbaPort_Ssts p = p + 0x28"
definition HbaPort_Sact :: "nat \<Rightarrow> nat" where [hba_layout]: "HbaPort_Sact p = p + 0x34"
definition HbaPort_Ci :: "nat \<Rightarrow> nat" where [hba_layout]: "HbaPort_Ci p = p + 0x38"

definition sizeof_HbaCmdHeader :: nat where [hba_layout]: "sizeof_HbaCmdHeader = 32"
definition HbaCmdHeader_Prdtl :: "nat \<Rightarrow> nat" where [hba_layout]: "HbaCmdHeader_Prdtl c = c + 2"
definition HbaCmdHeader_Ctba :: "nat \<Rightarrow> nat" where [hba_layout]: "HbaCmdHeader_Ctba c = c + 8"
definition HbaCmdHeader_Ctbau :: "nat \<Rightarrow> nat" where [hba_layout]: "HbaCmdHeader_Ctbau c = c + 12"

definition HbaCmdTbl_PrdtEntries :: "nat \<Rightarrow> nat \<Rightarrow> nat" where [hba_layout]: "HbaCmdTbl_PrdtEntries t i = t + 128 + 16 * i"
definition HbaPrdtEntry_Dbau :: "nat \<Rightarrow> nat" where [hba_layout]: "HbaPrdtEntry_Dbau e = e + 4"
definition HbaPrdtEntry_Dw3 :: "nat \<Rightarrow> nat" where [hba_layout]: "HbaPrdtEntry_Dw3 e = e + 12"

definition sizeof_FisRegH2D :: nat where "sizeof_FisRegH2D = 20"
definition kFISTypeRegH2D :: u8 where "kFISTypeRegH2D = 0x27"
definition kAHCICmdIdentify :: u8 where "kAHCICmdIdentify = 0xEC"
definition kAHCICmdReadDmaEx :: u8 where "kAHCICmdReadDmaEx = 0x25"
definition kAHCICmdWriteDmaEx :: u8 where "kAHCICmdWriteDmaEx = 0x35"
definition kAHCISectorSize :: u64 where "kAHCISectorSize = 512"

definition kHBAPxCmdST :: u32 where "kHBAPxCmdST = 0x0001"
definition kHBAPxCmdFre :: u32 where "kHBAPxCmdFre = 0x0010"
definition kHBAPxCmdFR :: u32 where "kHBAPxCmdFR = 0x4000"
definition kHBAPxCmdCR :: u32 where "kHBAPxCmdCR = 0x8000"
definition kHBAErrTaskFile :: u32 where "kHBAErrTaskFile = push_bit 30 1"
definition kSataLBAMode :: u8 where "kSataLBAMode = push_bit 6 1"
definition kAhciSRBsy :: u32 where "kAhciSRBsy = 0x80"
definition kAhciSRDrq :: u32 where "kAhciSRDrq = 0x08"
definition kAhciPortCnt :: nat where "kAhciPortCnt = 32"
definition kSATAProgIfAHCI :: u8 where "kSATAProgIfAHCI = 0x01"
definition kSATASubClass :: u8 where "kSATASubClass = 0x06"
definition kSATABar5 :: u32 where "kSATABar5 = 0x24"
definition kSATASignature :: u32 where "kSATASignature = 0x00000101"
definition kAHCIBaseAddress :: u64 where "kAHCIBaseAddress = 4 * 1024 * 1024"

text \<open>A store to a bit-field of \<open>w\<close> bits that starts at bit \<open>lo\<close>.\<close>

definition put_bits :: "nat \<Rightarrow> nat \<Rightarrow> 'a::len word \<Rightarrow> 'a word \<Rightarrow> 'a word" where
  "put_bits lo w v x = (x AND NOT (push_bit lo (mask w))) OR push_bit lo (take_bit w v)"

subsection \<open>State\<close>

type_synonym hba_dev = "nat \<Rightarrow> mem \<Rightarrow> mem"

record ahci =
  am :: mem
  polls :: nat
  kSATAPort :: nat
  kSATAPortIdx :: nat
  kCurrentDiskSectorCount :: u64
  kPCIDevice :: PciDevice
  pci_bus :: iobus

definition poll :: "hba_dev \<Rightarrow> ahci \<Rightarrow> ahci" where
  "poll dev s = s\<lparr>am := dev (polls s) (am s), polls := Suc (polls s)\<rparr>"

definition port_at :: "ahci \<Rightarrow> nat" where
  "port_at s = HbaMem_Ports (kSATAPort s) (kSATAPortIdx s)"

abbreviation put32 :: "nat \<Rightarrow> u32 \<Rightarrow> ahci \<Rightarrow> ahci" where
  "put32 a v s \<equiv> s\<lparr>am := store32 a v (am s)\<rparr>"

abbreviation get32 :: "nat \<Rightarrow> ahci \<Rightarrow> u32" where
  "get32 a s \<equiv> load32 a (am s)"

subsection \<open>Issuing a command\<close>

fun find_slot_loop :: "nat \<Rightarrow> u32 \<Rightarrow> nat \<Rightarrow> int" where
  "find_slot_loop 0 slots i = -1"
| "find_slot_loop (Suc left) slots i =
     (if slots AND 1 = 0 then int i else find_slot_loop left (drop_bit 1 slots) (Suc i))"

definition drv_find_cmd_slot :: "nat \<Rightarrow> ahci \<Rightarrow> int" where
  "drv_find_cmd_slot port s =
     (if port = 0 then -1
      else find_slot_loop (unat (get32 (HbaMem_Cap (kSATAPort s)) s AND 0x1F) + 1)
             (get32 (HbaPort_Sact (port_at s)) s OR get32 (HbaPort_Ci (port_at s)) s) 0)"

definition set_command_header :: "bool \<Rightarrow> u64 \<Rightarrow> nat \<Rightarrow> mem \<Rightarrow> mem" where
  "set_command_header W size_buffer c m =
     (let m1 = store8 c (put_bits 0 5 (of_nat (sizeof_FisRegH2D div 4)) (m c)) m;
          m2 = store8 c (put_bits 6 1 (of_bool W) (m1 c)) m1
      in store16 (HbaCmdHeader_Prdtl c) (ucast (drop_bit 4 (size_buffer - 1)) + 1) m2)"

text \<open>
  The bound of the loop over the descriptors: one less than the 16-bit count, computed in \<^verbatim>\<open>int\<close> and
  compared as an unsigned 64-bit number, so a count of 0 gives the largest one.
\<close>

definition prdt_bound :: "nat \<Rightarrow> mem \<Rightarrow> nat" where
  "prdt_bound c m = (let l = load16 (HbaCmdHeader_Prdtl c) m in if l = 0 then 2 ^ 64 - 1 else unat l - 1)"

definition set_prdt_entry :: "nat \<Rightarrow> u64 \<Rightarrow> u64 \<Rightarrow> mem \<Rightarrow> mem" where
  "set_prdt_entry e buffer size_buffer m =
     (let m1 = store32 e (ucast buffer) m;
          m2 = store32 (HbaPrdtEntry_Dbau e) (ucast (drop_bit 32 buffer)) m1;
          m3 = store32 (HbaPrdtEntry_Dw3 e) (put_bits 0 22 (ucast (size_buffer - 1)) (load32 (HbaPrdtEntry_Dw3 e) m2)) m2
      in store32 (HbaPrdtEntry_Dw3 e) (put_bits 31 1 1 (load32 (HbaPrdtEntry_Dw3 e) m3)) m3)"

partial_function (option) prdt_loop :: "nat \<Rightarrow> nat \<Rightarrow> nat \<Rightarrow> u64 \<Rightarrow> u64 \<Rightarrow> mem \<Rightarrow> mem option" where
  "prdt_loop c t i buffer size_buffer m =
     (if i < prdt_bound c m
      then prdt_loop c t (Suc i) (buffer + 4096) (size_buffer - 16)
             (set_prdt_entry (HbaCmdTbl_PrdtEntries t i) buffer size_buffer m)
      else Some m)"

declare prdt_loop.simps [simp del]

definition set_fis :: "bool \<Rightarrow> bool \<Rightarrow> bool \<Rightarrow> u64 \<Rightarrow> u64 \<Rightarrow> nat \<Rightarrow> mem \<Rightarrow> mem" where
  "set_fis W C I lba sector_sz f m =
     (let m1 = store8 f kFISTypeRegH2D m;
          m2 = store8 (f + 1) (put_bits 7 1 (of_bool C) (m1 (f + 1))) m1;
          m3 = store8 (f + 2) (if W then kAHCICmdWriteDmaEx else kAHCICmdReadDmaEx) m2;
          m4 = (if I then store8 (f + 2) kAHCICmdIdentify m3 else m3);
          m5 = store8 (f + 4) (ucast lba) m4;
          m6 = store8 (f + 5) (ucast (drop_bit 8 lba)) m5;
          m7 = store8 (f + 6) (ucast (drop_bit 16 lba)) m6;
          m8 = store8 (f + 8) (ucast (drop_bit 24 lba)) m7;
          m9 = store8 (f + 7) kSataLBAMode m8;
          m10 = store8 (f + 12) (ucast (sector_sz AND 0xFF)) m9
      in store8 (f + 13) (ucast (drop_bit 8 sector_sz AND 0xFF)) m10)"

text \<open>The waiting loops; \<open>None\<close> is a controller that never gets ready.\<close>

partial_function (option) wait_clear :: "hba_dev \<Rightarrow> nat \<Rightarrow> u32 \<Rightarrow> ahci \<Rightarrow> ahci option" where
  "wait_clear dev a bits s =
     (let s1 = poll dev s in if get32 a s1 AND bits \<noteq> 0 then wait_clear dev a bits s1 else Some s1)"

declare wait_clear.simps [simp del]

partial_function (option) wait_done :: "hba_dev \<Rightarrow> nat \<Rightarrow> ahci \<Rightarrow> (fault + ahci) option" where
  "wait_done dev k s =
     (let s1 = poll dev s in
      if get32 (HbaPort_Ci (port_at s1)) s1 AND push_bit k 1 = 0 then Some (Inr s1)
      else let s2 = poll dev s1 in
        if get32 (HbaMem_Is (kSATAPort s2)) s2 AND kHBAErrTaskFile \<noteq> 0
        then Some (ke_panic RUNTIME_CHECK_BAD_BEHAVIOR)
        else wait_done dev k s2)"

declare wait_done.simps [simp del]

definition issue :: "hba_dev \<Rightarrow> nat \<Rightarrow> ahci \<Rightarrow> (fault + ahci) option" where
  "issue dev k s =
     (case wait_clear dev (HbaPort_Tfd (port_at s)) (kAhciSRBsy OR kAhciSRDrq) s of
        None \<Rightarrow> None
      | Some s1 \<Rightarrow>
         let s2 = put32 (HbaMem_Is (kSATAPort s1)) (-1) s1;
             ci = HbaPort_Ci (port_at s2);
             s3 = put32 ci (get32 ci s2 OR push_bit k 1) s2
         in wait_done dev k s3)"

text \<open>
  \<open>W\<close>, \<open>C\<close> and \<open>I\<close> are the template's arguments. The upper halves of addresses are added to the lower
  ones, as the code has it.
\<close>

definition drv_std_input_output ::
  "bool \<Rightarrow> hba_dev \<Rightarrow> bool \<Rightarrow> bool \<Rightarrow> bool \<Rightarrow> u64 \<Rightarrow> u64 \<Rightarrow> u64 \<Rightarrow> u64 \<Rightarrow> ahci \<Rightarrow> (fault + ahci) option" where
  "drv_std_input_output dbg dev W C I lba buffer sector_sz size_buffer s =
     (if \<not> C then Some (Inr s)
      else let s1 = put32 (HbaPort_Is (port_at s)) (-1) s;
               slt = drv_find_cmd_slot (port_at s1) s1 in
        if slt = -1 then Some (Inr s1)
        else let k = nat slt;
                 c = unat (get32 (HbaPort_Clb (port_at s1)) s1) + unat (get32 (HbaPort_Clbu (port_at s1)) s1)
                       + sizeof_HbaCmdHeader * k in
          case must_pass dbg (c \<noteq> 0) of Inl e \<Rightarrow> Some (Inl e) | Inr _ \<Rightarrow>
          let m2 = set_command_header W size_buffer c (am s1);
              t = unat (load32 (HbaCmdHeader_Ctba c) m2) + unat (load32 (HbaCmdHeader_Ctbau c) m2) in
          case must_pass dbg (t \<noteq> 0) of Inl e \<Rightarrow> Some (Inl e) | Inr _ \<Rightarrow>
          case prdt_loop c t 0 buffer size_buffer m2 of None \<Rightarrow> None | Some m3 \<Rightarrow>
          issue dev k (s1\<lparr>am := set_fis W C I lba sector_sz t m3\<rparr>))"

definition drv_std_write where
  "drv_std_write dbg dev lba buffer sector_sz size_buffer s =
     drv_std_input_output dbg dev True True False lba buffer sector_sz size_buffer s"

definition drv_std_read where
  "drv_std_read dbg dev lba buffer sector_sz size_buffer s =
     drv_std_input_output dbg dev False True False lba buffer sector_sz size_buffer s"

definition drv_get_sector_count :: "ahci \<Rightarrow> u64" where
  "drv_get_sector_count s = kCurrentDiskSectorCount s"

definition drv_get_size :: "ahci \<Rightarrow> u64" where
  "drv_get_size s = drv_get_sector_count s * kAHCISectorSize"

definition drv_std_detected :: "ahci \<Rightarrow> bool \<times> ahci" where
  "drv_std_detected s =
     (case PciDevice_DeviceId (kPCIDevice s) (pci_bus s) of (v, b) \<Rightarrow> (v \<noteq> 0xFFFF, s\<lparr>pci_bus := b\<rparr>))"

subsection \<open>Start-up\<close>

text \<open>
  The buffer for the identification is on the stack, at \<open>stack\<close>, 4 KiB of zeros; the size given is
  8 KiB. The sector count is taken from two bytes of it.
\<close>

definition drv_calculate_disk_geometry :: "bool \<Rightarrow> hba_dev \<Rightarrow> u64 \<Rightarrow> ahci \<Rightarrow> (fault + ahci) option" where
  "drv_calculate_disk_geometry dbg dev stack s =
     (let s1 = s\<lparr>kCurrentDiskSectorCount := 0, am := write_bytes (unat stack) (replicate 4096 0) (am s)\<rparr> in
      case drv_std_input_output dbg dev False True True 0 stack 0 8192 s1 of
        None \<Rightarrow> None
      | Some (Inl e) \<Rightarrow> Some (Inl e)
      | Some (Inr s2) \<Rightarrow>
          Some (Inr (s2\<lparr>kCurrentDiskSectorCount :=
            push_bit 16 (ucast (am s2 (unat stack + 61))) OR ucast (am s2 (unat stack + 60))\<rparr>)))"

partial_function (option) wait_stopped :: "hba_dev \<Rightarrow> ahci \<Rightarrow> ahci option" where
  "wait_stopped dev s =
     (let s1 = poll dev s in
      if get32 (HbaPort_Cmd (port_at s1)) s1 AND kHBAPxCmdFR \<noteq> 0 then wait_stopped dev s1
      else let s2 = poll dev s1 in
        if get32 (HbaPort_Cmd (port_at s2)) s2 AND kHBAPxCmdCR \<noteq> 0 then wait_stopped dev s2
        else Some s2)"

declare wait_stopped.simps [simp del]

definition table_address :: "nat \<Rightarrow> nat \<Rightarrow> u32" where
  "table_address idx i = ucast (kAHCIBaseAddress + push_bit 10 40 + push_bit 13 (of_nat idx) + of_nat (i * 256))"

fun header_loop :: "nat \<Rightarrow> nat \<Rightarrow> nat \<Rightarrow> nat \<Rightarrow> mem \<Rightarrow> mem" where
  "header_loop idx clb 0 i m = m"
| "header_loop idx clb (Suc left) i m =
     (let c = clb + sizeof_HbaCmdHeader * i;
          m1 = store16 (HbaCmdHeader_Prdtl c) 8 m;
          m2 = store32 (HbaCmdHeader_Ctba c) (table_address idx i) m1;
          m3 = store32 (HbaCmdHeader_Ctbau c) 0 m2;
          m4 = snd (rt_set_memory (unat (load32 (HbaCmdHeader_Ctba c) m3)) 0 256 m3)
      in header_loop idx clb left (Suc i) m4)"

definition clear_cmd :: "u32 \<Rightarrow> ahci \<Rightarrow> ahci" where
  "clear_cmd bits s = put32 (HbaPort_Cmd (port_at s)) (get32 (HbaPort_Cmd (port_at s)) s AND NOT bits) s"

definition set_cmd :: "u32 \<Rightarrow> ahci \<Rightarrow> ahci" where
  "set_cmd bits s = put32 (HbaPort_Cmd (port_at s)) (get32 (HbaPort_Cmd (port_at s)) s OR bits) s"

definition port_structures :: "ahci \<Rightarrow> ahci" where
  "port_structures s =
     (let p = port_at s; idx = kSATAPortIdx s;
          s1 = put32 (HbaPort_Clb p) (ucast (kAHCIBaseAddress + push_bit 10 (of_nat idx))) s;
          s2 = put32 (HbaPort_Clbu p) 0 s1;
          s3 = s2\<lparr>am := snd (rt_set_memory (unat (get32 (HbaPort_Clb p) s2)) 0 1024 (am s2))\<rparr>;
          s4 = put32 (HbaPort_Fb p) (ucast (kAHCIBaseAddress + push_bit 10 32 + push_bit 8 (of_nat idx))) s3;
          s5 = put32 (HbaPort_Fbu p) 0 s4;
          s6 = s5\<lparr>am := snd (rt_set_memory (unat (get32 (HbaPort_Fb p) s5)) 0 256 (am s5))\<rparr>
      in s6\<lparr>am := header_loop idx (unat (get32 (HbaPort_Clb p) s6)) 32 0 (am s6)\<rparr>)"

definition start_port :: "bool \<Rightarrow> hba_dev \<Rightarrow> u64 \<Rightarrow> ahci \<Rightarrow> (fault + ahci) option" where
  "start_port dbg dev stack s =
     (let s1 = clear_cmd kHBAPxCmdFre (clear_cmd kHBAPxCmdST s) in
      case wait_stopped dev s1 of None \<Rightarrow> None | Some s2 \<Rightarrow>
      let s3 = port_structures s2 in
      case wait_clear dev (HbaPort_Cmd (port_at s3)) kHBAPxCmdCR s3 of None \<Rightarrow> None | Some s4 \<Rightarrow>
      drv_calculate_disk_geometry dbg dev stack (set_cmd kHBAPxCmdST (set_cmd kHBAPxCmdFre s4)))"

text \<open>The search for a port; the bits of the ports present are shifted out, and any one left lets a port through.\<close>

definition port_is_sata :: "nat \<Rightarrow> ahci \<Rightarrow> bool" where
  "port_is_sata p s \<longleftrightarrow>
     get32 (HbaPort_Sig p) s = kSATASignature \<and> get32 (HbaPort_Ssts p) s AND 0x0F = 3 \<and>
     drop_bit 8 (get32 (HbaPort_Ssts p) s) AND 0x0F = 1"

fun port_loop :: "bool \<Rightarrow> hba_dev \<Rightarrow> u64 \<Rightarrow> nat \<Rightarrow> nat \<Rightarrow> nat \<Rightarrow> u32 \<Rightarrow> ahci \<Rightarrow> (fault + bool \<times> ahci) option" where
  "port_loop dbg dev stack hba 0 idx impl s = Some (Inr (False, s))"
| "port_loop dbg dev stack hba (Suc left) idx impl s =
     (if impl \<noteq> 0 \<and> port_is_sata (HbaMem_Ports hba idx) s
      then (case start_port dbg dev stack (s\<lparr>kSATAPortIdx := idx, kSATAPort := hba\<rparr>) of
              None \<Rightarrow> None
            | Some (Inl e) \<Rightarrow> Some (Inl e)
            | Some (Inr s') \<Rightarrow> Some (Inr (True, s')))
      else port_loop dbg dev stack hba left (Suc idx) (drop_bit 1 impl) s)"

definition is_ahci :: "PciDevice \<Rightarrow> iobus \<Rightarrow> bool \<times> iobus" where
  "is_ahci d b =
     (case PciDevice_Subclass d b of (sub, b1) \<Rightarrow>
        if sub = kSATASubClass then
          (case PciDevice_ProgIf d b1 of (prog, b2) \<Rightarrow> (prog = kSATAProgIfAHCI, b2))
        else (False, b1))"

fun device_loop :: "bool \<Rightarrow> hba_dev \<Rightarrow> u64 \<Rightarrow> PciDevice list \<Rightarrow> ahci \<Rightarrow> (fault + bool \<times> ahci) option" where
  "device_loop dbg dev stack [] s = Some (Inr (False, s))"
| "device_loop dbg dev stack (d # ds) s =
     (case is_ahci d (pci_bus s) of (yes, b1) \<Rightarrow>
        if yes then
          (let b2 = PciDevice_BecomeBusMaster kSATABar5 d (PciDevice_EnableMmio kSATABar5 d b1) in
           case PciDevice_Bar kSATABar5 d b2 of (bar, b3) \<Rightarrow>
             let s1 = s\<lparr>kPCIDevice := d, pci_bus := b3\<rparr> in
             port_loop dbg dev stack (unat bar) kAhciPortCnt 0 (get32 (HbaMem_Pi (unat bar)) s1) s1)
        else device_loop dbg dev stack ds (s\<lparr>kPCIDevice := d, pci_bus := b1\<rparr>))"

text \<open>The number of ports the caller gives is not used. The iterator holds one device for every bus.\<close>

definition drv_std_init ::
  "bool \<Rightarrow> hba_dev \<Rightarrow> u64 \<Rightarrow> PciDevice list \<Rightarrow> u16 \<Rightarrow> ahci \<Rightarrow> (fault + bool \<times> ahci) option" where
  "drv_std_init dbg dev stack before PortsImplemented s =
     (case PciIterator_new MassStorageController before (pci_bus s) of (ds, b) \<Rightarrow>
        device_loop dbg dev stack ds (s\<lparr>pci_bus := b\<rparr>))"

subsection \<open>Bit-fields and slots\<close>

lemma bit_put_bits:
  "bit (put_bits lo w v x) n \<longleftrightarrow>
    (if lo \<le> n \<and> n < lo + w then bit v (n - lo) \<and> n < LENGTH('a) else bit x n)"
  for v x :: "'a::len word"
  by (auto simp: put_bits_def bit_simps not_less dest: bit_imp_le_length)

lemma take_bit_put_bits_low: "w \<le> lo \<Longrightarrow> take_bit w (put_bits lo n v x) = take_bit w x"
  for v x :: "'a::len word"
  by (rule bit_word_eqI) (auto simp: bit_simps bit_put_bits)

lemma take_bit_put_bits_same: "take_bit w (put_bits 0 w v x) = take_bit w v"
  for v x :: "'a::len word"
  by (rule bit_word_eqI) (auto simp: bit_simps bit_put_bits)

lemma find_map: "find P (map f xs) = map_option f (find (P \<circ> f) xs)"
  by (induction xs) auto

lemma find_slot_loop_spec:
  "find_slot_loop n slots i = (case find (\<lambda>j. \<not> bit slots j) [0..<n] of None \<Rightarrow> -1 | Some j \<Rightarrow> int (i + j))"
proof (induction n arbitrary: slots i)
  case 0
  then show ?case by simp
next
  case (Suc n)
  have "[0..<Suc n] = 0 # map Suc [0..<n]" by (simp add: upt_conv_Cons map_Suc_upt del: upt_Suc)
  moreover have "slots AND 1 = 0 \<longleftrightarrow> \<not> bit slots 0" by (simp add: and_one_eq bit_0 even_iff_mod_2_eq_zero)
  moreover have "(\<lambda>j. \<not> bit (drop_bit 1 slots) j) = (\<lambda>j. \<not> bit slots j) \<circ> Suc"
    by (simp add: fun_eq_iff bit_simps)
  ultimately show ?case using Suc [of "drop_bit 1 slots" "Suc i"]
    by (simp add: find_map option.case_eq_if option.map_sel del: upt_Suc)
qed

lemma find_first:
  assumes "k < n" and "\<not> P k" and "\<And>j. j < k \<Longrightarrow> P j"
  shows "find (\<lambda>j. \<not> P j) [0..<n] = Some k"
  using assms by (auto simp: find_Some_iff intro!: exI [of _ k])

subsection \<open>Descriptors\<close>

text \<open>What the controller reads from a descriptor: an address and a number of bytes.\<close>

definition prdt_entry :: "nat \<Rightarrow> mem \<Rightarrow> nat \<times> nat" where
  "prdt_entry e m =
     (unat (load32 e m) + 2 ^ 32 * unat (load32 (HbaPrdtEntry_Dbau e) m),
      unat (take_bit 22 (load32 (HbaPrdtEntry_Dw3 e) m)) + 1)"

lemma load32_frame: "(\<And>j. a \<le> j \<Longrightarrow> j < a + 4 \<Longrightarrow> m' j = m j) \<Longrightarrow> load32 a m' = load32 a m"
  by (auto simp: load32_def read_bytes_def intro!: arg_cong [of _ _ dec32])

lemma load16_frame: "(\<And>j. a \<le> j \<Longrightarrow> j < a + 2 \<Longrightarrow> m' j = m j) \<Longrightarrow> load16 a m' = load16 a m"
  by (auto simp: load16_def read_bytes_def intro!: arg_cong [of _ _ dec16])

lemma set_prdt_entry_frame: "j < e \<or> e + 16 \<le> j \<Longrightarrow> set_prdt_entry e b z m j = m j"
  by (auto simp: set_prdt_entry_def Let_def store_simps hba_layout)

lemma prdt_entry_frame: "(\<And>j. e \<le> j \<Longrightarrow> j < e + 16 \<Longrightarrow> m' j = m j) \<Longrightarrow> prdt_entry e m' = prdt_entry e m"
  unfolding prdt_entry_def hba_layout by (simp add: load32_frame [of _ m' m])

lemma unat_split_32: "unat (ucast b :: u32) + 2 ^ 32 * unat (ucast (drop_bit 32 b) :: u32) = unat (b :: u64)"
proof -
  have "unat b div 2 ^ 32 < 2 ^ 32" using unsigned_less [of b, where ?'a = nat] by (simp add: less_mult_imp_div_less)
  then show ?thesis
    by (simp add: unsigned_ucast_eq take_bit_nat_def unsigned_drop_bit_eq drop_bit_nat_def)
qed

lemma prdt_entry_set:
  "prdt_entry e (set_prdt_entry e b z m) = (unat b, unat (take_bit 22 (z - 1)) + 1)"
proof -
  have "unat (take_bit 22 (ucast (z - 1) :: u32)) = unat (take_bit 22 (z - 1))"
    by (simp add: unsigned_take_bit_eq unsigned_ucast_eq)
  moreover have "load32 (e + 4) (set_prdt_entry e b z m) = ucast (drop_bit 32 b)"
    "load32 e (set_prdt_entry e b z m) = ucast b"
    "load32 (e + 12) (set_prdt_entry e b z m) =
       put_bits 31 1 1 (put_bits 0 22 (ucast (z - 1)) (load32 (e + 12) (store32 (e + 4) (ucast (drop_bit 32 b)) (store32 e (ucast b) m))))"
    by (simp_all add: set_prdt_entry_def Let_def hba_layout store_simps disjoint_ext_def)
  ultimately show ?thesis using unat_split_32 [of b]
    by (simp add: prdt_entry_def hba_layout take_bit_put_bits_low take_bit_put_bits_same)
qed

fun prdt_fill :: "nat \<Rightarrow> nat \<Rightarrow> nat \<Rightarrow> u64 \<Rightarrow> u64 \<Rightarrow> mem \<Rightarrow> mem" where
  "prdt_fill t i 0 buffer z m = m"
| "prdt_fill t i (Suc n) buffer z m =
     prdt_fill t (Suc i) n (buffer + 4096) (z - 16) (set_prdt_entry (HbaCmdTbl_PrdtEntries t i) buffer z m)"

lemma prdt_fill_frame:
  "j < t + 128 + 16 * i \<or> t + 128 + 16 * (i + n) \<le> j \<Longrightarrow> prdt_fill t i n buffer z m j = m j"
  by (induction n arbitrary: i buffer z m) (auto simp: set_prdt_entry_frame HbaCmdTbl_PrdtEntries_def)

lemma prdt_fill_entries:
  "k < n \<Longrightarrow> prdt_entry (HbaCmdTbl_PrdtEntries t (i + k)) (prdt_fill t i n buffer z m) =
     (unat (buffer + 4096 * of_nat k), unat (take_bit 22 (z - 16 * of_nat k - 1)) + 1)"
proof (induction n arbitrary: i k buffer z m)
  case 0
  then show ?case by simp
next
  case (Suc n)
  show ?case
  proof (cases k)
    case 0
    have "prdt_entry (HbaCmdTbl_PrdtEntries t i) (prdt_fill t i (Suc n) buffer z m) =
      prdt_entry (HbaCmdTbl_PrdtEntries t i) (set_prdt_entry (HbaCmdTbl_PrdtEntries t i) buffer z m)"
      by (auto intro!: prdt_entry_frame simp: prdt_fill_frame HbaCmdTbl_PrdtEntries_def)
    then show ?thesis using 0 by (simp add: prdt_entry_set)
  next
    case (Suc l)
    then show ?thesis using Suc.IH [of l "Suc i" "buffer + 4096" "z - 16"] Suc.prems
      by (simp add: algebra_simps)
  qed
qed

lemma prdt_loop_fill:
  assumes "c + 4 \<le> t + 128 \<or> t + 128 + 16 * prdt_bound c m \<le> c" and "i \<le> prdt_bound c m"
  shows "prdt_loop c t i buffer z m = Some (prdt_fill t i (prdt_bound c m - i) buffer z m)"
  using assms
proof (induction "prdt_bound c m - i" arbitrary: i buffer z m)
  case 0
  then show ?case by (subst prdt_loop.simps) simp
next
  case (Suc d)
  let ?m = "set_prdt_entry (HbaCmdTbl_PrdtEntries t i) buffer z m"
  from Suc.hyps(2) Suc.prems have "t + 128 + 16 * i + 16 \<le> t + 128 + 16 * prdt_bound c m" by simp
  with Suc.prems(1) have "prdt_bound c ?m = prdt_bound c m" unfolding prdt_bound_def
    by (subst load16_frame [of _ ?m m]) (auto simp: set_prdt_entry_frame hba_layout)
  moreover have "prdt_bound c m - i = Suc (prdt_bound c m - Suc i)" "i < prdt_bound c m" using Suc.hyps(2) by simp_all
  ultimately show ?case
    using Suc.hyps(1) [of ?m "Suc i"] Suc.hyps(2) Suc.prems by (subst prdt_loop.simps) simp
qed

subsection \<open>Commands\<close>

text \<open>
  A command as the controller reads it from the memory: the header of a slot, the FIS at the start of the
  command table, and the descriptors.
\<close>

record hba_request =
  r_write :: bool
  r_command :: u8
  r_lba :: nat
  r_sectors :: nat
  r_prdt :: "(nat \<times> nat) list"

definition read_request :: "nat \<Rightarrow> nat \<Rightarrow> mem \<Rightarrow> hba_request" where
  "read_request c t m =
     \<lparr>r_write = bit (m c) 6,
      r_command = m (t + 2),
      r_lba = le_nat [m (t + 4), m (t + 5), m (t + 6), m (t + 8), m (t + 9), m (t + 10)],
      r_sectors = le_nat [m (t + 12), m (t + 13)],
      r_prdt = map (\<lambda>i. prdt_entry (HbaCmdTbl_PrdtEntries t i) m) [0..<unat (load16 (HbaCmdHeader_Prdtl c) m)]\<rparr>"

lemma set_command_header_frame: "j < c \<or> c + 4 \<le> j \<Longrightarrow> set_command_header W z c m j = m j"
  by (auto simp: set_command_header_def Let_def store_simps hba_layout)

lemma set_command_header_fields:
  "load16 (HbaCmdHeader_Prdtl c) (set_command_header W z c m) = ucast (drop_bit 4 (z - 1)) + 1"
  "bit (set_command_header W z c m c) 6 \<longleftrightarrow> W"
  by (simp_all add: set_command_header_def Let_def store_simps hba_layout bit_put_bits bit_simps)

lemma set_fis_frame: "j < t \<or> t + 20 \<le> j \<Longrightarrow> set_fis W C I lba sz t m j = m j"
  by (auto simp: set_fis_def Let_def store8_def)

lemma set_fis_bytes:
  "set_fis W C I lba sz t m (t + 2) =
     (if I then kAHCICmdIdentify else if W then kAHCICmdWriteDmaEx else kAHCICmdReadDmaEx)"
  "set_fis W C I lba sz t m (t + 4) = ucast lba"
  "set_fis W C I lba sz t m (t + 5) = ucast (drop_bit 8 lba)"
  "set_fis W C I lba sz t m (t + 6) = ucast (drop_bit 16 lba)"
  "set_fis W C I lba sz t m (t + 8) = ucast (drop_bit 24 lba)"
  "set_fis W C I lba sz t m (t + 9) = m (t + 9)"
  "set_fis W C I lba sz t m (t + 10) = m (t + 10)"
  "set_fis W C I lba sz t m (t + 12) = ucast (sz AND 0xFF)"
  "set_fis W C I lba sz t m (t + 13) = ucast (drop_bit 8 sz AND 0xFF)"
  by (simp_all add: set_fis_def Let_def store8_def)

lemma unat_byte: "unat (ucast (drop_bit n w) :: u8) = unat w div 2 ^ n mod 256" for w :: u64
  using unsigned_less [of w, where ?'a = nat]
  by (simp add: unsigned_ucast_eq unsigned_drop_bit_eq drop_bit_nat_def take_bit_nat_def)

lemma le_nat_lba:
  "le_nat [ucast lba, ucast (drop_bit 8 lba), ucast (drop_bit 16 lba), ucast (drop_bit 24 lba), x, y] =
     unat (lba :: u64) mod 2 ^ 32 + 2 ^ 32 * (unat x + 256 * unat y)"
proof -
  have "n mod 2 ^ 32 = n mod 256 + 256 * (n div 2 ^ 8 mod 256) + 65536 * (n div 2 ^ 16 mod 256) +
      16777216 * (n div 2 ^ 24 mod 256)" for n :: nat
    using mod_mult2_eq [of n 256 16777216] mod_mult2_eq [of "n div 256" 256 65536]
      mod_mult2_eq [of "n div 65536" 256 256]
    by (simp add: div_mult2_eq [symmetric])
  then show ?thesis using unat_byte [of 0 lba] unat_byte [of 8 lba] unat_byte [of 16 lba] unat_byte [of 24 lba]
    by simp
qed

lemma le_nat_sectors:
  "le_nat [ucast (sz AND 0xFF), ucast (drop_bit 8 sz AND 0xFF)] = unat (sz :: u64) mod 2 ^ 16"
proof -
  have a: "ucast (w AND 0xFF) = (ucast w :: u8)" for w :: u64
  proof -
    have "w AND 0xFF = take_bit 8 w" by (simp add: take_bit_eq_mask mask_eq_exp_minus_1)
    then show ?thesis by (auto intro!: bit_word_eqI simp: bit_simps)
  qed
  have "n mod 2 ^ 16 = n mod 256 + 256 * (n div 2 ^ 8 mod 256)" for n :: nat
    using mod_mult2_eq [of n 256 256] by simp
  then show ?thesis using unat_byte [of 0 sz] unat_byte [of 8 sz] by (simp add: a)
qed

subsection \<open>Waiting\<close>

fun dev_run :: "hba_dev \<Rightarrow> nat \<Rightarrow> nat \<Rightarrow> mem \<Rightarrow> mem" where
  "dev_run dev p 0 m = m"
| "dev_run dev p (Suc j) m = dev_run dev (Suc p) j (dev p m)"

text \<open>
  From the time of poll \<open>p\<close> on, the controller has the slot's bit set for \<open>j\<close> rounds of the waiting loop,
  without the error bit the driver looks at, and clears it then.
\<close>

definition completes :: "hba_dev \<Rightarrow> nat \<Rightarrow> nat \<Rightarrow> nat \<Rightarrow> nat \<Rightarrow> nat \<Rightarrow> mem \<Rightarrow> bool" where
  "completes dev h port k p j m \<longleftrightarrow>
     (\<forall>i < j. bit (load32 (HbaPort_Ci port) (dev_run dev p (2 * i + 1) m)) k \<and>
        \<not> bit (load32 (HbaMem_Is h) (dev_run dev p (2 * i + 2) m)) 30) \<and>
     \<not> bit (load32 (HbaPort_Ci port) (dev_run dev p (2 * j + 1) m)) k"

lemma and_exp_eq_0: "w AND 2 ^ k = 0 \<longleftrightarrow> \<not> bit w k" for w :: u32
proof
  assume "w AND 2 ^ k = 0"
  then have "bit (w AND 2 ^ k) k = bit (0 :: u32) k" by simp
  then show "\<not> bit w k" by (auto simp: bit_simps dest: bit_imp_le_length)
next
  assume "\<not> bit w k"
  then show "w AND 2 ^ k = 0" by (intro bit_word_eqI) (auto simp: bit_simps)
qed

lemma wait_done_completes:
  assumes "completes dev (kSATAPort s) (port_at s) k (polls s) j (am s)"
  shows "wait_done dev k s =
    Some (Inr (s\<lparr>am := dev_run dev (polls s) (2 * j + 1) (am s), polls := polls s + 2 * j + 1\<rparr>))"
  using assms
proof (induction j arbitrary: s)
  case 0
  then show ?case by (subst wait_done.simps)
    (simp add: completes_def poll_def Let_def and_exp_eq_0 port_at_def)
next
  case (Suc j)
  let ?s2 = "poll dev (poll dev s)"
  from Suc.prems have "completes dev (kSATAPort ?s2) (port_at ?s2) k (polls ?s2) j (am ?s2)"
    by (auto simp: completes_def poll_def port_at_def dest!: spec [of _ "Suc _"])
  note IH = Suc.IH [OF this]
  have "bit (load32 (HbaPort_Ci (port_at s)) (dev (polls s) (am s))) k"
    "\<not> bit (load32 (HbaMem_Is (kSATAPort s)) (am ?s2)) 30"
    using Suc.prems by (auto simp: completes_def poll_def dest!: spec [of _ 0])
  with IH show ?case by (subst wait_done.simps)
    (simp add: poll_def Let_def and_exp_eq_0 [of _ 30, simplified] and_exp_eq_0 port_at_def kHBAErrTaskFile_def)
qed

subsection \<open>A whole command\<close>

text \<open>The places the driver uses for a command of \<open>n\<close> descriptors do not overlap.\<close>

definition apart :: "nat \<Rightarrow> nat \<Rightarrow> nat \<Rightarrow> nat \<Rightarrow> bool" where
  "apart h c t n \<longleftrightarrow> disjoint_ext h 0x1100 c 32 \<and> disjoint_ext h 0x1100 t (128 + 16 * n) \<and>
     disjoint_ext c 32 t (128 + 16 * n)"

definition written :: "nat \<Rightarrow> nat \<Rightarrow> nat \<Rightarrow> nat \<Rightarrow> bool" where
  "written c t n j \<longleftrightarrow> c \<le> j \<and> j < c + 4 \<or> t \<le> j \<and> j < t + 20 \<or> t + 128 \<le> j \<and> j < t + 128 + 16 * n"

text \<open>The memory with the command written, before it is issued.\<close>

definition command_memory :: "bool \<Rightarrow> bool \<Rightarrow> u64 \<Rightarrow> u64 \<Rightarrow> u64 \<Rightarrow> u64 \<Rightarrow> nat \<Rightarrow> nat \<Rightarrow> mem \<Rightarrow> mem" where
  "command_memory W I lba buffer sz z c t m =
     set_fis W True I lba sz t (prdt_fill t 0 ((unat z - 1) div 16) buffer z (set_command_header W z c m))"

lemma command_memory_frame:
  "\<not> written c t ((unat z - 1) div 16) j \<Longrightarrow> command_memory W I lba buffer sz z c t m j = m j"
  unfolding written_def command_memory_def
  by (subst set_fis_frame, force, subst prdt_fill_frame, force, subst set_command_header_frame) auto

lemma prdtl_value:
  fixes z :: u64
  assumes "0 < z" and "unat z \<le> 0xFFFF0"
  shows "unat (ucast (drop_bit 4 (z - 1)) + 1 :: u16) = (unat z - 1) div 16 + 1"
proof -
  have u: "unat (z - 1) = unat z - 1" using assms(1) by (simp add: unat_sub word_le_nat_alt word_less_nat_alt Suc_le_eq)
  have "(unat z - 1) div 16 < 2 ^ 16 - 1" using assms(2) by simp
  moreover from this have "unat (ucast (drop_bit 4 (z - 1)) :: u16) = (unat z - 1) div 16"
    by (simp add: unsigned_ucast_eq unsigned_drop_bit_eq drop_bit_nat_def u take_bit_nat_eq_self)
  moreover from this have "ucast (drop_bit 4 (z - 1)) + 1 = (of_nat ((unat z - 1) div 16 + 1) :: u16)"
    by (metis of_nat_1 of_nat_add of_nat_unat_eq)
  ultimately show ?thesis by (simp add: unsigned_of_nat take_bit_nat_eq_self del: of_nat_Suc)
qed

lemma command_entries:
  assumes "unat z \<le> 0xFFFF0" and "unat buffer < 2 ^ 63" and "k < (unat z - 1) div 16"
    and "disjoint_ext c 32 t (128 + 16 * Suc ((unat z - 1) div 16))"
  shows "prdt_entry (HbaCmdTbl_PrdtEntries t k) (command_memory W I lba buffer sz z c t m) =
    (unat buffer + 4096 * k, unat z - 16 * k)"
proof -
  let ?n = "(unat z - 1) div 16"
  have k: "16 * k + 16 \<le> unat z - 1" "k < 65536" using assms(1,3) by auto
  have "prdt_entry (HbaCmdTbl_PrdtEntries t k) (command_memory W I lba buffer sz z c t m) =
    prdt_entry (HbaCmdTbl_PrdtEntries t k) (prdt_fill t 0 ?n buffer z (set_command_header W z c m))"
    unfolding command_memory_def by (rule prdt_entry_frame) (auto simp: set_fis_frame HbaCmdTbl_PrdtEntries_def)
  also have "\<dots> = (unat (buffer + 4096 * of_nat k), unat (take_bit 22 (z - 16 * of_nat k - 1)) + 1)"
    using prdt_fill_entries [of k ?n t 0] assms(3) by simp
  also have "unat (buffer + 4096 * of_nat k) = unat buffer + 4096 * k"
  proof -
    have "buffer + 4096 * of_nat k = of_nat (unat buffer + 4096 * k)" by simp
    then show ?thesis using assms(2) k(2) unat_of_nat64_less [of "unat buffer + 4096 * k"] by (simp del: of_nat_add)
  qed
  also have "unat (take_bit 22 (z - 16 * of_nat k - 1)) + 1 = unat z - 16 * k"
  proof -
    have "z - 16 * of_nat k - 1 = z - of_nat (16 * k + 1)" by (simp add: algebra_simps)
    moreover have "unat (of_nat (16 * k + 1) :: u64) = 16 * k + 1" using k(2) by (intro unat_of_nat64_less) simp
    moreover from this have "of_nat (16 * k + 1) \<le> z" using k(1) by (simp add: word_le_nat_alt del: of_nat_Suc of_nat_add)
    ultimately have "unat (z - 16 * of_nat k - 1) = unat z - (16 * k + 1)" using unat_sub by metis
    then show ?thesis using assms(1) k(1)
      by (simp add: unsigned_take_bit_eq take_bit_nat_eq_self)
  qed
  finally show ?thesis .
qed

lemma command_request:
  assumes "0 < z" and "unat z \<le> 0xFFFF0" and "unat buffer < 2 ^ 63" and n: "n = (unat z - 1) div 16"
    and d: "disjoint_ext c 32 t (128 + 16 * Suc n)"
  shows "read_request c t (command_memory W I lba buffer sz z c t m) =
    \<lparr>r_write = W,
     r_command = (if I then kAHCICmdIdentify else if W then kAHCICmdWriteDmaEx else kAHCICmdReadDmaEx),
     r_lba = unat lba mod 2 ^ 32 + 2 ^ 32 * (unat (m (t + 9)) + 256 * unat (m (t + 10))),
     r_sectors = unat sz mod 2 ^ 16,
     r_prdt = map (\<lambda>i. (unat buffer + 4096 * i, unat z - 16 * i)) [0..<n] @
       [prdt_entry (HbaCmdTbl_PrdtEntries t n) m]\<rparr>"
proof -
  let ?m = "command_memory W I lba buffer sz z c t m"
  let ?h = "set_command_header W z c m"
  have hdr: "?m j = ?h j" if "c \<le> j" "j < c + 4" for j
    using that d by (auto simp: command_memory_def n disjoint_ext_def set_fis_frame prdt_fill_frame)
  have old: "?m j = m j" if "\<not> written c t n j" for j
    using command_memory_frame [of c t z j] that by (simp add: n)
  have "bit (?m c) 6 = W" using hdr [of c] set_command_header_fields(2) [of W z c m] by simp
  moreover have "unat (load16 (HbaCmdHeader_Prdtl c) ?m) = Suc n"
  proof -
    have "load16 (HbaCmdHeader_Prdtl c) ?m = load16 (HbaCmdHeader_Prdtl c) ?h"
      by (intro load16_frame hdr) (simp_all add: hba_layout)
    then show ?thesis using prdtl_value [OF assms(1,2)] by (simp add: set_command_header_fields n)
  qed
  moreover have "prdt_entry (HbaCmdTbl_PrdtEntries t n) ?m = prdt_entry (HbaCmdTbl_PrdtEntries t n) m"
    using d by (intro prdt_entry_frame old) (auto simp: written_def HbaCmdTbl_PrdtEntries_def disjoint_ext_def)
  moreover have "?m (t + 9) = m (t + 9)" "?m (t + 10) = m (t + 10)"
    using d by (auto simp: command_memory_def set_fis_bytes prdt_fill_frame disjoint_ext_def set_command_header_frame)
  moreover have "map (\<lambda>i. prdt_entry (HbaCmdTbl_PrdtEntries t i) ?m) [0..<n] =
      map (\<lambda>i. (unat buffer + 4096 * i, unat z - 16 * i)) [0..<n]"
    using command_entries [of z buffer] assms by simp
  moreover have m: "?m = set_fis W True I lba sz t (prdt_fill t 0 n buffer z ?h)" by (simp add: command_memory_def n)
  ultimately show ?thesis
    using set_fis_bytes [of W True I lba sz t "prdt_fill t 0 n buffer z ?h", folded m]
      le_nat_lba [of lba] le_nat_sectors [of sz]
    by (simp add: read_request_def del: le_nat.simps)
qed

lemma read_request_frame:
  assumes l: "unat (load16 (HbaCmdHeader_Prdtl c) m) = l"
    and eq: "\<And>a. c \<le> a \<and> a < c + 32 \<or> t \<le> a \<and> a < t + 128 + 16 * l \<Longrightarrow> m' a = m a"
  shows "read_request c t m' = read_request c t m"
proof -
  have "load16 (HbaCmdHeader_Prdtl c) m' = load16 (HbaCmdHeader_Prdtl c) m"
    by (intro load16_frame eq) (auto simp: hba_layout)
  moreover have "prdt_entry (HbaCmdTbl_PrdtEntries t i) m' = prdt_entry (HbaCmdTbl_PrdtEntries t i) m" if "i < l" for i
    using that by (intro prdt_entry_frame eq) (auto simp: hba_layout)
  ultimately show ?thesis using l by (simp add: read_request_def eq cong: map_cong)
qed

lemma regs_frame:
  assumes "kSATAPortIdx s < 32" and "a < kSATAPort s \<or> kSATAPort s + 0x1100 \<le> a"
  shows "store32 (HbaPort_Is (port_at s)) v m a = m a" "store32 (HbaPort_Ci (port_at s)) v m a = m a"
    "store32 (HbaMem_Is (kSATAPort s)) v m a = m a"
  using assms by (auto simp: hba_layout port_at_def store_simps)

text \<open>Where the command is written no register is read, so what the driver reads is what was there before.\<close>

lemma command_keeps_registers:
  assumes "kSATAPortIdx s < 32" and "apart (kSATAPort s) c t (Suc ((unat z - 1) div 16))"
    and "kSATAPort s \<le> r" and "r + 4 \<le> kSATAPort s + 0x1100"
  shows "load32 r (command_memory W I lba buffer sz z c t m) = load32 r m"
  using assms by (intro load32_frame command_memory_frame) (auto simp: written_def apart_def disjoint_ext_def)

lemma wait_clear_ready:
  "\<forall>m. dev (polls s) m = m \<Longrightarrow> get32 a s AND bits = 0 \<Longrightarrow>
   wait_clear dev a bits s = Some (s\<lparr>polls := Suc (polls s)\<rparr>)"
  by (subst wait_clear.simps) (simp add: poll_def)

lemma drv_find_cmd_slot_first:
  assumes "k \<le> unat (get32 (HbaMem_Cap (kSATAPort s)) s AND 0x1F)"
    and "\<not> bit (get32 (HbaPort_Sact (port_at s)) s OR get32 (HbaPort_Ci (port_at s)) s) k"
    and "\<And>j. j < k \<Longrightarrow> bit (get32 (HbaPort_Sact (port_at s)) s OR get32 (HbaPort_Ci (port_at s)) s) j"
  shows "drv_find_cmd_slot (port_at s) s = int k"
proof -
  have "port_at s \<noteq> 0" by (simp add: port_at_def hba_layout)
  then show ?thesis
    using find_first [of k "unat (get32 (HbaMem_Cap (kSATAPort s)) s AND 0x1F) + 1"
        "bit (get32 (HbaPort_Sact (port_at s)) s OR get32 (HbaPort_Ci (port_at s)) s)"] assms
    by (simp add: drv_find_cmd_slot_def find_slot_loop_spec del: upt_Suc)
qed

lemma prdt_loop_command:
  assumes "0 < z" and "unat z \<le> 0xFFFF0" and "disjoint_ext c 32 t (128 + 16 * Suc ((unat z - 1) div 16))"
  shows "map_option (set_fis W True I lba sz t) (prdt_loop c t 0 buffer z (set_command_header W z c m)) =
    Some (command_memory W I lba buffer sz z c t m)"
proof -
  have "prdt_bound c (set_command_header W z c m) = (unat z - 1) div 16"
    using prdtl_value [OF assms(1,2)] by (simp add: prdt_bound_def set_command_header_fields unat_eq_0 [symmetric] Let_def)
  then show ?thesis
    using prdt_loop_fill [of c t "set_command_header W z c m" 0] assms(3)
    by (auto simp: command_memory_def disjoint_ext_def)
qed

lemma issue_ready:
  assumes "\<forall>m. dev (polls s) m = m" and "get32 (HbaPort_Tfd (port_at s)) s AND 0x88 = 0"
    and "\<And>m. bit (load32 (HbaPort_Ci (port_at s)) m) k \<Longrightarrow>
      completes dev (kSATAPort s) (port_at s) k (polls s + 1) j m"
    and "k < 32"
  shows "\<exists>mi. issue dev k s =
      Some (Inr (s\<lparr>am := dev_run dev (polls s + 1) (2 * j + 1) mi, polls := polls s + 2 * j + 2\<rparr>)) \<and>
    bit (load32 (HbaPort_Ci (port_at s)) mi) k \<and>
    (\<forall>a. \<not> (kSATAPort s \<le> a \<and> a < kSATAPort s + 12 \<or> port_at s \<le> a \<and> a < port_at s + 60) \<longrightarrow> mi a = am s a)"
proof -
  let ?p = "port_at s"
  let ?m1 = "store32 (HbaMem_Is (kSATAPort s)) (- 1) (am s)"
  let ?mi = "store32 (HbaPort_Ci ?p) (load32 (HbaPort_Ci ?p) ?m1 OR push_bit k 1) ?m1"
  let ?s = "s\<lparr>polls := Suc (polls s), am := ?mi\<rparr>"
  have b: "bit (load32 (HbaPort_Ci ?p) ?mi) k" using assms(4) by (simp add: bit_simps)
  have "wait_done dev k ?s =
    Some (Inr (?s\<lparr>am := dev_run dev (polls ?s) (2 * j + 1) (am ?s), polls := polls ?s + 2 * j + 1\<rparr>))"
    using assms(3) [OF b] by (intro wait_done_completes) (simp add: port_at_def)
  moreover have "?s\<lparr>am := dev_run dev (polls ?s) (2 * j + 1) (am ?s), polls := polls ?s + 2 * j + 1\<rparr> =
      s\<lparr>am := dev_run dev (polls s + 1) (2 * j + 1) ?mi, polls := polls s + 2 * j + 2\<rparr>" by (cases s) simp
  moreover have "issue dev k s = wait_done dev k ?s"
  proof -
    have "kAhciSRBsy OR kAhciSRDrq = 0x88" by (simp add: kAhciSRBsy_def kAhciSRDrq_def)
    then show ?thesis using assms(2) wait_clear_ready [of dev s "HbaPort_Tfd ?p" "0x88"] assms(1)
      by (simp add: issue_def Let_def port_at_def)
  qed
  ultimately have "issue dev k s =
      Some (Inr (s\<lparr>am := dev_run dev (polls s + 1) (2 * j + 1) ?mi, polls := polls s + 2 * j + 2\<rparr>))"
    by (simp only:)
  moreover have "?mi a = am s a"
    if "\<not> (kSATAPort s \<le> a \<and> a < kSATAPort s + 12 \<or> ?p \<le> a \<and> a < ?p + 60)" for a
    using that by (subst store32_outside, force simp: hba_layout, subst store32_outside) (auto simp: hba_layout)
  ultimately show ?thesis using b by blast
qed

lemma io_reaches_issue:
  assumes "s1 = put32 (HbaPort_Is (port_at s)) (- 1) s" and "drv_find_cmd_slot (port_at s1) s1 = int k"
    and "c = unat (get32 (HbaPort_Clb (port_at s1)) s1) + unat (get32 (HbaPort_Clbu (port_at s1)) s1) + 32 * k"
    and "m2 = set_command_header W z c (am s1)"
    and "t = unat (load32 (HbaCmdHeader_Ctba c) m2) + unat (load32 (HbaCmdHeader_Ctbau c) m2)"
    and "0 < c" and "0 < t" and "map_option (set_fis W True I lba sz t) (prdt_loop c t 0 buffer z m2) = Some m4"
  shows "drv_std_input_output dbg dev W True I lba buffer sz z s = issue dev k (s1\<lparr>am := m4\<rparr>)"
proof -
  have "drv_find_cmd_slot (port_at s1) s1 \<noteq> - 1" using assms(2) by simp
  with assms show ?thesis
    unfolding drv_std_input_output_def Let_def
    by (auto simp: sizeof_HbaCmdHeader_def assms(1) [symmetric])
qed

subsection \<open>The structures of a port\<close>

definition table_at :: "nat \<Rightarrow> nat \<Rightarrow> nat" where
  "table_at idx i = 0x40A000 + 8192 * idx + 256 * i"

lemma ucast_of_nat_small: "n < 2 ^ 32 \<Longrightarrow> unat (ucast (of_nat n :: u64) :: u32) = n"
  by (simp add: unsigned_of_nat take_bit_nat_eq_self)

lemma table_address_nat:
  assumes "idx < 32" and "i < 32"
  shows "unat (table_address idx i) = table_at idx i"
proof -
  have b: "0x40A000 + 8192 * idx + 256 * i < 2 ^ 32" using assms by simp
  have eq: "kAHCIBaseAddress + push_bit 10 40 + push_bit 13 (of_nat idx) + of_nat (i * 256) =
      (of_nat (0x40A000 + 8192 * idx + 256 * i) :: u64)"
    by (simp add: kAHCIBaseAddress_def push_bit_eq_mult algebra_simps)
  show ?thesis unfolding table_address_def table_at_def eq by (rule ucast_of_nat_small [OF b])
qed

lemma set_memory_zero: "snd (rt_set_memory a 0 n m) j = (if a \<le> j \<and> j < a + 4 * n then 0 else m j)"
proof -
  have "le_bytes n 0 = replicate n 0" for n by (induction n) simp_all
  then have "enc32 0 ! (x mod 4) = 0" for x by (simp add: enc32_def)
  then show ?thesis by (simp add: rt_set_memory_def set_memory_loop_at)
qed

lemma header_loop_frame:
  "idx < 32 \<Longrightarrow> i + n \<le> 32 \<Longrightarrow> j < clb + 32 * i \<or> clb + 32 * (i + n) \<le> j \<Longrightarrow>
   j < table_at idx i \<or> table_at idx (i + n) + 768 \<le> j \<Longrightarrow> header_loop idx clb n i m j = m j"
proof (induction n arbitrary: i m)
  case 0
  then show ?case by simp
next
  case (Suc n)
  let ?c = "clb + sizeof_HbaCmdHeader * i"
  have "header_loop idx clb (Suc n) i m j = snd (rt_set_memory (unat (table_address idx i)) 0 256
      (store32 (HbaCmdHeader_Ctbau ?c) 0 (store32 (HbaCmdHeader_Ctba ?c) (table_address idx i) (store16 (HbaCmdHeader_Prdtl ?c) 8 m)))) j"
    using Suc.prems by (simp add: Let_def, subst Suc.IH) (auto simp: hba_layout store_simps disjoint_ext_def table_at_def)
  also have "\<dots> = m j" using Suc.prems table_address_nat [of idx i]
    by (auto simp: set_memory_zero store_simps hba_layout table_at_def)
  finally show ?case .
qed

lemma header_loop_fields:
  "idx < 32 \<Longrightarrow> i + n \<le> 32 \<Longrightarrow> clb + 1024 \<le> table_at idx 0 \<Longrightarrow> i \<le> j \<Longrightarrow> j < i + n \<Longrightarrow>
   load16 (HbaCmdHeader_Prdtl (clb + 32 * j)) (header_loop idx clb n i m) = 8 \<and>
   load32 (HbaCmdHeader_Ctba (clb + 32 * j)) (header_loop idx clb n i m) = table_address idx j \<and>
   load32 (HbaCmdHeader_Ctbau (clb + 32 * j)) (header_loop idx clb n i m) = 0"
proof (induction n arbitrary: i m)
  case 0
  then show ?case by simp
next
  case (Suc n)
  let ?c = "clb + sizeof_HbaCmdHeader * i"
  let ?m = "store32 (HbaCmdHeader_Ctbau ?c) 0 (store32 (HbaCmdHeader_Ctba ?c) (table_address idx i) (store16 (HbaCmdHeader_Prdtl ?c) 8 m))"
  let ?m4 = "snd (rt_set_memory (unat (table_address idx i)) 0 256 ?m)"
  have step: "header_loop idx clb (Suc n) i m = header_loop idx clb n (Suc i) ?m4"
    by (simp add: Let_def hba_layout store_simps disjoint_ext_def)
  show ?case
  proof (cases "j = i")
    case True
    have "header_loop idx clb n (Suc i) ?m4 a = ?m a" if "clb + 32 * i \<le> a" "a < clb + 32 * i + 32" for a
      using that Suc.prems table_address_nat [of idx i]
      by (subst header_loop_frame) (auto simp: set_memory_zero table_at_def)
    then have "load16 (HbaCmdHeader_Prdtl (clb + 32 * i)) (header_loop idx clb n (Suc i) ?m4) = load16 (HbaCmdHeader_Prdtl (clb + 32 * i)) ?m"
      "load32 (HbaCmdHeader_Ctba (clb + 32 * i)) (header_loop idx clb n (Suc i) ?m4) = load32 (HbaCmdHeader_Ctba (clb + 32 * i)) ?m"
      "load32 (HbaCmdHeader_Ctbau (clb + 32 * i)) (header_loop idx clb n (Suc i) ?m4) = load32 (HbaCmdHeader_Ctbau (clb + 32 * i)) ?m"
      by (auto intro!: load16_frame load32_frame simp: HbaCmdHeader_Prdtl_def HbaCmdHeader_Ctba_def HbaCmdHeader_Ctbau_def)
    then show ?thesis unfolding step True
      by (simp add: hba_layout store_simps disjoint_ext_def)
  next
    case False
    then show ?thesis unfolding step using Suc.IH [of "Suc i" ?m4] Suc.prems by simp
  qed
qed

lemma header_loop_tables:
  "idx < 32 \<Longrightarrow> i + n \<le> 32 \<Longrightarrow> clb + 1024 \<le> table_at idx 0 \<Longrightarrow> 0 < n \<Longrightarrow>
   table_at idx i \<le> a \<Longrightarrow> a < table_at idx (i + n) \<Longrightarrow> header_loop idx clb n i m a = 0"
proof (induction n arbitrary: i m)
  case 0
  then show ?case by simp
next
  case (Suc n)
  let ?c = "clb + sizeof_HbaCmdHeader * i"
  let ?m = "store32 (HbaCmdHeader_Ctbau ?c) 0 (store32 (HbaCmdHeader_Ctba ?c) (table_address idx i) (store16 (HbaCmdHeader_Prdtl ?c) 8 m))"
  let ?m4 = "snd (rt_set_memory (unat (table_address idx i)) 0 256 ?m)"
  have step: "header_loop idx clb (Suc n) i m = header_loop idx clb n (Suc i) ?m4"
    by (simp add: Let_def hba_layout store_simps disjoint_ext_def)
  show ?case
  proof (cases "a < table_at idx (Suc i)")
    case True
    then have "header_loop idx clb n (Suc i) ?m4 a = ?m4 a"
      using Suc.prems by (intro header_loop_frame) (auto simp: table_at_def)
    then show ?thesis unfolding step using True Suc.prems table_address_nat [of idx i]
      by (auto simp: set_memory_zero table_at_def)
  next
    case False
    then have "0 < n" using Suc.prems by (cases n) auto
    then show ?thesis unfolding step using False Suc.prems by (intro Suc.IH) auto
  qed
qed

lemma load32_zeroed: "disjoint_ext r 4 a (4 * n) \<Longrightarrow> load32 r (snd (rt_set_memory a 0 n m)) = load32 r m"
  by (auto intro!: load32_frame simp: set_memory_zero disjoint_ext_def)

lemma list_address: "idx < 32 \<Longrightarrow> unat (ucast (kAHCIBaseAddress + push_bit 10 (of_nat idx)) :: u32) = 0x400000 + 1024 * idx"
  and fis_address: "idx < 32 \<Longrightarrow>
    unat (ucast (kAHCIBaseAddress + push_bit 10 32 + push_bit 8 (of_nat idx)) :: u32) = 0x408000 + 256 * idx"
proof -
  assume i: "idx < 32"
  have e: "kAHCIBaseAddress + push_bit 10 (of_nat idx) = (of_nat (0x400000 + 1024 * idx) :: u64)"
    "kAHCIBaseAddress + push_bit 10 32 + push_bit 8 (of_nat idx) = (of_nat (0x408000 + 256 * idx) :: u64)"
    by (simp_all add: kAHCIBaseAddress_def push_bit_eq_mult algebra_simps)
  show "unat (ucast (kAHCIBaseAddress + push_bit 10 (of_nat idx)) :: u32) = 0x400000 + 1024 * idx"
    "unat (ucast (kAHCIBaseAddress + push_bit 10 32 + push_bit 8 (of_nat idx)) :: u32) = 0x408000 + 256 * idx"
    unfolding e using i by (intro ucast_of_nat_small; simp)+
qed

lemma port_structures_memory:
  fixes s defines "p \<equiv> port_at s" and "idx \<equiv> kSATAPortIdx s"
  assumes "kSATAPortIdx s < 32" and "disjoint_ext (kSATAPort s) 0x1100 0x400000 0x4A300"
  shows "\<exists>m. port_structures s = s\<lparr>am := header_loop idx (0x400000 + 1024 * idx) 32 0 m\<rparr> \<and>
    unat (load32 (HbaPort_Clb p) m) = 0x400000 + 1024 * idx \<and> load32 (HbaPort_Clbu p) m = 0 \<and>
    unat (load32 (HbaPort_Fb p) m) = 0x408000 + 256 * idx \<and> load32 (HbaPort_Fbu p) m = 0 \<and>
    (\<forall>a. \<not> (0x400000 \<le> a \<and> a < 0x44A300) \<and> \<not> (p \<le> a \<and> a < p + 16) \<longrightarrow> m a = am s a)"
proof -
  let ?clb = "ucast (kAHCIBaseAddress + push_bit 10 (of_nat idx)) :: u32"
  let ?fb = "ucast (kAHCIBaseAddress + push_bit 10 32 + push_bit 8 (of_nat idx)) :: u32"
  let ?m2 = "store32 (HbaPort_Clbu p) 0 (store32 (HbaPort_Clb p) ?clb (am s))"
  let ?m3 = "snd (rt_set_memory (0x400000 + 1024 * idx) 0 1024 ?m2)"
  let ?m5 = "store32 (HbaPort_Fbu p) 0 (store32 (HbaPort_Fb p) ?fb ?m3)"
  let ?m6 = "snd (rt_set_memory (0x408000 + 256 * idx) 0 256 ?m5)"
  have i: "idx < 32" using assms by simp
  have p: "p = kSATAPort s + 0x100 + 0x80 * idx" by (simp add: p_def idx_def port_at_def hba_layout)
  have far: "disjoint_ext r 4 (0x400000 + 1024 * idx) (4 * 1024)" "disjoint_ext r 4 (0x408000 + 256 * idx) (4 * 256)"
    if "p \<le> r" "r \<le> p + 12" for r
    using that assms(4) i p by (auto simp: disjoint_ext_def)
  have r: "load32 (HbaPort_Clb p) ?m6 = ?clb" "load32 (HbaPort_Clbu p) ?m6 = 0"
    "load32 (HbaPort_Fb p) ?m6 = ?fb" "load32 (HbaPort_Fbu p) ?m6 = 0" "load32 (HbaPort_Fb p) ?m5 = ?fb"
    "load32 (HbaPort_Clb p) ?m2 = ?clb"
    using far by (simp_all add: hba_layout load32_zeroed store_simps disjoint_ext_def [of _ 4 _ 4])
  have "port_structures s = s\<lparr>am := header_loop idx (0x400000 + 1024 * idx) 32 0 ?m6\<rparr>"
    using list_address [OF i] fis_address [OF i] r
    by (simp add: port_structures_def Let_def p_def [symmetric] idx_def [symmetric])
  moreover have "?m6 a = am s a" if "\<not> (0x400000 \<le> a \<and> a < 0x44A300)" "\<not> (p \<le> a \<and> a < p + 16)" for a
    using that i by (auto simp: set_memory_zero store32_outside hba_layout)
  ultimately show ?thesis using r list_address [OF i] fis_address [OF i] by (intro exI [of _ ?m6]) simp
qed

text \<open>The search for a port: the first that looks like a disk, up to the highest one implemented.\<close>

lemma port_loop_choice:
  "port_loop dbg dev stack hba n i impl s =
    (case find (\<lambda>j. drop_bit (j - i) impl \<noteq> 0 \<and> port_is_sata (HbaMem_Ports hba j) s) [i..<i + n] of
       None \<Rightarrow> Some (Inr (False, s))
     | Some j \<Rightarrow> map_option (map_sum id (\<lambda>s'. (True, s'))) (start_port dbg dev stack (s\<lparr>kSATAPortIdx := j, kSATAPort := hba\<rparr>)))"
proof (induction n arbitrary: i impl)
  case 0
  then show ?case by simp
next
  case (Suc n)
  have "find (\<lambda>j. drop_bit (j - Suc i) (drop_bit 1 impl) \<noteq> 0 \<and> P j) [Suc i..<Suc i + n] =
      find (\<lambda>j. drop_bit (j - i) impl \<noteq> 0 \<and> P j) [Suc i..<Suc i + n]" for P
  proof (intro find_cong refl)
    fix j assume "j \<in> set [Suc i..<Suc i + n]"
    then have "j - Suc i + 1 = j - i" by auto
    then show "(drop_bit (j - Suc i) (drop_bit 1 impl) \<noteq> 0 \<and> P j) = (drop_bit (j - i) impl \<noteq> 0 \<and> P j)"
      by (metis drop_bit_drop_bit)
  qed
  then show ?case using Suc [of "Suc i" "drop_bit 1 impl"]
    by (simp add: upt_conv_Cons del: upt_Suc)
      (auto split: option.splits sum.splits)
qed

text \<open>A transfer of nothing, or of a megabyte, has 0 for its count of descriptors and the loop runs to the largest number.\<close>

lemma descriptor_count_wraps:
  assumes "z = 0 \<or> 0xFFFF0 < unat z \<and> unat z \<le> 0x100000"
  shows "prdt_bound c (set_command_header W z c m) = 2 ^ 64 - 1"
proof -
  have "(ucast (drop_bit 4 (z - 1)) :: u16) = - 1"
  proof (cases "z = 0")
    case True
    then show ?thesis by (auto intro!: bit_word_eqI simp: bit_simps)
  next
    case False
    then have "(unat z - 1) div 16 = 0xFFFF" using assms by (intro div_nat_eqI) auto
    then have "unat (z - 1) div 16 = 0xFFFF" using False by (simp add: unat_sub word_le_nat_alt Suc_le_eq unat_gt_0)
    then have "unat (ucast (drop_bit 4 (z - 1)) :: u16) = unat (- 1 :: u16)"
      using unsigned_less [of "z - 1", where ?'a = nat]
      by (simp add: unsigned_ucast_eq unsigned_drop_bit_eq drop_bit_nat_def take_bit_nat_eq_self
          unsigned_minus_1_eq_mask mask_eq_exp_minus_1)
    then show ?thesis by (simp only: word_unat_eq_iff)
  qed
  then show ?thesis by (simp add: prdt_bound_def set_command_header_fields Let_def)
qed

subsection \<open>Properties\<close>

text \<open>
  C11. Issuing a command, when a slot is free and the controller is idle. The command goes into the
  first free slot, and what the controller is asked for is a transfer of \<open>sz\<close> sectors at the low 32 bits
  of the address, with the upper bytes of the address as they were in the table. The descriptor list has
  one entry for every 16 bytes of the buffer, 4 KiB apart, each of the whole rest of the size, and the last
  one is whatever the table had. If the controller clears the slot after \<open>j\<close> more rounds, the driver returns
  what the controller has made of the memory by then.
\<close>

theorem ahci_command_issued:
  assumes regs: "kSATAPortIdx s < 32" "p = port_at s" "h = kSATAPort s"
    and slots: "k \<le> unat (get32 (HbaMem_Cap h) s AND 0x1F)"
      "\<not> bit (get32 (HbaPort_Sact p) s OR get32 (HbaPort_Ci p) s) k"
      "\<And>j. j < k \<Longrightarrow> bit (get32 (HbaPort_Sact p) s OR get32 (HbaPort_Ci p) s) j"
    and header: "c = unat (get32 (HbaPort_Clb p) s) + 32 * k" "get32 (HbaPort_Clbu p) s = 0" "0 < c"
    and tbl: "t = unat (get32 (HbaCmdHeader_Ctba c) s)" "get32 (HbaCmdHeader_Ctbau c) s = 0" "0 < t"
    and size: "0 < z" "unat z \<le> 0xFFFF0" "unat buffer < 2 ^ 63" "n = (unat z - 1) div 16" "apart h c t (Suc n)"
    and ready: "\<forall>m. dev (polls s) m = m" "get32 (HbaPort_Tfd p) s AND 0x88 = 0"
      "\<And>m. bit (load32 (HbaPort_Ci p) m) k \<Longrightarrow> completes dev h p k (polls s + 1) j m"
  shows "\<exists>mi. drv_std_input_output dbg dev W True I lba buffer sz z s =
      Some (Inr (s\<lparr>am := dev_run dev (polls s + 1) (2 * j + 1) mi, polls := polls s + 2 * j + 2\<rparr>)) \<and>
    bit (load32 (HbaPort_Ci p) mi) k \<and>
    read_request c t mi =
      \<lparr>r_write = W,
       r_command = (if I then kAHCICmdIdentify else if W then kAHCICmdWriteDmaEx else kAHCICmdReadDmaEx),
       r_lba = unat lba mod 2 ^ 32 + 2 ^ 32 * (unat (am s (t + 9)) + 256 * unat (am s (t + 10))),
       r_sectors = unat sz mod 2 ^ 16,
       r_prdt = map (\<lambda>i. (unat buffer + 4096 * i, unat z - 16 * i)) [0..<n] @
         [prdt_entry (HbaCmdTbl_PrdtEntries t n) (am s)]\<rparr> \<and>
    (\<forall>a. \<not> written c t n a \<and> \<not> (h \<le> a \<and> a < h + 0x1100) \<longrightarrow> mi a = am s a)"
proof -
  let ?s1 = "put32 (HbaPort_Is p) (- 1) s"
  let ?cm = "command_memory W I lba buffer sz z c t (am ?s1)"
  let ?s2 = "?s1\<lparr>am := ?cm\<rparr>"
  have p: "port_at ?s1 = p" "port_at ?s2 = p" "p = h + 0x100 + 0x80 * kSATAPortIdx s"
    using regs by (simp_all add: port_at_def hba_layout)
  have keep: "get32 r ?s1 = get32 r s" if "r + 4 \<le> p + 0x10 \<or> p + 0x14 \<le> r" for r
    using that by (intro load32_frame) (auto simp: hba_layout store_simps)
  have out: "am ?s1 a = am s a" if "a < h \<or> h + 0x1100 \<le> a" for a
    using regs_frame(1) [of s a] that regs by simp
  have areas: "disjoint_ext c 32 t (128 + 16 * Suc n)" "apart (kSATAPort s) c t (Suc ((unat z - 1) div 16))"
    using size regs by (simp_all add: apart_def)
  have outer: "a < h \<or> h + 0x1100 \<le> a" if "c \<le> a \<and> a < c + 32 \<or> t \<le> a \<and> a < t + 128 + 16 * Suc n" for a
    using that size(5) by (auto simp: apart_def disjoint_ext_def)
  have slt: "drv_find_cmd_slot p ?s1 = int k"
    using drv_find_cmd_slot_first [of k ?s1] slots keep p regs by (simp add: hba_layout)
  have k: "k < 32"
  proof -
    have "unat (get32 (HbaMem_Cap h) s AND 0x1F) \<le> unat (0x1F :: u32)"
      by (intro word_le_nat_alt [THEN iffD1] word_and_le1)
    then show ?thesis using slots(1) by simp
  qed
  have t': "load32 (HbaCmdHeader_Ctba c) (set_command_header W z c (am ?s1)) = get32 (HbaCmdHeader_Ctba c) s"
    "load32 (HbaCmdHeader_Ctbau c) (set_command_header W z c (am ?s1)) = get32 (HbaCmdHeader_Ctbau c) s"
    using out outer by (auto intro!: load32_frame simp: set_command_header_frame hba_layout simp del: store32_outside)
  have eq: "drv_std_input_output dbg dev W True I lba buffer sz z s = issue dev k ?s2"
  proof (rule io_reaches_issue)
    show "?s1 = put32 (HbaPort_Is (port_at s)) (- 1) s" by (simp add: regs)
    show "drv_find_cmd_slot (port_at ?s1) ?s1 = int k" using slt p(1) by simp
    show "c = unat (get32 (HbaPort_Clb (port_at ?s1)) ?s1) + unat (get32 (HbaPort_Clbu (port_at ?s1)) ?s1) + 32 * k"
      using header p(1) keep [of "HbaPort_Clb p"] keep [of "HbaPort_Clbu p"] by (simp add: hba_layout)
    show "t = unat (load32 (HbaCmdHeader_Ctba c) (set_command_header W z c (am ?s1))) +
        unat (load32 (HbaCmdHeader_Ctbau c) (set_command_header W z c (am ?s1)))"
      unfolding t' using tbl by simp
    show "map_option (set_fis W True I lba sz t) (prdt_loop c t 0 buffer z (set_command_header W z c (am ?s1))) = Some ?cm"
      using prdt_loop_command [OF size(1,2)] areas(1) size(4) by simp
  qed (use header tbl in simp_all)
  have "get32 (HbaPort_Tfd p) ?s2 AND 0x88 = 0"
    using command_keeps_registers [of ?s1 c t z "HbaPort_Tfd p"] areas(2) regs ready(2) p(3) keep by (simp add: hba_layout)
  then obtain mi where mi: "issue dev k ?s2 = Some (Inr (?s2\<lparr>am := dev_run dev (polls s + 1) (2 * j + 1) mi, polls := polls s + 2 * j + 2\<rparr>))"
    "bit (load32 (HbaPort_Ci p) mi) k"
    "\<And>a. \<not> (h \<le> a \<and> a < h + 12 \<or> p \<le> a \<and> a < p + 60) \<Longrightarrow> mi a = ?cm a"
    using issue_ready [of dev ?s2 k j] ready k p regs by auto
  have mic: "mi a = ?cm a" if "a < h \<or> h + 0x1100 \<le> a" for a
    using mi(3) [of a] that p(3) regs(1) by auto
  note req = command_request [OF size(1-4) areas(1), of W I lba sz "am ?s1"]
  have "unat (load16 (HbaCmdHeader_Prdtl c) ?cm) = length (r_prdt (read_request c t ?cm))"
    by (simp add: read_request_def)
  then have "unat (load16 (HbaCmdHeader_Prdtl c) ?cm) = Suc n" unfolding req by simp
  then have "read_request c t mi = read_request c t ?cm"
    using outer mic by (intro read_request_frame) auto
  moreover have "prdt_entry (HbaCmdTbl_PrdtEntries t n) (am ?s1) = prdt_entry (HbaCmdTbl_PrdtEntries t n) (am s)"
    using outer by (intro prdt_entry_frame out) (auto simp: hba_layout)
  moreover have "am ?s1 (t + 9) = am s (t + 9)" "am ?s1 (t + 10) = am s (t + 10)"
    using outer [of "t + 9"] outer [of "t + 10"] out [of "t + 9"] out [of "t + 10"] by auto
  moreover have "mi a = am s a" if "\<not> written c t n a" "\<not> (h \<le> a \<and> a < h + 0x1100)" for a
    using mic [of a] out [of a] command_memory_frame [of c t z a] that size(4) by auto
  ultimately show ?thesis using eq mi(1,2) req by (intro exI [of _ mi]) auto
qed

theorem ahci_command_issued_witness:
  "\<exists>dev s mi. drv_std_write False dev 5 0x3000 1 512 s = Some (Inr (s\<lparr>am := dev 1 mi, polls := 2\<rparr>)) \<and>
     read_request 0x1000 0x2000 mi =
       \<lparr>r_write = True, r_command = 0x35, r_lba = 5, r_sectors = 1,
        r_prdt = map (\<lambda>i. (0x3000 + 4096 * i, 512 - 16 * i)) [0..<31] @ [(0, 1)]\<rparr>"
proof -
  let ?m = "store32 0x10100 0x1000 (store32 0x1008 0x2000 (\<lambda>_. 0))"
  let ?dev = "\<lambda>(p :: nat) m. if p = 0 then m else store32 0x10138 0 m"
  let ?s = "\<lparr>am = ?m, polls = 0, kSATAPort = 0x10000, kSATAPortIdx = 0, kCurrentDiskSectorCount = 0,
    kPCIDevice = PciDevice_new 0 0 0 0, pci_bus = \<lparr>answer = (\<lambda>_ _. 0), history = []\<rparr>\<rparr>"
  have "le_nat (replicate n 0) = 0" for n by (induction n) simp_all
  then have zero: "load32 a (\<lambda>_. 0) = 0" for a by (simp add: load32_def read_bytes_def dec32_def map_replicate_const)
  have z: "load32 a ?m = 0" if "disjoint_ext a 4 0x10100 4" "disjoint_ext a 4 0x1008 4" for a
    using that by (simp add: store_simps zero)
  have l: "load32 0x10100 ?m = 0x1000" "load32 0x1008 ?m = 0x2000" "?m 0x2009 = 0" "?m 0x200A = 0"
    by (simp_all add: store_simps disjoint_ext_def)
  have e: "prdt_entry (HbaCmdTbl_PrdtEntries 0x2000 31) ?m = (0, 1)"
    by (simp add: prdt_entry_def hba_layout z disjoint_ext_def)
  have fin: "completes ?dev 0x10000 0x10100 0 (polls ?s + 1) 0 m" for m
    by (simp add: completes_def hba_layout)
  have p: "0x10100 = port_at ?s" by (simp add: port_at_def hba_layout)
  have r: "get32 (HbaPort_Clb 0x10100) ?s = 0x1000" "get32 (HbaPort_Clbu 0x10100) ?s = 0"
    "get32 (HbaPort_Sact 0x10100) ?s = 0" "get32 (HbaPort_Ci 0x10100) ?s = 0" "get32 (HbaPort_Tfd 0x10100) ?s = 0"
    "get32 (HbaCmdHeader_Ctba 0x1000) ?s = 0x2000" "get32 (HbaCmdHeader_Ctbau 0x1000) ?s = 0"
    using l z by (simp_all add: hba_layout disjoint_ext_def)
  have n: "(31::nat) = (unat (512 :: u64) - 1) div 16" by simp
  have a: "apart 0x10000 0x1000 0x2000 (Suc 31)" by (simp add: apart_def disjoint_ext_def)
  have "\<exists>mi. drv_std_input_output False ?dev True True False 5 0x3000 1 512 ?s =
       Some (Inr (?s\<lparr>am := dev_run ?dev (polls ?s + 1) (2 * 0 + 1) mi, polls := polls ?s + 2 * 0 + 2\<rparr>)) \<and>
     read_request 0x1000 0x2000 mi =
      \<lparr>r_write = True, r_command = kAHCICmdWriteDmaEx,
       r_lba = unat (5 :: u64) mod 2 ^ 32 + 2 ^ 32 * (unat (am ?s (0x2000 + 9)) + 256 * unat (am ?s (0x2000 + 10))),
       r_sectors = unat (1 :: u64) mod 2 ^ 16,
       r_prdt = map (\<lambda>i. (unat (0x3000 :: u64) + 4096 * i, unat (512 :: u64) - 16 * i)) [0..<31] @
         [prdt_entry (HbaCmdTbl_PrdtEntries 0x2000 31) (am ?s)]\<rparr>"
    using ahci_command_issued [of ?s "0x10100" "0x10000" 0 "0x1000" "0x2000" 512 "0x3000" 31 ?dev 0 False True False 5 1,
        OF _ p _ _ _ _ _ _ _ _ _ _ _ _ _ n a _ _ fin] r
    by auto
  then obtain mi where mi: "drv_std_input_output False ?dev True True False 5 0x3000 1 512 ?s =
       Some (Inr (?s\<lparr>am := dev_run ?dev (polls ?s + 1) (2 * 0 + 1) mi, polls := polls ?s + 2 * 0 + 2\<rparr>))"
    and "read_request 0x1000 0x2000 mi =
      \<lparr>r_write = True, r_command = kAHCICmdWriteDmaEx,
       r_lba = unat (5 :: u64) mod 2 ^ 32 + 2 ^ 32 * (unat (am ?s (0x2000 + 9)) + 256 * unat (am ?s (0x2000 + 10))),
       r_sectors = unat (1 :: u64) mod 2 ^ 16,
       r_prdt = map (\<lambda>i. (unat (0x3000 :: u64) + 4096 * i, unat (512 :: u64) - 16 * i)) [0..<31] @
         [prdt_entry (HbaCmdTbl_PrdtEntries 0x2000 31) (am ?s)]\<rparr>"
    by blast
  then have "drv_std_write False ?dev 5 0x3000 1 512 ?s = Some (Inr (?s\<lparr>am := ?dev 1 mi, polls := 2\<rparr>))"
    "read_request 0x1000 0x2000 mi =
       \<lparr>r_write = True, r_command = 0x35, r_lba = 5, r_sectors = 1,
        r_prdt = map (\<lambda>i. (0x3000 + 4096 * i, 512 - 16 * i)) [0..<31] @ [(0, 1)]\<rparr>"
    using l(3,4) e by (simp_all add: drv_std_write_def kAHCICmdWriteDmaEx_def)
  then show ?thesis by (intro exI conjI)
qed

text \<open>
  Setting a port's structures up: the command list and the received-FIS area are where the driver keeps
  them for the port, each of the 32 headers has its own zeroed table of 256 bytes, which is 8 descriptors,
  and the upper halves of all addresses are zero, so the headers and tables are those a command is written to.
  Outside of the controller's registers only the driver's 296 KiB after the fourth megabyte are written.
\<close>

theorem port_structures_spec:
  fixes s k
  defines "idx \<equiv> kSATAPortIdx s" and "p \<equiv> port_at s" and "s' \<equiv> port_structures s"
    and "c \<equiv> 0x400000 + 1024 * kSATAPortIdx s + 32 * k"
  assumes "kSATAPortIdx s < 32" and "k < 32"
    and "disjoint_ext (kSATAPort s) 0x1100 0x400000 0x4A300"
  shows "s' = s\<lparr>am := am s'\<rparr> \<and>
    unat (get32 (HbaPort_Clb p) s') = 0x400000 + 1024 * idx \<and> get32 (HbaPort_Clbu p) s' = 0 \<and>
    unat (get32 (HbaPort_Fb p) s') = 0x408000 + 256 * idx \<and> get32 (HbaPort_Fbu p) s' = 0 \<and>
    load16 (HbaCmdHeader_Prdtl c) (am s') = 8 \<and>
    unat (get32 (HbaCmdHeader_Ctba c) s') = table_at idx k \<and> get32 (HbaCmdHeader_Ctbau c) s' = 0 \<and>
    (\<forall>a. table_at idx k \<le> a \<and> a < table_at idx k + 256 \<longrightarrow> am s' a = 0) \<and>
    apart (kSATAPort s) c (table_at idx k) 8 \<and>
    (\<forall>a. \<not> (0x400000 \<le> a \<and> a < 0x44A300) \<and> \<not> (p \<le> a \<and> a < p + 16) \<longrightarrow> am s' a = am s a)"
proof -
  have i: "idx < 32" using assms by simp
  obtain m where m: "s' = s\<lparr>am := header_loop idx (0x400000 + 1024 * idx) 32 0 m\<rparr>"
    "unat (load32 (HbaPort_Clb p) m) = 0x400000 + 1024 * idx" "load32 (HbaPort_Clbu p) m = 0"
    "unat (load32 (HbaPort_Fb p) m) = 0x408000 + 256 * idx" "load32 (HbaPort_Fbu p) m = 0"
    "\<And>a. \<not> (0x400000 \<le> a \<and> a < 0x44A300) \<Longrightarrow> \<not> (p \<le> a \<and> a < p + 16) \<Longrightarrow> m a = am s a"
    using port_structures_memory [of s] assms(5,7) unfolding s'_def p_def idx_def by blast
  have keep: "am s' a = m a" if "a < 0x400000 \<or> 0x44A300 \<le> a" for a
    using that i unfolding m(1) by (simp, intro header_loop_frame) (auto simp: table_at_def)
  have regs: "load32 r (am s') = load32 r m" if "p \<le> r" "r \<le> p + 12" for r
    using that assms(5,7) by (intro load32_frame keep) (auto simp: p_def port_at_def hba_layout disjoint_ext_def)
  have f: "load16 (HbaCmdHeader_Prdtl c) (am s') = 8" "unat (get32 (HbaCmdHeader_Ctba c) s') = table_at idx k"
    "get32 (HbaCmdHeader_Ctbau c) s' = 0"
    using header_loop_fields [of idx 0 32 "0x400000 + 1024 * idx" k m] i assms(6) table_address_nat [of idx k]
    unfolding m(1) c_def idx_def [symmetric] by (simp_all add: table_at_def)
  have z: "am s' a = 0" if "table_at idx k \<le> a" "a < table_at idx k + 256" for a
    using that i assms(6) unfolding m(1) by (simp, intro header_loop_tables) (auto simp: table_at_def)
  have ap: "apart (kSATAPort s) c (table_at idx k) 8"
    using assms(5-7) i by (auto simp: apart_def disjoint_ext_def table_at_def c_def idx_def)
  have same: "s' = s\<lparr>am := am s'\<rparr>" unfolding m(1) by simp
  have "am s' a = am s a" if "\<not> (0x400000 \<le> a \<and> a < 0x44A300)" "\<not> (p \<le> a \<and> a < p + 16)" for a
    using keep [of a] m(6) [of a] that by auto
  moreover have "get32 (HbaPort_Clb p) s' = load32 (HbaPort_Clb p) m" "get32 (HbaPort_Clbu p) s' = load32 (HbaPort_Clbu p) m"
    "get32 (HbaPort_Fb p) s' = load32 (HbaPort_Fb p) m" "get32 (HbaPort_Fbu p) s' = load32 (HbaPort_Fbu p) m"
    by (intro regs; simp add: hba_layout)+
  ultimately show ?thesis using m(2-5) f z ap by (intro conjI [OF same]) simp
qed

theorem port_structures_spec_witness:
  "load32 (HbaCmdHeader_Ctba 0x400420) (am (port_structures \<lparr>am = (\<lambda>_. 7), polls = 0, kSATAPort = 0x10000,
     kSATAPortIdx = 1, kCurrentDiskSectorCount = 0, kPCIDevice = PciDevice_new 0 0 0 0,
     pci_bus = \<lparr>answer = (\<lambda>_ _. 0), history = []\<rparr>\<rparr>)) = 0x40C100"
proof -
  let ?s = "\<lparr>am = (\<lambda>_. 7), polls = 0, kSATAPort = 0x10000, kSATAPortIdx = 1, kCurrentDiskSectorCount = 0,
    kPCIDevice = PciDevice_new 0 0 0 0, pci_bus = \<lparr>answer = (\<lambda>_ _. 0), history = []\<rparr>\<rparr>"
  have "unat (load32 (HbaCmdHeader_Ctba 0x400420) (am (port_structures ?s))) = unat (0x40C100 :: u32)"
    using port_structures_spec [of ?s 1] by (simp add: disjoint_ext_def table_at_def del: One_nat_def)
  then show ?thesis by (simp only: word_unat_eq_iff)
qed

end
