(* ===== verification/Containers.thy ===== *)
theory Containers
  imports Prelude
begin

text \<open>
  The container templates of \<^verbatim>\<open>NewKit\<close>: \<^verbatim>\<open>MutableArray.h\<close>, \<^verbatim>\<open>Array.h\<close>,
  \<^verbatim>\<open>OwnPtr.h\<close>, \<^verbatim>\<open>ErrorOr.h\<close>, \<^verbatim>\<open>Function.h\<close> and \<^verbatim>\<open>Variant.h\<close>. A chain of nodes linked by
  \<^verbatim>\<open>fNext\<close> is the list of its nodes; the type of the elements is the template's parameter, and
  \<open>zero\<close> the value of an element of a node made with empty parentheses.
\<close>

subsection \<open>NullableMutableArray\<close>

record 'v MutableLinkedList =
  fVal :: 'v
  fIndex :: nat
  fUsed :: bool

definition MutableLinkedList_new :: "'v \<Rightarrow> 'v MutableLinkedList" where
  "MutableLinkedList_new zero = \<lparr>fVal = zero, fIndex = 0, fUsed = False\<rparr>"

record 'v NullableMutableArray =
  fFirstNode :: "'v MutableLinkedList list"
  fLastNode :: "'v MutableLinkedList list"
  fNodeCount :: nat

definition NullableMutableArray_new :: "'v \<Rightarrow> 'v NullableMutableArray" where
  "NullableMutableArray_new zero =
     \<lparr>fFirstNode = [MutableLinkedList_new zero], fLastNode = [], fNodeCount = 0\<rparr>"

text \<open>\<open>TRY_FIND_NODE\<close> looks at the index only, not at whether the node is used.\<close>

definition TRY_FIND_NODE :: "nat \<Rightarrow> 'v MutableLinkedList list \<Rightarrow> 'v option" where
  "TRY_FIND_NODE Index chain = map_option fVal (find (\<lambda>n. fIndex n = Index) chain)"

definition TRY_REMOVE_NODE :: "nat \<Rightarrow> 'v MutableLinkedList list \<Rightarrow> 'v MutableLinkedList list option" where
  "TRY_REMOVE_NODE Index chain =
     (case chain of [] \<Rightarrow> None
      | n # ns \<Rightarrow> if fIndex n = Index then Some (n\<lparr>fUsed := False, fIndex := 0\<rparr> # ns) else None)"

definition NullableMutableArray_at :: "'v \<Rightarrow> nat \<Rightarrow> 'v NullableMutableArray \<Rightarrow> 'v" where
  "NullableMutableArray_at placeholder Index a =
     (case TRY_FIND_NODE Index (fFirstNode a) of Some v \<Rightarrow> v
      | None \<Rightarrow> case TRY_FIND_NODE Index (fLastNode a) of Some v \<Rightarrow> v | None \<Rightarrow> placeholder)"

definition NullableMutableArray_Count :: "'v NullableMutableArray \<Rightarrow> nat" where
  "NullableMutableArray_Count a = fNodeCount a"

definition NullableMutableArray_bool :: "'v NullableMutableArray \<Rightarrow> bool" where
  "NullableMutableArray_bool a \<longleftrightarrow> NullableMutableArray_Count a > 1"

definition NullableMutableArray_Remove :: "nat \<Rightarrow> 'v NullableMutableArray \<Rightarrow> bool \<times> 'v NullableMutableArray" where
  "NullableMutableArray_Remove Index a =
     (case TRY_REMOVE_NODE Index (fFirstNode a) of
        Some ns \<Rightarrow> (True, a\<lparr>fFirstNode := ns\<rparr>)
      | None \<Rightarrow>
        case TRY_REMOVE_NODE Index (fLastNode a) of
          Some ns \<Rightarrow> (True, a\<lparr>fLastNode := ns\<rparr>)
        | None \<Rightarrow> (False, a))"

fun add_to_chain :: "'v \<Rightarrow> 'v MutableLinkedList list \<Rightarrow> 'v MutableLinkedList list option" where
  "add_to_chain val [] = None"
| "add_to_chain val (n # ns) =
     (if \<not> fUsed n then Some (n\<lparr>fVal := val, fIndex := 0, fUsed := True\<rparr> # ns)
      else map_option ((#) n) (add_to_chain val ns))"

definition NullableMutableArray_Add ::
  "bool \<Rightarrow> 'v \<Rightarrow> 'v NullableMutableArray \<Rightarrow> fault + bool \<times> 'v NullableMutableArray" where
  "NullableMutableArray_Add dbg val a =
     bindF (must_pass dbg (fFirstNode a \<noteq> [])) (\<lambda>_.
       case add_to_chain val (fFirstNode a) of
         Some ns \<Rightarrow> Inr (True, a\<lparr>fFirstNode := ns, fNodeCount := fNodeCount a + 1\<rparr>)
       | None \<Rightarrow> Inr (False, a))"

text \<open>The nodes the destructor deletes.\<close>

definition NullableMutableArray_delete :: "'v NullableMutableArray \<Rightarrow> 'v MutableLinkedList list" where
  "NullableMutableArray_delete a = fFirstNode a"

subsection \<open>MutableArray\<close>

text \<open>
  The derived class has members of its own by the same names as the private ones of its base, an array of
  pointers. \<^verbatim>\<open>Remove\<close>, the test and the destructor are inherited: they work on the base's members.
\<close>

record 'v MutableArray =
  base_array :: "nat NullableMutableArray"
  maFirstNode :: "'v MutableLinkedList list"
  maLastNode :: "'v MutableLinkedList list"
  maNodeCount :: nat

definition MutableArray_new :: "'v MutableArray" where
  "MutableArray_new =
     \<lparr>base_array = NullableMutableArray_new 0, maFirstNode = [], maLastNode = [], maNodeCount = 0\<rparr>"

definition MutableArray_Add :: "'v \<Rightarrow> 'v \<Rightarrow> 'v MutableArray \<Rightarrow> bool \<times> 'v MutableArray" where
  "MutableArray_Add zero val a =
     (let a1 = (if maFirstNode a = [] then a\<lparr>maFirstNode := [MutableLinkedList_new zero]\<rparr> else a)
      in case add_to_chain val (maFirstNode a1) of
           Some ns \<Rightarrow> (True, a1\<lparr>maFirstNode := ns, maNodeCount := maNodeCount a1 + 1\<rparr>)
         | None \<Rightarrow> (False, a1))"

text \<open>\<open>None\<close> is the empty reference.\<close>

definition MutableArray_at :: "nat \<Rightarrow> 'v MutableArray \<Rightarrow> 'v option" where
  "MutableArray_at Index a =
     (case TRY_FIND_NODE Index (maFirstNode a) of Some v \<Rightarrow> Some v | None \<Rightarrow> TRY_FIND_NODE Index (maLastNode a))"

definition MutableArray_Count :: "'v MutableArray \<Rightarrow> nat" where
  "MutableArray_Count a = maNodeCount a"

definition MutableArray_Contains :: "'v \<Rightarrow> 'v MutableArray \<Rightarrow> bool" where
  "MutableArray_Contains value a \<longleftrightarrow> list_ex (\<lambda>n. fVal n = value \<and> fUsed n) (maFirstNode a)"

definition MutableArray_Remove :: "nat \<Rightarrow> 'v MutableArray \<Rightarrow> bool \<times> 'v MutableArray" where
  "MutableArray_Remove Index a =
     (case NullableMutableArray_Remove Index (base_array a) of (r, b) \<Rightarrow> (r, a\<lparr>base_array := b\<rparr>))"

definition MutableArray_bool :: "'v MutableArray \<Rightarrow> bool" where
  "MutableArray_bool a \<longleftrightarrow> NullableMutableArray_bool (base_array a)"

definition MutableArray_delete :: "'v MutableArray \<Rightarrow> nat MutableLinkedList list" where
  "MutableArray_delete a = NullableMutableArray_delete (base_array a)"

subsection \<open>Array, OwnPtr, ErrorOr, Function, Variant\<close>

type_synonym 'v Array = "'v list"

definition Array_at :: "nat \<Rightarrow> 'v Array \<Rightarrow> fault + 'v" where
  "Array_at i a = (if i < length a then Inr (a ! i) else Inl OutOfBounds)"

definition Array_Capacity :: "'v Array \<Rightarrow> nat" where "Array_Capacity a = length a"
definition Array_CData :: "'v Array \<Rightarrow> 'v list" where "Array_CData a = a"

text \<open>An owner is its pointer, which is not initialised: the first value is a parameter.\<close>

definition OwnPtr_New :: "nat \<Rightarrow> nat \<Rightarrow> bool \<times> nat" where
  "OwnPtr_New object fCls = (if fCls \<noteq> 0 then (False, fCls) else (object \<noteq> 0, object))"

definition OwnPtr_Delete :: "nat \<Rightarrow> nat list \<times> nat" where
  "OwnPtr_Delete fCls = (if fCls \<noteq> 0 then [fCls] else [], 0)"

definition OwnPtr_bool :: "nat \<Rightarrow> bool" where "OwnPtr_bool fCls \<longleftrightarrow> fCls \<noteq> 0"
definition OwnPtr_not :: "nat \<Rightarrow> bool" where "OwnPtr_not fCls \<longleftrightarrow> fCls = 0"

definition make_ptr :: "bool \<Rightarrow> nat \<Rightarrow> nat \<Rightarrow> fault + nat" where
  "make_ptr dbg uninit object =
     (let ret = snd (OwnPtr_New object uninit) in bindF (must_pass dbg (OwnPtr_bool ret)) (\<lambda>_. Inr ret))"

record 'v ErrorOrRef =
  mRef :: "'v option"
  mId :: "32 word"

definition ErrorOr_err :: "32 word \<Rightarrow> 'v ErrorOrRef" where "ErrorOr_err e = \<lparr>mRef = None, mId = e\<rparr>"
definition ErrorOr_null :: "'v ErrorOrRef" where "ErrorOr_null = \<lparr>mRef = None, mId = 0\<rparr>"
definition ErrorOr_val :: "'v \<Rightarrow> 'v ErrorOrRef" where "ErrorOr_val v = \<lparr>mRef = Some v, mId = 0\<rparr>"
definition ErrorOr_assign :: "'v option \<Rightarrow> 'v ErrorOrRef \<Rightarrow> 'v ErrorOrRef" where "ErrorOr_assign r e = e\<lparr>mRef := r\<rparr>"
definition ErrorOr_Leak :: "'v ErrorOrRef \<Rightarrow> 'v option" where "ErrorOr_Leak e = mRef e"
definition ErrorOr_Error :: "'v ErrorOrRef \<Rightarrow> 32 word" where "ErrorOr_Error e = mId e"
definition ErrorOr_bool :: "'v ErrorOrRef \<Rightarrow> bool" where "ErrorOr_bool e \<longleftrightarrow> mRef e \<noteq> None"

definition Function_call :: "('a \<Rightarrow> 'b) option \<Rightarrow> 'a \<Rightarrow> fault + 'b" where
  "Function_call fFn x = (case fFn of None \<Rightarrow> Inl NullDeref | Some f \<Rightarrow> Inr (f x))"

definition Function_bool :: "('a \<Rightarrow> 'b) option \<Rightarrow> bool" where "Function_bool fFn \<longleftrightarrow> fFn \<noteq> None"
definition Function_not :: "('a \<Rightarrow> 'b) option \<Rightarrow> bool" where "Function_not fFn \<longleftrightarrow> fFn = None"

datatype VariantKind = kString | kBlob | kNull | kJson | kXML

record Variant =
  fPtr :: nat
  fKind :: VariantKind

definition Variant_string :: "nat \<Rightarrow> Variant" where "Variant_string p = \<lparr>fPtr = p, fKind = kString\<rparr>"
definition Variant_json :: "nat \<Rightarrow> Variant" where "Variant_json p = \<lparr>fPtr = p, fKind = kJson\<rparr>"
definition Variant_null :: Variant where "Variant_null = \<lparr>fPtr = 0, fKind = kNull\<rparr>"
definition Variant_blob :: "nat \<Rightarrow> Variant" where "Variant_blob p = \<lparr>fPtr = p, fKind = kBlob\<rparr>"

fun Variant_ToString :: "VariantKind \<Rightarrow> string" where
  "Variant_ToString kXML = ''Class:{XML}''"
| "Variant_ToString kJson = ''Class:{Json}''"
| "Variant_ToString kString = ''Class:{String}''"
| "Variant_ToString kBlob = ''Class:{Blob}''"
| "Variant_ToString kNull = ''Class:{Null}''"

definition Variant_Leak :: "Variant \<Rightarrow> nat" where "Variant_Leak v = fPtr v"

subsection \<open>Runs of operations\<close>

datatype 'v array_op = AddOp 'v | RemoveOp nat

fun array_step :: "'v \<Rightarrow> 'v array_op \<Rightarrow> 'v MutableArray \<Rightarrow> bool \<times> 'v MutableArray" where
  "array_step zero (AddOp v) a = MutableArray_Add zero v a"
| "array_step zero (RemoveOp i) a = MutableArray_Remove i a"

fun array_run :: "'v \<Rightarrow> 'v array_op list \<Rightarrow> 'v MutableArray \<Rightarrow> bool list \<times> 'v MutableArray" where
  "array_run zero [] a = ([], a)"
| "array_run zero (op # ops) a =
     (case array_step zero op a of (r, a1) \<Rightarrow> case array_run zero ops a1 of (rs, a2) \<Rightarrow> (r # rs, a2))"

text \<open>What the array is for its callers: a cell that keeps the first value put into it.\<close>

fun cell_step :: "'v array_op \<Rightarrow> 'v option \<Rightarrow> bool \<times> 'v option" where
  "cell_step (AddOp v) None = (True, Some v)"
| "cell_step (AddOp v) (Some w) = (False, Some w)"
| "cell_step (RemoveOp i) c = (i = 0, c)"

fun cell_run :: "'v array_op list \<Rightarrow> 'v option \<Rightarrow> bool list \<times> 'v option" where
  "cell_run [] c = ([], c)"
| "cell_run (op # ops) c =
     (case cell_step op c of (r, c1) \<Rightarrow> case cell_run ops c1 of (rs, c2) \<Rightarrow> (r # rs, c2))"

definition cell_rel :: "'v option \<Rightarrow> 'v MutableArray \<Rightarrow> bool" where
  "cell_rel c a \<longleftrightarrow>
     maFirstNode a = (case c of None \<Rightarrow> [] | Some v \<Rightarrow> [\<lparr>fVal = v, fIndex = 0, fUsed = True\<rparr>]) \<and>
     maLastNode a = [] \<and> maNodeCount a = (case c of None \<Rightarrow> 0 | Some _ \<Rightarrow> 1) \<and>
     base_array a = NullableMutableArray_new 0"

lemma cell_rel_new: "cell_rel None MutableArray_new"
  by (simp add: cell_rel_def MutableArray_new_def)

lemma cell_rel_step:
  assumes "cell_rel c a"
  shows "fst (array_step zero op a) = fst (cell_step op c) \<and> cell_rel (snd (cell_step op c)) (snd (array_step zero op a))"
  using assms
  by (cases op; cases c)
    (auto simp: cell_rel_def MutableArray_Add_def MutableLinkedList_new_def MutableArray_Remove_def
      NullableMutableArray_Remove_def NullableMutableArray_new_def TRY_REMOVE_NODE_def Let_def)

lemma cell_rel_run:
  "cell_rel c a \<Longrightarrow>
   fst (array_run zero ops a) = fst (cell_run ops c) \<and> cell_rel (snd (cell_run ops c)) (snd (array_run zero ops a))"
proof (induction ops arbitrary: c a)
  case Nil
  then show ?case by simp
next
  case (Cons op ops)
  show ?case using cell_rel_step [OF Cons.prems, of zero op] Cons.IH [of "snd (cell_step op c)" "snd (array_step zero op a)"]
    by (simp add: case_prod_beta)
qed

subsection \<open>Properties\<close>

text \<open>
  C27. A \<^verbatim>\<open>MutableArray\<close> of any element type, after any additions and removals, is a cell that
  keeps the first value: a later addition is refused, a removal answers whether its index is zero and
  removes nothing, a look-up finds the value at index 0 only, the count is at most 1, and the array tests
  as false. What is destroyed with it is the node of the base class, never the one with the value.
\<close>

theorem MutableArray_is_a_cell:
  "fst (array_run zero ops MutableArray_new) = fst (cell_run ops None) \<and>
   (let a = snd (array_run zero ops MutableArray_new); c = snd (cell_run ops None) in
    MutableArray_at i a = (if i = 0 then c else None) \<and>
    MutableArray_Count a = (if c = None then 0 else 1) \<and>
    MutableArray_Contains v a = (c = Some v) \<and>
    \<not> MutableArray_bool a \<and>
    MutableArray_delete a = [MutableLinkedList_new 0])"
  using cell_rel_run [OF cell_rel_new, of zero ops]
  by (auto simp: Let_def cell_rel_def MutableArray_at_def TRY_FIND_NODE_def MutableArray_Count_def
      MutableArray_Contains_def MutableArray_bool_def NullableMutableArray_bool_def NullableMutableArray_Count_def
      MutableArray_delete_def NullableMutableArray_delete_def NullableMutableArray_new_def split: option.splits)

text \<open>The base class has one node: a removed value is still found, and the count only grows.\<close>

lemma NullableMutableArray_add_remove:
  "NullableMutableArray_Add dbg v (NullableMutableArray_new zero) =
     Inr (True, \<lparr>fFirstNode = [\<lparr>fVal = v, fIndex = 0, fUsed = True\<rparr>], fLastNode = [], fNodeCount = 1\<rparr>)"
  "NullableMutableArray_Add dbg w \<lparr>fFirstNode = [\<lparr>fVal = v, fIndex = 0, fUsed = True\<rparr>], fLastNode = [], fNodeCount = n\<rparr> =
     Inr (False, \<lparr>fFirstNode = [\<lparr>fVal = v, fIndex = 0, fUsed = True\<rparr>], fLastNode = [], fNodeCount = n\<rparr>)"
  "NullableMutableArray_Remove 0 \<lparr>fFirstNode = [\<lparr>fVal = v, fIndex = 0, fUsed = True\<rparr>], fLastNode = [], fNodeCount = n\<rparr> =
     (True, \<lparr>fFirstNode = [\<lparr>fVal = v, fIndex = 0, fUsed = False\<rparr>], fLastNode = [], fNodeCount = n\<rparr>)"
  "NullableMutableArray_at p 0 \<lparr>fFirstNode = [\<lparr>fVal = v, fIndex = 0, fUsed = False\<rparr>], fLastNode = [], fNodeCount = n\<rparr> = v"
  by (simp_all add: NullableMutableArray_Add_def NullableMutableArray_new_def MutableLinkedList_new_def
      NullableMutableArray_Remove_def TRY_REMOVE_NODE_def NullableMutableArray_at_def TRY_FIND_NODE_def)

text \<open>An owner that starts with a stale pointer keeps it: nothing is allocated, and the check passes.\<close>

lemma make_ptr_stale: "make_ptr dbg uninit object = (if uninit \<noteq> 0 then Inr uninit else bindF (must_pass dbg (object \<noteq> 0)) (\<lambda>_. Inr object))"
  by (simp add: make_ptr_def OwnPtr_New_def OwnPtr_bool_def)

end
