(* ===== verification/Json.thy ===== *)
theory Json
  imports KStr
begin

text \<open>
  \<^verbatim>\<open>NewKit/Json.h\<close>: the key and value pair \<^verbatim>\<open>JSON\<close> and its reader. Both members are strings
  with a buffer of their own in the kernel's memory; the addresses \<^verbatim>\<open>new\<close> gives are arguments, and so is
  the flag no constructor sets. The reader is related to a parser of character lists, and that one to
  the text of an object.
\<close>

subsection \<open>Objects\<close>

record JSON =
  fUndefined :: bool
  fKey :: KString
  fValue :: KString

definition kMaxJsonPath :: nat where "kMaxJsonPath = 4096"
definition kJSONLen :: nat where "kJSONLen = 32"

definition JSON_new_sz ::
  "bool \<Rightarrow> bool \<Rightarrow> nat \<Rightarrow> nat \<Rightarrow> nat \<Rightarrow> nat \<Rightarrow> mem \<Rightarrow> fault + (JSON \<times> mem)" where
  "JSON_new_sz dbg u kb vb lhsLen rhsLen m =
     bindF (KString_new_sz dbg kb lhsLen m) (\<lambda>(k, m1).
     bindF (KString_new_sz dbg vb rhsLen m1) (\<lambda>(v, m2).
       Inr (\<lparr>fUndefined = u, fKey = k, fValue = v\<rparr>, m2)))"

text \<open>
  The other constructor: both members get the local string, whose buffer at \<open>b\<close> is deleted at its
  end; the list holds what is deleted. \<open>null\<close> is the address of the literal.
\<close>

definition JSON_new ::
  "bool \<Rightarrow> bool \<Rightarrow> nat \<Rightarrow> nat \<Rightarrow> nat \<Rightarrow> nat \<Rightarrow> mem \<Rightarrow> (fault + (JSON \<times> nat list \<times> mem)) option" where
  "JSON_new dbg u kb vb b null m =
     (case bindF (KString_new dbg kb m) (\<lambda>(k, m1). bindF (KString_new dbg vb m1) (\<lambda>(v, m2).
             KString_new_sz dbg b kJSONLen m2)) of
        Inl e \<Rightarrow> Some (Inl e)
      | Inr (key, m3) \<Rightarrow>
         (case KString_append_cstr key null m3 of
            None \<Rightarrow> None
          | Some (key', m4) \<Rightarrow> Some (Inr (\<lparr>fUndefined = u, fKey = key', fValue = key'\<rparr>, [fData key'], m4))))"

text \<open>What the destructor deletes: the value's buffer and then the key's.\<close>

definition JSON_delete :: "JSON \<Rightarrow> nat list" where
  "JSON_delete j = filter (\<lambda>p. p \<noteq> 0) [fData (fValue j), fData (fKey j)]"

definition JSON_IsUndefined :: "JSON \<Rightarrow> bool" where "JSON_IsUndefined j = fUndefined j"
definition JSON_AsKey :: "JSON \<Rightarrow> KString" where "JSON_AsKey j = fKey j"
definition JSON_AsValue :: "JSON \<Rightarrow> KString" where "JSON_AsValue j = fValue j"

subsection \<open>The reader\<close>

fun json_loop ::
  "nat \<Rightarrow> u8 \<Rightarrow> u8 \<Rightarrow> nat \<Rightarrow> nat \<Rightarrow> nat \<Rightarrow> nat \<Rightarrow> bool \<Rightarrow> nat \<Rightarrow> nat \<Rightarrow> mem \<Rightarrow> nat \<times> nat \<times> mem" where
  "json_loop full start_val end_val kb vb 0 i probe key_len value_len m = (key_len, value_len, m)"
| "json_loop full start_val end_val kb vb (Suc left) i probe key_len value_len m =
     (let c = m (full + i) in
      if c = 13 \<or> c = 10 then json_loop full start_val end_val kb vb left (Suc i) probe key_len value_len m
      else if probe then
        (if c = end_val \<or> c = 44 then json_loop full start_val end_val kb vb left (Suc i) False key_len (value_len + 1) m
         else json_loop full start_val end_val kb vb left (Suc i) probe key_len (value_len + 1) (m(vb + value_len := c)))
      else if start_val = 91 then json_loop full start_val end_val kb vb left (Suc i) probe key_len value_len m
      else if c = 58 then
        json_loop full start_val end_val kb vb left (Suc i) True (key_len + 1) value_len (m(kb + key_len := 0))
      else json_loop full start_val end_val kb vb left (Suc i) probe (key_len + 1) value_len (m(kb + key_len := c)))"

definition JsonStreamReader_In ::
  "bool \<Rightarrow> bool \<Rightarrow> nat \<Rightarrow> nat \<Rightarrow> JSON \<Rightarrow> nat \<Rightarrow> mem \<Rightarrow> (fault + (JSON \<times> mem)) option" where
  "JsonStreamReader_In dbg u kb vb JSON_kNull full m =
     (if m full \<noteq> 123 \<and> m full \<noteq> 91 then Some (Inr (JSON_kNull, m))
      else let start_val = m full;
               end_val = (if start_val = 123 then 125 else 93);
               probe = (start_val = 91) in
        case rt_string_len m full of
          None \<Rightarrow> None
        | Some len \<Rightarrow>
           (case JSON_new_sz dbg u kb vb kMaxJsonPath kMaxJsonPath m of
              Inl e \<Rightarrow> Some (Inl e)
            | Inr (type, m1) \<Rightarrow>
               (case json_loop full start_val end_val (fData (fKey type)) (fData (fValue type)) (len - 1) 1 probe 0 0 m1 of
                  (kl, vl, m2) \<Rightarrow> Some (Inr (type, m2(fData (fValue type) + vl := 0))))))"

subsection \<open>A parser of lists\<close>

text \<open>
  The same over the characters: the buffers are the lists of what has been put into them; the character
  that ends a value leaves the zero the buffer was filled with.
\<close>

fun json_chars :: "u8 \<Rightarrow> u8 \<Rightarrow> u8 list \<Rightarrow> bool \<Rightarrow> u8 list \<Rightarrow> u8 list \<Rightarrow> u8 list \<times> u8 list" where
  "json_chars st en [] probe ks vs = (ks, vs)"
| "json_chars st en (c # cs) probe ks vs =
     (if c = 13 \<or> c = 10 then json_chars st en cs probe ks vs
      else if probe then
        (if c = en \<or> c = 44 then json_chars st en cs False ks (vs @ [0])
         else json_chars st en cs probe ks (vs @ [c]))
      else if st = 91 then json_chars st en cs probe ks vs
      else if c = 58 then json_chars st en cs True (ks @ [0]) vs
      else json_chars st en cs probe (ks @ [c]) vs)"

lemma json_chars_length:
  "length (fst (json_chars st en cs probe ks vs)) \<le> length ks + length cs \<and>
   length (snd (json_chars st en cs probe ks vs)) \<le> length vs + length cs"
proof (induction cs arbitrary: probe ks vs)
  case Nil
  then show ?case by simp
next
  case (Cons c cs)
  show ?case
    using Cons [of True ks vs] Cons [of False ks vs] Cons [of False ks "vs @ [0]"] Cons [of True ks "vs @ [c]"]
      Cons [of True "ks @ [0]" vs] Cons [of False "ks @ [c]" vs]
    by (cases probe) auto
qed

lemma write_bytes_snoc: "write_bytes a (bs @ [c]) m = (write_bytes a bs m)(a + length bs := c)"
  by (auto simp: write_bytes_def fun_eq_iff nth_append)

definition json_areas :: "nat \<Rightarrow> nat \<Rightarrow> nat \<Rightarrow> nat \<Rightarrow> bool" where
  "json_areas full n kb vb \<longleftrightarrow>
     disjoint_ext full n kb (4 * kMaxJsonPath) \<and> disjoint_ext full n vb (4 * kMaxJsonPath) \<and>
     disjoint_ext kb kMaxJsonPath vb kMaxJsonPath"

lemma json_loop_chars:
  assumes "json_areas full (i + length cs) kb vb"
    and "\<forall>j < length cs. m (full + i + j) = cs ! j"
    and "\<forall>j < kMaxJsonPath. m (vb + j) = 0"
    and "length ks + length cs < kMaxJsonPath" and "length vs + length cs < kMaxJsonPath"
  shows "json_loop full st en kb vb (length cs) i probe (length ks) (length vs) (write_bytes kb ks (write_bytes vb vs m)) =
    (case json_chars st en cs probe ks vs of (ks', vs') \<Rightarrow>
       (length ks', length vs', write_bytes kb ks' (write_bytes vb vs' m)))"
  using assms
proof (induction cs arbitrary: i probe ks vs)
  case Nil
  then show ?case by simp
next
  case (Cons c cs)
  let ?m = "\<lambda>ks vs. write_bytes kb ks (write_bytes vb vs m)"
  have areas: "json_areas full (Suc i + length cs) kb vb" using Cons.prems(1) by (simp add: json_areas_def)
  have chars: "\<forall>j < length cs. m (full + Suc i + j) = cs ! j"
    using Cons.prems(2) by (auto dest: spec [of _ "Suc _"])
  have c: "?m ks vs (full + i) = c"
    using Cons.prems by (auto simp: write_bytes_def json_areas_def disjoint_ext_def kMaxJsonPath_def dest: spec [of _ 0])
  note IH = Cons.IH [OF areas chars Cons.prems(3)]
  have k: "(?m ks vs)(kb + length ks := x) = ?m (ks @ [x]) vs" for x by (simp add: write_bytes_snoc)
  have v: "(?m ks vs)(vb + length vs := x) = ?m ks (vs @ [x])" for x
    using Cons.prems(1,4,5) by (auto simp: write_bytes_def json_areas_def disjoint_ext_def fun_eq_iff nth_append)
  have z: "?m ks (vs @ [0]) = ?m ks vs"
  proof -
    have "m (vb + length vs) = 0" using Cons.prems(3,5) by simp
    then have "write_bytes vb (vs @ [0]) m x = write_bytes vb vs m x" for x
      by (cases "x = vb + length vs") (auto simp: write_bytes_def nth_append)
    then have "write_bytes vb (vs @ [0]) m = write_bytes vb vs m" by (rule ext)
    then show ?thesis by simp
  qed
  note steps = IH [of ks vs] IH [of "ks @ [0]" vs] IH [of "ks @ [c]" vs] IH [of ks "vs @ [0]"] IH [of ks "vs @ [c]"]
  consider "c = 13 \<or> c = 10" | "c \<noteq> 13" "c \<noteq> 10" "probe" "c = en \<or> c = 44"
    | "c \<noteq> 13" "c \<noteq> 10" "probe" "c \<noteq> en" "c \<noteq> 44" | "c \<noteq> 13" "c \<noteq> 10" "\<not> probe" "st = 91"
    | "c \<noteq> 13" "c \<noteq> 10" "\<not> probe" "st \<noteq> 91" "c = 58" | "c \<noteq> 13" "c \<noteq> 10" "\<not> probe" "st \<noteq> 91" "c \<noteq> 58"
    by blast
  then show ?case
  proof cases
    case 2
    then have "json_loop full st en kb vb (length (c # cs)) i probe (length ks) (length vs) (?m ks vs) =
        json_loop full st en kb vb (length cs) (Suc i) False (length ks) (length (vs @ [0])) (?m ks (vs @ [0]))"
      using c z by (simp add: Let_def)
    moreover have "json_chars st en (c # cs) probe ks vs = json_chars st en cs False ks (vs @ [0])"
      using 2 by simp
    ultimately show ?thesis using steps(4) [of False] Cons.prems(4,5) by simp
  qed (use c k v steps Cons.prems(4,5) in \<open>simp_all add: Let_def\<close>)
qed

subsection \<open>Texts of objects\<close>

fun members_text :: "(u8 list \<times> u8 list) list \<Rightarrow> u8 list" where
  "members_text [] = [125]"
| "members_text [(k, v)] = k @ 58 # v @ [125]"
| "members_text ((k, v) # p # ps) = k @ 58 # v @ 44 # members_text (p # ps)"

definition object_text :: "(u8 list \<times> u8 list) list \<Rightarrow> u8 list" where
  "object_text ps = 123 # members_text ps"

definition plain_members :: "(u8 list \<times> u8 list) list \<Rightarrow> bool" where
  "plain_members ps \<longleftrightarrow> (\<forall>(k, v) \<in> set ps. set k \<inter> {0, 10, 13, 58} = {} \<and> set v \<inter> {0, 10, 13, 44, 125} = {})"

lemma json_chars_key:
  "set k \<inter> {10, 13, 58} = {} \<Longrightarrow> st \<noteq> 91 \<Longrightarrow>
   json_chars st en (k @ cs) False ks vs = json_chars st en cs False (ks @ k) vs"
  by (induction k arbitrary: ks) auto

lemma json_chars_value:
  "set v \<inter> {10, 13, 44, en} = {} \<Longrightarrow>
   json_chars st en (v @ cs) True ks vs = json_chars st en cs True ks (vs @ v)"
  by (induction v arbitrary: vs) auto

lemma json_chars_members:
  "plain_members ps \<Longrightarrow> ps \<noteq> [] \<Longrightarrow>
   json_chars 123 125 (members_text ps) False ks vs =
     (ks @ concat (map (\<lambda>(k, v). k @ [0]) ps), vs @ concat (map (\<lambda>(k, v). v @ [0]) ps))"
proof (induction ps arbitrary: ks vs rule: members_text.induct)
  case 1
  then show ?case by simp
next
  case (2 k v)
  then show ?case by (auto simp: plain_members_def json_chars_key json_chars_value)
next
  case (3 k v p ps)
  then have "plain_members (p # ps)" "set k \<inter> {10, 13, 58} = {}" "set v \<inter> {10, 13, 44, 125} = {}"
    by (auto simp: plain_members_def)
  then show ?case using "3.IH" by (simp add: json_chars_key json_chars_value)
qed

text \<open>Of an array only the first element is kept, and there is no key.\<close>

lemma json_chars_array:
  assumes "set v \<inter> {10, 13, 44, 93} = {}" and "x = 44 \<or> x = 93"
  shows "json_chars 91 93 (v @ x # cs) True [] [] = ([], v @ [0])"
proof -
  have "json_chars 91 93 cs False ks vs = (ks, vs)" for ks vs by (induction cs) auto
  then show ?thesis using assms by (auto simp: json_chars_value)
qed

lemma members_text_nonzero: "plain_members ps \<Longrightarrow> 0 \<notin> set (members_text ps)"
  by (induction ps rule: members_text.induct) (auto simp: plain_members_def)

subsection \<open>The reader and the parser\<close>

lemma zeroed: "snd (rt_set_memory a 0 n m) j = (if a \<le> j \<and> j < a + 4 * n then 0 else m j)"
proof -
  have "le_bytes n 0 = replicate n 0" for n by (induction n) simp_all
  then have "enc32 0 ! (x mod 4) = 0" for x by (simp add: enc32_def)
  then show ?thesis by (simp add: KString_new_sz_memory)
qed

lemma reader_refines_parser:
  assumes str: "c_string m full = Some (c # cs)" and c: "c = 123 \<and> en = 125 \<or> c = 91 \<and> en = 93"
    and areas: "json_areas full (length cs + 2) kb vb" and "length cs < kMaxJsonPath" and "kb \<noteq> 0" and "vb \<noteq> 0"
    and r: "json_chars c en cs (c = 91) [] [] = (ks, vs)"
  shows "\<exists>m'. JsonStreamReader_In dbg u kb vb kn full m =
      Some (Inr (\<lparr>fUndefined = u, fKey = \<lparr>fData = kb, fDataSz = kMaxJsonPath, fCur = 0\<rparr>,
        fValue = \<lparr>fData = vb, fDataSz = kMaxJsonPath, fCur = 0\<rparr>\<rparr>, m')) \<and>
    read_bytes kb (length ks) m' = ks \<and> read_bytes vb (length vs + 1) m' = vs @ [0]"
proof -
  let ?m1 = "snd (rt_set_memory vb 0 kMaxJsonPath (snd (rt_set_memory kb 0 kMaxJsonPath m)))"
  let ?m2 = "write_bytes kb ks (write_bytes vb vs ?m1)"
  obtain n where n: "rt_string_len m full = Some n" "read_bytes full n m = c # cs"
    using str by (auto simp: c_string_def)
  then have len: "n = Suc (length cs)" by (metis length_Cons length_read_bytes)
  have at: "m (full + j) = (c # cs) ! j" if "j < Suc (length cs)" for j
    using that n(2) read_bytes_nth [of j n full m] len by simp
  have m0: "?m1 (full + j) = m (full + j)" if "j < length cs + 2" for j
    using areas that by (auto simp: zeroed json_areas_def disjoint_ext_def)
  have l: "length ks \<le> length cs" "length vs \<le> length cs" using json_chars_length [of c en cs "c = 91" "[]" "[]"] r by auto
  have loop: "json_loop full c en kb vb (length cs) 1 (c = 91) 0 0 ?m1 = (length ks, length vs, ?m2)"
  proof -
    have "json_areas full (1 + length cs) kb vb" using areas by (auto simp: json_areas_def disjoint_ext_def)
    moreover have "\<forall>j < length cs. ?m1 (full + 1 + j) = cs ! j"
    proof (intro allI impI)
      fix j assume "j < length cs"
      then show "?m1 (full + 1 + j) = cs ! j" using m0 [of "Suc j"] at [of "Suc j"] by simp
    qed
    moreover have "\<forall>j < kMaxJsonPath. ?m1 (vb + j) = 0" by (simp add: zeroed)
    ultimately show ?thesis
      using json_loop_chars [of full 1 cs kb vb ?m1 "[]" "[]" c en "c = 91"] assms(4) r by (simp add: write_bytes_Nil)
  qed
  have fin: "?m2(vb + length vs := 0) = write_bytes kb ks (write_bytes vb (vs @ [0]) ?m1)"
    using areas l assms(4) by (auto simp: write_bytes_def json_areas_def disjoint_ext_def fun_eq_iff nth_append)
  have dbg: "KString_new_sz dbg b kMaxJsonPath m = Inr (\<lparr>fData = b, fDataSz = kMaxJsonPath, fCur = 0\<rparr>, snd (rt_set_memory b 0 kMaxJsonPath m))"
    if "b \<noteq> 0" for b m
    using that by (simp add: KString_new_sz_def kMaxJsonPath_def)
  have "JsonStreamReader_In dbg u kb vb kn full m =
      Some (Inr (\<lparr>fUndefined = u, fKey = \<lparr>fData = kb, fDataSz = kMaxJsonPath, fCur = 0\<rparr>,
        fValue = \<lparr>fData = vb, fDataSz = kMaxJsonPath, fCur = 0\<rparr>\<rparr>, ?m2(vb + length vs := 0)))"
    using at [of 0] n(1) len c loop assms(5,6)
    by (auto simp: JsonStreamReader_In_def JSON_new_sz_def dbg Let_def)
  moreover have "read_bytes kb (length ks) (write_bytes kb ks (write_bytes vb (vs @ [0]) ?m1)) = ks"
    by (rule read_write_bytes_same)
  moreover have "read_bytes vb (length vs + 1) (write_bytes kb ks (write_bytes vb (vs @ [0]) ?m1)) = vs @ [0]"
    using areas l assms(4) read_write_bytes_same [of vb "vs @ [0]" ?m1]
    by (subst read_write_bytes_disjoint) (auto simp: json_areas_def disjoint_ext_def)
  ultimately show ?thesis unfolding fin by (intro exI conjI)
qed

subsection \<open>Properties\<close>

text \<open>
  C28. Reading the text of an object with at least one member, whose keys have no colon and whose values
  have no comma or closing brace: the key's buffer holds the keys and the value's buffer the values, each
  followed by a zero, and nothing else of the text is kept. Texts are limited to the size of a buffer; the
  text must not be in the four times that size that clearing each buffer writes.
\<close>

theorem json_object_round_trip:
  assumes "plain_members ps" and "ps \<noteq> []" and "c_string m full = Some (object_text ps)"
    and "json_areas full (length (object_text ps) + 1) kb vb" and "length (object_text ps) \<le> kMaxJsonPath"
    and "kb \<noteq> 0" and "vb \<noteq> 0"
  shows "\<exists>j m'. JsonStreamReader_In dbg u kb vb kn full m = Some (Inr (j, m')) \<and>
    (let keys = concat (map (\<lambda>(k, v). k @ [0]) ps); vals = concat (map (\<lambda>(k, v). v @ [0]) ps) in
     read_bytes (KString_Data (JSON_AsKey j)) (length keys) m' = keys \<and>
     read_bytes (KString_Data (JSON_AsValue j)) (length vals + 1) m' = vals @ [0])"
  using reader_refines_parser [of m full 123 "members_text ps" 125 kb vb _ _ dbg u kn]
    json_chars_members [OF assms(1,2), of "[]" "[]"] assms(3-7)
  by (fastforce simp: object_text_def Let_def JSON_AsKey_def JSON_AsValue_def KString_Data_def)

theorem json_object_round_trip_witness:
  "\<exists>j m'. JsonStreamReader_In True False 2 20000 \<lparr>fUndefined = False, fKey = \<lparr>fData = 7, fDataSz = 32, fCur = 4\<rparr>,
       fValue = \<lparr>fData = 7, fDataSz = 32, fCur = 4\<rparr>\<rparr> 50000
       (write_bytes 50000 [123, 97, 58, 49, 44, 98, 58, 50, 125] (\<lambda>_. 0)) = Some (Inr (j, m')) \<and>
     read_bytes (KString_Data (JSON_AsKey j)) 4 m' = [97, 0, 98, 0] \<and>
     read_bytes (KString_Data (JSON_AsValue j)) 5 m' = [49, 0, 50, 0, 0]"
proof -
  let ?t = "[123, 97, 58, 49, 44, 98, 58, 50, 125] :: u8 list"
  let ?m = "write_bytes 50000 ?t (\<lambda>_. 0)"
  let ?ps = "[([97], [49]), ([98], [50])] :: (u8 list \<times> u8 list) list"
  have t: "object_text ?ps = ?t" by (simp add: object_text_def)
  have b: "read_bytes 50000 (length ?t) ?m = ?t" by (rule read_write_bytes_same)
  have "\<forall>x \<in> set ?t. x \<noteq> 0" by simp
  then have "?m (50000 + i) \<noteq> 0" if "i < length ?t" for i
    using that read_bytes_nth [of i "length ?t" 50000 ?m] unfolding b by (metis nth_mem)
  moreover have "?m (50000 + length ?t) = 0" by (subst write_bytes_outside) simp_all
  ultimately have "rt_string_len ?m 50000 = Some (length ?t)" by (simp only: rt_string_len_iff) blast
  then have "c_string ?m 50000 = Some (object_text ?ps)" using b unfolding t c_string_def by simp
  then have "\<exists>j m'. JsonStreamReader_In True False 2 20000 kn 50000 ?m = Some (Inr (j, m')) \<and>
      read_bytes (KString_Data (JSON_AsKey j)) (length [97, 0, 98, 0 :: u8]) m' = [97, 0, 98, 0] \<and>
      read_bytes (KString_Data (JSON_AsValue j)) (length [49, 0, 50, 0, 0 :: u8]) m' = [49, 0, 50, 0, 0]" for kn
    using json_object_round_trip [of ?ps ?m 50000 2 20000 True False kn]
    by (simp add: t plain_members_def json_areas_def disjoint_ext_def kMaxJsonPath_def)
  moreover have "length [97, 0, 98, 0 :: u8] = 4" "length [49, 0, 50, 0, 0 :: u8] = 5" by simp_all
  ultimately show ?thesis by metis
qed

text \<open>The null object shares one deleted buffer between its members, and is not marked undefined by its constructor.\<close>

lemma JSON_new_shares:
  "JSON_new dbg u kb vb b null m = Some (Inr (j, freed, m')) \<Longrightarrow>
   fKey j = fValue j \<and> freed = [fData (fKey j)] \<and> JSON_IsUndefined j = u"
  by (auto simp: JSON_new_def JSON_IsUndefined_def split: sum.splits option.splits)

end
