(* ===== verification/Gfx.thy ===== *)
theory Gfx
  imports KStr
begin

text \<open>
  Drawing on the frame buffer: the macros of \<^verbatim>\<open>Mod/CoreGfx/FBMgr.h\<close> and the text of
  \<^verbatim>\<open>Mod/CoreGfx/TextMgr.h\<close>. A pixel is four bytes of memory, at an address computed with the
  widths of the code: the first coordinate counts lines, the second pixels of a line. The operations are
  related to a screen, a function from coordinates to colours.
\<close>

subsection \<open>The frame buffer of the handover header\<close>

record GOP =
  f_The :: u64
  f_Size :: u64
  f_Width :: u32
  f_Height :: u32
  f_PixelFormat :: u32
  f_PixelPerLine :: u32

definition RGB :: "u32 \<Rightarrow> u32 \<Rightarrow> u32 \<Rightarrow> u32" where
  "RGB R G B = R OR push_bit 8 G OR push_bit 16 B"

definition fb_get_clear_clr :: u32 where
  "fb_get_clear_clr = RGB 0x20 0x20 0x20"

definition UIAccessibilty_Width :: "GOP \<Rightarrow> u64" where "UIAccessibilty_Width g = ucast (f_Width g)"
definition UIAccessibilty_Height :: "GOP \<Rightarrow> u64" where "UIAccessibilty_Height g = ucast (f_Height g)"

text \<open>The address of a pixel in the buffer that starts at \<open>rgn\<close>: \<open>4 * f_PixelPerLine\<close> has 32 bits.\<close>

definition pixel_address :: "GOP \<Rightarrow> u64 \<Rightarrow> nat \<Rightarrow> nat \<Rightarrow> nat" where
  "pixel_address g rgn i u = unat (rgn + ucast (4 * f_PixelPerLine g) * of_nat i + 4 * of_nat u)"

text \<open>The two loops every macro has.\<close>

definition each_pixel :: "u64 \<Rightarrow> u64 \<Rightarrow> u64 \<Rightarrow> u64 \<Rightarrow> (nat \<Rightarrow> nat \<Rightarrow> 's \<Rightarrow> 's) \<Rightarrow> 's \<Rightarrow> 's" where
  "each_pixel height width base_x base_y draw s =
     fold (\<lambda>i. fold (draw i) [unat base_y ..< unat (height + base_y)]) [unat base_x ..< unat (width + base_x)] s"

definition FBDrawInRegion :: "GOP \<Rightarrow> u32 \<Rightarrow> u64 \<Rightarrow> u64 \<Rightarrow> u64 \<Rightarrow> u64 \<Rightarrow> mem \<Rightarrow> mem" where
  "FBDrawInRegion g Clr height width base_x base_y m =
     each_pixel height width base_x base_y (\<lambda>x y m. store32 (pixel_address g (f_The g) x y) Clr m) m"

definition FBDrawInRegionA :: "GOP \<Rightarrow> u32 \<Rightarrow> u64 \<Rightarrow> u64 \<Rightarrow> u64 \<Rightarrow> u64 \<Rightarrow> mem \<Rightarrow> mem" where
  "FBDrawInRegionA g Clr height width base_x base_y m =
     each_pixel height width base_x base_y
       (\<lambda>x y m. let a = pixel_address g (f_The g) x y in store32 a (load32 a m OR Clr) m) m"

definition CGClearRegion :: "GOP \<Rightarrow> u64 \<Rightarrow> u64 \<Rightarrow> u64 \<Rightarrow> u64 \<Rightarrow> mem \<Rightarrow> mem" where
  "CGClearRegion g height width base_x base_y m =
     each_pixel height width base_x base_y (\<lambda>i u m. store32 (pixel_address g (f_The g) i u) fb_get_clear_clr m) m"

text \<open>The others read an array of pixels at \<open>kCGCursor\<close>, which they advance.\<close>

definition FBDrawBitMapInRegionToRgn ::
  "GOP \<Rightarrow> u64 \<Rightarrow> nat \<Rightarrow> u64 \<Rightarrow> u64 \<Rightarrow> u64 \<Rightarrow> u64 \<Rightarrow> nat \<times> mem \<Rightarrow> nat \<times> mem" where
  "FBDrawBitMapInRegionToRgn g Rgn reg_ptr height width base_x base_y =
     each_pixel height width base_x base_y
       (\<lambda>i u (kCGCursor, m).
          (Suc kCGCursor, store32 (pixel_address g Rgn i u) (load32 (reg_ptr + 4 * kCGCursor) m) m))"

definition FBDrawBitMapInRegion ::
  "GOP \<Rightarrow> nat \<Rightarrow> u64 \<Rightarrow> u64 \<Rightarrow> u64 \<Rightarrow> u64 \<Rightarrow> nat \<times> mem \<Rightarrow> nat \<times> mem" where
  "FBDrawBitMapInRegion g reg_ptr height width base_x base_y =
     each_pixel height width base_x base_y
       (\<lambda>i u (kCGCursor, m).
          (Suc kCGCursor, store32 (pixel_address g (f_The g) i u) (load32 (reg_ptr + 4 * kCGCursor) m) m))"

definition FBDrawBitMapInRegionA ::
  "GOP \<Rightarrow> nat \<Rightarrow> u64 \<Rightarrow> u64 \<Rightarrow> u64 \<Rightarrow> u64 \<Rightarrow> nat \<times> mem \<Rightarrow> nat \<times> mem" where
  "FBDrawBitMapInRegionA g reg_ptr height width base_x base_y =
     each_pixel height width base_x base_y
       (\<lambda>i u (kCGCursor, m). let a = pixel_address g (f_The g) i u in
          (Suc kCGCursor, store32 a (load32 a m OR load32 (reg_ptr + 4 * kCGCursor) m) m))"

definition FBDrawInRegionToRgn ::
  "GOP \<Rightarrow> u64 \<Rightarrow> nat \<Rightarrow> u64 \<Rightarrow> u64 \<Rightarrow> u64 \<Rightarrow> u64 \<Rightarrow> nat \<times> mem \<Rightarrow> nat \<times> mem" where
  "FBDrawInRegionToRgn g Rgn Clr height width base_x base_y =
     each_pixel height width base_x base_y
       (\<lambda>x y (kCGCursor, m).
          (Suc kCGCursor, store32 (pixel_address g Rgn x y) (load32 (Clr + 4 * kCGCursor) m) m))"

definition fb_clear_video :: "GOP \<Rightarrow> mem \<Rightarrow> mem" where
  "fb_clear_video g m =
     FBDrawInRegion g fb_get_clear_clr (UIAccessibilty_Height g) (UIAccessibilty_Width g) 0 0 m"

subsection \<open>Text\<close>

definition kFontSizeX :: nat where "kFontSizeX = 8"
definition kFontSizeY :: nat where "kFontSizeY = 8"
definition kFontNOFChars :: nat where "kFontNOFChars = 128"

definition kFontBitmap :: "u8 list list" where
  "kFontBitmap = [
    [0, 0, 0, 0, 0, 0, 0, 0], [0, 0, 0, 0, 0, 0, 0, 0],
    [0, 0, 0, 0, 0, 0, 0, 0], [0, 0, 0, 0, 0, 0, 0, 0],
    [0, 0, 0, 0, 0, 0, 0, 0], [0, 0, 0, 0, 0, 0, 0, 0],
    [0, 0, 0, 0, 0, 0, 0, 0], [0, 0, 0, 0, 0, 0, 0, 0],
    [0, 0, 0, 0, 0, 0, 0, 0], [0, 0, 0, 0, 0, 0, 0, 0],
    [0, 0, 0, 0, 0, 0, 0, 0], [0, 0, 0, 0, 0, 0, 0, 0],
    [0, 0, 0, 0, 0, 0, 0, 0], [0, 0, 0, 0, 0, 0, 0, 0],
    [0, 0, 0, 0, 0, 0, 0, 0], [0, 0, 0, 0, 0, 0, 0, 0],
    [0, 0, 0, 0, 0, 0, 0, 0], [0, 0, 0, 0, 0, 0, 0, 0],
    [0, 0, 0, 0, 0, 0, 0, 0], [0, 0, 0, 0, 0, 0, 0, 0],
    [0, 0, 0, 0, 0, 0, 0, 0], [0, 0, 0, 0, 0, 0, 0, 0],
    [0, 0, 0, 0, 0, 0, 0, 0], [0, 0, 0, 0, 0, 0, 0, 0],
    [0, 0, 0, 0, 0, 0, 0, 0], [0, 0, 0, 0, 0, 0, 0, 0],
    [0, 0, 0, 0, 0, 0, 0, 0], [0, 0, 0, 0, 0, 0, 0, 0],
    [0, 0, 0, 0, 0, 0, 0, 0], [0, 0, 0, 0, 0, 0, 0, 0],
    [0, 0, 0, 0, 0, 0, 0, 0], [0, 0, 0, 0, 0, 0, 0, 0],
    [0, 0, 0, 0, 0, 0, 0, 0], [0x18, 0x3C, 0x3C, 0x18, 0x18, 0, 0x18, 0],
    [0x36, 0x36, 0, 0, 0, 0, 0, 0], [0x36, 0x36, 0x7F, 0x36, 0x7F, 0x36, 0x36, 0],
    [0x0C, 0x3E, 0x03, 0x1E, 0x30, 0x1F, 0x0C, 0], [0, 0x63, 0x33, 0x18, 0x0C, 0x66, 0x63, 0],
    [0x1C, 0x36, 0x1C, 0x6E, 0x3B, 0x33, 0x6E, 0], [0x06, 0x06, 0x03, 0, 0, 0, 0, 0],
    [0x18, 0x0C, 0x06, 0x06, 0x06, 0x0C, 0x18, 0], [0x06, 0x0C, 0x18, 0x18, 0x18, 0x0C, 0x06, 0],
    [0, 0x66, 0x3C, 0xFF, 0x3C, 0x66, 0, 0], [0, 0x0C, 0x0C, 0x3F, 0x0C, 0x0C, 0, 0],
    [0, 0, 0, 0, 0, 0x0C, 0x0C, 0x06], [0, 0, 0, 0x3F, 0, 0, 0, 0],
    [0, 0, 0, 0, 0, 0x0C, 0x0C, 0], [0x60, 0x30, 0x18, 0x0C, 0x06, 0x03, 0x01, 0],
    [0x3E, 0x63, 0x73, 0x7B, 0x6F, 0x67, 0x3E, 0], [0x0C, 0x0E, 0x0C, 0x0C, 0x0C, 0x0C, 0x3F, 0],
    [0x1E, 0x33, 0x30, 0x1C, 0x06, 0x33, 0x3F, 0], [0x1E, 0x33, 0x30, 0x1C, 0x30, 0x33, 0x1E, 0],
    [0x38, 0x3C, 0x36, 0x33, 0x7F, 0x30, 0x78, 0], [0x3F, 0x03, 0x1F, 0x30, 0x30, 0x33, 0x1E, 0],
    [0x1C, 0x06, 0x03, 0x1F, 0x33, 0x33, 0x1E, 0], [0x3F, 0x33, 0x30, 0x18, 0x0C, 0x0C, 0x0C, 0],
    [0x1E, 0x33, 0x33, 0x1E, 0x33, 0x33, 0x1E, 0], [0x1E, 0x33, 0x33, 0x3E, 0x30, 0x18, 0x0E, 0],
    [0, 0x0C, 0x0C, 0, 0, 0x0C, 0x0C, 0], [0, 0x0C, 0x0C, 0, 0, 0x0C, 0x0C, 0x06],
    [0x18, 0x0C, 0x06, 0x03, 0x06, 0x0C, 0x18, 0], [0, 0, 0x3F, 0, 0, 0x3F, 0, 0],
    [0x06, 0x0C, 0x18, 0x30, 0x18, 0x0C, 0x06, 0], [0x1E, 0x33, 0x30, 0x18, 0x0C, 0, 0x0C, 0],
    [0x3E, 0x63, 0x7B, 0x7B, 0x7B, 0x03, 0x1E, 0], [0x0C, 0x1E, 0x33, 0x33, 0x3F, 0x33, 0x33, 0],
    [0x3F, 0x66, 0x66, 0x3E, 0x66, 0x66, 0x3F, 0], [0x3C, 0x66, 0x03, 0x03, 0x03, 0x66, 0x3C, 0],
    [0x1F, 0x36, 0x66, 0x66, 0x66, 0x36, 0x1F, 0], [0x7F, 0x46, 0x16, 0x1E, 0x16, 0x46, 0x7F, 0],
    [0x7F, 0x46, 0x16, 0x1E, 0x16, 0x06, 0x0F, 0], [0x3C, 0x66, 0x03, 0x03, 0x73, 0x66, 0x7C, 0],
    [0x33, 0x33, 0x33, 0x3F, 0x33, 0x33, 0x33, 0], [0x1E, 0x0C, 0x0C, 0x0C, 0x0C, 0x0C, 0x1E, 0],
    [0x78, 0x30, 0x30, 0x30, 0x33, 0x33, 0x1E, 0], [0x67, 0x66, 0x36, 0x1E, 0x36, 0x66, 0x67, 0],
    [0x0F, 0x06, 0x06, 0x06, 0x46, 0x66, 0x7F, 0], [0x63, 0x77, 0x7F, 0x7F, 0x6B, 0x63, 0x63, 0],
    [0x63, 0x67, 0x6F, 0x7B, 0x73, 0x63, 0x63, 0], [0x1C, 0x36, 0x63, 0x63, 0x63, 0x36, 0x1C, 0],
    [0x3F, 0x66, 0x66, 0x3E, 0x06, 0x06, 0x0F, 0], [0x1E, 0x33, 0x33, 0x33, 0x3B, 0x1E, 0x38, 0],
    [0x3F, 0x66, 0x66, 0x3E, 0x36, 0x66, 0x67, 0], [0x1E, 0x33, 0x07, 0x0E, 0x38, 0x33, 0x1E, 0],
    [0x3F, 0x2D, 0x0C, 0x0C, 0x0C, 0x0C, 0x1E, 0], [0x33, 0x33, 0x33, 0x33, 0x33, 0x33, 0x3F, 0],
    [0x33, 0x33, 0x33, 0x33, 0x33, 0x1E, 0x0C, 0], [0x63, 0x63, 0x63, 0x6B, 0x7F, 0x77, 0x63, 0],
    [0x63, 0x63, 0x36, 0x1C, 0x1C, 0x36, 0x63, 0], [0x33, 0x33, 0x33, 0x1E, 0x0C, 0x0C, 0x1E, 0],
    [0x7F, 0x63, 0x31, 0x18, 0x4C, 0x66, 0x7F, 0], [0x1E, 0x06, 0x06, 0x06, 0x06, 0x06, 0x1E, 0],
    [0x03, 0x06, 0x0C, 0x18, 0x30, 0x60, 0x40, 0], [0x1E, 0x18, 0x18, 0x18, 0x18, 0x18, 0x1E, 0],
    [0x08, 0x1C, 0x36, 0x63, 0, 0, 0, 0], [0, 0, 0, 0, 0, 0, 0, 0xFF],
    [0x0C, 0x0C, 0x18, 0, 0, 0, 0, 0], [0, 0, 0x1E, 0x30, 0x3E, 0x33, 0x6E, 0],
    [0x07, 0x06, 0x06, 0x3E, 0x66, 0x66, 0x3B, 0], [0, 0, 0x1E, 0x33, 0x03, 0x33, 0x1E, 0],
    [0x38, 0x30, 0x30, 0x3E, 0x33, 0x33, 0x6E, 0], [0, 0, 0x1E, 0x33, 0x3F, 0x03, 0x1E, 0],
    [0x1C, 0x36, 0x06, 0x0F, 0x06, 0x06, 0x0F, 0], [0, 0, 0x6E, 0x33, 0x33, 0x3E, 0x30, 0x1F],
    [0x07, 0x06, 0x36, 0x6E, 0x66, 0x66, 0x67, 0], [0x0C, 0, 0x0E, 0x0C, 0x0C, 0x0C, 0x1E, 0],
    [0x30, 0, 0x30, 0x30, 0x30, 0x33, 0x33, 0x1E], [0x07, 0x06, 0x66, 0x36, 0x1E, 0x36, 0x67, 0],
    [0x0E, 0x0C, 0x0C, 0x0C, 0x0C, 0x0C, 0x1E, 0], [0, 0, 0x33, 0x7F, 0x7F, 0x6B, 0x63, 0],
    [0, 0, 0x1F, 0x33, 0x33, 0x33, 0x33, 0], [0, 0, 0x1E, 0x33, 0x33, 0x33, 0x1E, 0],
    [0, 0, 0x3B, 0x66, 0x66, 0x3E, 0x06, 0x0F], [0, 0, 0x6E, 0x33, 0x33, 0x3E, 0x30, 0x78],
    [0, 0, 0x3B, 0x6E, 0x66, 0x06, 0x0F, 0], [0, 0, 0x3E, 0x03, 0x1E, 0x30, 0x1F, 0],
    [0x08, 0x0C, 0x3E, 0x0C, 0x0C, 0x2C, 0x18, 0], [0, 0, 0x33, 0x33, 0x33, 0x33, 0x6E, 0],
    [0, 0, 0x33, 0x33, 0x33, 0x1E, 0x0C, 0], [0, 0, 0x63, 0x6B, 0x7F, 0x7F, 0x36, 0],
    [0, 0, 0x63, 0x36, 0x1C, 0x36, 0x63, 0], [0, 0, 0x33, 0x33, 0x33, 0x3E, 0x30, 0x1F],
    [0, 0, 0x3F, 0x19, 0x0C, 0x26, 0x3F, 0], [0x38, 0x0C, 0x0C, 0x07, 0x0C, 0x0C, 0x38, 0],
    [0x18, 0x18, 0x18, 0, 0x18, 0x18, 0x18, 0], [0x07, 0x0C, 0x0C, 0x38, 0x0C, 0x0C, 0x07, 0],
    [0x6E, 0x3B, 0, 0, 0, 0, 0, 0], [0, 0, 0, 0, 0, 0, 0, 0]]"

text \<open>\<open>x_dst\<close>, \<open>y_dst\<close> and the sums with them are 32-bit signed numbers, widened by the macro.\<close>

definition fb_render_string_for_bitmap ::
  "GOP \<Rightarrow> u8 list \<Rightarrow> nat \<Rightarrow> nat \<Rightarrow> u32 \<Rightarrow> u32 \<Rightarrow> u32 \<Rightarrow> mem \<Rightarrow> mem" where
  "fb_render_string_for_bitmap g bitmap x_sz y_sz x_dst y_dst color m =
     fold (\<lambda>y. fold (\<lambda>x m.
         if ucast (bitmap ! x) AND push_bit y (1 :: u32) \<noteq> 0
         then FBDrawInRegion g color 1 1 (scast (x_dst + of_nat x)) (scast (y_dst + of_nat y)) m
         else m) [0 ..< x_sz]) [0 ..< y_sz] m"

text \<open>A character is signed: one from 128 on is a negative index of the table.\<close>

partial_function (option) fb_render_string ::
  "GOP \<Rightarrow> nat \<Rightarrow> u32 \<Rightarrow> u32 \<Rightarrow> u32 \<Rightarrow> mem \<Rightarrow> (fault + mem) option" where
  "fb_render_string g str x_dst y_dst color m =
     (if m str = 0 then Some (Inr m)
      else if kFontNOFChars \<le> unat (m str) then Some (Inl OutOfBounds)
      else fb_render_string g (Suc str) x_dst (y_dst + of_nat kFontSizeY) color
             (fb_render_string_for_bitmap g (kFontBitmap ! unat (m str)) kFontSizeX kFontSizeY x_dst y_dst color m))"

declare fb_render_string.simps [simp del]

lemma kFontBitmap_length: "length kFontBitmap = kFontNOFChars"
  by (simp add: kFontBitmap_def kFontNOFChars_def)

subsection \<open>The screen\<close>

type_synonym screen = "nat \<times> nat \<Rightarrow> u32"

text \<open>A buffer at \<open>rgn\<close> with \<open>R\<close> lines that does not wrap around, and the points on it.\<close>

definition frame_ok :: "GOP \<Rightarrow> u64 \<Rightarrow> nat \<Rightarrow> bool" where
  "frame_ok g rgn R \<longleftrightarrow>
     4 * unat (f_PixelPerLine g) < 2 ^ 32 \<and> unat rgn + 4 * unat (f_PixelPerLine g) * R < 2 ^ 64"

definition on_frame :: "GOP \<Rightarrow> nat \<Rightarrow> nat \<times> nat \<Rightarrow> bool" where
  "on_frame g R p \<longleftrightarrow> fst p < R \<and> snd p < unat (f_PixelPerLine g)"

definition in_frame :: "GOP \<Rightarrow> u64 \<Rightarrow> nat \<Rightarrow> nat \<Rightarrow> bool" where
  "in_frame g rgn R j \<longleftrightarrow> unat rgn \<le> j \<and> j < unat rgn + 4 * unat (f_PixelPerLine g) * R"

definition pixel :: "GOP \<Rightarrow> u64 \<Rightarrow> mem \<Rightarrow> screen" where
  "pixel g rgn m p = load32 (pixel_address g rgn (fst p) (snd p)) m"

text \<open>The memory \<open>m\<close> shows a screen, and differs from \<open>m0\<close> in the frame only.\<close>

definition drawn :: "GOP \<Rightarrow> u64 \<Rightarrow> nat \<Rightarrow> screen \<Rightarrow> mem \<Rightarrow> mem \<Rightarrow> bool" where
  "drawn g rgn R scr m0 m \<longleftrightarrow>
     (\<forall>p. on_frame g R p \<longrightarrow> pixel g rgn m p = scr p) \<and> (\<forall>j. \<not> in_frame g rgn R j \<longrightarrow> m j = m0 j)"

lemma drawn_refl: "drawn g rgn R (pixel g rgn m) m m"
  by (simp add: drawn_def)

lemma pixel_address_nat:
  assumes "frame_ok g rgn R" and "on_frame g R (x, y)"
  shows "pixel_address g rgn x y = unat rgn + 4 * (unat (f_PixelPerLine g) * x + y)"
    and "unat rgn + 4 * (unat (f_PixelPerLine g) * x + y) + 4 \<le> unat rgn + 4 * unat (f_PixelPerLine g) * R"
proof -
  let ?P = "unat (f_PixelPerLine g)"
  have xy: "x < R" "y < ?P" using assms(2) by (simp_all add: on_frame_def)
  have "?P * x + y < ?P * Suc x" using xy(2) by simp
  moreover have "?P * Suc x \<le> ?P * R" using xy(1) by (intro mult_le_mono2) simp
  ultimately have le: "?P * x + y + 1 \<le> ?P * R" by linarith
  then show "unat rgn + 4 * (?P * x + y) + 4 \<le> unat rgn + 4 * ?P * R" by (simp add: algebra_simps)
  then have b: "unat rgn + 4 * (?P * x + y) < 2 ^ 64" using assms(1) unfolding frame_ok_def by linarith
  have P: "unat (4 * f_PixelPerLine g) = 4 * ?P"
    using assms(1) by (simp add: frame_ok_def unat_word_ariths)
  have "(ucast (4 * f_PixelPerLine g) :: u64) = of_nat (4 * ?P)"
    using P by (metis of_nat_unat)
  then have "rgn + ucast (4 * f_PixelPerLine g) * of_nat x + 4 * of_nat y =
      (of_nat (unat rgn + 4 * (?P * x + y)) :: u64)"
    by (simp add: algebra_simps)
  then show "pixel_address g rgn x y = unat rgn + 4 * (?P * x + y)"
    unfolding pixel_address_def using b unat_of_nat64_less by metis
qed

lemma pixel_addresses_differ:
  assumes "frame_ok g rgn R" and "on_frame g R p" and "on_frame g R q" and "p \<noteq> q"
  shows "disjoint_ext (pixel_address g rgn (fst p) (snd p)) 4 (pixel_address g rgn (fst q) (snd q)) 4"
proof -
  let ?P = "unat (f_PixelPerLine g)"
  let ?i = "\<lambda>p. ?P * fst p + snd p"
  have "?i p \<noteq> ?i q"
  proof
    assume "?i p = ?i q"
    then have "?i p div ?P = ?i q div ?P" "?i p mod ?P = ?i q mod ?P" by simp_all
    then show False using assms(2-4) by (auto simp: on_frame_def prod_eq_iff)
  qed
  then show ?thesis
    using assms pixel_address_nat(1) [OF assms(1), of "fst p" "snd p"] pixel_address_nat(1) [OF assms(1), of "fst q" "snd q"]
    by (auto simp: disjoint_ext_def)
qed

lemma drawn_store:
  assumes "frame_ok g rgn R" and "drawn g rgn R scr m0 m" and p: "on_frame g R (x, y)"
  shows "drawn g rgn R (scr((x, y) := c)) m0 (store32 (pixel_address g rgn x y) c m)"
proof -
  have "pixel g rgn (store32 (pixel_address g rgn x y) c m) q = (scr((x, y) := c)) q" if "on_frame g R q" for q
    using that assms(2) pixel_addresses_differ [OF assms(1) that p]
    by (cases "q = (x, y)") (auto simp: pixel_def drawn_def load32_store32_other)
  moreover have "store32 (pixel_address g rgn x y) c m j = m0 j" if "\<not> in_frame g rgn R j" for j
    using that assms(2) pixel_address_nat [OF assms(1) p]
    by (subst store32_outside) (auto simp: in_frame_def drawn_def)
  ultimately show ?thesis by (simp add: drawn_def)
qed

lemma pixel_drawn: "drawn g rgn R scr m0 m \<Longrightarrow> on_frame g R (x, y) \<Longrightarrow> load32 (pixel_address g rgn x y) m = scr (x, y)"
  by (auto simp: drawn_def pixel_def)

lemma drawn_cong:
  "drawn g rgn R scr m0 m \<Longrightarrow> (\<And>p. on_frame g R p \<Longrightarrow> scr p = scr' p) \<Longrightarrow> drawn g rgn R scr' m0 m"
  by (simp add: drawn_def)

subsection \<open>Loops over points\<close>

definition points :: "u64 \<Rightarrow> u64 \<Rightarrow> u64 \<Rightarrow> u64 \<Rightarrow> (nat \<times> nat) list" where
  "points height width base_x base_y =
     List.product [unat base_x ..< unat (width + base_x)] [unat base_y ..< unat (height + base_y)]"

lemma nested_fold: "fold (\<lambda>i. fold (draw i) ys) xs s = fold (\<lambda>p. draw (fst p) (snd p)) (List.product xs ys) s"
proof (induction xs arbitrary: s)
  case (Cons x xs)
  then show ?case by (simp add: fold_map comp_def)
qed simp

lemma each_pixel_points:
  "each_pixel height width base_x base_y draw s =
   fold (\<lambda>p. draw (fst p) (snd p)) (points height width base_x base_y) s"
  by (simp add: each_pixel_def points_def nested_fold)

lemma set_points:
  "set (points height width base_x base_y) =
   {unat base_x ..< unat (width + base_x)} \<times> {unat base_y ..< unat (height + base_y)}"
  by (simp add: points_def)

text \<open>Every point of a list gets a colour computed from the one it has.\<close>

lemma drawn_fold:
  assumes "frame_ok g rgn R" and "\<forall>p \<in> set ps. on_frame g R p" and "distinct ps"
    and "drawn g rgn R scr m0 m"
  shows "drawn g rgn R (\<lambda>p. if p \<in> set ps then f p (scr p) else scr p) m0
    (fold (\<lambda>p m. let a = pixel_address g rgn (fst p) (snd p) in store32 a (f p (load32 a m)) m) ps m)"
  using assms(2-4)
proof (induction ps arbitrary: scr m)
  case Nil
  then show ?case by simp
next
  case (Cons p ps)
  let ?a = "pixel_address g rgn (fst p) (snd p)"
  have "drawn g rgn R (scr(p := f p (scr p))) m0 (store32 ?a (f p (load32 ?a m)) m)"
    using drawn_store [OF assms(1) Cons.prems(3), of "fst p" "snd p"] Cons.prems pixel_drawn [of g rgn R scr m0 m "fst p" "snd p"]
    by simp
  from Cons.IH [OF _ _ this] Cons.prems(1,2) show ?case
    by (auto simp: Let_def elim!: drawn_cong)
qed

text \<open>The points of a list get the pixels of an array that lies outside the frame, one after the other.\<close>

lemma drawn_copy:
  assumes "frame_ok g rgn R" and "\<forall>p \<in> set ps. on_frame g R p" and "distinct ps"
    and "drawn g rgn R scr m0 m"
    and "\<And>j. a \<le> j \<Longrightarrow> j < a + 4 * (k + length ps) \<Longrightarrow> \<not> in_frame g rgn R j"
  shows "\<exists>m' scr'. fold (\<lambda>p (k, m). (Suc k, store32 (pixel_address g rgn (fst p) (snd p)) (load32 (a + 4 * k) m) m)) ps (k, m) =
      (k + length ps, m') \<and> drawn g rgn R scr' m0 m' \<and>
    (\<forall>i < length ps. scr' (ps ! i) = load32 (a + 4 * (k + i)) m0) \<and> (\<forall>p. p \<notin> set ps \<longrightarrow> scr' p = scr p)"
  using assms(2-5)
proof (induction ps arbitrary: scr m k)
  case Nil
  then show ?case by auto
next
  case (Cons p ps)
  let ?c = "load32 (a + 4 * k) m"
  let ?m = "store32 (pixel_address g rgn (fst p) (snd p)) ?c m"
  have c: "?c = load32 (a + 4 * k) m0"
    using Cons.prems(3) Cons.prems(4) by (auto simp: load32_def read_bytes_eq_iff drawn_def intro!: arg_cong [of _ _ dec32])
  have "drawn g rgn R (scr(p := ?c)) m0 ?m"
    using drawn_store [OF assms(1) Cons.prems(3), of "fst p" "snd p"] Cons.prems by simp
  from Cons.IH [OF _ _ this, of "Suc k"] obtain m' scr' where
    IH: "fold (\<lambda>p (k, m). (Suc k, store32 (pixel_address g rgn (fst p) (snd p)) (load32 (a + 4 * k) m) m)) ps (Suc k, ?m) =
      (Suc k + length ps, m')" "drawn g rgn R scr' m0 m'"
    "\<forall>i < length ps. scr' (ps ! i) = load32 (a + 4 * (Suc k + i)) m0" "\<forall>q. q \<notin> set ps \<longrightarrow> scr' q = (scr(p := ?c)) q"
    using Cons.prems by auto
  have "scr' ((p # ps) ! i) = load32 (a + 4 * (k + i)) m0" if "i < length (p # ps)" for i
    using that IH(3,4) c Cons.prems(2) by (cases i; cases p) auto
  moreover have "\<forall>q. q \<notin> set (p # ps) \<longrightarrow> scr' q = scr q" using IH(4) by simp
  ultimately show ?case using IH(1,2) by (intro exI [of _ m'] exI [of _ scr']) simp
qed

subsection \<open>What the operations draw\<close>

definition region_on_frame :: "GOP \<Rightarrow> nat \<Rightarrow> u64 \<Rightarrow> u64 \<Rightarrow> u64 \<Rightarrow> u64 \<Rightarrow> bool" where
  "region_on_frame g R height width base_x base_y \<longleftrightarrow>
     unat base_x + unat width \<le> R \<and> unat base_y + unat height \<le> unat (f_PixelPerLine g) \<and> R < 2 ^ 64"

definition in_region :: "u64 \<Rightarrow> u64 \<Rightarrow> u64 \<Rightarrow> u64 \<Rightarrow> nat \<times> nat \<Rightarrow> bool" where
  "in_region height width base_x base_y p \<longleftrightarrow>
     fst p \<in> {unat base_x ..< unat base_x + unat width} \<and> snd p \<in> {unat base_y ..< unat base_y + unat height}"

lemma region_ends:
  assumes "region_on_frame g R height width base_x base_y"
  shows "unat (width + base_x) = unat base_x + unat width" and "unat (height + base_y) = unat base_y + unat height"
proof -
  have "unat (f_PixelPerLine g) < 2 ^ LENGTH(32)" by (rule unsigned_less)
  then have "unat (f_PixelPerLine g) < 2 ^ 64" by simp
  then have "unat height + unat base_y < 2 ^ LENGTH(64)" "unat width + unat base_x < 2 ^ LENGTH(64)"
    using assms by (simp_all add: region_on_frame_def)
  then have "unat (width + base_x) = unat width + unat base_x" "unat (height + base_y) = unat height + unat base_y"
    by (simp_all only: unat_add_lem)
  then show "unat (width + base_x) = unat base_x + unat width" "unat (height + base_y) = unat base_y + unat height"
    by simp_all
qed

lemma region_points:
  assumes "region_on_frame g R height width base_x base_y"
  shows "p \<in> set (points height width base_x base_y) \<longleftrightarrow> in_region height width base_x base_y p"
    and "\<forall>p \<in> set (points height width base_x base_y). on_frame g R p"
  using assms region_ends [OF assms]
  by (auto simp: set_points in_region_def on_frame_def region_on_frame_def mem_Times_iff)

lemma distinct_points: "distinct (points height width base_x base_y)"
  by (simp add: points_def distinct_product)

lemma FBDrawInRegion_draws:
  assumes "frame_ok g (f_The g) R" and "region_on_frame g R height width base_x base_y"
    and "drawn g (f_The g) R scr m0 m"
  shows "drawn g (f_The g) R (\<lambda>p. if in_region height width base_x base_y p then Clr else scr p) m0
    (FBDrawInRegion g Clr height width base_x base_y m)"
  using drawn_fold [OF assms(1) region_points(2) [OF assms(2)] distinct_points assms(3), of "\<lambda>_ _. Clr"]
  by (simp add: FBDrawInRegion_def each_pixel_points region_points(1) [OF assms(2)])

lemma FBDrawInRegionA_draws:
  assumes "frame_ok g (f_The g) R" and "region_on_frame g R height width base_x base_y"
    and "drawn g (f_The g) R scr m0 m"
  shows "drawn g (f_The g) R (\<lambda>p. if in_region height width base_x base_y p then scr p OR Clr else scr p) m0
    (FBDrawInRegionA g Clr height width base_x base_y m)"
  using drawn_fold [OF assms(1) region_points(2) [OF assms(2)] distinct_points assms(3), of "\<lambda>_ c. c OR Clr"]
  by (simp add: FBDrawInRegionA_def each_pixel_points region_points(1) [OF assms(2)] Let_def)

lemma CGClearRegion_is_FBDrawInRegion:
  "CGClearRegion g height width base_x base_y m = FBDrawInRegion g fb_get_clear_clr height width base_x base_y m"
  by (simp add: CGClearRegion_def FBDrawInRegion_def)

text \<open>In the array the pixels of a line of the region are next to each other.\<close>

lemma points_nth:
  assumes "region_on_frame g R height width base_x base_y" and "i < unat width" and "u < unat height"
  shows "unat height * i + u < length (points height width base_x base_y)"
    and "points height width base_x base_y ! (unat height * i + u) = (unat base_x + i, unat base_y + u)"
proof -
  have len: "length (points height width base_x base_y) = unat width * unat height"
    by (simp add: points_def region_ends [OF assms(1)])
  have "unat height * i + u < unat height * Suc i" using assms(3) by simp
  also have "\<dots> \<le> unat width * unat height" using assms(2) by (metis Suc_leI mult.commute mult_le_mono1)
  finally show lt: "unat height * i + u < length (points height width base_x base_y)" using len by simp
  then show "points height width base_x base_y ! (unat height * i + u) = (unat base_x + i, unat base_y + u)"
    using len assms(2,3) by (simp add: points_def product_nth region_ends [OF assms(1)])
qed

lemma FBDrawBitMapInRegionToRgn_draws:
  assumes "frame_ok g Rgn R" and reg: "region_on_frame g R height width base_x base_y"
    and out: "\<And>j. reg_ptr \<le> j \<Longrightarrow> j < reg_ptr + 4 * (k + unat width * unat height) \<Longrightarrow> \<not> in_frame g Rgn R j"
  shows "\<exists>m'. FBDrawBitMapInRegionToRgn g Rgn reg_ptr height width base_x base_y (k, m) = (k + unat width * unat height, m') \<and>
    (\<forall>i < unat width. \<forall>u < unat height.
       pixel g Rgn m' (unat base_x + i, unat base_y + u) = load32 (reg_ptr + 4 * (k + unat height * i + u)) m) \<and>
    (\<forall>p. on_frame g R p \<and> \<not> in_region height width base_x base_y p \<longrightarrow> pixel g Rgn m' p = pixel g Rgn m p) \<and>
    (\<forall>j. \<not> in_frame g Rgn R j \<longrightarrow> m' j = m j)"
proof -
  let ?ps = "points height width base_x base_y"
  have len: "length ?ps = unat width * unat height" by (simp add: points_def region_ends [OF reg])
  obtain m' scr' where d:
    "fold (\<lambda>p (k, m). (Suc k, store32 (pixel_address g Rgn (fst p) (snd p)) (load32 (reg_ptr + 4 * k) m) m)) ?ps (k, m) = (k + length ?ps, m')"
    "drawn g Rgn R scr' m m'" "\<forall>i < length ?ps. scr' (?ps ! i) = load32 (reg_ptr + 4 * (k + i)) m"
    "\<forall>p. p \<notin> set ?ps \<longrightarrow> scr' p = pixel g Rgn m p"
    using drawn_copy [OF assms(1) region_points(2) [OF reg] distinct_points drawn_refl, of reg_ptr k m] out len by auto
  have "pixel g Rgn m' (unat base_x + i, unat base_y + u) = load32 (reg_ptr + 4 * (k + unat height * i + u)) m"
    if "i < unat width" "u < unat height" for i u
  proof -
    note pt = points_nth [OF reg that]
    have "on_frame g R (?ps ! (unat height * i + u))" using region_points(2) [OF reg] pt(1) by (meson nth_mem)
    then show ?thesis using d(2) d(3) [rule_format, OF pt(1)] pt(2) by (simp add: drawn_def algebra_simps)
  qed
  moreover have "pixel g Rgn m' p = pixel g Rgn m p" if "on_frame g R p" "\<not> in_region height width base_x base_y p" for p
    using that d(2,4) region_points(1) [OF reg] by (cases p) (simp add: drawn_def)
  moreover have "FBDrawBitMapInRegionToRgn g Rgn reg_ptr height width base_x base_y (k, m) = (k + unat width * unat height, m')"
    using d(1) len by (simp add: FBDrawBitMapInRegionToRgn_def each_pixel_points)
  ultimately show ?thesis using d(2) by (auto simp: drawn_def)
qed

lemma same_macros:
  "FBDrawBitMapInRegion g reg_ptr height width base_x base_y =
     FBDrawBitMapInRegionToRgn g (f_The g) reg_ptr height width base_x base_y"
  "FBDrawInRegionToRgn g Rgn Clr height width base_x base_y = FBDrawBitMapInRegionToRgn g Rgn Clr height width base_x base_y"
  by (simp_all add: FBDrawBitMapInRegion_def FBDrawBitMapInRegionToRgn_def FBDrawInRegionToRgn_def)

subsection \<open>What text draws\<close>

lemma glyph_bit: "y < 32 \<Longrightarrow> ucast (b :: u8) AND push_bit y (1 :: u32) \<noteq> 0 \<longleftrightarrow> bit b y"
  unfolding bit_iff_and_push_bit_not_eq_0 [symmetric] by (simp add: bit_unsigned_iff)

lemma unat_scast_sum:
  assumes "unat (w :: u32) + n < 2 ^ 31"
  shows "unat (scast (w + of_nat n) :: u64) = unat w + n"
proof -
  have n: "unat (of_nat n :: u32) = n" using assms by (intro unat_of_nat_eq_len) simp
  then have "unat w + unat (of_nat n :: u32) < 2 ^ LENGTH(32)" using assms by simp
  then have u: "unat (w + of_nat n) = unat w + n" using n unat_add_lem by metis
  have "sint (w + of_nat n) = signed_take_bit 31 (int (unat (w + of_nat n)))"
    by (simp add: sint_uint)
  moreover have "signed_take_bit 31 (int k) = int k" if "k < 2 ^ 31" for k
    using that by (intro signed_take_bit_int_eq_self) simp_all
  ultimately have "sint (w + of_nat n) = int (unat w + n)" using u assms by metis
  then have "(scast (w + of_nat n) :: u64) = of_nat (unat w + n)"
    by (metis of_int_of_nat_eq of_int_sint)
  then show ?thesis using assms unat_of_nat64_less [of "unat w + n"] by simp
qed

text \<open>The area a bitmap is drawn in is on the frame, and its coordinates are positive 32-bit numbers.\<close>

definition area_ok :: "GOP \<Rightarrow> nat \<Rightarrow> nat \<Rightarrow> nat \<Rightarrow> u32 \<Rightarrow> u32 \<Rightarrow> bool" where
  "area_ok g R x_sz y_sz x_dst y_dst \<longleftrightarrow>
     unat x_dst + x_sz \<le> R \<and> R < 2 ^ 31 \<and> unat y_dst + y_sz \<le> unat (f_PixelPerLine g) \<and> unat y_dst + y_sz < 2 ^ 31"

definition glyph_pixels :: "u8 list \<Rightarrow> nat \<Rightarrow> nat \<Rightarrow> nat \<Rightarrow> nat \<Rightarrow> nat \<times> nat \<Rightarrow> bool" where
  "glyph_pixels bitmap x_sz y_sz x0 y0 p \<longleftrightarrow>
     x0 \<le> fst p \<and> fst p < x0 + x_sz \<and> y0 \<le> snd p \<and> snd p < y0 + y_sz \<and> bit (bitmap ! (fst p - x0)) (snd p - y0)"

lemma draw_one_pixel:
  assumes "frame_ok g (f_The g) R" and "area_ok g R x_sz y_sz x_dst y_dst" and "x < x_sz" and "y < y_sz"
    and "drawn g (f_The g) R scr m0 m"
  shows "drawn g (f_The g) R (\<lambda>p. if p = (unat x_dst + x, unat y_dst + y) then color else scr p) m0
    (FBDrawInRegion g color 1 1 (scast (x_dst + of_nat x)) (scast (y_dst + of_nat y)) m)"
proof -
  have u: "unat (scast (x_dst + of_nat x) :: u64) = unat x_dst + x" "unat (scast (y_dst + of_nat y) :: u64) = unat y_dst + y"
    using assms(2-4) by (auto simp: area_ok_def intro!: unat_scast_sum)
  have "region_on_frame g R 1 1 (scast (x_dst + of_nat x)) (scast (y_dst + of_nat y))"
    using assms(2-4) by (simp add: region_on_frame_def area_ok_def u)
  from FBDrawInRegion_draws [OF assms(1) this assms(5), of color] show ?thesis
    by (rule drawn_cong) (auto simp: in_region_def u prod_eq_iff)
qed

lemma paint_twice: "(if A then c else if B then c else d) = (if B \<or> A then c else d)"
  by simp

lemma glyph_draws:
  assumes "frame_ok g (f_The g) R" and "area_ok g R x_sz y_sz x_dst y_dst" and "y_sz \<le> 32"
    and "drawn g (f_The g) R scr m0 m"
  shows "drawn g (f_The g) R
    (\<lambda>p. if glyph_pixels bitmap x_sz y_sz (unat x_dst) (unat y_dst) p then color else scr p) m0
    (fb_render_string_for_bitmap g bitmap x_sz y_sz x_dst y_dst color m)"
proof -
  let ?draw = "\<lambda>y x m. if ucast (bitmap ! x) AND push_bit y (1 :: u32) \<noteq> 0
    then FBDrawInRegion g color 1 1 (scast (x_dst + of_nat x)) (scast (y_dst + of_nat y)) m else m"
  let ?on = "\<lambda>qs p. \<exists>q \<in> set qs. bit (bitmap ! snd q) (fst q) \<and> p = (unat x_dst + snd q, unat y_dst + fst q)"
  have "drawn g (f_The g) R (\<lambda>p. if ?on qs p then color else scr p) m0 (fold (\<lambda>q. ?draw (fst q) (snd q)) qs m)"
    if "\<forall>q \<in> set qs. fst q < y_sz \<and> snd q < x_sz" "drawn g (f_The g) R scr m0 m" for qs scr m
    using that
  proof (induction qs arbitrary: scr m)
    case Nil
    then show ?case by simp
  next
    case (Cons q qs)
    let ?scr = "\<lambda>p. if bit (bitmap ! snd q) (fst q) \<and> p = (unat x_dst + snd q, unat y_dst + fst q) then color else scr p"
    have b: "ucast (bitmap ! snd q) AND push_bit (fst q) (1 :: u32) \<noteq> 0 \<longleftrightarrow> bit (bitmap ! snd q) (fst q)"
      by (rule glyph_bit) (use Cons.prems(1) assms(3) in auto)
    have "drawn g (f_The g) R ?scr m0 (?draw (fst q) (snd q) m)"
      using draw_one_pixel [OF assms(1,2) _ _ Cons.prems(2), of "snd q" "fst q"] Cons.prems unfolding b by auto
    from Cons.IH [OF _ this] Cons.prems(1)
    have "drawn g (f_The g) R (\<lambda>p. if ?on qs p then color else ?scr p) m0 (fold (\<lambda>q. ?draw (fst q) (snd q)) (q # qs) m)"
      by simp
    then show ?case
    proof (rule drawn_cong)
      fix p
      have "?on (q # qs) p \<longleftrightarrow> (bit (bitmap ! snd q) (fst q) \<and> p = (unat x_dst + snd q, unat y_dst + fst q)) \<or> ?on qs p"
        by (simp only: list.set bex_simps)
      then show "(if ?on qs p then color else ?scr p) = (if ?on (q # qs) p then color else scr p)"
        by (simp only: paint_twice)
    qed
  qed
  from this [OF _ assms(4), of "List.product [0 ..< y_sz] [0 ..< x_sz]"]
  have "drawn g (f_The g) R (\<lambda>p. if ?on (List.product [0 ..< y_sz] [0 ..< x_sz]) p then color else scr p) m0
      (fb_render_string_for_bitmap g bitmap x_sz y_sz x_dst y_dst color m)"
    by (simp add: fb_render_string_for_bitmap_def nested_fold)
  moreover have "?on (List.product [0 ..< y_sz] [0 ..< x_sz]) p \<longleftrightarrow>
      glyph_pixels bitmap x_sz y_sz (unat x_dst) (unat y_dst) p" for p
    by (cases p) (force simp: glyph_pixels_def intro: bexI [of _ "snd p - unat y_dst"] bexI [of _ "fst p - unat x_dst"])
  ultimately show ?thesis by simp
qed

text \<open>The pixels of a text whose first glyph is at \<open>(x0, y0)\<close>: the glyphs follow each other in the second coordinate.\<close>

fun text_pixels :: "u8 list \<Rightarrow> nat \<Rightarrow> nat \<Rightarrow> nat \<times> nat \<Rightarrow> bool" where
  "text_pixels [] x0 y0 p = False"
| "text_pixels (c # cs) x0 y0 p = (glyph_pixels (kFontBitmap ! unat c) 8 8 x0 y0 p \<or> text_pixels cs x0 (y0 + 8) p)"

lemma text_pixels_iff:
  "text_pixels cs x0 y0 p \<longleftrightarrow>
   x0 \<le> fst p \<and> fst p < x0 + 8 \<and> y0 \<le> snd p \<and> snd p < y0 + 8 * length cs \<and>
   bit (kFontBitmap ! unat (cs ! ((snd p - y0) div 8)) ! (fst p - x0)) ((snd p - y0) mod 8)"
proof (induction cs arbitrary: y0)
  case Nil
  then show ?case by simp
next
  case (Cons c cs)
  consider "snd p < y0" | "y0 \<le> snd p" "snd p < y0 + 8" | "y0 + 8 \<le> snd p" by linarith
  then show ?case
  proof cases
    case 3
    then obtain k where k: "snd p = y0 + 8 + k" using le_Suc_ex by blast
    have "(8 + k) div 8 = Suc (k div 8)" "(8 + k) mod 8 = k mod 8" by simp_all
    then show ?thesis using k by (simp add: Cons.IH glyph_pixels_def add.assoc)
  qed (simp_all add: Cons.IH glyph_pixels_def)
qed

lemma text_draws:
  assumes "frame_ok g (f_The g) R" and "area_ok g R 8 (8 * length cs) x_dst y_dst"
    and "\<forall>i < length cs. m0 (str + i) = cs ! i" and "m0 (str + length cs) = 0"
    and "\<forall>c \<in> set cs. c \<noteq> 0 \<and> unat c < 128" and "\<forall>i \<le> length cs. \<not> in_frame g (f_The g) R (str + i)"
    and "drawn g (f_The g) R scr m0 m"
  shows "\<exists>m'. fb_render_string g str x_dst y_dst color m = Some (Inr m') \<and>
    drawn g (f_The g) R (\<lambda>p. if text_pixels cs (unat x_dst) (unat y_dst) p then color else scr p) m0 m'"
  using assms(2-7)
proof (induction cs arbitrary: str y_dst scr m)
  case Nil
  then have "m str = 0" by (auto simp: drawn_def)
  then show ?case using Nil by (subst fb_render_string.simps) simp
next
  case (Cons c cs)
  let ?m = "fb_render_string_for_bitmap g (kFontBitmap ! unat c) kFontSizeX kFontSizeY x_dst y_dst color m"
  let ?scr = "\<lambda>p. if glyph_pixels (kFontBitmap ! unat c) 8 8 (unat x_dst) (unat y_dst) p then color else scr p"
  have "m str = m0 str" using Cons.prems(5) [rule_format, of 0] Cons.prems(6) by (simp add: drawn_def)
  then have c: "m str = c" "m str \<noteq> 0" "unat (m str) < 128"
    using Cons.prems(2) [rule_format, of 0] Cons.prems(4) by auto
  have area: "area_ok g R 8 8 x_dst y_dst" using Cons.prems(1) by (simp add: area_ok_def)
  have d: "drawn g (f_The g) R ?scr m0 ?m"
    using glyph_draws [OF assms(1) area _ Cons.prems(6)] by (simp add: kFontSizeX_def kFontSizeY_def)
  have y: "unat (y_dst + 8) = unat y_dst + 8"
    using Cons.prems(1) unat_add_lem [of y_dst 8] by (simp add: area_ok_def)
  have "\<exists>m'. fb_render_string g (Suc str) x_dst (y_dst + 8) color ?m = Some (Inr m') \<and>
      drawn g (f_The g) R (\<lambda>p. if text_pixels cs (unat x_dst) (unat (y_dst + 8)) p then color else ?scr p) m0 m'"
  proof (rule Cons.IH [OF _ _ _ _ _ d])
    show "area_ok g R 8 (8 * length cs) x_dst (y_dst + 8)" using Cons.prems(1) y by (simp add: area_ok_def)
    show "\<forall>i < length cs. m0 (Suc str + i) = cs ! i" using Cons.prems(2) by (auto dest: spec [of _ "Suc _"])
    show "m0 (Suc str + length cs) = 0" using Cons.prems(3) by simp
    show "\<forall>c \<in> set cs. c \<noteq> 0 \<and> unat c < 128" using Cons.prems(4) by simp
    show "\<forall>i \<le> length cs. \<not> in_frame g (f_The g) R (Suc str + i)" using Cons.prems(5) by (auto dest: spec [of _ "Suc _"])
  qed
  then show ?case
    using c by (subst fb_render_string.simps) (simp add: kFontNOFChars_def kFontSizeY_def y paint_twice)
qed

subsection \<open>Properties\<close>

text \<open>
  C29. Rendering a text of ASCII characters that fits on the frame buffer and is not stored in it: afterwards
  a pixel has the text's colour exactly if it is in the eight lines from \<open>x_dst\<close>, at a set bit of the glyph
  of the character its second coordinate falls on; every other pixel and all memory outside the frame are as
  before.
\<close>

theorem fb_render_string_spec:
  assumes "frame_ok g (f_The g) R" and "area_ok g R 8 (8 * length cs) x_dst y_dst"
    and "c_string m str = Some cs" and "\<forall>c \<in> set cs. unat c < 128"
    and "\<forall>i \<le> length cs. \<not> in_frame g (f_The g) R (str + i)"
  shows "\<exists>m'. fb_render_string g str x_dst y_dst color m = Some (Inr m') \<and>
    (\<forall>x < R. \<forall>y < unat (f_PixelPerLine g).
       load32 (pixel_address g (f_The g) x y) m' =
         (if unat x_dst \<le> x \<and> x < unat x_dst + 8 \<and> unat y_dst \<le> y \<and> y < unat y_dst + 8 * length cs \<and>
             bit (kFontBitmap ! unat (cs ! ((y - unat y_dst) div 8)) ! (x - unat x_dst)) ((y - unat y_dst) mod 8)
          then color else load32 (pixel_address g (f_The g) x y) m)) \<and>
    (\<forall>j. \<not> in_frame g (f_The g) R j \<longrightarrow> m' j = m j)"
proof -
  obtain n where n: "rt_string_len m str = Some n" "read_bytes str n m = cs"
    using assms(3) by (auto simp: c_string_def)
  then have len: "n = length cs" by (metis length_read_bytes)
  note nz = n(1) [unfolded rt_string_len_iff]
  have at: "\<forall>i < length cs. m (str + i) = cs ! i" using n(2) len read_bytes_nth by metis
  have "\<forall>c \<in> set cs. c \<noteq> 0 \<and> unat c < 128" using assms(4) at nz len by (metis in_set_conv_nth)
  moreover have "m (str + length cs) = 0" using nz len by blast
  ultimately obtain m' where "fb_render_string g str x_dst y_dst color m = Some (Inr m')"
    "drawn g (f_The g) R (\<lambda>p. if text_pixels cs (unat x_dst) (unat y_dst) p then color else pixel g (f_The g) m p) m m'"
    using text_draws [OF assms(1,2) at _ _ assms(5) drawn_refl] by blast
  then show ?thesis by (auto simp: drawn_def on_frame_def pixel_def text_pixels_iff)
qed

theorem fb_render_string_spec_witness:
  "\<exists>m'. fb_render_string \<lparr>f_The = 4096, f_Size = 2048, f_Width = 16, f_Height = 32, f_PixelFormat = 0, f_PixelPerLine = 32\<rparr>
       100 1 2 0xFFFFFF (write_bytes 100 [72, 105] (\<lambda>_. 0)) = Some (Inr m') \<and>
     load32 (pixel_address \<lparr>f_The = 4096, f_Size = 2048, f_Width = 16, f_Height = 32, f_PixelFormat = 0, f_PixelPerLine = 32\<rparr> 4096 1 2) m' = 0xFFFFFF \<and>
     load32 (pixel_address \<lparr>f_The = 4096, f_Size = 2048, f_Width = 16, f_Height = 32, f_PixelFormat = 0, f_PixelPerLine = 32\<rparr> 4096 1 4) m' =
     load32 (pixel_address \<lparr>f_The = 4096, f_Size = 2048, f_Width = 16, f_Height = 32, f_PixelFormat = 0, f_PixelPerLine = 32\<rparr> 4096 1 4) (write_bytes 100 [72, 105] (\<lambda>_. 0))"
proof -
  let ?g = "\<lparr>f_The = 4096, f_Size = 2048, f_Width = 16, f_Height = 32, f_PixelFormat = 0, f_PixelPerLine = 32\<rparr>"
  let ?m = "write_bytes 100 [72, 105] (\<lambda>_. 0 :: u8)"
  have str: "c_string ?m 100 = Some [72, 105]"
  proof -
    have "rt_string_len ?m 100 = Some 2"
      by (simp only: rt_string_len_iff) (auto simp: write_bytes_def less_2_cases_iff)
    then show ?thesis using read_write_bytes_same [of 100 "[72, 105]" "\<lambda>_. 0"]
      by (simp add: c_string_def numeral_2_eq_2)
  qed
  have font: "kFontBitmap ! 72 ! 0 = 0x33" by (simp add: kFontBitmap_def)
  have "frame_ok ?g (f_The ?g) 16" "area_ok ?g 16 8 (8 * length [72, 105 :: u8]) 1 2"
    "\<forall>i \<le> length [72, 105 :: u8]. \<not> in_frame ?g (f_The ?g) 16 (100 + i)"
    by (simp_all add: frame_ok_def area_ok_def in_frame_def)
  from fb_render_string_spec [where color = "0xFFFFFF", OF this(1,2) str _ this(3)] obtain m' where
    r: "fb_render_string ?g 100 1 2 0xFFFFFF ?m = Some (Inr m')" and
    px: "\<forall>x < 16. \<forall>y < unat (f_PixelPerLine ?g).
       load32 (pixel_address ?g (f_The ?g) x y) m' =
         (if unat (1::u32) \<le> x \<and> x < unat (1::u32) + 8 \<and> unat (2::u32) \<le> y \<and> y < unat (2::u32) + 8 * length [72, 105 :: u8] \<and>
             bit (kFontBitmap ! unat ([72, 105 :: u8] ! ((y - unat (2::u32)) div 8)) ! (x - unat (1::u32))) ((y - unat (2::u32)) mod 8)
          then 0xFFFFFF else load32 (pixel_address ?g (f_The ?g) x y) ?m)"
    by auto
  have b: "bit (0x33 :: u8) 0" "\<not> bit (0x33 :: u8) 2" by (simp_all add: bit_iff_odd)
  show ?thesis using r px [rule_format, of 1 2] px [rule_format, of 1 4] font b by auto
qed

lemma unat_widen: "unat (ucast (w :: u32) :: u64) = unat w"
proof -
  have "unat w < 2 ^ LENGTH(32)" by (rule unsigned_less)
  then show ?thesis by (simp add: unsigned_ucast_eq take_bit_nat_eq_self)
qed

text \<open>
  Clearing the screen and then drawing a picture at a place, as the start-up of the boot loader does: what is
  shown is the picture there, \<open>width\<close> lines of \<open>height\<close> pixels, and the background everywhere else. The start-up stores the number of
  lines in \<open>f_Width\<close> and the length of a line in \<open>f_Height\<close>, so all of the screen is cleared.
\<close>

lemma cleared_picture:
  assumes "frame_ok g (f_The g) (unat (f_Width g))" and "unat (f_Width g) < 2 ^ 64"
    and "f_Height g \<le> f_PixelPerLine g"
    and reg: "region_on_frame g (unat (f_Width g)) height width base_x base_y"
    and out: "\<And>j. reg_ptr \<le> j \<Longrightarrow> j < reg_ptr + 4 * (unat width * unat height) \<Longrightarrow> \<not> in_frame g (f_The g) (unat (f_Width g)) j"
  shows "\<exists>m'. FBDrawBitMapInRegion g reg_ptr height width base_x base_y (0, fb_clear_video g m) = (unat width * unat height, m') \<and>
    (\<forall>i < unat width. \<forall>u < unat height.
       pixel g (f_The g) m' (unat base_x + i, unat base_y + u) = load32 (reg_ptr + 4 * (unat height * i + u)) m) \<and>
    (\<forall>x < unat (f_Width g). \<forall>y < unat (f_Height g).
       \<not> in_region height width base_x base_y (x, y) \<longrightarrow> pixel g (f_The g) m' (x, y) = fb_get_clear_clr) \<and>
    (\<forall>j. \<not> in_frame g (f_The g) (unat (f_Width g)) j \<longrightarrow> m' j = m j)"
proof -
  let ?R = "unat (f_Width g)"
  have h: "unat (f_Height g) \<le> unat (f_PixelPerLine g)" using assms(3) by (simp add: word_le_nat_alt)
  have w: "unat (ucast (f_Height g) :: u64) = unat (f_Height g)" "unat (ucast (f_Width g) :: u64) = unat (f_Width g)"
    by (rule unat_widen)+
  have "region_on_frame g ?R (UIAccessibilty_Height g) (UIAccessibilty_Width g) 0 0"
    using h assms(2) by (simp add: region_on_frame_def UIAccessibilty_Height_def UIAccessibilty_Width_def w)
  from FBDrawInRegion_draws [OF assms(1) this drawn_refl, of fb_get_clear_clr m]
  have clear: "drawn g (f_The g) ?R (\<lambda>p. if fst p < ?R \<and> snd p < unat (f_Height g) then fb_get_clear_clr else pixel g (f_The g) m p)
      m (fb_clear_video g m)"
    by (simp add: fb_clear_video_def in_region_def UIAccessibilty_Height_def UIAccessibilty_Width_def w)
  obtain m' where m': "FBDrawBitMapInRegion g reg_ptr height width base_x base_y (0, fb_clear_video g m) = (0 + unat width * unat height, m')"
    "\<forall>i < unat width. \<forall>u < unat height.
       pixel g (f_The g) m' (unat base_x + i, unat base_y + u) = load32 (reg_ptr + 4 * (0 + unat height * i + u)) (fb_clear_video g m)"
    "\<forall>p. on_frame g ?R p \<and> \<not> in_region height width base_x base_y p \<longrightarrow> pixel g (f_The g) m' p = pixel g (f_The g) (fb_clear_video g m) p"
    "\<forall>j. \<not> in_frame g (f_The g) ?R j \<longrightarrow> m' j = fb_clear_video g m j"
    using FBDrawBitMapInRegionToRgn_draws [OF assms(1) reg, of reg_ptr 0 "fb_clear_video g m"] out unfolding same_macros by auto
  have "load32 (reg_ptr + 4 * (unat height * i + u)) (fb_clear_video g m) = load32 (reg_ptr + 4 * (unat height * i + u)) m"
    if iu: "i < unat width" "u < unat height" for i u
  proof -
    have "unat height * i + u < unat height * Suc i" using iu by simp
    also have "\<dots> \<le> unat width * unat height" using iu by (metis Suc_leI mult.commute mult_le_mono1)
    finally have "\<not> in_frame g (f_The g) ?R j" if "reg_ptr + 4 * (unat height * i + u) \<le> j" "j < reg_ptr + 4 * (unat height * i + u) + 4" for j
      using that out by auto
    then show ?thesis using clear by (auto simp: load32_def read_bytes_eq_iff drawn_def intro!: arg_cong [of _ _ dec32])
  qed
  then show ?thesis using m' clear h by (auto simp: drawn_def on_frame_def)
qed

end
