(* ===== verification/Installer.thy ===== *)
theory Installer
  imports NeFSForks
begin

text \<open>
  \<^verbatim>\<open>src/KernelMain.cc\<close>: the kernel's main routine, which mounts the main drive and runs the installer of
  the file system. The partition before and after it is described by the list of the names in its slots.
\<close>

subsection \<open>The installer\<close>

definition kFolderStr :: "u8 list list" where
  "kFolderStr = map ascii [''/'', ''/boot/'', ''/sys/'', ''/media/'', ''/etc/'', ''/usr/'', ''/lib/'', ''/mnt/'',
     ''/sbin/'', ''/n/'', ''/dev/'', ''/run/'', ''/root/'']"

text \<open>One folder: looked up, and created when it is not there; the catalogs are deleted again.\<close>

definition install_folder :: "nconf \<Rightarrow> u8 list \<Rightarrow> nefs \<Rightarrow> fault + nefs" where
  "install_folder c name s =
     bindF (GetCatalog c (Some name) s) (\<lambda>(catalog_folder, s1).
       case catalog_folder of
         Some _ \<Rightarrow> Inr s1
       | None \<Rightarrow> bindF (CreateCatalog_kind c name 0 kNeFSCatalogKindDir s1) (\<lambda>(r, s2). Inr s2))"

fun install_folders :: "nconf \<Rightarrow> u8 list list \<Rightarrow> nefs \<Rightarrow> fault + nefs" where
  "install_folders c [] s = Inr s"
| "install_folders c (name # names) s = bindF (install_folder c name s) (install_folders c names)"

definition log_xml :: "u8 list" where
  "log_xml = ascii ''<LOG_XML><FS>NeFS</FS></LOG_XML>''"

definition log_name :: "u8 list" where
  "log_name = ascii ''NeFS Format System''"

definition install_journal :: "nconf \<Rightarrow> nefs \<Rightarrow> fault + (NeFileSystemJournal \<times> nefs)" where
  "install_journal c s =
     bindF (Journal_new None) (\<lambda>mJournal.
     bindF (GetJournal c True mJournal s) (\<lambda>(found, j1, s1).
     bindF (if found then Inr (True, j1, s1) else CreateJournal c True j1 s1) (\<lambda>(made, j2, s2).
     bindF (CommitJournal c True log_xml log_name j2 s2) (\<lambda>(ok, s3).
       Inr (snd (ReleaseJournal j2), s3)))))"

definition NeFilesystemInstaller :: "nconf \<Rightarrow> nefs \<Rightarrow> fault + (NeFileSystemJournal \<times> nefs)" where
  "NeFilesystemInstaller c s = bindF (install_folders c kFolderStr s) (install_journal c)"

text \<open>The main routine; \<open>auto_format\<close> is the build's \<^verbatim>\<open>__OPENNE_AUTO_FORMAT__\<close>.\<close>

definition rtl_kernel_main :: "bool \<Rightarrow> nconf \<Rightarrow> u8 list \<Rightarrow> nefs \<Rightarrow> fault + nefs" where
  "rtl_kernel_main auto_format c junk s =
     (if auto_format
      then bindF (fs_init_nefs c junk s) (\<lambda>(ok, s1). bindF (NeFilesystemInstaller c s1) (\<lambda>(j, s2). Inr s2))
      else Inr s)"

subsection \<open>Partitions as lists of names\<close>

text \<open>
  A mounted partition of \<open>N\<close> slots whose first ones hold catalogs with the names \<open>ns\<close>, folders where a name ends
  in the separator. \<open>F\<close> is the sum of the used and the free catalogs, \<open>D\<close> the size of the disk.
\<close>

definition holds :: "nconf \<Rightarrow> nat \<Rightarrow> nat \<Rightarrow> u64 \<Rightarrow> nefs \<Rightarrow> u8 list list \<Rightarrow> bool" where
  "holds c N F D s ns \<longleftrightarrow>
     mounted s \<and> \<not> read_only (mA (mnt s)) \<and> dense c (dsk s) (length ns) N \<and>
     unat (sb_FreeCatalog (super_at c (dsk s))) + length ns = F \<and> sb_DiskSize (super_at c (dsk s)) = D \<and>
     (\<forall>i < length ns. let cat = cat_at c (dsk s) (slot_lba i) in
        catalog_name cat = ns ! i \<and> (ns ! i \<noteq> [] \<and> last (ns ! i) = kNeFSSeparator \<longrightarrow> cat_Kind cat = kNeFSCatalogKindDir) \<and>
        (0 < i \<longrightarrow> cat_DataFork cat = D - slot_lba i))"

definition room :: "nconf \<Rightarrow> nat \<Rightarrow> nat \<Rightarrow> u64 \<Rightarrow> bool" where
  "room c N F D \<longleftrightarrow> drive_addressing (dpos (hw c)) \<and> slots_fit N \<and> N < nfuel c \<and> N \<le> F \<and> 2 ^ 16 \<le> unat D"

definition good_name :: "u8 list \<Rightarrow> bool" where
  "good_name name \<longleftrightarrow> name \<noteq> [] \<and> 0 \<notin> set name \<and> length name < 256 \<and>
     (case parent_name name of Inl _ \<Rightarrow> False | Inr pn \<Rightarrow> cstr pn \<noteq> [] \<and> last (cstr pn) = kNeFSSeparator)"

lemma holds_same_fs: "holds c N F D s ns \<Longrightarrow> same_fs s s' \<Longrightarrow> holds c N F D s' ns"
  using same_fs_mounted [of s s'] by (auto simp: holds_def same_fs_def read_only_same)

lemma holds_chain:
  "holds c N F D s ns \<Longrightarrow> length ns \<le> N \<Longrightarrow> room c N F D \<Longrightarrow>
   chain_from_root c (dsk s) (map slot_lba [0..<Suc (length ns)])"
  using dense_chain [of c "dsk s" "length ns" N] by (simp add: holds_def room_def del: upt_Suc)

text \<open>A look-up finds a name exactly when it is in the list.\<close>

lemma GetCatalog_holds:
  assumes "holds c N F D s ns" and "length ns \<le> N" and "room c N F D" and "name \<noteq> []"
  shows "\<exists>r s'. GetCatalog c (Some name) s = Inr (r, s') \<and> holds c N F D s' ns \<and> (r = None \<longleftrightarrow> name \<notin> set ns)"
proof -
  have dn: "mounted s" "dense c (dsk s) (length ns) N" using assms(1) by (simp_all add: holds_def)
  have "find (cat_hit c (dsk s) name True) (map slot_lba [0..<Suc (length ns)]) = None \<longleftrightarrow> name \<notin> set ns"
    using assms(1) unfolding dense_find(2) [OF dn(2) assms(2)] by (auto simp: holds_def in_set_conv_nth Let_def)
  moreover obtain s' where "same_fs s s'"
    "FindCatalog c (Some name) 0 True False s =
      (case find (cat_hit c (dsk s) name True) (map slot_lba [0..<Suc (length ns)]) of
         Some l \<Rightarrow> Inr (Some (cat_at c (dsk s) l), l, s') | None \<Rightarrow> Inr (None, 0, s'))"
    using FindCatalog_chain [OF dn(1) assms(4) holds_chain [OF assms(1-3)], of 0 True] by blast
  ultimately show ?thesis
    using holds_same_fs [OF assms(1)]
    by (cases "find (cat_hit c (dsk s) name True) (map slot_lba [0..<Suc (length ns)])") (auto simp: GetCatalog_def)
qed

text \<open>A creation of a name that is not there appends it.\<close>

lemma CreateCatalog_holds:
  assumes "holds c N F D s ns" and "length ns < N" and "room c N F D" and "good_name name" and "name \<notin> set ns"
    and "last name = kNeFSSeparator \<longleftrightarrow> kind = kNeFSCatalogKindDir"
  shows "\<exists>s'. CreateCatalog_kind c name flags kind s = Inr (Some catalog_zero, s') \<and> holds c N F D s' (ns @ [name])"
proof -
  let ?n = "length ns"
  obtain pn where pn: "parent_name name = Inr pn" "cstr pn \<noteq> []" "last (cstr pn) = kNeFSSeparator"
    using assms(4) by (auto simp: good_name_def split: sum.splits)
  have h: "mounted s" "\<not> read_only (mA (mnt s))" "dense c (dsk s) ?n N"
    "unat (sb_FreeCatalog (super_at c (dsk s))) + ?n = F" "sb_DiskSize (super_at c (dsk s)) = D"
    "\<And>i. i < ?n \<Longrightarrow> catalog_name (cat_at c (dsk s) (slot_lba i)) = ns ! i"
    "\<And>i. i < ?n \<Longrightarrow> ns ! i \<noteq> [] \<Longrightarrow> last (ns ! i) = kNeFSSeparator \<Longrightarrow> cat_Kind (cat_at c (dsk s) (slot_lba i)) = kNeFSCatalogKindDir"
    "\<And>i. i < ?n \<Longrightarrow> 0 < i \<Longrightarrow> cat_DataFork (cat_at c (dsk s) (slot_lba i)) = D - slot_lba i"
    using assms(1) by (simp_all add: holds_def Let_def)
  have "0 < unat (sb_FreeCatalog (super_at c (dsk s)))" using h(4) assms(2,3) by (simp add: room_def)
  then have free: "1 \<le> sb_FreeCatalog (super_at c (dsk s))" by (simp add: word_le_nat_alt)
  have no_file: "\<forall>i < ?n. catalog_name (cat_at c (dsk s) (slot_lba i)) = cstr pn \<longrightarrow>
      cat_Kind (cat_at c (dsk s) (slot_lba i)) \<noteq> kNeFSCatalogKindFile"
  proof (intro allI impI)
    fix i assume i: "i < ?n" "catalog_name (cat_at c (dsk s) (slot_lba i)) = cstr pn"
    have "kNeFSCatalogKindDir \<noteq> kNeFSCatalogKindFile" by simp
    then show "cat_Kind (cat_at c (dsk s) (slot_lba i)) \<noteq> kNeFSCatalogKindFile"
      using h(6,7) [OF i(1)] i(2) pn(2,3) by metis
  qed
  have new: "\<forall>i < ?n. catalog_name (cat_at c (dsk s) (slot_lba i)) \<noteq> name"
    using h(6) assms(5) nth_mem by fastforce
  have r: "drive_addressing (dpos (hw c))" "slots_fit N" "Suc ?n < nfuel c" using assms(2,3) by (simp_all add: room_def)
  have nm: "name \<noteq> []" "0 \<notin> set name" "length name < 256" using assms(4) by (simp_all add: good_name_def)
  obtain s' where s': "CreateCatalog_kind c name flags kind s = Inr (Some catalog_zero, s')" "mounted s'"
    "\<not> read_only (mA (mnt s'))" "dense c (dsk s') (Suc ?n) N"
    "catalog_name (cat_at c (dsk s') (slot_lba ?n)) = name" "cat_Kind (cat_at c (dsk s') (slot_lba ?n)) = kind"
    "cat_DataFork (cat_at c (dsk s') (slot_lba ?n)) = D - slot_lba ?n"
    "super_at c (dsk s') = counted (super_at c (dsk s))"
    "\<forall>i \<le> N. i \<noteq> ?n \<longrightarrow> cat_at c (dsk s') (slot_lba i) = cat_at c (dsk s) (slot_lba i)"
    using create_on_dense [OF h(1,2) r(1) h(3) assms(2) r(2,3) free nm assms(6) new pn(1,2) no_file, of flags]
    unfolding h(5) by blast
  have "unat (sb_FreeCatalog (super_at c (dsk s')) ) + Suc ?n = F"
    using s'(8) h(4) free \<open>0 < unat (sb_FreeCatalog (super_at c (dsk s)))\<close> by (simp add: counted_def unat_sub)
  moreover have "sb_DiskSize (super_at c (dsk s')) = D" using s'(8) h(5) by (simp add: counted_def)
  moreover have "let cat = cat_at c (dsk s') (slot_lba i) in
        catalog_name cat = (ns @ [name]) ! i \<and>
        ((ns @ [name]) ! i \<noteq> [] \<and> last ((ns @ [name]) ! i) = kNeFSSeparator \<longrightarrow> cat_Kind cat = kNeFSCatalogKindDir) \<and>
        (0 < i \<longrightarrow> cat_DataFork cat = D - slot_lba i)" if "i < Suc ?n" for i
  proof (cases "i = ?n")
    case True
    then show ?thesis using s'(5-7) assms(6) by (simp add: Let_def)
  next
    case False
    then have "i < ?n" "cat_at c (dsk s') (slot_lba i) = cat_at c (dsk s) (slot_lba i)"
      using that s'(9) assms(2) by simp_all
    then show ?thesis using h(6-8) [of i] by (simp add: nth_append Let_def)
  qed
  ultimately have "holds c N F D s' (ns @ [name])" using s'(2-4) by (simp add: holds_def)
  with s'(1) show ?thesis by blast
qed

lemma install_folder_holds:
  assumes "holds c N F D s ns" and "length ns < N" and "room c N F D" and "name = kNeFSRoot \<or> good_name name"
    and "name = kNeFSRoot \<longrightarrow> name \<in> set ns" and "last name = kNeFSSeparator"
  shows "\<exists>s'. install_folder c name s = Inr s' \<and> holds c N F D s' (if name \<in> set ns then ns else ns @ [name])"
proof -
  have "name \<noteq> []" using assms(4) by (auto simp: good_name_def kNeFSRoot_def)
  then obtain r s1 where r: "GetCatalog c (Some name) s = Inr (r, s1)" "holds c N F D s1 ns" "r = None \<longleftrightarrow> name \<notin> set ns"
    using GetCatalog_holds [OF assms(1) less_imp_le [OF assms(2)] assms(3)] by metis
  show ?thesis
  proof (cases r)
    case None
    then obtain s2 where "CreateCatalog_kind c name 0 kNeFSCatalogKindDir s1 = Inr (Some catalog_zero, s2)" "holds c N F D s2 (ns @ [name])"
      using CreateCatalog_holds [OF r(2) assms(2,3), of name] r(3) assms(4-6) by blast
    then show ?thesis using None r by (simp add: install_folder_def)
  next
    case (Some cat)
    then show ?thesis using r by (simp add: install_folder_def)
  qed
qed

lemma install_folders_holds:
  assumes "room c N F D" and "\<forall>w \<in> set ws. good_name w \<and> last w = kNeFSSeparator \<and> w \<noteq> kNeFSRoot"
    and "distinct ws" and "set ws \<inter> set ns = {}" and "length ns + length ws \<le> N" and "holds c N F D s ns"
  shows "\<exists>s'. install_folders c ws s = Inr s' \<and> holds c N F D s' (ns @ ws)"
  using assms(2-6)
proof (induction ws arbitrary: s ns)
  case Nil
  then show ?case by simp
next
  case (Cons w ws)
  then have "length ns < N" by simp
  then obtain s1 where s1: "install_folder c w s = Inr s1" "holds c N F D s1 (ns @ [w])"
    using install_folder_holds [OF Cons.prems(5) _ assms(1), of w] Cons.prems(1,3) by auto
  show ?case using Cons.IH [OF _ _ _ _ s1(2)] Cons.prems s1(1) by simp
qed

subsection \<open>The journal\<close>

definition xml_dir :: "u8 list" where "xml_dir = ascii ''/etc/xml/''"

lemma names_eval:
  "kFolderStr = [[47], [47,98,111,111,116,47], [47,115,121,115,47], [47,109,101,100,105,97,47], [47,101,116,99,47],
     [47,117,115,114,47], [47,108,105,98,47], [47,109,110,116,47], [47,115,98,105,110,47], [47,110,47],
     [47,100,101,118,47], [47,114,117,110,47], [47,114,111,111,116,47]]"
  "xml_dir = [47,101,116,99,47,120,109,108,47]"
  "default_stamp = [47,101,116,99,47,120,109,108,47,106,111,117,114,110,97,108,46,106,114,110,108]"
  "log_name = [78,101,70,83,32,70,111,114,109,97,116,32,83,121,115,116,101,109]"
  "length log_xml = 32"
  unfolding kFolderStr_def xml_dir_def default_stamp_def log_name_def log_xml_def ascii_def by code_simp+

lemma good_folders:
  "list_all (\<lambda>w. good_name w \<and> last w = kNeFSSeparator \<and> w \<noteq> kNeFSRoot) (tl kFolderStr)"
  "good_name xml_dir" "good_name default_stamp" "last xml_dir = kNeFSSeparator" "last default_stamp \<noteq> kNeFSSeparator"
  unfolding names_eval by code_simp+

text \<open>The fork of the journal is refused: it would lie behind the first catalog.\<close>

lemma CommitJournal_refused:
  assumes "holds c N F D s ns" and "length ns \<le> N" and "room c N F D" and "distinct ns"
    and "p < length ns" and "ns ! p = default_stamp" and "0 < p" and "p < 16" and "node \<noteq> None"
  shows "if ndebug c then CommitJournal c True log_xml log_name \<lparr>mNode = node, mStamp = default_stamp\<rparr> s = Inl (Panic 1111)
    else \<exists>s'. CommitJournal c True log_xml log_name \<lparr>mNode = node, mStamp = default_stamp\<rparr> s = Inr (False, s') \<and>
      holds c N F D s' ns"
proof -
  let ?f = "fork_zero\<lparr>fork_CatalogName := put_cstr default_stamp (fork_CatalogName fork_zero),
    fork_ForkName := put_cstr log_name (fork_ForkName fork_zero), fork_ResourceKind := 0, fork_ResourceId := 0,
    fork_ResourceFlags := 0, fork_DataSize := of_nat (length log_xml), fork_Kind := 0\<rparr>"
  have h: "mounted s" "\<not> read_only (mA (mnt s))" "dense c (dsk s) (length ns) N"
    "\<forall>i < length ns. catalog_name (cat_at c (dsk s) (slot_lba i)) = ns ! i"
    "cat_DataFork (cat_at c (dsk s) (slot_lba p)) = D - slot_lba p"
    using assms(1,5,7) by (simp_all add: holds_def Let_def)
  have r: "slots_fit N" "length ns < nfuel c" "2 ^ 16 \<le> unat D" using assms(2,3) by (simp_all add: room_def)
  have "length (fork_ForkName ?f) = 200"
    by (simp add: put_cstr_def names_eval fork_zero_def kNeFSForkNameLen_def)
  then have cat: "fork_catalog ?f = default_stamp" by (simp add: fork_catalog_def enc_fork_def) (simp add: names_eval)
  have "unat (slot_lba p) = 2560 + 2056 * p" using unat_slot [of p N] assms(2,5) r(1) by simp
  then have "unat (D - slot_lba p) = unat D - (2560 + 2056 * p)" using r(3) assms(8)
    by (subst unat_sub) (simp_all add: word_le_nat_alt)
  then have "kNeFSCatalogStartAddress \<le> D - slot_lba p" using r(3) assms(8)
    by (simp add: word_le_nat_alt kNeFSCatalogStartAddress_def)
  moreover have "\<forall>i < length ns. catalog_name (cat_at c (dsk s) (slot_lba i)) = default_stamp \<longleftrightarrow> i = p"
    using h(4) assms(4-6) nth_eq_iff_index_eq by metis
  then have "find (cat_hit c (dsk s) (fork_catalog ?f) True) (map slot_lba [0..<Suc (length ns)]) = Some (slot_lba p)"
    unfolding cat using find_new_name(1) [OF h(1,3) assms(2) r(1,2) _ assms(5)] by (simp add: names_eval)
  moreover have "fork_ForkName ?f ! 0 \<noteq> 0" "fork_CatalogName ?f ! 0 \<noteq> 0" "0 < fork_DataSize ?f" "fork_catalog ?f \<noteq> []"
    unfolding cat by (simp_all add: put_cstr_def names_eval)
  moreover obtain s' where s': "same_fs s s'" "GetCatalog c (Some (fork_catalog ?f)) s = Inr (Some (cat_at c (dsk s) (slot_lba p)), s')"
    using GetCatalog_hit [OF h(1) _ holds_chain [OF assms(1-3)]] calculation by blast
  ultimately have "CreateFork c ?f s = (if ndebug c then Inl (Panic 1111) else Inr (False, ?f, s'))"
    using h(5) by (simp add: CreateFork_def Let_def not_less [symmetric])
  moreover have "\<not> length default_stamp \<ge> kNeFSNodeNameLen" "\<not> length log_name \<ge> kNeFSForkNameLen"
    by (simp_all add: names_eval kNeFSNodeNameLen_def kNeFSForkNameLen_def)
  ultimately show ?thesis
    using holds_same_fs [OF assms(1) s'(1)] assms(9) by (auto simp: CommitJournal_def Let_def)
qed

lemma install_journal_holds:
  assumes "holds c N F D s ns" and "length ns + 2 \<le> N" and "room c N F D" and "distinct ns" and "ns \<noteq> []"
    and "length ns < 15" and "xml_dir \<notin> set ns" and "default_stamp \<notin> set ns"
  shows "if ndebug c then install_journal c s = Inl (Panic 1111)
    else \<exists>j s'. install_journal c s = Inr (j, s') \<and> mNode j = None \<and> holds c N F D s' (ns @ [xml_dir, default_stamp])"
proof -
  let ?ns = "ns @ [xml_dir, default_stamp]"
  have ne: "default_stamp \<noteq> []" "xml_dir \<noteq> default_stamp" by (simp_all add: names_eval)
  obtain s1 where s1: "GetCatalog c (Some default_stamp) s = Inr (None, s1)" "holds c N F D s1 ns"
    using GetCatalog_holds [OF assms(1) _ assms(3) ne(1)] assms(2,8) by auto
  obtain s2 where s2: "CreateCatalog_kind c xml_dir 0 kNeFSCatalogKindDir s1 = Inr (Some catalog_zero, s2)"
    "holds c N F D s2 (ns @ [xml_dir])"
    using CreateCatalog_holds [OF s1(2) _ assms(3), of xml_dir kNeFSCatalogKindDir 0] assms(2,7) good_folders by auto
  obtain s3 where s3: "CreateCatalog c default_stamp s2 = Inr (Some catalog_zero, s3)" "holds c N F D s3 ?ns"
    using CreateCatalog_holds [OF s2(2) _ assms(3), of default_stamp kNeFSCatalogKindFile 0] assms(2,8) good_folders ne
    by (auto simp: CreateCatalog_def)
  have "distinct ?ns" using assms(4,7,8) ne by simp
  then have "if ndebug c then CommitJournal c True log_xml log_name \<lparr>mNode = Some catalog_zero, mStamp = default_stamp\<rparr> s3 = Inl (Panic 1111)
    else \<exists>s'. CommitJournal c True log_xml log_name \<lparr>mNode = Some catalog_zero, mStamp = default_stamp\<rparr> s3 = Inr (False, s') \<and>
      holds c N F D s' ?ns"
    using CommitJournal_refused [OF s3(2) _ assms(3), of "Suc (length ns)" "Some catalog_zero"] assms(2,6)
    by (simp add: nth_append)
  then show ?thesis
    using s1(1) s2(1) s3(1)
    by (auto simp: install_journal_def Journal_new_def GetJournal_def CreateJournal_def xml_dir_def ReleaseJournal_def)
qed

subsection \<open>A partition with a root\<close>

definition root_conf :: nconf where
  "root_conf = \<lparr>hw = \<lparr>dpos = ahci_pos, drv_std_init = \<lambda>_ _. True\<rparr>, ndebug = False, nfuel = 17\<rparr>"

definition bare_disk :: disk where
  "bare_disk = drv_std_write (hw root_conf) kNeFSRootCatalogStartAddress (enc_super (demo_super\<lparr>sb_FreeCatalog := 17\<rparr>))
     \<lparr>platter = \<lambda>_. 0, kATAIO = 0, kATAMaster = False\<rparr>"

definition root_fs :: nefs where
  "root_fs = demo_fs\<lparr>dsk := child_disk root_conf (child_catalog kNeFSRoot 0 kNeFSCatalogKindDir (slot_lba 0)) (slot_lba 0) bare_disk\<rparr>"

lemma root_addressing: "drive_addressing (dpos (hw root_conf))" "slots_fit 16" "ndebug root_conf = False" "nfuel root_conf = 17"
  by (simp_all add: root_conf_def ahci.drive_addressing_axioms slots_fit_def)

lemma bare_super: "super_at root_conf bare_disk = demo_super\<lparr>sb_FreeCatalog := 17\<rparr>"
  unfolding bare_disk_def by (rule super_at_write_same) (simp add: super_ok_def demo_super_def)

lemma bare_dense: "dense root_conf bare_disk 0 16"
proof -
  let ?blank = "\<lparr>platter = \<lambda>_. 0, kATAIO = 0, kATAMaster = False\<rparr>"
  have "cat_at root_conf bare_disk (slot_lba i) = catalog_zero" if i: "i \<le> 16" for i
  proof -
    have "cat_at root_conf bare_disk (slot_lba i) = cat_at root_conf ?blank (slot_lba i)"
      unfolding bare_disk_def using slot_apart_super [OF i root_addressing(2)]
      by (intro cat_at_write_other) (simp_all add: root_addressing length_enc_super super_ok_def demo_super_def)
    also have "\<dots> = catalog_zero"
      by (simp add: cat_at_def drv_std_read_def read_bytes_def map_replicate_const dec_catalog_blank)
    finally show ?thesis .
  qed
  then show ?thesis by (simp add: dense_def bare_super) (simp add: demo_super_def)
qed

lemma root_facts:
  "mounted root_fs" "\<not> read_only (mA (mnt root_fs))" "dense root_conf (dsk root_fs) 1 16"
  "catalog_name (cat_at root_conf (dsk root_fs) (slot_lba 0)) = kNeFSRoot"
  "cat_Kind (cat_at root_conf (dsk root_fs) (slot_lba 0)) = kNeFSCatalogKindDir"
  "unat (sb_FreeCatalog (super_at root_conf (dsk root_fs))) = 16" "sb_DiskSize (super_at root_conf (dsk root_fs)) = 0x100000"
proof -
  let ?child = "child_catalog kNeFSRoot 0 kNeFSCatalogKindDir (slot_lba 0)"
  have d: "dsk root_fs = child_disk root_conf ?child (slot_lba 0) bare_disk" by (simp add: root_fs_def)
  have len: "length kNeFSRoot < 256" "0 \<notin> set kNeFSRoot" by (simp_all add: kNeFSRoot_def)
  show "mounted root_fs" "\<not> read_only (mA (mnt root_fs))" using demo_mounted by (simp_all add: root_fs_def)
  show "dense root_conf (dsk root_fs) 1 16"
    using child_disk_dense [OF bare_dense _ root_addressing(2,1) len(1)] unfolding d by simp
  note reads = child_disk_reads [OF root_addressing(1) child_catalog_ok [OF len(1)] slot_apart_super [of 0 16, OF _ root_addressing(2)]]
  show "catalog_name (cat_at root_conf (dsk root_fs) (slot_lba 0)) = kNeFSRoot"
    "cat_Kind (cat_at root_conf (dsk root_fs) (slot_lba 0)) = kNeFSCatalogKindDir"
    unfolding d by (simp_all add: reads(2) child_name len) (simp add: placed_child_def child_catalog_def)
  show "unat (sb_FreeCatalog (super_at root_conf (dsk root_fs))) = 16" "sb_DiskSize (super_at root_conf (dsk root_fs)) = 0x100000"
    unfolding d by (simp_all add: reads(1) bare_super counted_def) (simp add: demo_super_def)
qed

subsection \<open>Properties\<close>

text \<open>
  C30. The installer on a partition that has the root folder only, in its first slot, with room for the rest:
  in a release build it returns, and the slots then hold the root, the twelve other folders in the order of
  the table, the folder of the journal and the journal, in that order; the partition stays dense and the
  counter of free catalogs has gone down by fourteen. In a debug build it panics, because the journal's fork
  is refused.
\<close>

theorem installer_creates_folders:
  assumes "mounted s" and "\<not> read_only (mA (mnt s))" and "drive_addressing (dpos (hw c))"
    and "dense c (dsk s) 1 N" and "15 \<le> N" and "slots_fit N" and "N < nfuel c"
    and "catalog_name (cat_at c (dsk s) (slot_lba 0)) = kNeFSRoot"
    and "cat_Kind (cat_at c (dsk s) (slot_lba 0)) = kNeFSCatalogKindDir"
    and "N \<le> unat (sb_FreeCatalog (super_at c (dsk s)))" and "0x10000 \<le> sb_DiskSize (super_at c (dsk s))"
  shows "if ndebug c then NeFilesystemInstaller c s = Inl (Panic 1111)
    else \<exists>j s'. NeFilesystemInstaller c s = Inr (j, s') \<and> mNode j = None \<and>
      dense c (dsk s') 15 N \<and>
      map (\<lambda>i. catalog_name (cat_at c (dsk s') (slot_lba i))) [0..<15] =
        kFolderStr @ [ascii ''/etc/xml/'', ascii ''/etc/xml/journal.jrnl''] \<and>
      unat (sb_FreeCatalog (super_at c (dsk s'))) + 14 = unat (sb_FreeCatalog (super_at c (dsk s)))"
proof -
  define F where "F = unat (sb_FreeCatalog (super_at c (dsk s))) + 1"
  define D where "D = sb_DiskSize (super_at c (dsk s))"
  let ?ns = "[kNeFSRoot]" and ?all = "kFolderStr @ [xml_dir, default_stamp]"
  have room: "room c N F D"
    using assms(3,6,7,10,11) by (simp add: room_def F_def D_def word_le_nat_alt)
  have "holds c N F D s ?ns"
    using assms(1,2,4,8,9) by (simp add: holds_def F_def D_def)
  moreover have root: "kFolderStr = kNeFSRoot # tl kFolderStr" by (simp add: names_eval kNeFSRoot_def)
  have found: "install_folder c kNeFSRoot s = Inr s1 \<and> holds c N F D s1 ?ns \<Longrightarrow>
      \<exists>s2. install_folders c kFolderStr s = Inr s2 \<and> holds c N F D s2 (kNeFSRoot # tl kFolderStr)" for s1
  proof -
    assume s1: "install_folder c kNeFSRoot s = Inr s1 \<and> holds c N F D s1 ?ns"
    have "\<forall>w \<in> set (tl kFolderStr). good_name w \<and> last w = kNeFSSeparator \<and> w \<noteq> kNeFSRoot"
      using good_folders(1) by (simp only: list_all_iff)
    moreover have "distinct (tl kFolderStr)" "set (tl kFolderStr) \<inter> set ?ns = {}" "length ?ns + length (tl kFolderStr) \<le> N"
      using assms(5) by (simp_all add: names_eval kNeFSRoot_def)
    ultimately obtain s2 where "install_folders c (tl kFolderStr) s1 = Inr s2" "holds c N F D s2 (?ns @ tl kFolderStr)"
      using install_folders_holds [OF room] s1 by blast
    then show ?thesis using s1 by (subst root) simp
  qed
  ultimately obtain s2 where s2: "install_folders c kFolderStr s = Inr s2" "holds c N F D s2 kFolderStr"
    using install_folder_holds [OF _ _ room, of s ?ns kNeFSRoot] assms(5) root
    by (auto simp: kNeFSRoot_def kNeFSSeparator_def)
  have "if ndebug c then install_journal c s2 = Inl (Panic 1111)
    else \<exists>j s'. install_journal c s2 = Inr (j, s') \<and> mNode j = None \<and> holds c N F D s' ?all"
    by (rule install_journal_holds [OF s2(2) _ room]) (use assms(5) in \<open>simp_all add: names_eval\<close>)
  moreover have "dense c (dsk s') 15 N \<and> map (\<lambda>i. catalog_name (cat_at c (dsk s') (slot_lba i))) [0..<15] = ?all \<and>
      unat (sb_FreeCatalog (super_at c (dsk s'))) + 14 = unat (sb_FreeCatalog (super_at c (dsk s)))"
    if h: "holds c N F D s' ?all" for s'
  proof -
    have l: "length ?all = 15" by (simp add: names_eval)
    have n: "dense c (dsk s') 15 N" "unat (sb_FreeCatalog (super_at c (dsk s'))) + 15 = F"
      using h unfolding holds_def l by blast+
    have "\<forall>i < 15. catalog_name (cat_at c (dsk s') (slot_lba i)) = ?all ! i"
      using h unfolding holds_def l Let_def by blast
    then have "map (\<lambda>i. catalog_name (cat_at c (dsk s') (slot_lba i))) [0..<15] = ?all"
      by (intro nth_equalityI) (simp_all only: l length_map length_upt nth_map_upt diff_zero add_0)
    with n show ?thesis by (simp add: F_def)
  qed
  ultimately show ?thesis
    using s2(1) unfolding xml_dir_def default_stamp_def by (auto simp: NeFilesystemInstaller_def)
qed

theorem installer_creates_folders_witness:
  "\<exists>j s'. NeFilesystemInstaller root_conf root_fs = Inr (j, s') \<and> dense root_conf (dsk s') 15 16 \<and>
    unat (sb_FreeCatalog (super_at root_conf (dsk s'))) + 14 = 16"
  using installer_creates_folders [OF root_facts(1,2) root_addressing(1) root_facts(3) _ root_addressing(2) _ root_facts(4,5)]
  by (simp add: root_addressing root_facts(6,7)) blast

text \<open>
  C31. On a formatted partition without catalogs, which is what the boot loader's formatter makes of a blank disk, the
  installer does not get past the root folder: it is not found, so it is to be created, and cutting its last
  two characters off to get its parent writes in front of the array of the name.
\<close>

theorem installer_needs_a_root:
  assumes "mounted s" and "dense c (dsk s) 0 N" and "slots_fit N" and "0 < nfuel c"
  shows "NeFilesystemInstaller c s = Inl OutOfBounds"
proof -
  have chain: "chain_from_root c (dsk s) [slot_lba 0]" using dense_chain [OF assms(2) _ assms(3,4)] by simp
  have none: "find (cat_hit c (dsk s) kNeFSRoot True) [slot_lba 0] = None"
    using dense_find(2) [OF assms(2), of kNeFSRoot] by simp
  have ne: "kNeFSRoot \<noteq> []" by (simp add: kNeFSRoot_def)
  obtain s1 where s1: "same_fs s s1" "FindCatalog c (Some kNeFSRoot) 0 True False s = Inr (None, 0, s1)"
    using FindCatalog_chain [OF assms(1) ne chain, of 0 True] unfolding none by auto
  have d1: "dsk s1 = dsk s" using s1(1) by (simp add: same_fs_def)
  obtain s2 where s2: "FindCatalog c (Some kNeFSRoot) 0 True False s1 = Inr (None, 0, s2)"
    using FindCatalog_chain [OF same_fs_mounted [OF s1(1) assms(1)] ne chain [folded d1], of 0 True]
    unfolding d1 none by auto
  have "parent_name kNeFSRoot = Inl OutOfBounds" by (simp add: parent_name_def kNeFSRoot_def kNeFSNodeNameLen_def)
  moreover have "last kNeFSRoot = kNeFSSeparator" by (simp add: kNeFSRoot_def kNeFSSeparator_def)
  ultimately have "install_folder c kNeFSRoot s = Inl OutOfBounds"
    using s1(2) s2 ne by (simp add: install_folder_def GetCatalog_def CreateCatalog_kind_def)
  moreover have "kFolderStr = kNeFSRoot # tl kFolderStr" by (simp add: names_eval kNeFSRoot_def)
  ultimately show ?thesis unfolding NeFilesystemInstaller_def by (metis bindF_Inl install_folders.simps(2))
qed

theorem installer_needs_a_root_witness:
  "NeFilesystemInstaller root_conf (demo_fs\<lparr>dsk := bare_disk\<rparr>) = Inl OutOfBounds"
  by (rule installer_needs_a_root [of _ _ 16]) (use demo_mounted bare_dense root_addressing in simp_all)

end
