(* ===== verification/Startup.thy ===== *)
theory Startup
  imports BootLoad Gfx
begin

text \<open>
  The boot loader's entry, \<^verbatim>\<open>Boot/src/HEL/AMD64/EFIBootStartup.cc\<close>, with the record it hands to the
  kernel (\<^verbatim>\<open>FirmwareKit/Handover.h\<close>) and the allocation operators of \<^verbatim>\<open>Boot/src/New+Delete.cc\<close>. What the
  firmware answers is the record \<open>startup\<close>; the drawing, the file reader, the loader of programs and the
  formatter are the models of the other theories.
\<close>

subsection \<open>The handover record\<close>

definition kHandoverVersion :: u64 where "kHandoverVersion = 0x0117"
definition kHandoverBitMapSz :: nat where "kHandoverBitMapSz = 4 * 1024 * 1024 * 1024"

record BootInfoHeader =
  f_Magic :: u64
  f_Version :: u64
  f_BitMapStart :: nat
  f_BitMapSize :: nat
  f_KernelImage :: nat
  f_FirmwareVendorName :: "nat \<Rightarrow> u16"
  f_FirmwareVendorLen :: nat
  f_FirmwareCustomTables :: "nat \<times> nat"
  f_VendorPtr :: nat
  f_MpPtr :: nat
  f_MultiProcessingEnabled :: bool
  f_GOP :: GOP

definition BootInfoHeader_new :: BootInfoHeader where
  "BootInfoHeader_new = \<lparr>f_Magic = 0, f_Version = 0, f_BitMapStart = 0, f_BitMapSize = 0, f_KernelImage = 0,
     f_FirmwareVendorName = (\<lambda>_. 0), f_FirmwareVendorLen = 0, f_FirmwareCustomTables = (0, 0), f_VendorPtr = 0,
     f_MpPtr = 0, f_MultiProcessingEnabled = False,
     f_GOP = \<lparr>f_The = 0, f_Size = 0, f_Width = 0, f_Height = 0, f_PixelFormat = 0, f_PixelPerLine = 0\<rparr>\<rparr>"

subsection \<open>Allocation (New+Delete.cc)\<close>

text \<open>\<open>pool k\<close> is the status and the pointer of the \<open>k\<close>th call of \<^verbatim>\<open>AllocatePool\<close>; the lists are what is freed.\<close>

definition kBufferTooSmall :: nat where "kBufferTooSmall = 5"

partial_function (option) boot_new :: "(nat \<Rightarrow> nat \<times> nat) \<Rightarrow> nat \<Rightarrow> nat list \<Rightarrow> (nat \<times> nat list) option" where
  "boot_new pool k freed =
     (if fst (pool k) = kBufferTooSmall then boot_new pool (Suc k) (freed @ [snd (pool k)])
      else Some (snd (pool k), freed))"

declare boot_new.simps [simp del]

definition boot_new_array :: "(nat \<Rightarrow> nat \<times> nat) \<Rightarrow> nat \<Rightarrow> nat" where
  "boot_new_array pool k = snd (pool k)"

definition boot_delete :: "nat \<Rightarrow> nat list" where
  "boot_delete buf = [buf]"

subsection \<open>The frame buffer\<close>

definition kExpectedWidth :: u32 where "kExpectedWidth = 1280"
definition kExpectedHeight :: u32 where "kExpectedHeight = 720"

record efi_mode =
  HorizontalResolution :: u32
  VerticalResolution :: u32
  PixelsPerScanLine :: u32
  PixelFormat :: u32
  FrameBufferBase :: u64
  FrameBufferSize :: u32

text \<open>A query that fails leaves the pointer to the mode's information null.\<close>

fun find_mode :: "nat \<Rightarrow> efi_mode option list \<Rightarrow> fault + nat option" where
  "find_mode i [] = Inr None"
| "find_mode i (None # modes) = Inl NullDeref"
| "find_mode i (Some info # modes) =
     (if HorizontalResolution info = kExpectedWidth \<and> VerticalResolution info = kExpectedHeight then Inr (Some i)
      else find_mode (Suc i) modes)"

record startup =
  has_gop :: bool
  modes :: "efi_mode option list"
  mode_set :: "nat \<Rightarrow> efi_mode"
  ConfigurationTable :: "nat list"
  mp :: "(nat \<times> nat) option"
  memory_kind :: "nat \<Rightarrow> nat"
  bitmap_pool :: "nat \<Rightarrow> bool \<times> nat"
  FirmwareVendor :: "nat \<Rightarrow> u16"
  zka_disk :: nat
  zka_has_disk :: nat
  zka_no_disk :: nat
  root_blob :: nat
  fs_name :: nat
  ident_lit :: nat

definition boot_init_fb :: "startup \<Rightarrow> fault + nat option" where
  "boot_init_fb su = (if has_gop su then find_mode 0 (modes su) else Inr None)"

text \<open>The lines of the screen go to \<open>f_Width\<close>, the pixels of a line to \<open>f_Height\<close>.\<close>

definition fill_gop :: "efi_mode \<Rightarrow> GOP" where
  "fill_gop mode = \<lparr>f_The = FrameBufferBase mode, f_Size = ucast (FrameBufferSize mode), f_Width = VerticalResolution mode,
     f_Height = HorizontalResolution mode, f_PixelFormat = PixelFormat mode, f_PixelPerLine = PixelsPerScanLine mode\<rparr>"

text \<open>A picture of \<open>w\<close> by \<open>h\<close> pixels in the middle; the macro takes the picture's width as a height.\<close>

definition draw_picture :: "GOP \<Rightarrow> nat \<Rightarrow> nat \<Rightarrow> nat \<Rightarrow> mem \<Rightarrow> mem" where
  "draw_picture g reg_ptr w h m =
     snd (FBDrawBitMapInRegion g reg_ptr (of_nat w) (of_nat h) (ucast ((f_Width g - of_nat w) div 2))
            (ucast ((f_Height g - of_nat h) div 2)) (0, m))"

definition OPENNE_DISK_WIDTH :: nat where "OPENNE_DISK_WIDTH = 110"
definition OPENNE_DISK_HEIGHT :: nat where "OPENNE_DISK_HEIGHT = 110"

definition boot_splash :: "GOP \<Rightarrow> nat \<Rightarrow> mem \<Rightarrow> mem" where
  "boot_splash g picture m = draw_picture g picture OPENNE_DISK_WIDTH OPENNE_DISK_HEIGHT (fb_clear_video g m)"

subsection \<open>Tables and memory\<close>

definition rsd_ptr :: "u8 list" where "rsd_ptr = [82, 83, 68, 32, 80, 84, 82, 32]"

definition find_rsd_ptr :: "mem \<Rightarrow> nat list \<Rightarrow> nat option" where
  "find_rsd_ptr m tables = find (\<lambda>t. read_bytes t 8 m = rsd_ptr) tables"

definition EfiConventionalMemory :: nat where "EfiConventionalMemory = 7"

text \<open>The scan of the memory map has no bound.\<close>

partial_function (option) usable_region :: "(nat \<Rightarrow> nat) \<Rightarrow> nat \<Rightarrow> nat option" where
  "usable_region kind i = (if kind i \<noteq> EfiConventionalMemory then usable_region kind (Suc i) else Some i)"

declare usable_region.simps [simp del]

partial_function (option) alloc_bitmap :: "(nat \<Rightarrow> bool \<times> nat) \<Rightarrow> nat \<Rightarrow> nat option" where
  "alloc_bitmap pool k = (if \<not> fst (pool k) then alloc_bitmap pool (Suc k) else Some (snd (pool k)))"

declare alloc_bitmap.simps [simp del]

subsection \<open>Loading a program\<close>

record 'f file_env =
  fe_path :: "u16 list"
  fe_open :: efi_open
  fe_read :: "nat \<Rightarrow> 'f \<Rightarrow> bool \<times> u8 list \<times> 'f"
  fe_fuel :: nat
  fe_info :: "nat option"
  fe_pool :: "nat option"
  fe_file :: 'f
  fe_loader :: loader_env
  fe_alloc :: "nat \<Rightarrow> nat \<Rightarrow> nat"
  fe_name_at :: nat
  fe_name_lit :: nat

text \<open>
  A file is read and, when that gives a blob, a thread is made of it and named; without a blob there is no
  thread.
\<close>

definition boot_load :: "'f file_env \<Rightarrow> mem \<Rightarrow> (fault + (BootThread option \<times> mem)) option" where
  "boot_load fe m =
     (case bindF (BFileReader_new (Some (fe_path fe)) (fe_open fe)) (\<lambda>r.
             BFileReader_ReadAll (fe_read fe) (fe_fuel fe) (fe_info fe) (fe_pool fe) 0 4096 0 r (fe_file fe) m) of
        Inl e \<Rightarrow> Some (Inl e)
      | Inr (r, f, m1) \<Rightarrow>
          if mBlob r = 0 then Some (Inr (None, m1))
          else (case BootThread_new (fe_loader fe) (fe_alloc fe) (mBlob r) m1 of
                  None \<Rightarrow> None
                | Some (Inl e) \<Rightarrow> Some (Inl e)
                | Some (Inr (t, m2)) \<Rightarrow>
                    map_option (\<lambda>m3. Inr (Some t, m3)) (BootThread_SetName (fe_name_at fe) (fe_name_lit fe) m2)))"

subsection \<open>The entry\<close>

datatype 'd boot_outcome =
    Returned u32
  | KernelStarted BootInfoHeader nat mem 'd

text \<open>The checks of the disk when the recovery program does not report success.\<close>

definition check_disk ::
  "startup \<Rightarrow> 'd BootDev \<Rightarrow> format_env \<Rightarrow> GOP \<Rightarrow> mem \<Rightarrow> 'd \<Rightarrow> (fault + (mem \<times> 'd)) option" where
  "check_disk su D env g m d =
     (case IsPartitionValid D (ident_lit su) m d of
        Inl e \<Rightarrow> Some (Inl e)
      | Inr (valid, d1) \<Rightarrow>
          if valid then Some (Inr (m, d1))
          else let m1 = store32 (root_blob su + 256) 2
                     ((write_bytes (root_blob su) (replicate 260 0) m)(root_blob su := 47, root_blob su + 1 := 0)) in
            (case BDiskFormatFactory_Format D env (fs_name su) (root_blob su) 1 m1 d1 of
               None \<Rightarrow> None
             | Some (Inl e) \<Rightarrow> Some (Inl e)
             | Some (Inr (ok, m2, d2)) \<Rightarrow> Some (Inr (boot_splash g (zka_has_disk su) m2, d2))))"

text \<open>The vendor's name goes into an array of 32 characters, without a check.\<close>

definition fill_vendor :: "startup \<Rightarrow> BootInfoHeader \<Rightarrow> (fault + BootInfoHeader) option" where
  "fill_vendor su hdr =
     (case BStrLen (Some (FirmwareVendor su)) of
        None \<Rightarrow> None
      | Some n \<Rightarrow>
          if 32 < n then Some (Inl OutOfBounds)
          else case snd (BCopyMem (Some (f_FirmwareVendorName hdr)) (Some (FirmwareVendor su)) n) of
            None \<Rightarrow> Some (Inl NullDeref)
          | Some name \<Rightarrow>
              Some (Inr (hdr\<lparr>f_Magic := kHandoverMagic, f_Version := kHandoverVersion,
                f_FirmwareVendorName := name, f_FirmwareVendorLen := n\<rparr>)))"

text \<open>
  After the recovery program: \<open>neoskrnl\<close> is the loading of the kernel. The last call does not come back.
\<close>

definition start_kernel ::
  "startup \<Rightarrow> (mem \<Rightarrow> (fault + (BootThread option \<times> mem)) option) \<Rightarrow> BootInfoHeader \<Rightarrow> mem \<Rightarrow> 'd \<Rightarrow>
   (fault + 'd boot_outcome) option" where
  "start_kernel su neoskrnl hdr m d =
     (case fill_vendor su (hdr\<lparr>f_FirmwareCustomTables := (0, 0)\<rparr>) of
        None \<Rightarrow> None
      | Some (Inl e) \<Rightarrow> Some (Inl e)
      | Some (Inr hdr1) \<Rightarrow>
          (case neoskrnl m of
             None \<Rightarrow> None
           | Some (Inl e) \<Rightarrow> Some (Inl e)
           | Some (Inr (None, m1)) \<Rightarrow> Some EFI_Stop
           | Some (Inr (Some t, m1)) \<Rightarrow>
               Some (bindF (BootThread_Start (\<lambda>_. 0) True t) (\<lambda>_.
                 Inr (KernelStarted (hdr1\<lparr>f_KernelImage := fBlob t\<rparr>) (fStartAddress t) m1 d)))))"

definition boot_with ::
  "startup \<Rightarrow> nat \<Rightarrow> nat \<Rightarrow> (mem \<Rightarrow> (fault + (BootThread option \<times> mem)) option) \<Rightarrow>
   (mem \<Rightarrow> (fault + (BootThread option \<times> mem)) option) \<Rightarrow> (nat \<Rightarrow> u32) \<Rightarrow> 'd BootDev \<Rightarrow> format_env \<Rightarrow> mem \<Rightarrow> 'd \<Rightarrow>
   (fault + 'd boot_outcome) option" where
  "boot_with su BS ST syschk neoskrnl run D env m d =
     (case boot_init_fb su of
        Inl e \<Rightarrow> Some (Inl e)
      | Inr None \<Rightarrow> Some (Inr (Returned 1))
      | Inr (Some i) \<Rightarrow>
          let hdr = BootInfoHeader_new\<lparr>f_VendorPtr := (case find_rsd_ptr m (ConfigurationTable su) of None \<Rightarrow> 0 | Some p \<Rightarrow> p),
                      f_MpPtr := (case mp su of None \<Rightarrow> 0 | Some (p, cnt) \<Rightarrow> p),
                      f_MultiProcessingEnabled := (case mp su of None \<Rightarrow> False | Some (p, cnt) \<Rightarrow> cnt > 1),
                      f_GOP := fill_gop (mode_set su i)\<rparr>;
              m1 = boot_splash (f_GOP hdr) (zka_disk su) m
          in case usable_region (memory_kind su) 0 of
               None \<Rightarrow> None
             | Some lookup_index \<Rightarrow>
               (case alloc_bitmap (bitmap_pool su) 0 of
                  None \<Rightarrow> None
                | Some start \<Rightarrow>
                    let hdr1 = hdr\<lparr>f_BitMapStart := start, f_BitMapSize := kHandoverBitMapSz,
                                 f_FirmwareCustomTables := (BS, ST)\<rparr> in
                    (case syschk m1 of
                       None \<Rightarrow> None
                     | Some (Inl e) \<Rightarrow> Some (Inl e)
                     | Some (Inr (None, m2)) \<Rightarrow> Some (Inl NullDeref)
                     | Some (Inr (Some t, m2)) \<Rightarrow>
                        (case BootThread_Start run False t of
                           Inl e \<Rightarrow> Some (Inl e)
                         | Inr (code, t1) \<Rightarrow>
                             if code = 0 then start_kernel su neoskrnl hdr1 m2 d
                             else (case check_disk su D env (f_GOP hdr) m2 d of
                                     None \<Rightarrow> None
                                   | Some (Inl e) \<Rightarrow> Some (Inl e)
                                   | Some (Inr (m3, d3)) \<Rightarrow> start_kernel su neoskrnl hdr1 m3 d3)))))"

definition boot_Main ::
  "startup \<Rightarrow> nat \<Rightarrow> nat \<Rightarrow> 'f file_env \<Rightarrow> 'g file_env \<Rightarrow> (nat \<Rightarrow> u32) \<Rightarrow> 'd BootDev \<Rightarrow> format_env \<Rightarrow> mem \<Rightarrow> 'd \<Rightarrow>
   (fault + 'd boot_outcome) option" where
  "boot_Main su BS ST syschk neoskrnl run D env m d =
     boot_with su BS ST (boot_load syschk) (boot_load neoskrnl) run D env m d"

subsection \<open>Loops that end\<close>

lemma usable_region_found:
  "kind k = EfiConventionalMemory \<Longrightarrow> i \<le> k \<Longrightarrow> \<exists>j. usable_region kind i = Some j"
proof (induction "k - i" arbitrary: i)
  case 0
  then show ?case by (subst usable_region.simps) simp
next
  case (Suc n)
  then show ?case by (subst usable_region.simps) auto
qed

text \<open>The bitmap comes from the first allocation that succeeds.\<close>

lemma alloc_bitmap_first:
  "fst (pool k) \<Longrightarrow> i \<le> k \<Longrightarrow> (\<And>j. i \<le> j \<Longrightarrow> j < k \<Longrightarrow> \<not> fst (pool j)) \<Longrightarrow> alloc_bitmap pool i = Some (snd (pool k))"
proof (induction "k - i" arbitrary: i)
  case 0
  then show ?case by (subst alloc_bitmap.simps) simp
next
  case (Suc n)
  then show ?case by (subst alloc_bitmap.simps) auto
qed

lemma BStrLen_loop_end:
  "str n = 0 \<Longrightarrow> i \<le> n \<Longrightarrow> (\<And>j. i \<le> j \<Longrightarrow> j < n \<Longrightarrow> str j \<noteq> 0) \<Longrightarrow> BStrLen_loop str i = Some n"
proof (induction "n - i" arbitrary: i)
  case 0
  then show ?case by (subst BStrLen_loop.simps) simp
next
  case (Suc k)
  then show ?case by (subst BStrLen_loop.simps) auto
qed

lemma BCopyMem_loop_at:
  "BCopyMem_loop src i left dest j = (if i \<le> j \<and> j < i + left then src j else dest j)"
proof (induction left arbitrary: i dest)
  case (Suc left)
  then show ?case using Suc.IH [of "Suc i" "dest(i := src i)"] by auto
qed auto

text \<open>A mode is chosen only with the expected resolution.\<close>

lemma find_mode_sound:
  "find_mode i ms = Inr (Some k) \<Longrightarrow> i \<le> k \<and> k - i < length ms \<and>
   (\<exists>info. ms ! (k - i) = Some info \<and> HorizontalResolution info = 1280 \<and> VerticalResolution info = 720)"
proof (induction i ms rule: find_mode.induct)
  case (3 i info ms)
  show ?case
  proof (cases "HorizontalResolution info = kExpectedWidth \<and> VerticalResolution info = kExpectedHeight")
    case True
    then show ?thesis using "3.prems" by (simp add: kExpectedWidth_def kExpectedHeight_def)
  next
    case False
    then have "Suc i \<le> k \<and> k - Suc i < length ms \<and>
        (\<exists>info. ms ! (k - Suc i) = Some info \<and> HorizontalResolution info = 1280 \<and> VerticalResolution info = 720)"
      using 3 by (simp split: if_splits)
    then show ?thesis by (auto simp: Suc_diff_Suc [symmetric] nth_Cons' intro!: Suc_leD)
  qed
qed simp_all

subsection \<open>Properties\<close>

text \<open>
  C35. The first picture of the boot loader: with the lines of the screen in \<open>f_Width\<close> and the pixels of a line in
  \<open>f_Height\<close>, as the start-up stores them, a screen of at least 110 by 110 pixels shows the array of pixels in
  its middle, line after line, and the background everywhere else; memory outside the frame buffer keeps its value.
\<close>

theorem boot_splash_shows:
  assumes "frame_ok g (f_The g) (unat (f_Width g))" and "f_Height g \<le> f_PixelPerLine g"
    and "110 \<le> f_Width g" and "110 \<le> f_Height g"
    and "\<And>j. picture \<le> j \<Longrightarrow> j < picture + 4 * (110 * 110) \<Longrightarrow> \<not> in_frame g (f_The g) (unat (f_Width g)) j"
  shows "(\<forall>x < unat (f_Width g). \<forall>y < unat (f_Height g).
    let top = (unat (f_Width g) - 110) div 2; left = (unat (f_Height g) - 110) div 2 in
     load32 (pixel_address g (f_The g) x y) (boot_splash g picture m) =
       (if top \<le> x \<and> x < top + 110 \<and> left \<le> y \<and> y < left + 110
        then load32 (picture + 4 * (110 * (x - top) + (y - left))) m else 0x202020)) \<and>
    (\<forall>j. \<not> in_frame g (f_The g) (unat (f_Width g)) j \<longrightarrow> boot_splash g picture m j = m j)"
proof -
  let ?W = "unat (f_Width g)" and ?H = "unat (f_Height g)"
  let ?top = "(?W - 110) div 2" and ?left = "(?H - 110) div 2"
  let ?x = "ucast ((f_Width g - 110) div 2) :: u64" and ?y = "ucast ((f_Height g - 110) div 2) :: u64"
  have b: "unat ?x = ?top" "unat ?y = ?left"
    using assms(3,4) by (simp_all add: unat_widen unat_div_distrib unat_sub)
  have wh: "110 \<le> ?W" "110 \<le> ?H" "?H \<le> unat (f_PixelPerLine g)"
    using assms(2-4) by (simp_all add: word_le_nat_alt)
  have "?W < 2 ^ LENGTH(32)" by (rule unsigned_less)
  then have big: "?W < 2 ^ 64" by simp
  have u: "unat (110 :: u64) = 110" by simp
  have reg: "region_on_frame g ?W 110 110 ?x ?y"
    using wh big unfolding region_on_frame_def b u by linarith
  have out: "\<not> in_frame g (f_The g) ?W j" if "picture \<le> j" "j < picture + 4 * (unat (110::u64) * unat (110::u64))" for j
    using assms(5) that by simp
  have splash: "boot_splash g picture m = snd (FBDrawBitMapInRegion g picture 110 110 ?x ?y (0, fb_clear_video g m))"
    by (simp add: boot_splash_def draw_picture_def OPENNE_DISK_WIDTH_def OPENNE_DISK_HEIGHT_def)
  obtain m' where m0: "FBDrawBitMapInRegion g picture 110 110 ?x ?y (0, fb_clear_video g m) = (110 * 110, m')"
    and m1: "\<forall>i < 110. \<forall>u < 110. pixel g (f_The g) m' (?top + i, ?left + u) = load32 (picture + 4 * (110 * i + u)) m"
    "\<forall>x < ?W. \<forall>y < ?H. \<not> in_region 110 110 ?x ?y (x, y) \<longrightarrow> pixel g (f_The g) m' (x, y) = fb_get_clear_clr"
    "\<forall>j. \<not> in_frame g (f_The g) ?W j \<longrightarrow> m' j = m j"
    using cleared_picture [where m = m, OF assms(1) big assms(2) reg out] unfolding u b by blast
  have "boot_splash g picture m = m'" unfolding splash m0 by simp
  note m' = this m1
  have clr: "fb_get_clear_clr = 0x202020" by (simp add: fb_get_clear_clr_def RGB_def)
  have "\<forall>x < ?W. \<forall>y < ?H. (let top = ?top; left = ?left in
     load32 (pixel_address g (f_The g) x y) (boot_splash g picture m) =
       (if top \<le> x \<and> x < top + 110 \<and> left \<le> y \<and> y < left + 110
        then load32 (picture + 4 * (110 * (x - top) + (y - left))) m else 0x202020))"
  proof (intro allI impI)
    fix x y assume xy: "x < ?W" "y < ?H"
    have "in_region 110 110 ?x ?y (x, y) \<longleftrightarrow> ?top \<le> x \<and> x < ?top + 110 \<and> ?left \<le> y \<and> y < ?left + 110"
      by (auto simp: in_region_def b)
    moreover have "load32 (pixel_address g (f_The g) x y) m' = load32 (picture + 4 * (110 * (x - ?top) + (y - ?left))) m"
      if "?top \<le> x" "x < ?top + 110" "?left \<le> y" "y < ?left + 110"
    proof -
      from that obtain i u where "x = ?top + i" "y = ?left + u" by (metis le_Suc_ex)
      then show ?thesis using that m'(2) [rule_format, of i u] by (simp add: pixel_def)
    qed
    ultimately show "let top = ?top; left = ?left in
     load32 (pixel_address g (f_The g) x y) (boot_splash g picture m) =
       (if top \<le> x \<and> x < top + 110 \<and> left \<le> y \<and> y < left + 110
        then load32 (picture + 4 * (110 * (x - top) + (y - left))) m else 0x202020)"
      using m'(3) [rule_format, OF xy] clr by (simp only: Let_def m'(1) pixel_def fst_conv snd_conv split: if_split) blast
  qed
  then show ?thesis using m'(1,4) by (simp add: Let_def)
qed

definition demo_GOP :: GOP where
  "demo_GOP = \<lparr>f_The = 0x100000, f_Size = 60000, f_Width = 110, f_Height = 120, f_PixelFormat = 0, f_PixelPerLine = 128\<rparr>"

theorem boot_splash_shows_witness:
  "load32 (pixel_address demo_GOP 0x100000 3 7) (boot_splash demo_GOP 4096 (\<lambda>_. 1)) = 0x01010101 \<and>
   load32 (pixel_address demo_GOP 0x100000 3 4) (boot_splash demo_GOP 4096 (\<lambda>_. 1)) = 0x202020"
proof -
  have f: "f_The demo_GOP = 0x100000" "f_Width demo_GOP = 110" "f_Height demo_GOP = 120" "f_PixelPerLine demo_GOP = 128"
    by (simp_all add: demo_GOP_def)
  have ok: "frame_ok demo_GOP (f_The demo_GOP) (unat (f_Width demo_GOP))" by (simp add: f frame_ok_def)
  have le: "f_Height demo_GOP \<le> f_PixelPerLine demo_GOP" "110 \<le> f_Width demo_GOP" "110 \<le> f_Height demo_GOP"
    by (simp_all add: f)
  have out: "\<not> in_frame demo_GOP (f_The demo_GOP) (unat (f_Width demo_GOP)) j" if "4096 \<le> j" "j < 4096 + 4 * (110 * 110)" for j
    using that by (simp add: f in_frame_def)
  note s = conjunct1 [OF boot_splash_shows [where m = "\<lambda>_. 1" and picture = 4096, OF ok le out]]
  have "load32 a (\<lambda>_. 1) = 0x01010101" for a
  proof -
    have "read_bytes a 4 (\<lambda>_. 1 :: u8) = [1, 1, 1, 1]" by (simp add: read_bytes_def upt_rec)
    moreover have "dec32 [1, 1, 1, 1] = 0x01010101" by (simp add: dec32_def)
    ultimately show ?thesis by (simp add: load32_def)
  qed
  then have one: "load32 (4096 + 4 * (110 * (3 - 0) + (7 - 5))) (\<lambda>_. 1) = 0x01010101" .
  have n: "unat (110 :: u32) = 110" "unat (120 :: u32) = 120" by simp_all
  note s' = s [unfolded f Let_def n, rule_format]
  have "load32 (pixel_address demo_GOP 0x100000 3 7) (boot_splash demo_GOP 4096 (\<lambda>_. 1)) =
      load32 (4096 + 4 * (110 * (3 - 0) + (7 - 5))) (\<lambda>_. 1)"
    by (rule trans [OF s' [of 3 7]]) simp_all
  moreover have "load32 (pixel_address demo_GOP 0x100000 3 4) (boot_splash demo_GOP 4096 (\<lambda>_. 1)) = 0x202020"
    by (rule trans [OF s' [of 3 4]]) simp_all
  ultimately show ?thesis unfolding one ..
qed

text \<open>
  C33. A start-up that goes well: a mode of the expected size, a usable region in the map, an allocation of the bitmap that
  succeeds in the end, a recovery program that loads and reports success, a kernel that loads, and a
  vendor's name of at most 32 characters. The kernel is entered at its start address with the magic, the
  version, the bitmap and its size, its own image, no firmware tables, the vendor's name, the first table
  with the ACPI signature, and the screen of the mode that was set; the disk is not touched.
\<close>

theorem startup_hands_over:
  assumes "boot_init_fb su = Inr (Some i)" and "memory_kind su k = EfiConventionalMemory"
    and "fst (bitmap_pool su p)" and "\<forall>j < p. \<not> fst (bitmap_pool su j)"
    and "syschk (boot_splash (fill_gop (mode_set su i)) (zka_disk su) m) = Some (Inr (Some ts, m1))"
    and "fStartAddress ts \<noteq> 0" and "run (fStartAddress ts) = 0"
    and "neoskrnl m1 = Some (Inr (Some tk, m2))" and "fStartAddress tk \<noteq> 0"
    and "FirmwareVendor su n = 0" and "\<forall>j < n. FirmwareVendor su j \<noteq> 0" and "n \<le> 32"
  shows "\<exists>h. boot_with su BS ST syschk neoskrnl run D env m d = Some (Inr (KernelStarted h (fStartAddress tk) m2 d)) \<and>
    f_Magic h = 0xBADCC \<and> f_Version h = 0x117 \<and>
    f_BitMapStart h = snd (bitmap_pool su p) \<and> f_BitMapSize h = 2 ^ 32 \<and>
    f_KernelImage h = fBlob tk \<and> f_FirmwareCustomTables h = (0, 0) \<and>
    f_FirmwareVendorLen h = n \<and> (\<forall>j < n. f_FirmwareVendorName h j = FirmwareVendor su j) \<and>
    f_VendorPtr h = (case find (\<lambda>t. read_bytes t 8 m = [82, 83, 68, 32, 80, 84, 82, 32]) (ConfigurationTable su) of
       None \<Rightarrow> 0 | Some t \<Rightarrow> t) \<and>
    f_GOP h = fill_gop (mode_set su i) \<and>
    f_MultiProcessingEnabled h = (\<exists>a cnt. mp su = Some (a, cnt) \<and> 1 < cnt)"
proof -
  obtain r where r: "usable_region (memory_kind su) 0 = Some r" using usable_region_found assms(2) by blast
  have pool: "alloc_bitmap (bitmap_pool su) 0 = Some (snd (bitmap_pool su p))"
    using alloc_bitmap_first [of "bitmap_pool su" p 0] assms(3,4) by simp
  have len: "BStrLen (Some (FirmwareVendor su)) = Some n"
    using BStrLen_loop_end [of "FirmwareVendor su" n 0] assms(10,11) by (simp add: BStrLen_def)
  show ?thesis
    using assms(1,5-9,12)
    by (simp add: boot_with_def r pool start_kernel_def fill_vendor_def len BCopyMem_def BootThread_Start_def
        BootInfoHeader_new_def kHandoverMagic_def kHandoverVersion_def kHandoverBitMapSz_def find_rsd_ptr_def
        rsd_ptr_def BCopyMem_loop_at Let_def split: option.splits)
qed

definition demo_mode :: efi_mode where
  "demo_mode = \<lparr>HorizontalResolution = 1280, VerticalResolution = 720, PixelsPerScanLine = 1280, PixelFormat = 1,
     FrameBufferBase = 0x80000000, FrameBufferSize = 3686400\<rparr>"

definition demo_startup :: startup where
  "demo_startup = \<lparr>has_gop = True, modes = [Some (demo_mode\<lparr>VerticalResolution := 800\<rparr>), Some demo_mode],
     mode_set = (\<lambda>_. demo_mode), ConfigurationTable = [500], mp = Some (700, 4), memory_kind = (\<lambda>i. if i = 3 then 7 else 2),
     bitmap_pool = (\<lambda>k. (k = 1, 0x10000)), FirmwareVendor = (\<lambda>i. if i < 2 then 65 else 0), zka_disk = 4096,
     zka_has_disk = 4096, zka_no_disk = 4096, root_blob = 600, fs_name = 800, ident_lit = 900\<rparr>"

theorem startup_hands_over_witness:
  "\<exists>h m'. boot_with demo_startup 1 2 (\<lambda>m. Some (Inr (Some \<lparr>fStartAddress = 10, fBlob = 11, fStack = 0\<rparr>, m)))
      (\<lambda>m. Some (Inr (Some \<lparr>fStartAddress = 20, fBlob = 21, fStack = 0\<rparr>, m))) (\<lambda>_. 0) demo_BootDev demo_format_env
      (\<lambda>_. 0) (\<lambda>_. 0) = Some (Inr (KernelStarted h 20 m' (\<lambda>_. 0))) \<and>
    f_KernelImage h = 21 \<and> f_Width (f_GOP h) = 720 \<and> f_Height (f_GOP h) = 1280 \<and> f_FirmwareVendorLen h = 2"
proof -
  have "boot_init_fb demo_startup = Inr (Some 1)"
    by (simp add: boot_init_fb_def demo_startup_def demo_mode_def kExpectedWidth_def kExpectedHeight_def)
  from startup_hands_over [OF this, where k = 3 and p = 1 and n = 2 and run = "\<lambda>_. 0" and BS = 1 and ST = 2 and m = "\<lambda>_. 0" and
      syschk = "\<lambda>m. Some (Inr (Some \<lparr>fStartAddress = 10, fBlob = 11, fStack = 0\<rparr>, m))" and
      neoskrnl = "\<lambda>m. Some (Inr (Some \<lparr>fStartAddress = 20, fBlob = 21, fStack = 0\<rparr>, m))" and D = demo_BootDev and
      env = demo_format_env and d = "\<lambda>_. 0"]
  show ?thesis by (fastforce simp: demo_startup_def EfiConventionalMemory_def fill_gop_def demo_mode_def)
qed

text \<open>Without the recovery program on the volume the start-up goes through a null pointer.\<close>

lemma boot_needs_recovery_program:
  assumes "boot_init_fb su = Inr (Some i)" and "memory_kind su k = EfiConventionalMemory"
    and "fst (bitmap_pool su p)" and "\<forall>j < p. \<not> fst (bitmap_pool su j)"
    and "length (fe_path syschk) < kPathLen" and "has_image (fe_open syschk)" and "\<not> has_file (fe_open syschk)"
  shows "boot_Main su BS ST syschk neoskrnl run D env m d = Some (Inl NullDeref)"
proof -
  obtain r where r: "usable_region (memory_kind su) 0 = Some r" using usable_region_found assms(2) by blast
  have pool: "alloc_bitmap (bitmap_pool su) 0 = Some (snd (bitmap_pool su p))"
    using alloc_bitmap_first [of "bitmap_pool su" p 0] assms(3,4) by simp
  have "boot_load syschk m = Some (Inl NullDeref)" for m
    using assms(5-7) by (simp add: boot_load_def BFileReader_new_def copy_path_def BFileReader_ReadAll_def Let_def)
  then show ?thesis using assms(1) by (simp add: boot_Main_def boot_with_def r pool Let_def)
qed

end
