(* ===== verification/KernelEntry.thy ===== *)
theory KernelEntry
  imports Startup Installer Smp CpuTables
begin

text \<open>
  The kernel's entry on AMD64, \<^verbatim>\<open>HALKit/AMD64/HalKernelMain.cc\<close>, and its end, the screen of
  \<^verbatim>\<open>HALKit/AMD64/HalKernelPanic.cc\<close>. The state is that of the components the entry sets up; the assembly
  behind the load of the segment table, which goes on with \<^verbatim>\<open>hal_real_init\<close>, is a parameter.
\<close>

subsection \<open>Descriptors\<close>

record OPENNE_GDT_ENTRY =
  fLimitLow :: u16
  fBaseLow :: u16
  fBaseMid :: u8
  fAccessByte :: u8
  fFlags :: u8
  fBaseHigh :: u8

definition gdt_entry :: "u8 \<Rightarrow> u8 \<Rightarrow> OPENNE_GDT_ENTRY" where
  "gdt_entry access flags =
     \<lparr>fLimitLow = 0, fBaseLow = 0, fBaseMid = 0, fAccessByte = access, fFlags = flags, fBaseHigh = 0\<rparr>"

definition kGDTEntriesCount :: nat where "kGDTEntriesCount = 6"

text \<open>Six entries; the last has no initializer.\<close>

definition kGDTArray :: "OPENNE_GDT_ENTRY list" where
  "kGDTArray = [gdt_entry 0 0, gdt_entry 0x9A 0xAF, gdt_entry 0x92 0xCF, gdt_entry 0xFA 0xAF, gdt_entry 0xF2 0xCF,
     gdt_entry 0 0]"

definition sizeof_OPENNE_GDT_ENTRY :: nat where "sizeof_OPENNE_GDT_ENTRY = 8"

definition enc_gdt_entry :: "OPENNE_GDT_ENTRY \<Rightarrow> u8 list" where
  "enc_gdt_entry e = enc16 (fLimitLow e) @ enc16 (fBaseLow e) @ [fBaseMid e, fAccessByte e, fFlags e, fBaseHigh e]"

subsection \<open>Constructors\<close>

text \<open>The slots of the team are made anew; \<open>left\<close> counts them down.\<close>

fun reset_slots :: "nat \<Rightarrow> nat \<Rightarrow> UserProcess list \<Rightarrow> UserProcess list" where
  "reset_slots i 0 ps = ps"
| "reset_slots i (Suc left) ps =
     reset_slots (Suc i) left ((ps[i := UserProcess_new])[i := (UserProcess_new)\<lparr>Status := kKilled\<rparr>])"

text \<open>\<open>list\<close> is \<^verbatim>\<open>__CTOR_LIST__\<close>, \<open>dtor\<close> the pointer it is compared with, \<open>call\<close> what a constructor does.\<close>

partial_function (option) ctor_loop :: "(nat \<Rightarrow> nat) \<Rightarrow> nat \<Rightarrow> (nat \<Rightarrow> 's \<Rightarrow> 's) \<Rightarrow> nat \<Rightarrow> 's \<Rightarrow> 's option" where
  "ctor_loop list dtor call index s =
     (if list index \<noteq> dtor then ctor_loop list dtor call (Suc index) (call (list index) s) else Some s)"

declare ctor_loop.simps [simp del]

definition hal_init_cxx_ctors ::
  "(nat \<Rightarrow> nat) \<Rightarrow> nat \<Rightarrow> (nat \<Rightarrow> kstate \<Rightarrow> kstate) \<Rightarrow> kstate \<Rightarrow> kstate option" where
  "hal_init_cxx_ctors list dtor call s =
     ctor_loop list dtor call 0
       (s\<lparr>mTeam := (mTeam s)\<lparr>mProcessList := reset_slots 0 (length (mProcessList (mTeam s))) (mProcessList (mTeam s)),
          mProcessCount := 0\<rparr>\<rparr>)"

subsection \<open>The entry\<close>

record entry_state =
  en_header :: "BootInfoHeader option"
  en_sched :: kstate
  kKernelBitMpStart :: nat
  kKernelBitMpSize :: nat
  en_cpu :: cpu

text \<open>The header is refused only when both fields are wrong.\<close>

definition header_refused :: "BootInfoHeader \<Rightarrow> bool" where
  "header_refused h \<longleftrightarrow> f_Magic h \<noteq> kHandoverMagic \<and> f_Version h \<noteq> kHandoverVersion"

definition RUNTIME_CHECK_BOOTSTRAP :: nat where "RUNTIME_CHECK_BOOTSTRAP = 1122"

text \<open>
  The load of the segment table goes on with \<^verbatim>\<open>hal_real_init\<close> in assembly; \<open>lgdt_returns\<close> is the case that it
  comes back instead. \<open>gdt_at\<close> is the address of the table.
\<close>

datatype entry_outcome =
    EntryReturned entry_state
  | EntryContinues entry_state

definition hal_init_platform ::
  "(nat \<Rightarrow> nat) \<Rightarrow> nat \<Rightarrow> (nat \<Rightarrow> kstate \<Rightarrow> kstate) \<Rightarrow> u64 \<Rightarrow> bool \<Rightarrow> BootInfoHeader \<Rightarrow> entry_state \<Rightarrow>
   (fault + entry_outcome) option" where
  "hal_init_platform list dtor call gdt_at lgdt_returns hdr e =
     (let e1 = e\<lparr>en_header := Some hdr\<rparr> in
      if header_refused hdr then Some (Inr (EntryReturned e1))
      else (case hal_init_cxx_ctors list dtor call (en_sched e1) of
              None \<Rightarrow> None
            | Some s \<Rightarrow>
                let e2 = e1\<lparr>en_sched := s, kKernelBitMpStart := f_BitMapStart hdr, kKernelBitMpSize := f_BitMapSize hdr\<rparr>;
                    gdt_reg = \<lparr>Limit = of_nat (sizeof_OPENNE_GDT_ENTRY * kGDTEntriesCount - 1), Base = gdt_at\<rparr>;
                    e3 = e2\<lparr>en_cpu := GDTLoader_Load gdt_reg (en_cpu e2)\<rparr>
                in Some (if lgdt_returns then Inl (Panic RUNTIME_CHECK_BOOTSTRAP) else Inr (EntryContinues e3))))"

text \<open>The second half; after it the processor spins.\<close>

definition hal_real_init ::
  "bool \<Rightarrow> nconf \<Rightarrow> u8 list \<Rightarrow> nat \<Rightarrow> nat \<Rightarrow> smp_conf \<Rightarrow> u64 \<Rightarrow> u64 \<Rightarrow> BootInfoHeader \<Rightarrow> mem \<Rightarrow> nefs \<Rightarrow> smp \<Rightarrow> cpu \<Rightarrow>
   fault + (mem \<times> nefs \<times> smp \<times> cpu)" where
  "hal_real_init auto_format c junk fuel wfuel sc table ivt hdr m s p cp =
     bindF (rtl_kernel_main auto_format c junk s) (\<lambda>s1.
     bindF (mp_get_cores fuel wfuel sc (BootInfoHeader.f_VendorPtr hdr) m p) (\<lambda>(m1, p1).
       Inr (m1, s1, p1, snd (IDTLoader_Load m1 table \<lparr>Limit = 0, Base = ivt\<rparr> cp))))"

subsection \<open>The panic screen\<close>

text \<open>The literals' addresses, the two buffers that are allocated, and the fault address.\<close>

record panic_env =
  lit_panic_id :: nat
  lit_message :: nat
  lit_cr2 :: nat
  message_apicid :: nat
  message_cr2 :: nat
  cr2 :: u64

definition drawing :: "(fault + mem) option \<Rightarrow> (mem \<Rightarrow> (fault + mem) option) \<Rightarrow> (fault + mem) option" where
  "drawing r f = (case r of None \<Rightarrow> None | Some (Inl e) \<Rightarrow> Some (Inl e) | Some (Inr m) \<Rightarrow> f m)"

definition panic_line :: "GOP \<Rightarrow> nat \<Rightarrow> nat \<Rightarrow> nat \<Rightarrow> u64 \<Rightarrow> u32 \<Rightarrow> mem \<Rightarrow> (fault + mem) option" where
  "panic_line g buf lit n v y m =
     (let m1 = snd (rt_set_memory buf 0 128 m);
          m2 = snd (rt_copy_memory lit buf n m1)
      in case rt_to_string (buf + n) v 10 m2 of
           Inl e \<Rightarrow> Some (Inl e)
         | Inr (ok, m3) \<Rightarrow> fb_render_string g buf y 10 (RGB 0xff 0xff 0xff) m3)"

text \<open>The memory when the processor is halted; \<open>message\<close> may be null.\<close>

definition panic_screen :: "GOP \<Rightarrow> panic_env \<Rightarrow> u32 \<Rightarrow> nat \<Rightarrow> mem \<Rightarrow> (fault + mem) option" where
  "panic_screen g env stop_id message m =
     drawing (panic_line g (message_apicid env) (lit_panic_id env) 10 (scast stop_id) 10 m) (\<lambda>m1.
     drawing (fb_render_string g (if message \<noteq> 0 then message else lit_message env) 20 10 (RGB 0xff 0xff 0xff) m1) (\<lambda>m2.
       panic_line g (message_cr2 env) (lit_cr2 env) 5 (cr2 env) 30 m2))"

text \<open>
  \<^verbatim>\<open>ke_runtime_check\<close>: what it prints first is left out; the file's name, at \<open>file\<close>, is the message.
\<close>

definition ke_runtime_check :: "GOP \<Rightarrow> panic_env \<Rightarrow> bool \<Rightarrow> nat \<Rightarrow> mem \<Rightarrow> (fault + mem) option" where
  "ke_runtime_check g env expr file_at m = (if expr then Some (Inr m) else panic_screen g env 1111 file_at m)"

subsection \<open>Lemmas\<close>

lemma reset_slots_all:
  "i + left = length ps \<Longrightarrow> reset_slots i left ps = take i ps @ replicate left (UserProcess_new\<lparr>Status := kKilled\<rparr>)"
proof (induction i left ps rule: reset_slots.induct)
  case (2 i left ps)
  then show ?case by (simp add: take_Suc_conv_app_nth)
qed simp

lemma ctor_loop_empty: "list i = dtor \<Longrightarrow> ctor_loop list dtor call i s = Some s"
  by (subst ctor_loop.simps) simp

text \<open>The constructors of a list that ends are called in its order.\<close>

lemma ctor_loop_calls:
  "\<forall>j < length fs. list (i + j) = fs ! j \<and> fs ! j \<noteq> dtor \<Longrightarrow> list (i + length fs) = dtor \<Longrightarrow>
   ctor_loop list dtor call i s = Some (fold call fs s)"
proof (induction fs arbitrary: i s)
  case Nil
  then show ?case by (simp add: ctor_loop_empty)
next
  case (Cons f fs)
  have "\<forall>j < length fs. list (Suc i + j) = fs ! j \<and> fs ! j \<noteq> dtor"
    using Cons.prems(1) by (auto dest: spec [of _ "Suc _"])
  moreover have "list i = f" "f \<noteq> dtor" using Cons.prems(1) [rule_format, of 0] by simp_all
  ultimately show ?case using Cons.IH [of "Suc i"] Cons.prems(2) by (subst ctor_loop.simps) simp
qed

text \<open>The panic's buffers have 128 characters and 512 are cleared.\<close>

lemma panic_clears_too_much:
  "buf + 128 \<le> j \<Longrightarrow> j < buf + 512 \<Longrightarrow> snd (rt_set_memory buf 0 128 m) j = 0"
proof -
  have "le_bytes n 0 = replicate n 0" for n by (induction n) simp_all
  then have "enc32 0 ! (x mod 4) = 0" for x by (simp add: enc32_def)
  then show "buf + 128 \<le> j \<Longrightarrow> j < buf + 512 \<Longrightarrow> snd (rt_set_memory buf 0 128 m) j = 0"
    by (simp add: KString_new_sz_memory)
qed

subsection \<open>What the panic screen shows\<close>

definition panic_text :: "u8 list \<Rightarrow> u64 \<Rightarrow> u8 list" where
  "panic_text label v = label @ map ascii_digit (decimal (unat v))"

lemma ascii_digit_char: "ascii_digit d \<noteq> 0 \<and> unat (ascii_digit d) < 128" if "d < 10"
proof -
  have u: "unat (ascii_digit d) = 48 + d"
    using that by (simp only: ascii_digit_def unat_of_nat8_mod) simp
  then have "ascii_digit d \<noteq> 0" by (metis add_is_0 unat_0 zero_neq_numeral)
  then show ?thesis using u that by simp
qed

lemma decimal_digits: "d \<in> set (decimal n) \<Longrightarrow> d < 10"
proof (induction n rule: decimal.induct)
  case (1 n)
  then show ?case by (cases "n < 10") (auto simp: decimal_less_10 decimal_step)
qed

text \<open>The buffer of a line is filled, outside it memory stays; the text ends at the cleared part.\<close>

lemma panic_line_draws:
  assumes ok: "frame_ok g (f_The g) R" and area: "area_ok g R 8 (8 * (n + 10)) y 10"
    and lit: "read_bytes lit n m = label" "\<forall>c \<in> set label. c \<noteq> 0 \<and> unat c < 128"
    and lay: "disjoint_ext lit n buf 512" "n \<le> 100" "\<And>j. buf \<le> j \<Longrightarrow> j < buf + 512 \<Longrightarrow> \<not> in_frame g (f_The g) R j"
    and small: "unat v < 10 ^ 10"
  shows "\<exists>m'. panic_line g buf lit n v y m = Some (Inr m') \<and>
    (\<forall>p. on_frame g R p \<longrightarrow> pixel g (f_The g) m' p =
       (if text_pixels (panic_text label v) (unat y) 10 p then 0xFFFFFF else pixel g (f_The g) m p)) \<and>
    (\<forall>j. \<not> in_frame g (f_The g) R j \<and> (j < buf \<or> buf + 512 \<le> j) \<longrightarrow> m' j = m j)"
proof -
  let ?ds = "map ascii_digit (decimal (unat v))" and ?text = "panic_text label v"
  let ?m1 = "snd (rt_set_memory buf 0 128 m)" and ?m2 = "snd (rt_copy_memory lit buf n (snd (rt_set_memory buf 0 128 m)))"
  have len: "length label = n" using lit(1) by (metis length_read_bytes)
  have d: "length ?ds \<le> 10" using decimal_length_le [of 10 "unat v"] small by simp
  have z: "?m1 j = 0" if "buf \<le> j" "j < buf + 512" for j
  proof -
    have "le_bytes n 0 = replicate n 0" for n by (induction n) simp_all
    then have "enc32 0 ! (x mod 4) = 0" for x by (simp add: enc32_def)
    with that show ?thesis by (simp add: KString_new_sz_memory)
  qed
  have f1: "?m1 j = m j" if "j < buf \<or> buf + 512 \<le> j" for j
    using that by (auto simp: KString_new_sz_memory)
  have lit1: "read_bytes lit n ?m1 = label"
    using lit(1) lay(1) f1 by (auto simp: read_bytes_eq_iff disjoint_ext_def)
  have c: "read_bytes buf n ?m2 = label"
    using lay(1,2) lit1 by (subst rt_copy_memory_bytes) (auto simp: disjoint_ext_def)
  have f2: "?m2 j = ?m1 j" if "j < buf \<or> buf + n < j" for j using that by (rule rt_copy_memory_frame)
  obtain m3 where m3: "rt_to_string (buf + n) v 10 ?m2 = Inr (True, m3)" "read_bytes (buf + n) (length ?ds) m3 = ?ds"
    "\<forall>j. j < buf + n \<or> buf + n + length ?ds \<le> j \<longrightarrow> m3 j = ?m2 j"
    using to_string_decimal [OF small, of "buf + n" ?m2] by auto
  have l: "length ?text = n + length ?ds" by (simp add: panic_text_def len)
  have at: "\<forall>i < length ?text. m3 (buf + i) = ?text ! i"
  proof (intro allI impI)
    fix i assume i: "i < length ?text"
    show "m3 (buf + i) = ?text ! i"
    proof (cases "i < n")
      case True
      then have "m3 (buf + i) = ?m2 (buf + i)" using m3(3) by simp
      also have "\<dots> = label ! i" using c True read_bytes_nth [of i n buf ?m2] by simp
      finally show ?thesis using True len by (simp add: panic_text_def nth_append)
    next
      case False
      then obtain k where k: "i = n + k" "k < length ?ds" using i l by (metis le_Suc_ex nat_add_left_cancel_less not_less)
      then have "m3 (buf + n + k) = ?ds ! k" using m3(2) read_bytes_nth [of k "length ?ds" "buf + n" m3] by simp
      then show ?thesis using k len by (simp add: panic_text_def nth_append add.assoc)
    qed
  qed
  have "0 < length ?ds" using decimal_not_Nil by simp
  then have fin: "m3 (buf + length ?text) = 0"
    using m3(3) f2 z [of "buf + length ?text"] l d lay(2) by simp
  have chars: "\<forall>c \<in> set ?text. c \<noteq> 0 \<and> unat c < 128"
    using lit(2) ascii_digit_char decimal_digits by (auto simp: panic_text_def)
  have same: "m3 j = m j" if j: "j < buf \<or> buf + 512 \<le> j" for j
  proof -
    have r: "j < buf + n \<or> buf + n + length ?ds \<le> j" "j < buf \<or> buf + n < j" using j d lay(2) by linarith+
    have "m3 j = ?m2 j" using m3(3) r(1) by blast
    also have "\<dots> = ?m1 j" using f2 r(2) by blast
    also have "\<dots> = m j" using f1 j by blast
    finally show ?thesis .
  qed
  have out: "\<forall>i \<le> length ?text. \<not> in_frame g (f_The g) R (buf + i)" using lay(2,3) l d by simp
  have area': "area_ok g R 8 (8 * length ?text) y 10" using area l d by (simp add: area_ok_def)
  have "drawn g (f_The g) R (pixel g (f_The g) m) m3 m3"
  proof -
    have "pixel g (f_The g) m3 p = pixel g (f_The g) m p" if p: "on_frame g R p" for p
    proof -
      have "m3 j = m j" if "pixel_address g (f_The g) (fst p) (snd p) \<le> j" "j < pixel_address g (f_The g) (fst p) (snd p) + 4" for j
      proof -
        have "in_frame g (f_The g) R j"
          using that pixel_address_nat [OF ok, of "fst p" "snd p"] p by (auto simp: in_frame_def)
        then show ?thesis using lay(3) same by (meson not_le)
      qed
      then show ?thesis by (auto simp: pixel_def load32_def read_bytes_eq_iff intro!: arg_cong [of _ _ dec32])
    qed
    then show ?thesis by (simp add: drawn_def)
  qed
  from text_draws [OF ok area' at fin chars out this, of "RGB 0xff 0xff 0xff"]
  obtain m' where m': "fb_render_string g buf y 10 (RGB 0xff 0xff 0xff) m3 = Some (Inr m')"
    "drawn g (f_The g) R (\<lambda>p. if text_pixels ?text (unat y) (unat (10 :: u32)) p then RGB 0xff 0xff 0xff else pixel g (f_The g) m p) m3 m'"
    by blast
  have "panic_line g buf lit n v y m = Some (Inr m')" using m3(1) m'(1) by (simp add: panic_line_def Let_def)
  moreover have "RGB 0xff 0xff 0xff = 0xFFFFFF" by (simp add: RGB_def)
  ultimately show ?thesis using m'(2) same by (auto simp: drawn_def)
qed

lemma stop_code_small: "unat (scast i :: u64) < 2 ^ 31" if pos: "0 \<le> sint (i :: u32)"
proof -
  obtain k where k: "sint i = int k" using zero_le_imp_eq_int [OF pos] by blast
  moreover have "sint i < 2 ^ 31" using sint_lt [of i] by simp
  ultimately have k31: "k < 2 ^ 31" by simp
  have "(scast i :: u64) = of_nat k" using k by (metis of_int_of_nat_eq of_int_sint)
  then show ?thesis using k31 unat_of_nat64_less [of k] by simp
qed

lemma area_ok_shorter: "area_ok g R x n y z \<Longrightarrow> k \<le> n \<Longrightarrow> area_ok g R x k y z"
  by (auto simp: area_ok_def)

subsection \<open>Properties\<close>


definition demo_entry :: entry_state where
  "demo_entry = \<lparr>en_header = None, en_sched = (kstate_boot tiny_kmem)\<lparr>mTeam := UserProcessTeam_new\<lparr>mProcessCount := 7\<rparr>\<rparr>,
     kKernelBitMpStart = 0, kKernelBitMpSize = 0, en_cpu = cpu_boot \<lparr>answer = \<lambda>_ _. 0, history = []\<rparr>\<rparr>"


text \<open>
  C34. A panic with a non-negative stop code and a fault address below \<open>10 ^ 10\<close>, on a frame of
  pixels that holds three lines of text, with the two buffers, the literals and the message apart from the
  frame, and the literals and the message apart from the first buffer: when the processor halts, the
  screen shows "panic id: " and the code in decimal in row 10, the message in row 20 and "cr2: " and the
  address in decimal in row 30, in white, and every other pixel is what it was.
\<close>

theorem panic_screen_shows:
  fixes g :: GOP and R :: nat and env :: panic_env and m :: mem and message :: nat
  defines "F \<equiv> in_frame g (f_The g) R" and "A \<equiv> message_apicid env" and "C \<equiv> message_cr2 env"
    and "msg \<equiv> (if message \<noteq> 0 then message else lit_message env)"
  assumes "frame_ok g (f_The g) R" and "area_ok g R 8 160 10 10" and "area_ok g R 8 (8 * length cs) 20 10"
    and "area_ok g R 8 160 30 10"
    and "read_bytes (lit_panic_id env) 10 m = l1" and "read_bytes (lit_cr2 env) 5 m = l3"
    and "c_string m msg = Some cs" and "\<forall>c \<in> set (l1 @ cs @ l3). c \<noteq> 0 \<and> unat c < 128"
    and "disjoint_ext (lit_panic_id env) 10 A 512" and "disjoint_ext msg (length cs + 1) A 512"
    and "disjoint_ext (lit_cr2 env) 5 A 512" and "disjoint_ext (lit_cr2 env) 5 C 512"
    and "\<forall>j. F j \<longrightarrow> (j < A \<or> A + 512 \<le> j) \<and> (j < C \<or> C + 512 \<le> j) \<and>
      (j < msg \<or> msg + length cs < j) \<and> (j < lit_cr2 env \<or> lit_cr2 env + 5 \<le> j)"
    and "0 \<le> sint stop_id" and "unat (cr2 env) < 10 ^ 10"
  shows "\<exists>m'. panic_screen g env stop_id message m = Some (Inr m') \<and>
    (\<forall>p. on_frame g R p \<longrightarrow> pixel g (f_The g) m' p =
      (if text_pixels (panic_text l1 (scast stop_id)) 10 10 p \<or> text_pixels cs 20 10 p \<or>
          text_pixels (panic_text l3 (cr2 env)) 30 10 p
       then 0xFFFFFF else pixel g (f_The g) m p))"
proof -
  note ok = assms(5)
  have white: "RGB 0xff 0xff 0xff = 0xFFFFFF" by (simp add: RGB_def)
  have lay: "\<not> F j" if "A \<le> j \<and> j < A + 512 \<or> C \<le> j \<and> j < C + 512 \<or> msg \<le> j \<and> j \<le> msg + length cs \<or>
      lit_cr2 env \<le> j \<and> j < lit_cr2 env + 5" for j
    using assms(17) that by (meson not_le)
  have code: "unat (scast stop_id :: u64) < 10 ^ 10" using stop_code_small [OF assms(18)] by simp
  obtain m1 where m1: "panic_line g A (lit_panic_id env) 10 (scast stop_id) 10 m = Some (Inr m1)"
    "\<forall>p. on_frame g R p \<longrightarrow> pixel g (f_The g) m1 p =
       (if text_pixels (panic_text l1 (scast stop_id)) (unat (10 :: u32)) 10 p then 0xFFFFFF else pixel g (f_The g) m p)"
    "\<forall>j. \<not> F j \<and> (j < A \<or> A + 512 \<le> j) \<longrightarrow> m1 j = m j"
    using panic_line_draws [OF ok, of 10 10 "lit_panic_id env" m l1 A "scast stop_id"] assms(6,9,12,13) lay code
    unfolding F_def by auto
  obtain n where n: "rt_string_len m msg = Some n" "read_bytes msg n m = cs" using assms(11) by (auto simp: c_string_def)
  then have len: "n = length cs" by (metis length_read_bytes)
  note nz = n(1) [unfolded rt_string_len_iff]
  have keep: "m1 (msg + i) = m (msg + i)" if "i \<le> length cs" for i
    using m1(3) lay [of "msg + i"] assms(14) that by (auto simp: disjoint_ext_def)
  have at: "\<forall>i < length cs. m1 (msg + i) = cs ! i" using n(2) len read_bytes_nth keep by (metis less_imp_le)
  have fin: "m1 (msg + length cs) = 0" using keep [of "length cs"] nz len by simp
  have chars: "\<forall>c \<in> set cs. c \<noteq> 0 \<and> unat c < 128" using assms(12) by simp
  have out: "\<forall>i \<le> length cs. \<not> in_frame g (f_The g) R (msg + i)" using lay by (simp add: F_def)
  obtain m2 where m2: "fb_render_string g msg 20 10 (RGB 0xff 0xff 0xff) m1 = Some (Inr m2)"
    "drawn g (f_The g) R (\<lambda>p. if text_pixels cs (unat (20 :: u32)) (unat (10 :: u32)) p then RGB 0xff 0xff 0xff
       else pixel g (f_The g) m1 p) m1 m2"
    using text_draws [OF ok assms(7) at fin chars out drawn_refl] by blast
  have "m2 j = m j" if "lit_cr2 env \<le> j" "j < lit_cr2 env + 5" for j
    using m2(2) m1(3) lay [of j] assms(15) that unfolding drawn_def F_def disjoint_ext_def by (smt (verit) not_le order_trans le_less_trans less_le_trans)
  then have lit: "read_bytes (lit_cr2 env) 5 m2 = l3" using assms(10) by (auto simp: read_bytes_eq_iff)
  obtain m3 where m3: "panic_line g C (lit_cr2 env) 5 (cr2 env) 30 m2 = Some (Inr m3)"
    "\<forall>p. on_frame g R p \<longrightarrow> pixel g (f_The g) m3 p =
       (if text_pixels (panic_text l3 (cr2 env)) (unat (30 :: u32)) 10 p then 0xFFFFFF else pixel g (f_The g) m2 p)"
    using panic_line_draws [OF ok, of 5 30 "lit_cr2 env" m2 l3 C "cr2 env"] assms(8,12,16,19) lit lay area_ok_shorter [of g R 8 160 30 10 "8 * (5 + 10)"]
    unfolding F_def by auto
  have "panic_screen g env stop_id message m = Some (Inr m3)"
    using m1(1) m2(1) m3(1) by (simp add: panic_screen_def drawing_def A_def C_def msg_def)
  moreover have "pixel g (f_The g) m2 p = (if text_pixels cs 20 10 p then 0xFFFFFF else pixel g (f_The g) m1 p)" if "on_frame g R p" for p
    using m2(2) that by (cases p) (simp add: drawn_def white)
  ultimately show ?thesis using m3(2) m1(2) by auto
qed

definition demo_frame :: GOP where
  "demo_frame = \<lparr>f_The = 0x100000, f_Size = 65536, f_Width = 64, f_Height = 256, f_PixelFormat = 0, f_PixelPerLine = 256\<rparr>"

definition demo_panic :: panic_env where
  "demo_panic = \<lparr>lit_panic_id = 100, lit_message = 200, lit_cr2 = 300, message_apicid = 4096, message_cr2 = 8192, cr2 = 7\<rparr>"

theorem panic_screen_shows_witness:
  "\<exists>m'. panic_screen demo_frame demo_panic 1122 0
      (\<lambda>j. if 100 \<le> j \<and> j < 110 \<or> 200 \<le> j \<and> j < 202 \<or> 300 \<le> j \<and> j < 305 then 65 else 0) = Some (Inr m') \<and>
    pixel demo_frame 0x100000 m' (21, 14) = 0xFFFFFF \<and> pixel demo_frame 0x100000 m' (0, 0) = 0"
proof -
  let ?m = "\<lambda>j :: nat. if 100 \<le> j \<and> j < 110 \<or> 200 \<le> j \<and> j < 202 \<or> 300 \<le> j \<and> j < 305 then 65 else 0 :: u8"
  have f: "f_The demo_frame = 0x100000" "f_PixelPerLine demo_frame = 256" by (simp_all add: demo_frame_def)
  have e: "lit_panic_id demo_panic = 100" "lit_message demo_panic = 200" "lit_cr2 demo_panic = 300"
    "message_apicid demo_panic = 4096" "message_cr2 demo_panic = 8192" "cr2 demo_panic = 7"
    by (simp_all add: demo_panic_def)
  have str: "c_string ?m 200 = Some [65, 65]"
  proof -
    have "rt_string_len ?m 200 = Some 2" by (simp only: rt_string_len_iff) auto
    then show ?thesis by (simp add: c_string_def read_bytes_def upt_rec)
  qed
  have lit: "read_bytes 100 10 ?m = replicate 10 65" "read_bytes 300 5 ?m = replicate 5 65"
    by (simp_all add: read_bytes_def upt_rec numeral_eq_Suc)
  obtain m' where r: "panic_screen demo_frame demo_panic 1122 0 ?m = Some (Inr m')"
    "\<forall>p. on_frame demo_frame 64 p \<longrightarrow> pixel demo_frame 0x100000 m' p =
      (if text_pixels (panic_text (replicate 10 65) (scast (1122 :: u32))) 10 10 p \<or> text_pixels [65, 65] 20 10 p \<or>
          text_pixels (panic_text (replicate 5 65) 7) 30 10 p
       then 0xFFFFFF else pixel demo_frame 0x100000 ?m p)"
    using panic_screen_shows [of demo_frame 64 "[65, 65]" demo_panic ?m "replicate 10 65" "replicate 5 65" 0 1122]
    by (auto simp: f e str lit frame_ok_def area_ok_def disjoint_ext_def in_frame_def)
  have font: "kFontBitmap ! 65 ! Suc 0 = 0x1E" by (simp add: kFontBitmap_def)
  have p: "on_frame demo_frame 64 (21, 14)" "on_frame demo_frame 64 (0, 0)" by (simp_all add: on_frame_def f)
  have bg: "pixel demo_frame 0x100000 ?m (0, 0) = 0"
    by (simp add: pixel_def pixel_address_def load32_def read_bytes_def upt_rec dec32_def f)
  have "text_pixels [65, 65] 20 10 (21, 14)" by (simp add: text_pixels_iff font bit_iff_odd)
  then show ?thesis using r p bg by (auto simp: text_pixels_iff)
qed

end
