(* ===== verification/Devices.thy ===== *)
theory Devices
  imports FileMgr DriveMgr DebugOut KStr
begin

text \<open>
  The classes around the drivers: the drive interfaces (\<^verbatim>\<open>src/Storage\<close>) and the network device
  over the device object of \<open>DebugOut\<close>, the swap disk over the file streams of \<open>FileMgr\<close>, the
  indexed properties of \<^verbatim>\<open>Property.cc\<close> and \<^verbatim>\<open>IndexableProperty.cc\<close>, the GUIDs, the debugger's port, the
  descriptor tables of \<^verbatim>\<open>PRDT.cc\<close> and the bug check of \<^verbatim>\<open>LPC.cc\<close>.

  Buffers inside objects are addresses of the flat memory. A device's functions act on the scheduler's
  state and a state of the hardware, side by side.
\<close>

subsection \<open>Drive interfaces\<close>

record ('p, 's) drive_interface = "('p, 's) IDeviceObject" +
  fCleanup :: "('s \<Rightarrow> 's) option"

definition drive_interface_new where
  "drive_interface_new out inp cleanup = \<lparr>fOut = out, fIn = inp, fCleanup = cleanup\<rparr>"

text \<open>The destructors; the first asks for a clean-up routine in debug builds.\<close>

definition ATADeviceInterface_delete :: "bool \<Rightarrow> ('p, 's) drive_interface \<Rightarrow> 's \<Rightarrow> fault + 's" where
  "ATADeviceInterface_delete dbg d s =
     bindF (must_pass dbg (fCleanup d \<noteq> None)) (\<lambda>_. Inr (case fCleanup d of None \<Rightarrow> s | Some f \<Rightarrow> f s))"

definition AHCIDeviceInterface_delete :: "bool \<Rightarrow> ('p, 's) drive_interface \<Rightarrow> 's \<Rightarrow> fault + 's" where
  "AHCIDeviceInterface_delete dbg d s =
     bindF (must_pass dbg (fCleanup d \<noteq> None)) (\<lambda>_. Inr (case fCleanup d of None \<Rightarrow> s | Some f \<Rightarrow> f s))"

definition NVMEDeviceInterface_delete :: "('p, 's) drive_interface \<Rightarrow> 's \<Rightarrow> 's" where
  "NVMEDeviceInterface_delete d s = (case fCleanup d of None \<Rightarrow> s | Some f \<Rightarrow> f s)"

definition ATADeviceInterface_Name :: "u8 list" where "ATADeviceInterface_Name = ascii ''ATADeviceInterface''"
definition AHCIDeviceInterface_Name :: "u8 list" where "AHCIDeviceInterface_Name = ascii ''AHCIDeviceInterface''"
definition NVMEDeviceInterface_Name :: "u8 list" where "NVMEDeviceInterface_Name = ascii ''NVMEDeviceInterface''"

definition kDriveMaxCount :: nat where "kDriveMaxCount = 4"

text \<open>
  The loop of both operators: it goes on over the drives whose kind compares equal to the literal,
  over its five bytes, and gives up at the first other. \<open>kind\<close> is where the string a drive's kind
  routine returns is, with no routine a null call.
\<close>

fun ata_scan :: "mem \<Rightarrow> (nat \<Rightarrow> nat option) \<Rightarrow> nat \<Rightarrow> nat \<Rightarrow> nat \<Rightarrow> kstate \<Rightarrow> fault + (bool \<times> kstate)" where
  "ata_scan m kind lit driveCount 0 s = Inr (True, s)"
| "ata_scan m kind lit driveCount (Suc left) s =
     bindF (GetAddressOf driveCount s) (\<lambda>(drv, s1).
       case drv of
         None \<Rightarrow> ata_scan m kind lit (Suc driveCount) left s1
       | Some i \<Rightarrow>
           (case kind i of
              None \<Rightarrow> Inl NullDeref
            | Some k \<Rightarrow> if rt_string_cmp m k lit 5 = 0 then ata_scan m kind lit (Suc driveCount) left s1
                        else Inr (False, s1)))"

definition ATADeviceInterface_put ::
  "mem \<Rightarrow> (nat \<Rightarrow> nat option) \<Rightarrow> nat \<Rightarrow> ('p, kstate \<times> 'h) drive_interface \<Rightarrow> 'p option \<Rightarrow> kstate \<times> 'h \<Rightarrow>
   fault + (kstate \<times> 'h)" where
  "ATADeviceInterface_put m kind lit d Data s =
     (case Data of
        None \<Rightarrow> Inr s
      | Some p \<Rightarrow> bindF (ata_scan m kind lit 0 kDriveMaxCount (fst s)) (\<lambda>(all_ata, s1).
          if all_ata then IDeviceObject_put (IDeviceObject.truncate d) p (s1, snd s) else Inr (s1, snd s)))"

definition ATADeviceInterface_get ::
  "mem \<Rightarrow> (nat \<Rightarrow> nat option) \<Rightarrow> nat \<Rightarrow> ('p, kstate \<times> 'h) drive_interface \<Rightarrow> 'p option \<Rightarrow> kstate \<times> 'h \<Rightarrow>
   fault + (kstate \<times> 'h)" where
  "ATADeviceInterface_get m kind lit d Data s =
     (case Data of
        None \<Rightarrow> Inr s
      | Some p \<Rightarrow> bindF (ata_scan m kind lit 0 kDriveMaxCount (fst s)) (\<lambda>(all_ata, s1).
          if all_ata then IDeviceObject_get (IDeviceObject.truncate d) p (s1, snd s) else Inr (s1, snd s)))"

subsection \<open>Network devices\<close>

text \<open>\<open>fNetworkName\<close> is the address of the array of 512 characters inside the object.\<close>

definition cNetworkNameLen :: nat where "cNetworkNameLen = 512"

record ('p, 's) NetworkDevice = "('p, 's) IDeviceObject" +
  fCleanupN :: "('s \<Rightarrow> 's) option"
  fNetworkName :: nat

definition NetworkDevice_new ::
  "bool \<Rightarrow> ('p \<Rightarrow> 's \<Rightarrow> fault + 's) option \<Rightarrow> ('p \<Rightarrow> 's \<Rightarrow> fault + 's) option \<Rightarrow> ('s \<Rightarrow> 's) option \<Rightarrow> nat \<Rightarrow>
   fault + ('p, 's) NetworkDevice" where
  "NetworkDevice_new dbg out inp on_cleanup name_at =
     bindF (must_pass dbg (out \<noteq> None \<and> inp \<noteq> None \<and> on_cleanup \<noteq> None)) (\<lambda>_.
       Inr \<lparr>fOut = out, fIn = inp, fCleanupN = on_cleanup, fNetworkName = name_at\<rparr>)"

definition NetworkDevice_delete :: "bool \<Rightarrow> ('p, 's) NetworkDevice \<Rightarrow> 's \<Rightarrow> fault + 's" where
  "NetworkDevice_delete dbg d s =
     bindF (must_pass dbg (fCleanupN d \<noteq> None)) (\<lambda>_. Inr (case fCleanupN d of None \<Rightarrow> s | Some f \<Rightarrow> f s))"

definition NetworkDevice_Name :: "('p, 's) NetworkDevice \<Rightarrow> nat" where
  "NetworkDevice_Name d = fNetworkName d"

text \<open>\<open>None\<close>: the name has no end.\<close>

definition NetworkDevice_setName :: "('p, 's) NetworkDevice \<Rightarrow> nat \<Rightarrow> mem \<Rightarrow> (bool \<times> mem) option" where
  "NetworkDevice_setName d strView m =
     (if strView = 0 then Some (False, m)
      else if m strView = 0 then Some (False, m)
      else case rt_string_len m strView of
        None \<Rightarrow> None
      | Some n \<Rightarrow> if n > cNetworkNameLen then Some (False, m)
                  else Some (True, snd (rt_copy_memory strView (fNetworkName d) n m)))"

subsection \<open>The swap disk\<close>

definition kSwapBlockMaxSize :: nat where "kSwapBlockMaxSize = 16 * 1024 * 1024"
definition kSwapPageFile :: "u8 list" where "kSwapPageFile = ascii ''/boot/pagefile.sys''"
definition sizeof_SWAP_DISK_HEADER :: nat where "sizeof_SWAP_DISK_HEADER = 4 + 8 + 8 + 8 + 8 + 8"

definition SwapDisk_Write ::
  "'s IFilesystemMgr option \<Rightarrow> u8 list option \<Rightarrow> nat \<Rightarrow> u8 list option \<Rightarrow> nat \<Rightarrow> 's \<Rightarrow> fault + (bool \<times> 's)" where
  "SwapDisk_Write vfs forkname fork_name_len data data_len s =
     (case forkname of
        None \<Rightarrow> Inr (False, s)
      | Some name \<Rightarrow>
          if fork_name_len = 0 then Inr (False, s)
          else if data_len > kSwapBlockMaxSize then Inr (False, s)
          else if data = None then Inr (False, s)
          else bindF (FileStream_new vfs (Some kSwapPageFile) (ascii ''wb'') s) (\<lambda>(F, s1).
            bindF (FileStream_Write vfs F name data (sizeof_SWAP_DISK_HEADER + data_len) s1) (\<lambda>(ret, s2).
              if ret \<noteq> 0 then Inr (False, s2) else Inr (True, s2))))"

definition SwapDisk_Read ::
  "'s IFilesystemMgr option \<Rightarrow> u8 list option \<Rightarrow> nat \<Rightarrow> nat \<Rightarrow> 's \<Rightarrow> fault + (NFS_FORK_STRUCT option \<times> 's)" where
  "SwapDisk_Read vfs forkname fork_name_len data_len s =
     (case forkname of
        None \<Rightarrow> Inr (None, s)
      | Some name \<Rightarrow>
          if fork_name_len = 0 then Inr (None, s)
          else if data_len > kSwapBlockMaxSize then Inr (None, s)
          else bindF (FileStream_new vfs (Some kSwapPageFile) (ascii ''rb'') s) (\<lambda>(F, s1).
            FileStream_Read vfs F name (sizeof_SWAP_DISK_HEADER + data_len) s1))"

subsection \<open>Properties and the index\<close>

record Property =
  fNameP :: KString
  fValue :: u64

text \<open>A string tests as its buffer's pointer.\<close>

definition Property_StringEquals :: "mem \<Rightarrow> Property \<Rightarrow> KString \<Rightarrow> bool" where
  "Property_StringEquals m this name \<longleftrightarrow> fData (fNameP this) \<noteq> 0 \<and> KString_eq m (fNameP this) name"

definition Property_GetKey :: "Property \<Rightarrow> KString" where "Property_GetKey this = fNameP this"
definition Property_GetValue :: "Property \<Rightarrow> u64" where "Property_GetValue this = fValue this"

definition kIndexerNodeNameLength :: nat where "kIndexerNodeNameLength = 255"
definition kIndexerClaimed :: u16 where "kIndexerClaimed = 0xCF"

text \<open>The path is an array of 255 characters at \<open>idx_Path\<close>; flags are 16 bits, signed, over 32.\<close>

record IndexableProperty =
  idx_Path :: nat
  idx_Flags :: u32

definition IndexableProperty_AddFlag :: "u16 \<Rightarrow> IndexableProperty \<Rightarrow> IndexableProperty" where
  "IndexableProperty_AddFlag flag p = p\<lparr>idx_Flags := idx_Flags p OR scast flag\<rparr>"

definition IndexableProperty_RemoveFlag :: "u16 \<Rightarrow> IndexableProperty \<Rightarrow> IndexableProperty" where
  "IndexableProperty_RemoveFlag flag p = p\<lparr>idx_Flags := idx_Flags p AND scast flag\<rparr>"

definition IndexableProperty_HasFlag :: "u16 \<Rightarrow> IndexableProperty \<Rightarrow> u16" where
  "IndexableProperty_HasFlag flag p = ucast (idx_Flags p AND scast flag)"

text \<open>The copy goes from the index's path to the name, which come first and second in the call.\<close>

definition fs_index_file :: "nat \<Rightarrow> nat \<Rightarrow> IndexableProperty \<Rightarrow> mem \<Rightarrow> IndexableProperty \<times> mem" where
  "fs_index_file filename filenameLen indexer m =
     (if IndexableProperty_HasFlag kIndexerClaimed indexer = 0
      then (IndexableProperty_AddFlag kIndexerClaimed indexer,
            snd (rt_copy_memory (idx_Path indexer) filename filenameLen m))
      else (indexer, m))"

subsection \<open>GUIDs\<close>

text \<open>
  A sequence is a union of 32 bytes: the member \<open>u8\<close> has sixteen elements of 16 bits. A sequence made
  of a list has its first sixteen bytes set; the rest is what the allocation held. The list is read
  at eleven places, without a bound.
\<close>

definition sizeof_GUIDSequence :: nat where "sizeof_GUIDSequence = 32"

definition cf_make_sequence :: "bool \<Rightarrow> u8 list option \<Rightarrow> u32 list \<Rightarrow> fault + u8 list" where
  "cf_make_sequence dbg junk uuidSeq =
     bindF (must_pass dbg (junk \<noteq> None)) (\<lambda>_.
       case junk of
         None \<Rightarrow> Inl NullDeref
       | Some seq \<Rightarrow>
           if length uuidSeq < 11 then Inl OutOfBounds
           else Inr (enc32 (uuidSeq ! 0) @ enc16 (ucast (uuidSeq ! 1)) @ enc16 (ucast (uuidSeq ! 2)) @
                  map (\<lambda>k. ucast (uuidSeq ! k)) [3..<11] @ drop 16 seq))"

definition kUUIDAsciiBegin :: u8 where "kUUIDAsciiBegin = 47"

text \<open>An element of a member, as the character it is cut to.\<close>

definition guid_char :: "u8 list \<Rightarrow> nat \<Rightarrow> nat \<Rightarrow> fault + u8" where
  "guid_char seq width index =
     (if width * index + width \<le> length seq then Inr (seq ! (width * index) + kUUIDAsciiBegin) else Inl OutOfBounds)"

fun guid_chars :: "u8 list \<Rightarrow> nat \<Rightarrow> nat \<Rightarrow> nat \<Rightarrow> fault + u8 list" where
  "guid_chars seq width index 0 = Inr []"
| "guid_chars seq width index (Suc left) =
     bindF (guid_char seq width index) (\<lambda>c. bindF (guid_chars seq width (Suc index) left) (\<lambda>cs. Inr (c # cs)))"

text \<open>The characters that the string is made of; \<open>view\<close> makes it.\<close>

definition cf_try_guid_to_string :: "(u8 list \<Rightarrow> fault + 'r) \<Rightarrow> u8 list \<Rightarrow> fault + 'r" where
  "cf_try_guid_to_string view seq =
     bindF (guid_chars seq 2 0 16) (\<lambda>a. bindF (guid_chars seq 2 16 8) (\<lambda>b. bindF (guid_chars seq 4 24 4) (\<lambda>c.
       view (a @ b @ c))))"

subsection \<open>Descriptors and bug checks\<close>

record PRDT =
  fPhysAddress :: u32
  fSectorCount :: u32
  fEndBit :: u8

definition construct_prdt :: "PRDT \<Rightarrow> PRDT" where
  "construct_prdt prd = prd\<lparr>fPhysAddress := 0, fSectorCount := 0, fEndBit := 0\<rparr>"

definition err_bug_check :: "bool \<Rightarrow> fault + bool" where
  "err_bug_check kRaiseOnBugCheck =
     bindF (if kRaiseOnBugCheck then ke_panic RUNTIME_CHECK_BAD_BEHAVIOR else Inr ()) (\<lambda>_. Inr False)"

definition err_bug_check_raise :: "bool \<Rightarrow> bool" where
  "err_bug_check_raise kRaiseOnBugCheck = True"

subsection \<open>The debugger's port\<close>

text \<open>
  \<^verbatim>\<open>rt_debug_listen\<close>. The ports are signed 16-bit numbers. The comparison with the number of an unbound
  port stands inside the argument of the read, so its result, 0 or 1, is the port that is read.
\<close>

definition kDebugMaxPorts :: nat where "kDebugMaxPorts = 56"
definition kDebugUnboundPort :: int where "kDebugUnboundPort = 0xFEED"
definition kDebugMag :: "u16 list" where "kDebugMag = [90, 68, 66, 71]"

record DebuggerPortHeader =
  fPort :: "u16 list"
  fBoundCnt :: u16

fun listen_ports :: "u16 list \<Rightarrow> u16 \<Rightarrow> iobus \<Rightarrow> u16 \<times> iobus" where
  "listen_ports [] cnt b = (cnt, b)"
| "listen_ports (port # ports) cnt b =
     (let b1 = fold (bus_out16 port) kDebugMag b;
          (v, b2) = bus_in16 (if sint port \<noteq> kDebugUnboundPort then 1 else 0) b1
      in listen_ports ports (if v \<noteq> 0 then cnt + 1 else cnt) b2)"

definition rt_debug_listen :: "DebuggerPortHeader option \<Rightarrow> iobus \<Rightarrow> DebuggerPortHeader option \<times> iobus" where
  "rt_debug_listen theHook b =
     (case theHook of
        None \<Rightarrow> (None, b)
      | Some h \<Rightarrow> (case listen_ports (take kDebugMaxPorts (fPort h)) (fBoundCnt h) b of
          (cnt, b1) \<Rightarrow> (Some (h\<lparr>fBoundCnt := cnt\<rparr>), b1)))"

subsection \<open>Lemmas\<close>

lemma c_string_iff:
  "c_string m p = Some cs \<longleftrightarrow> read_bytes p (length cs) m = cs \<and> m (p + length cs) = 0 \<and> 0 \<notin> set cs"
proof
  assume "c_string m p = Some cs"
  then obtain n where n: "rt_string_len m p = Some n" "read_bytes p n m = cs" by (auto simp: c_string_def)
  then have "n = length cs" by (metis length_read_bytes)
  with n show "read_bytes p (length cs) m = cs \<and> m (p + length cs) = 0 \<and> 0 \<notin> set cs"
    unfolding rt_string_len_iff by (metis in_set_conv_nth read_bytes_nth)
next
  assume "read_bytes p (length cs) m = cs \<and> m (p + length cs) = 0 \<and> 0 \<notin> set cs"
  moreover from this have "rt_string_len m p = Some (length cs)"
    unfolding rt_string_len_iff by (metis length_read_bytes nth_mem read_bytes_nth)
  ultimately show "c_string m p = Some cs" by (simp add: c_string_def)
qed

lemma CurrentProcess_put_current [simp]: "CurrentProcess (put_current (Some p) s) = Some p"
  by (simp add: CurrentProcess_def UserProcessTeam_AsRef_def put_current_def)

lemma ata_scan_runs:
  assumes "CurrentProcess s = Some p" and "i + left \<le> 4" and "\<forall>j < 4. kind j = Some (k j)"
  shows "\<exists>s'. ata_scan m kind lit i left s = Inr (\<forall>j. i \<le> j \<and> j < i + left \<longrightarrow> read_bytes (k j) 5 m = read_bytes lit 5 m, s')"
  using assms(1,2)
proof (induction left arbitrary: i s p)
  case (Suc left)
  let ?s1 = "put_current (Some (p\<lparr>fLocalCode := kErrorSuccess\<rparr>)) s"
  have get: "GetAddressOf i s = Inr (Some i, ?s1)" using Suc.prems by (simp add: GetAddressOf_def)
  have k: "kind i = Some (k i)" using assms(3) Suc.prems(2) by simp
  show ?case
  proof (cases "read_bytes (k i) 5 m = read_bytes lit 5 m")
    case True
    obtain s' where "ata_scan m kind lit (Suc i) left ?s1 =
        Inr (\<forall>j. Suc i \<le> j \<and> j < Suc i + left \<longrightarrow> read_bytes (k j) 5 m = read_bytes lit 5 m, s')"
      using Suc.IH [of ?s1 _ "Suc i"] Suc.prems(2) by auto
    moreover have "(\<forall>j. Suc i \<le> j \<and> j < Suc i + left \<longrightarrow> read_bytes (k j) 5 m = read_bytes lit 5 m) \<longleftrightarrow>
        (\<forall>j. i \<le> j \<and> j < i + Suc left \<longrightarrow> read_bytes (k j) 5 m = read_bytes lit 5 m)"
      using True by (metis Suc_leI add_Suc_shift le_eq_less_or_eq Suc_leD)
    ultimately show ?thesis using True by (simp add: get k rt_string_cmp_zero_iff)
  next
    case False
    then have "\<not> (\<forall>j. i \<le> j \<and> j < i + Suc left \<longrightarrow> read_bytes (k j) 5 m = read_bytes lit 5 m)" by auto
    then show ?thesis using False by (simp add: get k rt_string_cmp_zero_iff)
  qed
qed auto

text \<open>The five bytes end with the literal's terminator: a longer name is never equal.\<close>

lemma longer_kind_differs:
  assumes "c_string m lit = Some (ascii ''ATA-'')" and "c_string m k = Some (ascii io_drv_kind)"
  shows "read_bytes k 5 m \<noteq> read_bytes lit 5 m"
proof -
  have "m (lit + 4) = 0" using assms(1) by (simp add: c_string_iff ascii_def numeral_eq_Suc)
  moreover have "m (k + 4) \<noteq> 0"
  proof -
    have "ascii io_drv_kind = [65, 84, 65, 45, 80, 73, 79]" by (simp add: ascii_def io_drv_kind_def)
    with assms(2) have "read_bytes k 7 m ! 4 = 80" by (simp add: c_string_iff del: length_Cons) (simp add: numeral_eq_Suc)
    then show ?thesis by (simp add: read_bytes_nth)
  qed
  ultimately show ?thesis by (auto simp: read_bytes_eq_iff intro!: exI [of _ 4])
qed

context filesystem_mgr
begin

lemma swap_read_none: "SwapDisk_Read (Some M) nm n len s = Inr (r, s') \<Longrightarrow> r = None"
  by (auto simp: SwapDisk_Read_def stream_read_none bindF_eq_Inr split: option.splits if_splits)

end

lemma nefs_write_too_long:
  "kNeFSForkSize < len \<Longrightarrow> NeMgr_WriteNamed c name nd data flags len s = Inr s"
  by (simp add: NeMgr_WriteNamed_def)

lemma wb_may_write: "FileStream_new vfs path (ascii ''wb'') s = Inr (F, s1) \<Longrightarrow> may_write F"
proof -
  have "restrict_lookup kRestrictList (ascii ''wb'') kFileMgrRestrictReadBinary = kFileMgrRestrictWrite"
    unfolding kRestrictList_eval ascii_def restrict_matches_def by code_simp
  then show "FileStream_new vfs path (ascii ''wb'') s = Inr (F, s1) \<Longrightarrow> may_write F"
    by (auto simp: FileStream_new_def bindF_eq_Inr may_write_def split: option.splits)
qed

lemma HasFlag_RemoveFlag:
  "IndexableProperty_HasFlag f (IndexableProperty_RemoveFlag f p) = IndexableProperty_HasFlag f p"
  by (simp add: IndexableProperty_HasFlag_def IndexableProperty_RemoveFlag_def and.assoc)

lemma guid_chars_out_of_bounds:
  "length seq < width * index + width \<Longrightarrow> 0 < n \<Longrightarrow> guid_chars seq width index n = Inl OutOfBounds"
  by (cases n) (simp_all add: guid_char_def)

lemma no_port_is_unbound: "sint (port :: u16) \<noteq> kDebugUnboundPort"
  using sint_lt [of port] by (simp add: kDebugUnboundPort_def)

lemma listen_ports_history:
  "\<exists>vs. length vs = length ports \<and>
     fst (listen_ports ports cnt b) = cnt + of_nat (length (filter (\<lambda>v. v \<noteq> 0) vs)) \<and>
     history (snd (listen_ports ports cnt b)) =
       history b @ concat (map2 (\<lambda>p v. map (\<lambda>c. Out p (ucast c)) kDebugMag @ [In 1 (ucast (v :: u16))]) ports vs)"
proof (induction ports arbitrary: cnt b)
  case (Cons port ports)
  let ?b1 = "fold (bus_out16 port) kDebugMag b"
  let ?v = "fst (bus_in16 1 ?b1)" and ?b2 = "snd (bus_in16 1 ?b1)"
  have step: "listen_ports (port # ports) cnt b = listen_ports ports (if ?v \<noteq> 0 then cnt + 1 else cnt) ?b2"
    by (simp add: no_port_is_unbound case_prod_unfold Let_def)
  have b1: "history ?b1 = history b @ map (\<lambda>c. Out port (ucast c)) kDebugMag" by (simp add: kDebugMag_def)
  obtain vs where "length vs = length ports"
    "fst (listen_ports ports (if ?v \<noteq> 0 then cnt + 1 else cnt) ?b2) =
       (if ?v \<noteq> 0 then cnt + 1 else cnt) + of_nat (length (filter (\<lambda>v. v \<noteq> 0) vs))"
    "history (snd (listen_ports ports (if ?v \<noteq> 0 then cnt + 1 else cnt) ?b2)) =
       history ?b2 @ concat (map2 (\<lambda>p v. map (\<lambda>c. Out p (ucast c)) kDebugMag @ [In 1 (ucast (v :: u16))]) ports vs)"
    using Cons.IH by blast
  then show ?case unfolding step by (intro exI [of _ "?v # vs"]) (simp add: b1)
qed simp

lemma guid_chars_in_bounds:
  "width * (index + n) \<le> length seq \<Longrightarrow> \<exists>cs. guid_chars seq width index n = Inr cs"
proof (induction n arbitrary: index)
  case (Suc n)
  then have "width * index + width \<le> length seq" by (simp add: algebra_simps)
  moreover obtain cs where "guid_chars seq width (Suc index) n = Inr cs" using Suc.IH [of "Suc index"] Suc.prems by auto
  ultimately show ?case by (simp add: guid_char_def)
qed simp

subsection \<open>Properties\<close>



text \<open>
  A name of at most 512 characters, apart from the device's array, is what the device's name reads as
  afterwards and nothing else changes but the character after it, which becomes the terminator: for a name of exactly 512 that
  character is behind the array. An empty name and a longer one are refused and change nothing.
\<close>

theorem network_device_name:
  assumes "c_string m str = Some cs" and "str \<noteq> 0" and "disjoint_ext str (length cs) (fNetworkName d) (Suc (length cs))"
  shows "if cs = [] \<or> 512 < length cs then NetworkDevice_setName d str m = Some (False, m)
    else \<exists>m'. NetworkDevice_setName d str m = Some (True, m') \<and> c_string m' (NetworkDevice_Name d) = Some cs \<and>
      m' (fNetworkName d + length cs) = 0 \<and> (\<forall>j. j < fNetworkName d \<or> fNetworkName d + length cs < j \<longrightarrow> m' j = m j)"
proof -
  have str: "read_bytes str (length cs) m = cs" "m (str + length cs) = 0" "0 \<notin> set cs" using assms(1) by (simp_all add: c_string_iff)
  have len: "rt_string_len m str = Some (length cs)" using assms(1) by (auto simp: c_string_def)
  have first: "m str = 0 \<longleftrightarrow> cs = []"
  proof (cases cs)
    case (Cons c ct)
    have "m str = c" using str(1) read_bytes_nth [of 0 "length cs" str m] by (simp add: Cons)
    then show ?thesis using str(3) by (auto simp: Cons)
  qed (use str(2) in simp)
  let ?m' = "snd (rt_copy_memory str (fNetworkName d) (length cs) m)"
  have "c_string ?m' (fNetworkName d) = Some cs"
    using rt_copy_memory_bytes [OF assms(3)] str by (simp add: c_string_iff rt_copy_memory_terminates_with_nul)
  moreover have "?m' j = m j" if "j < fNetworkName d \<or> fNetworkName d + length cs < j" for j
    using that by (rule rt_copy_memory_frame)
  ultimately show ?thesis
    using assms(2) by (simp add: NetworkDevice_setName_def NetworkDevice_Name_def first len cNetworkNameLen_def
        rt_copy_memory_terminates_with_nul)
qed

theorem network_device_name_witness:
  "\<exists>m'. NetworkDevice_setName \<lparr>fOut = None :: (nat \<Rightarrow> nat \<Rightarrow> fault + nat) option, fIn = None, fCleanupN = None, fNetworkName = 4096\<rparr> 100
      (write_bytes 100 [101, 116, 104] (\<lambda>_. 0)) = Some (True, m') \<and> c_string m' 4096 = Some [101, 116, 104]"
proof -
  let ?m = "write_bytes 100 [101, 116, 104] (\<lambda>_. 0 :: u8)"
  let ?d = "\<lparr>fOut = None :: (nat \<Rightarrow> nat \<Rightarrow> fault + nat) option, fIn = None, fCleanupN = None, fNetworkName = 4096\<rparr>"
  have "read_bytes 100 3 ?m = [101, 116, 104]"
    by (simp add: read_bytes_def write_bytes_def upt_rec nth_Cons')
  moreover have "length [101, 116, 104 :: u8] = 3" "?m (100 + 3) = 0" by (simp_all add: write_bytes_def)
  ultimately have str: "c_string ?m 100 = Some [101, 116, 104]" by (simp only: c_string_iff) simp
  have "disjoint_ext 100 (length [101, 116, 104 :: u8]) (fNetworkName ?d) (Suc (length [101, 116, 104 :: u8]))"
    by (simp add: disjoint_ext_def)
  from network_device_name [OF str _ this] show ?thesis by (auto simp: NetworkDevice_Name_def)
qed



text \<open>
  Indexing a file claims the index, but the copy goes the wrong way: the caller's name is overwritten with what the index held,
  with a terminator behind it, and the path of the index stays. A claimed index is left alone. Removing a flag keeps
  it and drops all others, so an index cannot be given back either.
\<close>

theorem indexing_overwrites_the_name:
  assumes "IndexableProperty_HasFlag kIndexerClaimed p = 0" and "disjoint_ext (idx_Path p) n filename (Suc n)"
  shows "\<exists>p' m'. fs_index_file filename n p m = (p', m') \<and> idx_Path p' = idx_Path p \<and>
    read_bytes filename n m' = read_bytes (idx_Path p) n m \<and> m' (filename + n) = 0 \<and>
    read_bytes (idx_Path p) n m' = read_bytes (idx_Path p) n m \<and>
    IndexableProperty_HasFlag kIndexerClaimed p' = kIndexerClaimed \<and>
    fs_index_file b k (IndexableProperty_RemoveFlag kIndexerClaimed p') m' = (IndexableProperty_RemoveFlag kIndexerClaimed p', m')"
proof -
  let ?p' = "IndexableProperty_AddFlag kIndexerClaimed p" and ?m' = "snd (rt_copy_memory (idx_Path p) filename n m)"
  have "?m' j = m j" if "j < filename \<or> filename + n < j" for j using that by (rule rt_copy_memory_frame)
  then have path: "read_bytes (idx_Path p) n ?m' = read_bytes (idx_Path p) n m"
    using assms(2) by (auto simp: read_bytes_eq_iff disjoint_ext_def)
  have "(w OR 0xCF) AND 0xCF = (0xCF :: u32)" for w by (rule bit_word_eqI) (auto simp: bit_and_iff bit_or_iff)
  then have has: "IndexableProperty_HasFlag kIndexerClaimed ?p' = kIndexerClaimed"
    by (simp add: IndexableProperty_HasFlag_def IndexableProperty_AddFlag_def kIndexerClaimed_def)
  show ?thesis
    by (intro exI [of _ ?p'] exI [of _ ?m'])
      (use assms(1) path has rt_copy_memory_bytes [OF assms(2)] in
        \<open>simp add: fs_index_file_def HasFlag_RemoveFlag IndexableProperty_AddFlag_def kIndexerClaimed_def rt_copy_memory_terminates_with_nul\<close>)
qed

theorem indexing_overwrites_the_name_witness:
  "\<exists>p' m'. fs_index_file 100 1 \<lparr>idx_Path = 4096, idx_Flags = 0\<rparr> ((\<lambda>_. 7)(100 := 47)) = (p', m') \<and> m' 100 = 7 \<and> m' 101 = 0"
proof -
  let ?p = "\<lparr>idx_Path = 4096, idx_Flags = 0\<rparr>" and ?m = "(\<lambda>_. 7 :: u8)(100 := 47)"
  have "IndexableProperty_HasFlag kIndexerClaimed ?p = 0" by (simp add: IndexableProperty_HasFlag_def)
  moreover have "disjoint_ext (idx_Path ?p) 1 100 (Suc 1)" by (simp add: disjoint_ext_def)
  ultimately obtain p' m' where r: "fs_index_file 100 1 ?p ?m = (p', m')"
    "read_bytes 100 1 m' = read_bytes (idx_Path ?p) 1 ?m" "m' (100 + 1) = 0"
    using indexing_overwrites_the_name [of ?p 1 100 ?m] by blast
  then show ?thesis by (auto simp: read_bytes_def)
qed

text \<open>
  A sequence made of eleven numbers holds them, cut to the widths of the members, in its first sixteen bytes; making a
  string of any sequence reads behind the union.
\<close>

theorem guid_sequences:
  assumes "length uuidSeq = 11" and "length junk = sizeof_GUIDSequence"
  shows "\<exists>seq. cf_make_sequence dbg (Some junk) uuidSeq = Inr seq \<and> length seq = sizeof_GUIDSequence \<and>
    dec32 (slice 0 4 seq) = uuidSeq ! 0 \<and> dec16 (slice 4 2 seq) = ucast (uuidSeq ! 1) \<and>
    dec16 (slice 6 2 seq) = ucast (uuidSeq ! 2) \<and> (\<forall>k < 8. seq ! (8 + k) = ucast (uuidSeq ! (3 + k))) \<and>
    cf_try_guid_to_string view seq = Inl OutOfBounds"
proof -
  define seq where "seq = enc32 (uuidSeq ! 0) @ enc16 (ucast (uuidSeq ! 1)) @ enc16 (ucast (uuidSeq ! 2)) @
    map (\<lambda>k. ucast (uuidSeq ! k)) [3..<11] @ drop 16 junk"
  have made: "cf_make_sequence dbg (Some junk) uuidSeq = Inr seq"
    using assms(1) by (simp add: cf_make_sequence_def must_pass_def seq_def del: upt_Suc upt_conv_Cons)
  have len: "length seq = 32" using assms(2) by (simp add: sizeof_GUIDSequence_def seq_def)
  have "cf_try_guid_to_string view seq = Inl OutOfBounds"
  proof (cases "guid_chars seq 2 0 16")
    case (Inr a)
    then show ?thesis unfolding cf_try_guid_to_string_def by (simp add: guid_chars_out_of_bounds len)
  next
    case (Inl e)
    moreover have "guid_chars seq 2 0 16 \<noteq> Inl e" using guid_chars_in_bounds [of 2 0 16 seq] len by auto
    ultimately show ?thesis by blast
  qed
  moreover have "dec32 (slice 0 4 seq) = uuidSeq ! 0" "dec16 (slice 4 2 seq) = ucast (uuidSeq ! 1)"
    "dec16 (slice 6 2 seq) = ucast (uuidSeq ! 2)"
    by (simp_all add: seq_def slice_def)
  moreover have "seq ! (8 + k) = ucast (uuidSeq ! (3 + k))" if "k < 8" for k
    using that by (simp add: seq_def nth_append del: upt_conv_Cons upt_rec_numeral)
  ultimately show ?thesis using made len by (simp add: sizeof_GUIDSequence_def)
qed

theorem guid_sequences_witness:
  "\<exists>seq. cf_make_sequence True (Some (replicate 32 0)) [1, 2, 3, 4, 5, 6, 7, 8, 9, 10, 11] = Inr seq \<and> seq ! 8 = 4"
proof -
  have "length [1, 2, 3, 4, 5, 6, 7, 8, 9, 10, 11 :: u32] = 11" "length (replicate 32 (0 :: u8)) = sizeof_GUIDSequence"
    by (simp_all add: sizeof_GUIDSequence_def)
  from guid_sequences [OF this, of True] obtain seq where
    r: "cf_make_sequence True (Some (replicate 32 0)) [1, 2, 3, 4, 5, 6, 7, 8, 9, 10, 11] = Inr seq"
    "\<forall>k < 8. seq ! (8 + k) = ucast ([1, 2, 3, 4, 5, 6, 7, 8, 9, 10, 11 :: u32] ! (3 + k))" by blast
  have "seq ! (8 + 0) = 4" using r(2) [rule_format, of 0] by simp
  then show ?thesis using r(1) by auto
qed

text \<open>
  The debugger's probe writes the four letters to every port of the hook, and the answer it counts is always that
  of port 1: none of the ports of the hook is ever read.
\<close>

theorem debug_listen_reads_port_one:
  "\<exists>vs b'. rt_debug_listen (Some h) b =
      (Some (h\<lparr>fBoundCnt := fBoundCnt h + of_nat (length (filter (\<lambda>v. v \<noteq> 0) vs))\<rparr>), b') \<and>
    length vs = length (take kDebugMaxPorts (fPort h)) \<and>
    history b' = history b @ concat (map2 (\<lambda>p v. map (\<lambda>c. Out p (ucast c)) kDebugMag @ [In 1 (ucast (v :: u16))])
      (take kDebugMaxPorts (fPort h)) vs)"
proof -
  obtain vs where "length vs = length (take kDebugMaxPorts (fPort h))"
    "fst (listen_ports (take kDebugMaxPorts (fPort h)) (fBoundCnt h) b) = fBoundCnt h + of_nat (length (filter (\<lambda>v. v \<noteq> 0) vs))"
    "history (snd (listen_ports (take kDebugMaxPorts (fPort h)) (fBoundCnt h) b)) =
       history b @ concat (map2 (\<lambda>p v. map (\<lambda>c. Out p (ucast c)) kDebugMag @ [In 1 (ucast (v :: u16))])
         (take kDebugMaxPorts (fPort h)) vs)"
    using listen_ports_history [of "take kDebugMaxPorts (fPort h)" "fBoundCnt h" b] by blast
  then show ?thesis
    by (intro exI [of _ vs] exI [of _ "snd (listen_ports (take kDebugMaxPorts (fPort h)) (fBoundCnt h) b)"])
      (simp add: rt_debug_listen_def case_prod_unfold)
qed

end
