(* ===== verification/CxxRuntime.thy ===== *)
theory CxxRuntime
  imports Prelude
begin

text \<open>
  The run-time support the compiler's output refers to: \<^verbatim>\<open>src/CxxAbi-AMD64.cc\<close>, with the
  table of destructors of \<^verbatim>\<open>NewKit/CxxAbi.h\<close> and the guards of local statics. What a
  destructor does is the parameter \<open>call\<close>, on a state of its own: destructors that register
  others are not covered.
\<close>

subsection \<open>The table of destructors\<close>

definition kAtExitMacDestructors :: nat where "kAtExitMacDestructors = 128"

record atexit_func_entry_t =
  destructor_func :: nat
  obj_ptr :: nat
  dso_handle :: nat

record atexit_table =
  atexit_funcs :: "atexit_func_entry_t list"
  atexit_func_count :: u32

definition atexit_boot :: atexit_table where
  "atexit_boot = \<lparr>atexit_funcs = replicate kAtExitMacDestructors \<lparr>destructor_func = 0, obj_ptr = 0, dso_handle = 0\<rparr>,
     atexit_func_count = 0\<rparr>"

definition atexit :: "nat \<Rightarrow> nat \<Rightarrow> nat \<Rightarrow> atexit_table \<Rightarrow> u32 \<times> atexit_table" where
  "atexit f arg dso t =
     (if kAtExitMacDestructors \<le> unat (atexit_func_count t) then (1, t)
      else (0, t\<lparr>atexit_funcs := (atexit_funcs t)[unat (atexit_func_count t) :=
                   \<lparr>destructor_func = f, obj_ptr = arg, dso_handle = dso\<rparr>],
                 atexit_func_count := atexit_func_count t + 1\<rparr>))"

text \<open>The two loops count down; the second one clears what it has called.\<close>

fun finalize_all :: "(nat \<Rightarrow> nat \<Rightarrow> 's \<Rightarrow> 's) \<Rightarrow> nat \<Rightarrow> atexit_func_entry_t list \<Rightarrow> 's \<Rightarrow> 's" where
  "finalize_all call 0 fs s = s"
| "finalize_all call (Suc i) fs s =
     finalize_all call i fs
       (if destructor_func (fs ! i) \<noteq> 0 then call (destructor_func (fs ! i)) (obj_ptr (fs ! i)) s else s)"

fun finalize_clear ::
  "(nat \<Rightarrow> nat \<Rightarrow> 's \<Rightarrow> 's) \<Rightarrow> nat \<Rightarrow> atexit_func_entry_t list \<Rightarrow> 's \<Rightarrow> atexit_func_entry_t list \<times> 's" where
  "finalize_clear call 0 fs s = (fs, s)"
| "finalize_clear call (Suc i) fs s =
     (if destructor_func (fs ! i) \<noteq> 0
      then finalize_clear call i (fs[i := (fs ! i)\<lparr>destructor_func := 0\<rparr>])
             (call (destructor_func (fs ! i)) (obj_ptr (fs ! i)) s)
      else finalize_clear call i fs s)"

text \<open>The argument only decides whether entries are cleared; it is not compared with anything.\<close>

definition cxa_finalize :: "(nat \<Rightarrow> nat \<Rightarrow> 's \<Rightarrow> 's) \<Rightarrow> nat \<Rightarrow> atexit_table \<Rightarrow> 's \<Rightarrow> atexit_table \<times> 's" where
  "cxa_finalize call f t s =
     (if f = 0 then (t, finalize_all call (unat (atexit_func_count t)) (atexit_funcs t) s)
      else (case finalize_clear call (unat (atexit_func_count t)) (atexit_funcs t) s of
              (fs, s1) \<Rightarrow> (t\<lparr>atexit_funcs := fs\<rparr>, s1)))"

subsection \<open>Guards\<close>

text \<open>A guard's first byte; a result of 0 tells the compiled code not to run the initialiser.\<close>

definition cxa_guard_acquire :: "u8 \<Rightarrow> u32" where "cxa_guard_acquire g = 0"
definition cxa_guard_release :: "u8 \<Rightarrow> u32 \<times> u8" where "cxa_guard_release g = (0, 1)"
definition cxa_guard_abort :: "u8 \<Rightarrow> u8" where "cxa_guard_abort g = g"

subsection \<open>Lemmas\<close>

text \<open>The entries below the count are the registrations, in their order.\<close>

definition registered :: "atexit_table \<Rightarrow> (nat \<times> nat \<times> nat) list \<Rightarrow> bool" where
  "registered t rs \<longleftrightarrow> length (atexit_funcs t) = kAtExitMacDestructors \<and> length rs \<le> kAtExitMacDestructors \<and>
     unat (atexit_func_count t) = length rs \<and>
     (\<forall>i < length rs. atexit_funcs t ! i =
        \<lparr>destructor_func = fst (rs ! i), obj_ptr = fst (snd (rs ! i)), dso_handle = snd (snd (rs ! i))\<rparr>)"

lemma registered_boot: "registered atexit_boot []"
  by (simp add: registered_def atexit_boot_def)

lemma atexit_registers:
  assumes "registered t rs"
  shows "if length rs < kAtExitMacDestructors
    then \<exists>t'. atexit f arg dso t = (0, t') \<and> registered t' (rs @ [(f, arg, dso)])
    else atexit f arg dso t = (1, t)"
proof (cases "length rs < kAtExitMacDestructors")
  case True
  then have "unat (atexit_func_count t) + 1 < 2 ^ LENGTH(32)"
    using assms by (simp add: registered_def kAtExitMacDestructors_def)
  then have "unat (atexit_func_count t + 1) = Suc (length rs)"
    using assms unat_add_lem [of "atexit_func_count t" 1] by (simp add: registered_def)
  with True assms show ?thesis
    by (auto simp: atexit_def registered_def nth_append less_Suc_eq)
qed (use assms in \<open>simp add: atexit_def registered_def\<close>)

abbreviation call_entry :: "(nat \<Rightarrow> nat \<Rightarrow> 's \<Rightarrow> 's) \<Rightarrow> nat \<times> nat \<times> nat \<Rightarrow> 's \<Rightarrow> 's" where
  "call_entry call r s \<equiv> (if fst r \<noteq> 0 then call (fst r) (fst (snd r)) s else s)"

lemma finalize_all_runs:
  "i \<le> length rs \<Longrightarrow> \<forall>j < length rs. fs ! j = \<lparr>destructor_func = fst (rs ! j), obj_ptr = fst (snd (rs ! j)), dso_handle = snd (snd (rs ! j))\<rparr> \<Longrightarrow>
   finalize_all call i fs s = fold (call_entry call) (rev (take i rs)) s"
  by (induction call i fs s rule: finalize_all.induct) (simp_all add: take_Suc_conv_app_nth)

lemma finalize_clear_runs:
  "i \<le> length rs \<Longrightarrow> i \<le> length fs \<Longrightarrow>
   \<forall>j < i. fs ! j = \<lparr>destructor_func = fst (rs ! j), obj_ptr = fst (snd (rs ! j)), dso_handle = snd (snd (rs ! j))\<rparr> \<Longrightarrow>
   snd (finalize_clear call i fs s) = fold (call_entry call) (rev (take i rs)) s \<and>
   length (fst (finalize_clear call i fs s)) = length fs \<and>
   (\<forall>j < i. destructor_func (fst (finalize_clear call i fs s) ! j) = 0) \<and>
   (\<forall>j. i \<le> j \<longrightarrow> fst (finalize_clear call i fs s) ! j = fs ! j)"
  by (induction call i fs s rule: finalize_clear.induct)
    (auto simp: take_Suc_conv_app_nth less_Suc_eq)

lemma finalize_all_nothing: "\<forall>j < i. destructor_func (fs ! j) = 0 \<Longrightarrow> finalize_all call i fs s = s"
  by (induction call i fs s rule: finalize_all.induct) simp_all

subsection \<open>Properties\<close>

text \<open>
  C40. Finalising runs the registered destructors once each, the last one first, whatever the argument is. With a null
  argument the table stays, so a second run calls them all again; with any other the table is cleared,
  and a second run calls none, but the places are not given back.
\<close>

theorem destructors_run_in_reverse:
  assumes "registered t rs"
  shows "\<exists>t'. cxa_finalize call f t s = (t', fold (call_entry call) (rev rs) s) \<and>
    (if f = 0 then t' = t else snd (cxa_finalize call 0 t' s') = s') \<and> atexit_func_count t' = atexit_func_count t"
proof (cases "f = 0")
  case True
  then show ?thesis
    using assms finalize_all_runs [of "length rs" rs "atexit_funcs t" call s]
    by (simp add: cxa_finalize_def registered_def)
next
  case False
  note r = finalize_clear_runs [of "length rs" rs "atexit_funcs t" call s]
  let ?fs = "fst (finalize_clear call (length rs) (atexit_funcs t) s)"
  have n: "unat (atexit_func_count t) = length rs" using assms by (simp add: registered_def)
  have "cxa_finalize call f t s = (t\<lparr>atexit_funcs := ?fs\<rparr>, fold (call_entry call) (rev rs) s)"
    using False assms r by (simp add: cxa_finalize_def registered_def n case_prod_unfold)
  moreover have "snd (cxa_finalize call 0 (t\<lparr>atexit_funcs := ?fs\<rparr>) s') = s'"
    using assms r by (simp add: cxa_finalize_def n registered_def finalize_all_nothing)
  ultimately show ?thesis using False by simp
qed

theorem destructors_run_in_reverse_witness:
  "snd (cxa_finalize (\<lambda>f x s. s @ [x]) 0 (snd (atexit 1 20 0 (snd (atexit 1 10 0 atexit_boot)))) []) = [20, 10]"
proof -
  obtain t where t: "atexit 1 10 0 atexit_boot = (0, t)" "registered t [(1, 10, 0)]"
    using atexit_registers [OF registered_boot, of 1 10 0] by (auto simp: kAtExitMacDestructors_def)
  obtain t' where t': "atexit 1 20 0 t = (0, t')" "registered t' [(1, 10, 0), (1, 20, 0)]"
    using atexit_registers [OF t(2), of 1 20 0] by (auto simp: kAtExitMacDestructors_def)
  show ?thesis using destructors_run_in_reverse [OF t'(2), of "\<lambda>f x s. s @ [x]" 0 "[]"] t(1) t'(1) by auto
qed

end
