(* ===== verification/NeFSFormat.thy ===== *)
theory NeFSFormat
  imports NeFSCreate BootFormat
begin

text \<open>
  The body of the parser's \<^verbatim>\<open>Format\<close> (\<^verbatim>\<open>FS/OpenNeFS.cc\<close>), which is compiled only with
  \<^verbatim>\<open>OPENNE_EPM_SUPPORT\<close>. No makefile of the tree defines it: the build of the other theories has
  \<open>Format\<close> of \<open>NeFS\<close>, which refuses. This is what the flag would give.

  The drive is an object of the caller's, the disk behind it the one of the mountpoint. The two buffers
  are byte lists, the disk's numbers of sectors and bytes are arguments, and \<open>ident\<close> is the eight
  bytes from the literal on, one more than it has. What is printed is left out.
\<close>

subsection \<open>Writing into a buffer\<close>

definition put_at :: "nat \<Rightarrow> u8 list \<Rightarrow> u8 list \<Rightarrow> u8 list" where
  "put_at a bs b = take a b @ bs @ drop (a + length bs) b"

lemma length_put_at [simp]: "a + length bs \<le> length b \<Longrightarrow> length (put_at a bs b) = length b"
  by (simp add: put_at_def)

lemma slice_put_same: "a + length bs \<le> length b \<Longrightarrow> n \<le> length bs \<Longrightarrow> slice a n (put_at a bs b) = take n bs"
  by (simp add: put_at_def slice_def)

lemma slice_put_other:
  assumes "a + length bs \<le> length b" and "i + n \<le> a \<or> a + length bs \<le> i" and "i + n \<le> length b"
  shows "slice i n (put_at a bs b) = slice i n b"
proof (rule nth_equalityI)
  show "length (slice i n (put_at a bs b)) = length (slice i n b)" using assms by (simp add: length_slice)
  show "slice i n (put_at a bs b) ! k = slice i n b ! k" if "k < length (slice i n (put_at a bs b))" for k
  proof -
    have "k < n" using that by (simp add: slice_def)
    then show ?thesis using assms by (auto simp: slice_def put_at_def nth_append)
  qed
qed

subsection \<open>The entry of the partition table\<close>

text \<open>Every copy stores a terminator behind it: the one of the magic goes over the first character of the name.\<close>

definition epm_entry :: "u8 list" where
  "epm_entry =
     put_at 0 (kEPMMagic @ [0]) (put_at 5 (ascii ''ZkaOS:'' @ [0])
       (put_at 49 (enc64 512) (put_at 57 (enc64 NeFS.kNeFSRootCatalogStartAddress)
         (put_at 75 (enc32 (ucast kNeFSVersionInteger)) (put_at 79 (ascii ''NeFS'' @ [0]) (replicate 512 0))))))"

text \<open>The walk over the entries to the first that starts with a zero.\<close>

fun epm_loop ::
  "nconf \<Rightarrow> nat \<Rightarrow> u8 list \<Rightarrow> u64 \<Rightarrow> u64 \<Rightarrow> u64 \<Rightarrow> u64 \<Rightarrow> u8 list \<Rightarrow> DriveTrait \<Rightarrow> disk \<Rightarrow> fault + (DriveTrait \<times> disk)" where
  "epm_loop c 0 epm_boot endLba outEpmLba prevStart cnt buf t d = Inl OutOfFuel"
| "epm_loop c (Suc fuel) epm_boot endLba outEpmLba prevStart cnt buf t d =
     (if \<not> fPacketGood (fPacket t) then Inr (t, d)
      else let t1 = set_packet outEpmLba sizeof_EPM_PART_BLOCK t in
        bindF (call_drv (fInput t1) (hw c) (fPacket t1) (Some buf) d) (\<lambda>(b, d1).
          let buf1 = the b in
          if buf1 ! 0 = 0 then
            let start = (if prevStart \<noteq> 0 then outEpmLba else prevStart);
                epm = put_at 41 (enc64 cnt) (put_at 65 (enc64 endLba) (put_at 57 (enc64 start) epm_boot)) in
            bindF (call_drv (fOutput t1) (hw c) (fPacket t1) (Some epm) d1) (\<lambda>(b2, d2). Inr (t1, d2))
          else epm_loop c fuel epm_boot endLba (outEpmLba + of_nat sizeof_EPM_PART_BLOCK)
                 (epm_LbaStart buf1 + epm_LbaEnd buf1) (cnt + 1) buf1 t1 d1))"

subsection \<open>The partition block\<close>

definition format_block :: "u8 list \<Rightarrow> u8 list \<Rightarrow> u64 \<Rightarrow> u64 \<Rightarrow> u8 list \<Rightarrow> fault + u8 list" where
  "format_block ident part_name sectorCount diskSize b =
     (if 8 + length part_name + 1 > length b then Inl OutOfBounds
      else let b1 = put_at 104 (enc64 kNeFSVersionInteger) b;
               b2 = put_at 8 (part_name @ [0]) (put_at 0 (ident @ [0]) b1);
               b3 = put_at 44 (enc32 kNeFSPartitionTypeStandard) b2;
               b4 = put_at 48 (enc64 kNeFSCatalogStartAddress) b3;
               b5 = put_at 40 (enc32 kNeFSPartitionTypeStandard) b4;
               b6 = put_at 56 (enc64 (sectorCount div 514)) b5;
               b7 = put_at 88 (enc64 sectorCount) b6;
               b8 = put_at 64 (enc64 diskSize) b7
           in Inr (put_at 72 (enc64 (sectorCount div 514)) b8))"

text \<open>The loop that looks for a free partition, by steps of the size in each block.\<close>

fun partition_loop ::
  "nconf \<Rightarrow> nat \<Rightarrow> u8 list \<Rightarrow> u8 list \<Rightarrow> u64 \<Rightarrow> u64 \<Rightarrow> u64 \<Rightarrow> u8 list \<Rightarrow> DriveTrait \<Rightarrow> nefs \<Rightarrow>
   fault + (bool \<times> DriveTrait \<times> nefs)" where
  "partition_loop c 0 ident part_name sectors diskSize start fs_buf t s = Inl OutOfFuel"
| "partition_loop c (Suc fuel) ident part_name sectors diskSize start fs_buf t s =
     (if \<not> fPacketGood (fPacket t) then Inr (False, t, s)
      else if sb_PartitionName (dec_super fs_buf) ! 0 = 0 \<and> sb_Ident (dec_super fs_buf) \<noteq> ident then
        bindF (format_block ident part_name sectors diskSize fs_buf) (\<lambda>b.
        bindF (nefs_output c NeFS.kNeFSRootCatalogStartAddress b t (dsk s)) (\<lambda>(t1, d1).
        bindF (CreateCatalog_kind c kNeFSRoot 0 kNeFSCatalogKindDir (s\<lparr>dsk := d1\<rparr>)) (\<lambda>(r, s1).
          Inr (True, t1, s1))))
      else let start1 = start + sb_DiskSize (dec_super fs_buf) in
        bindF (nefs_input c start1 fs_buf t (dsk s)) (\<lambda>(b, t1, d1).
          partition_loop c fuel ident part_name sectors diskSize start1 b t1 (s\<lparr>dsk := d1\<rparr>)))"

text \<open>\<open>junk\<close> is the table's buffer, which is not initialised.\<close>

definition Format_epm ::
  "nconf \<Rightarrow> u8 list \<Rightarrow> u8 list \<Rightarrow> u64 \<Rightarrow> u64 \<Rightarrow> DriveTrait \<Rightarrow> u64 \<Rightarrow> u32 \<Rightarrow> u8 list \<Rightarrow> nefs \<Rightarrow>
   fault + (bool \<times> DriveTrait \<times> nefs)" where
  "Format_epm c ident junk sectors diskSize drive endLba flags part_name s =
     (if part_name = [] \<or> endLba = 0 then Inr (False, drive, s)
      else bindF (call_drv (fVerify drive) (hw c) (fPacket drive) None (dsk s)) (\<lambda>(v, d0).
        let t = set_mime ''fs/nefs-packet'' drive in
        if \<not> fPacketGood (fPacket t) then Inr (False, t, s\<lparr>dsk := d0, err_global := kErrorDiskIsCorrupted\<rparr>)
        else bindF (nefs_input c NeFS.kNeFSRootCatalogStartAddress (replicate 512 0) t d0) (\<lambda>(fs_buf, t1, d1).
          bindF (if flags AND kNeFSPartitionTypeBoot \<noteq> 0
                 then epm_loop c (nfuel c) epm_entry endLba (of_nat kEPMBootBlockLba) 0 0 junk t1 d1
                 else Inr (t1, d1)) (\<lambda>(t2, d2).
            partition_loop c (nfuel c) ident part_name sectors diskSize NeFS.kNeFSRootCatalogStartAddress fs_buf t2
              (s\<lparr>dsk := d2\<rparr>)))))"

subsection \<open>Lemmas\<close>

lemma format_block_fields:
  assumes "length b = 512" and "length ident = 8" and "length part_name < 32"
  shows "\<exists>b'. format_block ident part_name sectors diskSize b = Inr b' \<and> length b' = 512 \<and>
    sb_Ident (dec_super b') = ident \<and> take (Suc (length part_name)) (sb_PartitionName (dec_super b')) = part_name @ [0] \<and>
    sb_Flags (dec_super b') = kNeFSPartitionTypeStandard \<and> sb_Kind (dec_super b') = kNeFSPartitionTypeStandard \<and>
    sb_StartCatalog (dec_super b') = kNeFSCatalogStartAddress \<and> sb_CatalogCount (dec_super b') = sectors div 514 \<and>
    sb_FreeCatalog (dec_super b') = sectors div 514 \<and> sb_SectorCount (dec_super b') = sectors \<and>
    sb_DiskSize (dec_super b') = diskSize \<and> sb_Version (dec_super b') = kNeFSVersionInteger \<and>
    sb_FreeSectors (dec_super b') = sb_FreeSectors (dec_super b) \<and> sb_SectorSize (dec_super b') = sb_SectorSize (dec_super b)"
proof -
  have "take (Suc n) (slice 8 32 x) = slice 8 (Suc n) x" if "n < 32" for n x
    using that by (simp add: slice_def min_def)
  then have name: "take (Suc (length part_name)) (slice 8 32 x) = slice 8 (Suc (length part_name)) x" for x
    using assms(3) by simp
  define b1 where "b1 = put_at 104 (enc64 kNeFSVersionInteger) b"
  define b2 where "b2 = put_at 0 (ident @ [0]) b1"
  define b3 where "b3 = put_at 8 (part_name @ [0]) b2"
  define b4 where "b4 = put_at 44 (enc32 kNeFSPartitionTypeStandard) b3"
  define b5 where "b5 = put_at 48 (enc64 kNeFSCatalogStartAddress) b4"
  define b6 where "b6 = put_at 40 (enc32 kNeFSPartitionTypeStandard) b5"
  define b7 where "b7 = put_at 56 (enc64 (sectors div 514)) b6"
  define b8 where "b8 = put_at 88 (enc64 sectors) b7"
  define b9 where "b9 = put_at 64 (enc64 diskSize) b8"
  define b' where "b' = put_at 72 (enc64 (sectors div 514)) b9"
  note bs = b1_def b2_def b3_def b4_def b5_def b6_def b7_def b8_def b9_def b'_def
  have len: "length b1 = 512" "length b2 = 512" "length b3 = 512" "length b4 = 512" "length b5 = 512"
    "length b6 = 512" "length b7 = 512" "length b8 = 512" "length b9 = 512" "length b' = 512"
    using assms by (simp_all add: bs)
  have made: "format_block ident part_name sectors diskSize b = Inr b'"
    using assms by (simp add: format_block_def Let_def bs)
  have o1: "slice i n b1 = slice i n b" if "i + n \<le> 104 \<or> 112 \<le> i" "i + n \<le> 512" for i n
    unfolding b1_def by (rule slice_put_other) (use assms len that in \<open>auto simp: length_append\<close>)
  have o2: "slice i n b2 = slice i n b1" if "i + n \<le> 0 \<or> 9 \<le> i" "i + n \<le> 512" for i n
    unfolding b2_def by (rule slice_put_other) (use assms len that in \<open>auto simp: length_append\<close>)
  have o3: "slice i n b3 = slice i n b2" if "i + n \<le> 8 \<or> 9 + length part_name \<le> i" "i + n \<le> 512" for i n
    unfolding b3_def by (rule slice_put_other) (use assms len that in \<open>auto simp: length_append\<close>)
  have o4: "slice i n b4 = slice i n b3" if "i + n \<le> 44 \<or> 48 \<le> i" "i + n \<le> 512" for i n
    unfolding b4_def by (rule slice_put_other) (use assms len that in \<open>auto simp: length_append\<close>)
  have o5: "slice i n b5 = slice i n b4" if "i + n \<le> 48 \<or> 56 \<le> i" "i + n \<le> 512" for i n
    unfolding b5_def by (rule slice_put_other) (use assms len that in \<open>auto simp: length_append\<close>)
  have o6: "slice i n b6 = slice i n b5" if "i + n \<le> 40 \<or> 44 \<le> i" "i + n \<le> 512" for i n
    unfolding b6_def by (rule slice_put_other) (use assms len that in \<open>auto simp: length_append\<close>)
  have o7: "slice i n b7 = slice i n b6" if "i + n \<le> 56 \<or> 64 \<le> i" "i + n \<le> 512" for i n
    unfolding b7_def by (rule slice_put_other) (use assms len that in \<open>auto simp: length_append\<close>)
  have o8: "slice i n b8 = slice i n b7" if "i + n \<le> 88 \<or> 96 \<le> i" "i + n \<le> 512" for i n
    unfolding b8_def by (rule slice_put_other) (use assms len that in \<open>auto simp: length_append\<close>)
  have o9: "slice i n b9 = slice i n b8" if "i + n \<le> 64 \<or> 72 \<le> i" "i + n \<le> 512" for i n
    unfolding b9_def by (rule slice_put_other) (use assms len that in \<open>auto simp: length_append\<close>)
  have o10: "slice i n b' = slice i n b9" if "i + n \<le> 72 \<or> 80 \<le> i" "i + n \<le> 512" for i n
    unfolding b'_def by (rule slice_put_other) (use assms len that in \<open>auto simp: length_append\<close>)
  note other = o1 o2 o3 o4 o5 o6 o7 o8 o9 o10
  have "slice 0 8 b' = ident" "slice 8 (Suc (length part_name)) b' = part_name @ [0]"
    "slice 40 4 b' = enc32 kNeFSPartitionTypeStandard" "slice 44 4 b' = enc32 kNeFSPartitionTypeStandard"
    "slice 48 8 b' = enc64 kNeFSCatalogStartAddress" "slice 56 8 b' = enc64 (sectors div 514)"
    "slice 64 8 b' = enc64 diskSize" "slice 72 8 b' = enc64 (sectors div 514)"
    "slice 80 8 b' = slice 80 8 b" "slice 88 8 b' = enc64 sectors" "slice 96 8 b' = slice 96 8 b"
    "slice 104 8 b' = enc64 kNeFSVersionInteger"
    using assms len by (simp_all add: other) (simp_all add: b1_def b2_def b3_def b4_def b5_def b6_def b7_def b8_def b9_def b'_def slice_put_same)
  then show ?thesis using made len(10) by (simp add: dec_super_def name)
qed

lemma root_has_no_parent: "parent_name kNeFSRoot = Inl OutOfBounds"
  by (simp add: parent_name_def kNeFSRoot_def kNeFSNodeNameLen_def)

text \<open>The root is found already, or its creation leaves an array.\<close>

lemma create_root:
  "CreateCatalog_kind c kNeFSRoot 0 kNeFSCatalogKindDir s =
     bindF (FindCatalog c (Some kNeFSRoot) 0 True False s) (\<lambda>(r, lba, s1).
       if r \<noteq> None then Inr (None, set_err kErrorFileExists s1) else Inl OutOfBounds)"
proof -
  have "kNeFSRoot \<noteq> []" "last kNeFSRoot = kNeFSSeparator" by (simp_all add: kNeFSRoot_def kNeFSSeparator_def)
  then show ?thesis
    by (cases "FindCatalog c (Some kNeFSRoot) 0 True False s") (auto simp: CreateCatalog_kind_def root_has_no_parent)
qed

text \<open>A block that is in use with the size 0 is looked at again and again.\<close>

lemma partition_loop_stuck:
  assumes "main_drive t" and "fPacketGood (fPacket t)" and "length fs_buf = 512"
    and "drv_std_read (hw c) start 512 (dsk s) = fs_buf" and "sb_DiskSize (dec_super fs_buf) = 0"
    and "sb_PartitionName (dec_super fs_buf) ! 0 \<noteq> 0 \<or> sb_Ident (dec_super fs_buf) = ident"
  shows "partition_loop c fuel ident part_name sectors diskSize start fs_buf t s = Inl OutOfFuel"
  using assms
proof (induction fuel arbitrary: t s)
  case (Suc fuel)
  have "nefs_input c start fs_buf t (dsk s) = Inr (fs_buf, set_packet start 512 t, dsk s)"
    using Suc.prems by (simp add: nefs_input_main)
  moreover have "partition_loop c fuel ident part_name sectors diskSize start fs_buf (set_packet start 512 t) s = Inl OutOfFuel"
    using Suc.prems by (intro Suc.IH) (simp_all add: set_packet_def main_drive_def)
  ultimately show ?case using Suc.prems by auto
qed simp

subsection \<open>Properties\<close>



end
