(* ===== verification/Spec2Isabelle.thy ===== *)
theory Spec2Isabelle
  imports
    Prelude Bytes RtUtils KStr Crc32 BitMapMgr HeapMgr HwThreads UserProc ProcSched DriveMgr
    NeFSLayout NeFS NeFSSpec NeFSCreate NeFSForks FileMgr PEFLoad HalPaging AtaPio UserCred NetIPC
    Interrupts Ports DebugOut CpuTables Acpi Timers SyncPrims Smp Pci BootLib BootFormat BootATA
    BootLoad Ahci Containers Json Gfx Installer Startup KernelEntry Devices CxxRuntime NeFSFormat
begin

text \<open>
  A verification development for OpenNE: the kernel (\<^verbatim>\<open>dev/Kernel\<close>) and its boot loader
  (\<^verbatim>\<open>dev/Boot\<close>), in the build for AMD64 with the ATA driver in PIO mode, NeFS as the file
  system and virtual memory. File names below are relative to \<^verbatim>\<open>src/dev/Kernel\<close> unless
  they start with \<^verbatim>\<open>Boot\<close>.

  \<^bold>\<open>The program.\<close> The boot loader runs on the firmware, checks or formats the disk, loads the kernel's
  image and jumps to it with a handover header. The kernel then has: a bitmap of physical regions
  and the page manager over it; a heap of blocks with headers over those; teams of user processes,
  scheduled by a timer interrupt onto hardware threads; mounted drives with function pointers for
  their input and output; the NeFS parser over the main drive and a file manager over the parser; a
  loader of PEF executables that spawns processes; users, IPC messages and IP addresses; and, below
  all of it, the hardware layer: ports, descriptor tables, paging, timers, ACPI, PCI, the ATA
  driver.

  \<^bold>\<open>How the code is translated.\<close> A routine is a function from the state it touches to its result and
  the new state. A run that does not come back with a value (a null pointer, an access outside an
  object, a panic, fuel that is gone) is \<open>Inl\<close> of a \<open>fault\<close> (\<open>Prelude\<close>); error codes and null
  results the code itself returns are values. \<^verbatim>\<open>MUST_PASS\<close> panics in a debug build alone, so
  routines that contain it take the build as an argument \<open>dbg\<close>. Machine integers are words; signed
  overflow wraps. Memory is a function from addresses to bytes; structs are overlaid on it by their
  little-endian encodings where the code reaches them through pointers, and records where it does
  not. Hardware is a parameter: a function from the accesses made so far to the answer (\<open>Ports\<close>),
  or a stream of answers (\<open>AtaPio\<close>), with every write in a log, so that a theorem holds for every
  device that satisfies its hypotheses. What the firmware and the assembly files do is a parameter
  as well. A reference to an object that was freed is taken to hold its last value.

  \<^bold>\<open>Loops.\<close> Loops over counters are recursive functions that terminate. Scans that stop only at a
  byte of memory are partial functions, whose \<open>None\<close> is a scan without end. Loops that follow
  links on a disk or in memory, and loops that poll a device, carry fuel, and each has a lemma
  that enough of it gives the result: a walk of regions needs more fuel than the chain has regions, a
  search of catalogs as much as the list of catalogs is long, a poll of a device that is ready one
  step, the processor table's walk more than its entries.

  \<^bold>\<open>Base.\<close> \<open>Prelude\<close>: faults, the error monad, word lemmas. \<open>Bytes\<close>: encodings, the contracts
  \<open>byte_store\<close> (what a read returns after a write) and \<open>typed_store\<close> (the same for a record of
  fixed length), interpreted on memory here, and on the disk's records in \<open>NeFSLayout\<close>. \<open>Ports\<close>:
  input and output ports as a history.

  \<^bold>\<open>Runtime.\<close> \<open>RtUtils\<close> models \<^verbatim>\<open>src/Utils.cc\<close>: what the memory and string routines do to memory
  (fills count in cells of four bytes, copies store one terminator too many), decimal printing.
  \<open>KStr\<close>: \<^verbatim>\<open>src/KString.cc\<close>. \<open>Crc32\<close>: \<^verbatim>\<open>src/Crc32.cc\<close> against bitwise CRC-32C.
  \<open>CxxRuntime\<close>: \<^verbatim>\<open>src/CxxAbi-AMD64.cc\<close>, the destructors to call at the end.

  \<^bold>\<open>Memory.\<close> \<open>BitMapMgr\<close> models \<^verbatim>\<open>src/BitMapMgr.cc\<close>: the chain of regions stays well formed, the
  first fit is found, and what reuse overlaps. \<open>HeapMgr\<close>: \<^verbatim>\<open>src/Heap.cc\<close>,
  \<^verbatim>\<open>src/PageMgr.cc\<close>, \<^verbatim>\<open>src/Pmm.cc\<close>; blocks over that allocator. \<open>HalPaging\<close>:
  \<^verbatim>\<open>HALKit/AMD64/HalPagingMgrAMD64.cc\<close>.

  \<^bold>\<open>Processes.\<close> \<open>HwThreads\<close>: \<^verbatim>\<open>src/HardwareThreadScheduler.cc\<close>. \<open>UserProc\<close>: one process of
  \<^verbatim>\<open>src/UserProcessScheduler.cc\<close>, its memory lists and its end. \<open>ProcSched\<close>: the scheduler;
  a step relation \<open>sched_step\<close> of every operation that touches it, its reachable states and their
  invariant, and what spawning, removing and a round of scheduling do. \<open>Interrupts\<close>: the handlers
  of \<^verbatim>\<open>HALKit/AMD64/HalCoreInterruptHandlerAMD64.cc\<close> over that state, the system call tables.
  \<open>SyncPrims\<close>: semaphores, lock delegates, atoms, the thread information block. \<open>Smp\<close>: starting
  the other processors from the MADT.

  \<^bold>\<open>Storage.\<close> \<open>DriveMgr\<close>: \<^verbatim>\<open>src/DriveMgr.cc\<close> and \<^verbatim>\<open>src/DriveMgr+IO.cc\<close>; the contract
  \<open>drive_addressing\<close> says when two transfers touch different bytes, interpreted on the addressing of
  the two drivers. \<open>NeFSLayout\<close>: the records of \<^verbatim>\<open>FSKit/OpenNeFS.h\<close>. \<open>NeFS\<close>: the operations
  of \<^verbatim>\<open>src/FS/OpenNeFS.cc\<close> on a disk. \<open>NeFSSpec\<close>: the abstract view, the list of catalogs a
  search sees, and what each operation does to it. \<open>NeFSCreate\<close>: creation on a partition that
  catalogs have only been created on. \<open>NeFSForks\<close>: forks and their data. \<open>NeFSFormat\<close>: formatting,
  which is compiled only with a flag for partition tables that no makefile sets. \<open>FileMgr\<close>:
  \<^verbatim>\<open>src/FileMgr.cc\<close>, with the virtual class as a locale \<open>filesystem_mgr\<close> interpreted on the
  NeFS manager. \<open>PEFLoad\<close>: \<^verbatim>\<open>src/PEFCodeMgr.cc\<close>. \<open>AtaPio\<close>:
  \<^verbatim>\<open>HALKit/AMD64/Storage/ATA.cc\<close> at the level of port accesses. \<open>Ahci\<close>:
  \<^verbatim>\<open>HALKit/AMD64/Storage/SATA.cc\<close>, the structures the controller reads, with the controller as a
  function of the memory and of the number of polls.

  \<^bold>\<open>Users and messages.\<close> \<open>UserCred\<close>: \<^verbatim>\<open>src/User.cc\<close>. \<open>NetIPC\<close>:
  \<^verbatim>\<open>src/Network/IPCMsg.cc\<close> and \<^verbatim>\<open>IPAddr.cc\<close>.

  \<^bold>\<open>Hardware.\<close> \<open>DebugOut\<close>: the serial terminal and the printing of numbers. \<open>CpuTables\<close>: the
  interrupt table, the timer chip, the processor's registers. \<open>Timers\<close>: the software timer and the
  HPET. \<open>Acpi\<close>: the search for tables. \<open>Pci\<close>: configuration space, the search for devices, DMA
  windows. \<open>Devices\<close>: the device classes of \<^verbatim>\<open>src/Storage\<close> and \<^verbatim>\<open>src/Network/NetworkDevice.cc\<close>,
  the swap disk over the file streams, properties and their index, GUIDs, the debugger's port.

  \<^bold>\<open>Screen, containers and start.\<close> \<open>Gfx\<close>: the drawing macros of \<^verbatim>\<open>Mod/CoreGfx\<close> on a frame of
  pixels in memory, the font, texts and pictures; a screen is a function from points to colours, and a
  drawing is a change of it. \<open>Containers\<close> and \<open>Json\<close>: the arrays, pointers and the JSON reader of
  \<^verbatim>\<open>NewKit\<close>, the reader against a parser of texts. \<open>Installer\<close>: \<^verbatim>\<open>src/KernelMain.cc\<close>, the
  folders it makes over the file manager. \<open>KernelEntry\<close>: \<^verbatim>\<open>HALKit/AMD64/HalKernelMain.cc\<close>, which
  establishes the invariant of the scheduler, and the screen of \<^verbatim>\<open>HalKernelPanic.cc\<close>.

  \<^bold>\<open>The boot loader.\<close> \<open>BootLib\<close>: its C functions (\<^verbatim>\<open>Boot/src/BootSupport.cc\<close>), the number parser of
  \<^verbatim>\<open>Boot/BootKit/Support.h\<close>, strings and the text writer. \<open>BootFormat\<close>: the disk formatter of
  \<^verbatim>\<open>Boot/BootKit/BootKit.h\<close> over any device, and that the kernel mounts what it formats.
  \<open>BootATA\<close>: \<^verbatim>\<open>Boot/src/HEL/AMD64/BootATA.cc\<close> on the ports of \<open>AtaPio\<close>. \<open>BootLoad\<close>: the PE loader
  of \<^verbatim>\<open>Boot/src/BootThread.cc\<close> and the file reader of \<^verbatim>\<open>Boot/src/BootFileReader.cc\<close>.
  \<open>Startup\<close>: the entry of \<^verbatim>\<open>Boot/src/HEL/AMD64/EFIBootStartup.cc\<close>, from the firmware's answers, a
  record of parameters, to the jump into the kernel with the handover header.

  \<^bold>\<open>Properties.\<close> The text before each theorem with a claim number states it in words. A theorem
  with hypotheses is followed by an instance of it, which shows that they can hold together. Several
  properties describe what the code does where a comment or a name promises something else; the
  manifest lists these as findings.

  \<^bold>\<open>Not modelled.\<close> Assembly and inline assembly without data flow; records of interfaces that no
  C++ code of the tree uses (most of the firmware's, the NVMe and USB registers); the headers
  of the system call library, which declare only; code that does not compile when it is used (a
  stream's write at an offset, the port arrays of \<^verbatim>\<open>KernelKit/PCI/IO.h\<close>); the HALs of the other
  processors, which are mostly empty; what the compiler's run-time calls for a pure virtual function;
  the tools and frameworks of user land, which only call the C library. Races between processors are
  not modelled: each operation runs to its end, and interleavings are sequences of them.
\<close>

end
